(* ===== verification/Prelude.thy ===== *)
theory Prelude
  imports Complex_Main "HOL-Library.AList" "HOL-Library.Sublist"
begin

text \<open>
  Shared vocabulary of the development: results of fallible code, hash maps, and the
  collections of facts the component proofs feed to the simplifier.

  A Rust \<open>Result<T, E>\<close> is \<open>'e + 't\<close> (\<open>Inl\<close> the error, \<open>Inr\<close> the value) and an \<open>Option<T>\<close>
  is \<open>'t option\<close>. A \<open>HashMap<K, V>\<close> is an association list with distinct keys, read with
  \<open>map_of\<close>, written with \<open>AList.update\<close> and \<open>AList.delete\<close>: the code only ever
  looks keys up, or folds over the entries in a way that does not depend on their order.
\<close>

named_theorems guards \<open>unfolding rules of the boolean guards of the components\<close>
named_theorems preserves \<open>every operation keeps the invariant of its component\<close>

subsection \<open>Results\<close>

type_synonym ('e, 'a) result = "'e + 'a"

definition is_ok :: "('e, 'a) result \<Rightarrow> bool" where
  "is_ok r = (case r of Inl _ \<Rightarrow> False | Inr _ \<Rightarrow> True)"

lemma is_ok_simps [simp]: "is_ok (Inr x)" "\<not> is_ok (Inl e)"
  by (simp_all add: is_ok_def)

lemma is_ok_iff: "is_ok r \<longleftrightarrow> (\<exists>x. r = Inr x)"
  by (cases r) auto

text \<open>\<open>iter().map(f).collect::<Result<Vec<_>, _>>()\<close>: stops at the first error.\<close>

fun collect_results :: "('a \<Rightarrow> ('e, 'b) result) \<Rightarrow> 'a list \<Rightarrow> ('e, 'b list) result" where
  "collect_results f [] = Inr []"
| "collect_results f (x # xs) =
     (case f x of
        Inl e \<Rightarrow> Inl e
      | Inr y \<Rightarrow> (case collect_results f xs of Inl e \<Rightarrow> Inl e | Inr ys \<Rightarrow> Inr (y # ys)))"

lemma collect_results_Inr:
  "collect_results f xs = Inr ys \<longleftrightarrow> list_all2 (\<lambda>x y. f x = Inr y) xs ys"
proof (induction xs arbitrary: ys)
  case Nil
  then show ?case by auto
next
  case (Cons x xs)
  have IH: "list_all2 (\<lambda>x y. f x = Inr y) xs zs \<longleftrightarrow> collect_results f xs = Inr zs" for zs
    using Cons.IH by simp
  show ?case
    by (auto simp: IH list_all2_Cons1 split: sum.splits)
qed

lemma list_all2_right: "list_all2 P xs ys \<Longrightarrow> y \<in> set ys \<Longrightarrow> \<exists>x \<in> set xs. P x y"
  by (induction rule: list_all2_induct) auto

lemma list_all2_left: "list_all2 P xs ys \<Longrightarrow> x \<in> set xs \<Longrightarrow> \<exists>y \<in> set ys. P x y"
  by (induction rule: list_all2_induct) auto

lemma collect_results_length:
  "collect_results f xs = Inr ys \<Longrightarrow> length ys = length xs"
  by (auto simp: collect_results_Inr dest: list_all2_lengthD)

lemma collect_results_Inl:
  "collect_results f xs = Inl e \<Longrightarrow> \<exists>x \<in> set xs. f x = Inl e"
  by (induction xs) (auto split: sum.splits)

subsection \<open>Hash maps\<close>

type_synonym ('k, 'v) hashmap = "('k \<times> 'v) list"

definition hm_ok :: "('k, 'v) hashmap \<Rightarrow> bool" where
  "hm_ok m = distinct (map fst m)"

definition hm_keys :: "('k, 'v) hashmap \<Rightarrow> 'k list" where
  "hm_keys m = map fst m"

definition hm_contains :: "'k \<Rightarrow> ('k, 'v) hashmap \<Rightarrow> bool" where
  "hm_contains k m = (map_of m k \<noteq> None)"

lemma hm_ok_Nil [simp, preserves]: "hm_ok []"
  by (simp add: hm_ok_def)

lemma hm_ok_update [simp, preserves]: "hm_ok m \<Longrightarrow> hm_ok (AList.update k v m)"
  by (simp add: hm_ok_def distinct_update)

lemma hm_ok_delete [simp, preserves]: "hm_ok m \<Longrightarrow> hm_ok (AList.delete k m)"
  by (simp add: hm_ok_def distinct_delete)

lemma hm_contains_iff: "hm_contains k m \<longleftrightarrow> k \<in> fst ` set m"
  by (simp add: hm_contains_def map_of_eq_None_iff)

lemma map_of_update [simp]: "map_of (AList.update k v m) = (map_of m)(k \<mapsto> v)"
  by (rule update_conv')

lemma map_of_delete [simp]: "map_of (AList.delete k m) = (map_of m)(k := None)"
  by (simp add: delete_conv')

lemma length_update_new:
  "map_of m k = None \<Longrightarrow> length (AList.update k v m) = Suc (length m)"
  by (induction m) (auto split: if_splits)

lemma length_update_old:
  "map_of m k \<noteq> None \<Longrightarrow> length (AList.update k v m) = length m"
  by (induction m) (auto split: if_splits)

lemma hm_in_set_iff: "hm_ok m \<Longrightarrow> (k, v) \<in> set m \<longleftrightarrow> map_of m k = Some v"
  by (simp add: hm_ok_def)

text \<open>\<open>map.extend(other)\<close>: the later entries win.\<close>

definition hm_extend :: "('k, 'v) hashmap \<Rightarrow> ('k, 'v) hashmap \<Rightarrow> ('k, 'v) hashmap" where
  "hm_extend m other = fold (\<lambda>(k, v). AList.update k v) other m"

lemma hm_ok_extend [simp, preserves]: "hm_ok m \<Longrightarrow> hm_ok (hm_extend m other)"
  unfolding hm_extend_def
  by (induction other arbitrary: m) auto

lemma map_of_extend:
  "map_of (hm_extend m other) k =
     (case map_of (rev other) k of Some v \<Rightarrow> Some v | None \<Rightarrow> map_of m k)"
  unfolding hm_extend_def
  by (induction other arbitrary: m)
     (auto simp: map_add_def split: option.splits)

subsection \<open>First strict maximum\<close>

text \<open>
  \<open>first_max f xs\<close> is the index-wise first element of \<open>xs\<close> with the greatest \<open>f\<close>: the reference
  for every "most restrictive wins, a tie keeps the earlier one" fold of the program.
\<close>

definition is_first_max :: "('a \<Rightarrow> nat) \<Rightarrow> 'a list \<Rightarrow> 'a \<Rightarrow> bool" where
  "is_first_max f xs x \<longleftrightarrow>
     (\<exists>i < length xs. xs ! i = x \<and> (\<forall>j < length xs. f (xs ! j) \<le> f x) \<and>
        (\<forall>j < i. f (xs ! j) < f x))"

fun keep_max :: "('a \<Rightarrow> nat) \<Rightarrow> 'a \<Rightarrow> 'a list \<Rightarrow> 'a" where
  "keep_max f b [] = b"
| "keep_max f b (x # xs) = keep_max f (if f x > f b then x else b) xs"

lemma is_first_max_snoc:
  assumes "is_first_max f xs b"
  shows "is_first_max f (xs @ [x]) (if f x > f b then x else b)"
proof -
  from assms obtain i where i: "i < length xs" "xs ! i = b"
    "\<And>j. j < length xs \<Longrightarrow> f (xs ! j) \<le> f b" "\<And>j. j < i \<Longrightarrow> f (xs ! j) < f b"
    unfolding is_first_max_def by blast
  show ?thesis
  proof (cases "f x > f b")
    case True
    with i(3) show ?thesis
      unfolding is_first_max_def
      by (intro exI [of _ "length xs"]) (fastforce simp: nth_append intro: le_less_trans less_imp_le)
  next
    case False
    with i show ?thesis
      unfolding is_first_max_def
      by (intro exI [of _ i]) (auto simp: nth_append)
  qed
qed

lemma keep_max_first:
  "is_first_max f xs b \<Longrightarrow> is_first_max f (xs @ ys) (keep_max f b ys)"
proof (induction ys arbitrary: xs b)
  case Nil
  then show ?case by simp
next
  case (Cons y ys)
  from Cons.IH [OF is_first_max_snoc [OF Cons.prems, of y]] show ?case
    by simp
qed

lemma keep_max_Cons: "is_first_max f (x # xs) (keep_max f x xs)"
proof -
  have "is_first_max f [x] x"
    by (auto simp: is_first_max_def)
  from keep_max_first [OF this, of xs] show ?thesis by simp
qed

lemma keep_max_ge: "f b \<le> f (keep_max f b xs)"
  by (induction xs arbitrary: b) (auto intro: order_trans dest: less_imp_le split: if_splits)

lemma keep_max_in: "keep_max f b xs \<in> insert b (set xs)"
proof (induction xs arbitrary: b)
  case Nil
  then show ?case by simp
next
  case (Cons x xs)
  show ?case
    using Cons [of "if f x > f b then x else b"] by (auto split: if_splits)
qed

lemma keep_max_Max: "f (keep_max f b xs) = Max (f ` insert b (set xs))"
proof (induction xs arbitrary: b)
  case Nil
  then show ?case by simp
next
  case (Cons x xs)
  let ?b = "if f x > f b then x else b"
  have "f (keep_max f b (x # xs)) = Max (insert (max (f b) (f x)) (f ` set xs))"
    using Cons [of ?b] by (simp add: max_def)
  also have "\<dots> = Max (f ` insert b (set (x # xs)))"
    by (cases "xs = []") (auto simp: max.assoc)
  finally show ?case .
qed

subsection \<open>Runs of a labelled step relation\<close>

inductive runs :: "('s \<Rightarrow> 'e \<Rightarrow> 's \<Rightarrow> bool) \<Rightarrow> 's \<Rightarrow> 'e list \<Rightarrow> 's \<Rightarrow> bool"
  for step where
  runs_Nil: "runs step s [] s"
| runs_snoc: "runs step s evs s' \<Longrightarrow> step s' e s'' \<Longrightarrow> runs step s (evs @ [e]) s''"

lemma runs_Nil_iff [simp]: "runs step s [] s' \<longleftrightarrow> s' = s"
  by (auto elim: runs.cases intro: runs_Nil)

lemma runs_snoc_iff: "runs step s (evs @ [e]) s'' \<longleftrightarrow> (\<exists>s'. runs step s evs s' \<and> step s' e s'')"
  by (auto elim: runs.cases intro: runs_snoc)

lemma runs_append:
  "runs step s (xs @ ys) s'' \<longleftrightarrow> (\<exists>s'. runs step s xs s' \<and> runs step s' ys s'')"
  by (induction ys arbitrary: s'' rule: rev_induct)
     (auto simp: runs_snoc_iff simp flip: append_assoc)

lemma runs_single [simp]: "runs step s [e] s' \<longleftrightarrow> step s e s'"
  using runs_snoc_iff [of step s "[]" e s'] by simp

lemma runs_Cons_iff: "runs step s (e # es) s'' \<longleftrightarrow> (\<exists>s'. step s e s' \<and> runs step s' es s'')"
  using runs_append [of step s "[e]" es s''] by simp

text \<open>
  The contract of a system with a history: a relation between the events so far and the state,
  true at the start and kept by every step, holds of every run.
\<close>

locale hist_system =
  fixes step :: "'s \<Rightarrow> 'e \<Rightarrow> 's \<Rightarrow> bool" and start :: "'s \<Rightarrow> bool"
    and hist :: "'s \<Rightarrow> 'e list \<Rightarrow> 's \<Rightarrow> bool"
  assumes hist_start: "start s0 \<Longrightarrow> hist s0 [] s0"
    and hist_step: "start s0 \<Longrightarrow> runs step s0 evs s \<Longrightarrow> hist s0 evs s \<Longrightarrow> step s e s'
      \<Longrightarrow> hist s0 (evs @ [e]) s'"
begin

lemma run_hist: "runs step s0 evs s \<Longrightarrow> start s0 \<Longrightarrow> hist s0 evs s"
  by (induction rule: runs.induct) (auto intro: hist_start hist_step)

lemma prefix_hist:
  "runs step s0 (pre @ post) s \<Longrightarrow> start s0 \<Longrightarrow> \<exists>s1. runs step s0 pre s1 \<and> hist s0 pre s1"
  by (auto simp: runs_append intro: run_hist)

end

end
