(* ===== verification/Rust_Str.thy ===== *)
theory Rust_Str
  imports Prelude
begin

text \<open>
  Rust's \<open>str\<close>: a \<open>string\<close> (a list of 8-bit \<open>char\<close>s) holding the UTF-8 bytes, so
  \<open>length\<close> is \<open>str::len\<close> and indices are byte offsets, as in the source. The operations
  of the standard library the program calls are defined here: substring search,
  \<open>split_once\<close>, \<open>split\<close>, \<open>trim\<close>, ASCII case folding, character boundaries, \<open>chars()\<close>
  (as the list of the characters' byte groups) and decimal formatting.
\<close>

subsection \<open>ASCII case folding\<close>

definition ascii_lower :: "char \<Rightarrow> char" where
  "ascii_lower c =
     (let n = (of_char c :: nat) in if 65 \<le> n \<and> n \<le> 90 then char_of (n + 32) else c)"

definition to_ascii_lowercase :: "string \<Rightarrow> string" where
  "to_ascii_lowercase s = map ascii_lower s"

definition eq_ignore_ascii_case :: "string \<Rightarrow> string \<Rightarrow> bool" where
  "eq_ignore_ascii_case s t = (to_ascii_lowercase s = to_ascii_lowercase t)"

lemma ascii_lower_idem [simp]: "ascii_lower (ascii_lower c) = ascii_lower c"
  by (auto simp: ascii_lower_def Let_def of_char_of)

lemma length_to_ascii_lowercase [simp]: "length (to_ascii_lowercase s) = length s"
  by (simp add: to_ascii_lowercase_def)

lemma to_ascii_lowercase_append [simp]:
  "to_ascii_lowercase (s @ t) = to_ascii_lowercase s @ to_ascii_lowercase t"
  by (simp add: to_ascii_lowercase_def)

lemma to_ascii_lowercase_idem [simp]:
  "to_ascii_lowercase (to_ascii_lowercase s) = to_ascii_lowercase s"
  by (simp add: to_ascii_lowercase_def)

lemma eq_ignore_ascii_case_refl [simp]: "eq_ignore_ascii_case s s"
  by (simp add: eq_ignore_ascii_case_def)

lemma eq_ignore_ascii_case_sym: "eq_ignore_ascii_case s t = eq_ignore_ascii_case t s"
  by (auto simp: eq_ignore_ascii_case_def)

lemma eq_ignore_ascii_case_trans:
  "eq_ignore_ascii_case s t \<Longrightarrow> eq_ignore_ascii_case t u \<Longrightarrow> eq_ignore_ascii_case s u"
  by (simp add: eq_ignore_ascii_case_def)

lemma eq_ignore_ascii_case_length: "eq_ignore_ascii_case s t \<Longrightarrow> length s = length t"
  by (metis eq_ignore_ascii_case_def length_to_ascii_lowercase)

subsection \<open>Characters of a UTF-8 string\<close>

definition is_cont :: "char \<Rightarrow> bool" where
  "is_cont c = (let n = (of_char c :: nat) in 128 \<le> n \<and> n < 192)"

text \<open>A character is a byte followed by its continuation bytes.\<close>

function utf8_chars :: "string \<Rightarrow> string list" where
  "utf8_chars [] = []"
| "utf8_chars (c # s) = (c # takeWhile is_cont s) # utf8_chars (dropWhile is_cont s)"
  by pat_completeness auto
termination
  by (relation "measure length") (auto simp: le_imp_less_Suc length_dropWhile_le)

lemma concat_utf8_chars [simp]: "concat (utf8_chars s) = s"
  by (induction s rule: utf8_chars.induct) auto

lemma utf8_chars_nonempty: "ch \<in> set (utf8_chars s) \<Longrightarrow> ch \<noteq> []"
  by (induction s rule: utf8_chars.induct) auto

lemma utf8_chars_ascii: "\<forall>c \<in> set s. \<not> is_cont c \<Longrightarrow> utf8_chars s = map (\<lambda>c. [c]) s"
proof (induction s)
  case Nil
  then show ?case by simp
next
  case (Cons c s)
  have "takeWhile is_cont s = []" "dropWhile is_cont s = s"
    using Cons.prems by (cases s; simp)+
  with Cons show ?case by simp
qed

definition char_count :: "string \<Rightarrow> nat" where
  "char_count s = length (utf8_chars s)"

text \<open>\<open>str::is_char_boundary\<close>.\<close>

definition is_char_boundary :: "string \<Rightarrow> nat \<Rightarrow> bool" where
  "is_char_boundary s i = (i = 0 \<or> i = length s \<or> (i < length s \<and> \<not> is_cont (s ! i)))"

text \<open>\<open>char::is_whitespace\<close>: the 25 code points of Unicode's \<open>White_Space\<close>, in UTF-8.\<close>

definition is_whitespace :: "string \<Rightarrow> bool" where
  "is_whitespace ch =
     (case map (of_char :: char \<Rightarrow> nat) ch of
        [b] \<Rightarrow> (9 \<le> b \<and> b \<le> 13) \<or> b = 32
      | [b1, b2] \<Rightarrow> b1 = 194 \<and> (b2 = 133 \<or> b2 = 160)
      | [b1, b2, b3] \<Rightarrow>
          (b1 = 225 \<and> b2 = 154 \<and> b3 = 128)
          \<or> (b1 = 226 \<and> b2 = 128 \<and> ((128 \<le> b3 \<and> b3 \<le> 138) \<or> b3 = 168 \<or> b3 = 169 \<or> b3 = 175))
          \<or> (b1 = 226 \<and> b2 = 129 \<and> b3 = 159)
          \<or> (b1 = 227 \<and> b2 = 128 \<and> b3 = 128)
      | _ \<Rightarrow> False)"

text \<open>\<open>char::is_control\<close>: the code points of category Cc, in UTF-8.\<close>

definition is_control :: "string \<Rightarrow> bool" where
  "is_control ch =
     (case map (of_char :: char \<Rightarrow> nat) ch of
        [b] \<Rightarrow> b < 32 \<or> b = 127
      | [b1, b2] \<Rightarrow> b1 = 194 \<and> 128 \<le> b2 \<and> b2 \<le> 159
      | _ \<Rightarrow> False)"

definition trim :: "string \<Rightarrow> string" where
  "trim s =
     concat (rev (dropWhile is_whitespace (rev (dropWhile is_whitespace (utf8_chars s)))))"

text \<open>\<open>str::split_whitespace\<close>: the maximal runs of non-white characters.\<close>

fun split_ws_chars :: "string list \<Rightarrow> string \<Rightarrow> string list" where
  "split_ws_chars [] cur = (if cur = [] then [] else [cur])"
| "split_ws_chars (ch # chs) cur =
     (if is_whitespace ch
      then (if cur = [] then split_ws_chars chs [] else cur # split_ws_chars chs [])
      else split_ws_chars chs (cur @ ch))"

definition split_whitespace :: "string \<Rightarrow> string list" where
  "split_whitespace s = split_ws_chars (utf8_chars s) []"

text \<open>
  Well-formed UTF-8, as \<open>String::from_utf8\<close> checks it: the lead byte says which bytes may
  follow.
\<close>

definition utf8_lead :: "nat \<Rightarrow> (nat \<times> nat) list option" where
  "utf8_lead n =
     (let c = (128, 191) in
      if n < 128 then Some []
      else if n < 194 then None
      else if n < 224 then Some [c]
      else if n = 224 then Some [(160, 191), c]
      else if n = 237 then Some [(128, 159), c]
      else if n < 240 then Some [c, c]
      else if n = 240 then Some [(144, 191), c, c]
      else if n < 244 then Some [c, c, c]
      else if n = 244 then Some [(128, 143), c, c]
      else None)"

fun utf8_run :: "(nat \<times> nat) list \<Rightarrow> string \<Rightarrow> bool" where
  "utf8_run [] [] = True"
| "utf8_run (p # ps) [] = False"
| "utf8_run [] (a # s) =
     (case utf8_lead (of_char a) of None \<Rightarrow> False | Some ps \<Rightarrow> utf8_run ps s)"
| "utf8_run ((lo, hi) # ps) (a # s) =
     (lo \<le> (of_char a :: nat) \<and> (of_char a :: nat) \<le> hi \<and> utf8_run ps s)"

definition utf8_valid :: "string \<Rightarrow> bool" where
  "utf8_valid s = utf8_run [] s"

subsection \<open>Substring search\<close>

fun find_sub :: "string \<Rightarrow> string \<Rightarrow> nat option" where
  "find_sub p [] = (if p = [] then Some 0 else None)"
| "find_sub p (c # s) =
     (if prefix p (c # s) then Some 0 else map_option Suc (find_sub p s))"

definition contains_sub :: "string \<Rightarrow> string \<Rightarrow> bool" where
  "contains_sub s p = (find_sub p s \<noteq> None)"

lemma find_sub_Some_iff:
  "find_sub p s = Some i \<longleftrightarrow>
     i \<le> length s \<and> prefix p (drop i s) \<and> (\<forall>j < i. \<not> prefix p (drop j s))"
proof (induction s arbitrary: i)
  case Nil
  then show ?case by (auto simp: prefix_bot.bot_unique)
next
  case (Cons c s)
  show ?case
  proof (cases "prefix p (c # s)")
    case True
    then show ?thesis by (cases i) auto
  next
    case False
    show ?thesis
    proof (cases i)
      case 0
      with False show ?thesis by auto
    next
      case (Suc i')
      have "(\<forall>j < Suc i'. \<not> prefix p (drop j (c # s))) \<longleftrightarrow>
            (\<forall>j < i'. \<not> prefix p (drop j s))"
        using False by (auto simp: All_less_Suc2)
      with False Suc Cons.IH [of i'] show ?thesis by simp
    qed
  qed
qed

lemma find_sub_None_iff: "find_sub p s = None \<longleftrightarrow> (\<forall>i \<le> length s. \<not> prefix p (drop i s))"
proof (induction s)
  case Nil
  then show ?case by (auto simp: prefix_bot.bot_unique)
next
  case (Cons c s)
  have "(\<forall>i \<le> length (c # s). \<not> prefix p (drop i (c # s))) \<longleftrightarrow>
        \<not> prefix p (c # s) \<and> (\<forall>i \<le> length s. \<not> prefix p (drop i s))"
    by (simp add: less_Suc_eq_le [symmetric] All_less_Suc2 del: Cons_prefix_Cons)
  with Cons show ?case by simp
qed

lemma contains_sub_iff: "contains_sub s p \<longleftrightarrow> (\<exists>a b. s = a @ p @ b)"
proof
  assume "contains_sub s p"
  then obtain i where "i \<le> length s" "prefix p (drop i s)"
    by (auto simp: contains_sub_def find_sub_None_iff)
  then show "\<exists>a b. s = a @ p @ b"
    by (metis append_take_drop_id prefix_def)
next
  assume "\<exists>a b. s = a @ p @ b"
  then obtain a b where "s = a @ p @ b" by blast
  then have "prefix p (drop (length a) s)" "length a \<le> length s" by auto
  then show "contains_sub s p"
    by (auto simp: contains_sub_def find_sub_None_iff)
qed

lemma find_sub_append:
  assumes "find_sub p s = Some i"
  shows "s = take i s @ p @ drop (i + length p) s"
proof -
  from assms have "prefix p (drop i s)" by (simp add: find_sub_Some_iff)
  then obtain t where "drop i s = p @ t" by (auto simp: prefix_def)
  then have "t = drop (i + length p) s"
    by (metis append_eq_conv_conj drop_drop add.commute)
  with \<open>drop i s = p @ t\<close> show ?thesis by (metis append_take_drop_id)
qed

lemma find_sub_length: "find_sub p s = Some i \<Longrightarrow> i + length p \<le> length s"
  by (auto simp: find_sub_Some_iff dest: prefix_length_le)

subsection \<open>Splitting\<close>

definition split_once :: "string \<Rightarrow> string \<Rightarrow> (string \<times> string) option" where
  "split_once sep s =
     (case find_sub sep s of
        None \<Rightarrow> None
      | Some i \<Rightarrow> Some (take i s, drop (i + length sep) s))"

lemma split_once_SomeD:
  assumes "split_once sep s = Some (a, b)"
  shows "s = a @ sep @ b" and "sep \<noteq> [] \<Longrightarrow> \<not> contains_sub a sep"
proof -
  from assms obtain i where i: "find_sub sep s = Some i"
    and a: "a = take i s" and b: "b = drop (i + length sep) s"
    by (auto simp: split_once_def split: option.splits)
  from find_sub_append [OF i] a b show s: "s = a @ sep @ b" by simp
  have len: "length a = i"
    using i a by (simp add: find_sub_Some_iff)
  show "\<not> contains_sub a sep" if "sep \<noteq> []"
  proof
    assume "contains_sub a sep"
    then obtain u v where uv: "a = u @ sep @ v" by (auto simp: contains_sub_iff)
    with that len have "length u < i" by (cases sep) auto
    moreover have "prefix sep (drop (length u) s)"
      using s uv by simp
    ultimately show False using i by (auto simp: find_sub_Some_iff)
  qed
qed

lemma split_once_None_iff: "split_once sep s = None \<longleftrightarrow> \<not> contains_sub s sep"
  by (simp add: split_once_def contains_sub_def split: option.split)

text \<open>\<open>str::split\<close> on a character predicate: always at least one piece.\<close>

fun split_by :: "(char \<Rightarrow> bool) \<Rightarrow> string \<Rightarrow> string list" where
  "split_by P [] = [[]]"
| "split_by P (c # s) =
     (if P c then [] # split_by P s
      else (case split_by P s of [] \<Rightarrow> [[c]] | piece # rest \<Rightarrow> (c # piece) # rest))"

lemma split_by_not_Nil [simp]: "split_by P s \<noteq> []"
  by (cases s) (auto split: list.splits)

lemma split_by_pieces: "\<forall>piece \<in> set (split_by P s). \<forall>c \<in> set piece. \<not> P c"
  by (induction s) (auto split: if_splits list.splits)

lemma split_by_no_match: "\<forall>c \<in> set s. \<not> P c \<Longrightarrow> split_by P s = [s]"
  by (induction s) auto

lemma hd_split_by: "hd (split_by P s) = takeWhile (\<lambda>c. \<not> P c) s"
proof (induction s)
  case Nil
  then show ?case by simp
next
  case (Cons c s)
  then show ?case
    using split_by_not_Nil [of P s] by (auto split: list.splits)
qed

subsection \<open>Suffixes, joining and decimal formatting\<close>

definition strip_suffix :: "string \<Rightarrow> string \<Rightarrow> string option" where
  "strip_suffix suf s =
     (if suffix suf s then Some (take (length s - length suf) s) else None)"

lemma strip_suffix_SomeD: "strip_suffix suf s = Some t \<Longrightarrow> s = t @ suf"
  by (auto simp: strip_suffix_def suffix_def split: if_splits)

fun join :: "string \<Rightarrow> string list \<Rightarrow> string" where
  "join sep [] = []"
| "join sep [x] = x"
| "join sep (x # y # xs) = x @ sep @ join sep (y # xs)"

fun dec_nat :: "nat \<Rightarrow> string" where
  "dec_nat n =
     (if n < 10 then [char_of (48 + n)] else dec_nat (n div 10) @ [char_of (48 + n mod 10)])"

declare dec_nat.simps [simp del]

lemma dec_nat_not_Nil [simp]: "dec_nat n \<noteq> []"
  by (subst dec_nat.simps) simp

definition dec_int :: "int \<Rightarrow> string" where
  "dec_int i = (if i < 0 then ''-'' @ dec_nat (nat (- i)) else dec_nat (nat i))"

definition is_ascii_digit :: "char \<Rightarrow> bool" where
  "is_ascii_digit c = (let n = (of_char c :: nat) in 48 \<le> n \<and> n \<le> 57)"

definition digit_val :: "char \<Rightarrow> nat" where
  "digit_val c = of_char c - 48"

lemma digit_val_bound: "is_ascii_digit c \<Longrightarrow> digit_val c \<le> 9"
  unfolding is_ascii_digit_def digit_val_def Let_def by arith

fun digits_val :: "nat \<Rightarrow> string \<Rightarrow> nat" where
  "digits_val acc [] = acc"
| "digits_val acc (c # s) = digits_val (10 * acc + digit_val c) s"

lemma digits_val_snoc: "digits_val acc (s @ [c]) = 10 * digits_val acc s + digit_val c"
  by (induction s arbitrary: acc) auto

lemma dec_nat_digits: "c \<in> set (dec_nat n) \<Longrightarrow> is_ascii_digit c"
proof (induction n rule: dec_nat.induct)
  case (1 n)
  show ?case
  proof (cases "n < 10")
    case True
    with "1.prems" show ?thesis
      by (subst (asm) dec_nat.simps) (auto simp: is_ascii_digit_def of_char_of)
  next
    case False
    with 1 show ?thesis
      by (subst (asm) (2) dec_nat.simps) (auto simp: is_ascii_digit_def of_char_of)
  qed
qed

lemma digits_val_dec_nat: "digits_val 0 (dec_nat n) = n"
proof (induction n rule: dec_nat.induct)
  case (1 n)
  show ?case
  proof (cases "n < 10")
    case True
    then show ?thesis
      by (subst dec_nat.simps) (simp add: digit_val_def of_char_of)
  next
    case False
    with 1 have "digits_val 0 (dec_nat (n div 10)) = n div 10" by simp
    with False show ?thesis
      by (subst dec_nat.simps) (simp add: digits_val_snoc digit_val_def of_char_of)
  qed
qed

lemma dec_nat_inj: "dec_nat m = dec_nat n \<Longrightarrow> m = n"
  by (metis digits_val_dec_nat)

end
