(* ===== verification/Float64.thy ===== *)
theory Float64
  imports Rust_Str "HOL-Library.Log_Nat"
begin

text \<open>
  Rust's \<open>f64\<close> as far as the program uses it: comparison (with NaN, where every comparison
  is false), conversion from integers (round to nearest, ties to even) and
  \<open>str::parse::<f64>\<close>. A finite value is kept as the rational it denotes; \<open>-0.0\<close> and \<open>0.0\<close>
  compare equal and are both \<open>F64_Fin 0\<close>.
\<close>

datatype f64 = F64_NaN | F64_Inf bool | F64_Fin rat

text \<open>IEEE \<open><\<close>; the flag of \<open>F64_Inf\<close> is the sign (\<open>True\<close> for minus infinity).\<close>

fun f64_lt :: "f64 \<Rightarrow> f64 \<Rightarrow> bool" where
  "f64_lt F64_NaN y = False"
| "f64_lt x F64_NaN = False"
| "f64_lt (F64_Inf neg) y = (neg \<and> y \<noteq> F64_Inf True)"
| "f64_lt x (F64_Inf neg) = (\<not> neg)"
| "f64_lt (F64_Fin a) (F64_Fin b) = (a < b)"

definition f64_gt :: "f64 \<Rightarrow> f64 \<Rightarrow> bool" where
  "f64_gt x y = f64_lt y x"

lemma f64_lt_NaN [simp]: "\<not> f64_lt x F64_NaN"
  by (cases x) simp_all

lemma f64_gt_NaN [simp]: "\<not> f64_gt F64_NaN y" "\<not> f64_gt x F64_NaN"
  by (simp_all add: f64_gt_def)

lemma f64_gt_Fin [simp]: "f64_gt (F64_Fin a) (F64_Fin b) = (b < a)"
  by (simp add: f64_gt_def)

lemma f64_lt_trans: "f64_lt x y \<Longrightarrow> f64_lt y z \<Longrightarrow> f64_lt x z"
  by (cases x; cases y; cases z) auto

text \<open>Nearest integer of \<open>n / d\<close>, ties to even.\<close>

definition round_div :: "nat \<Rightarrow> nat \<Rightarrow> nat" where
  "round_div n d =
     (let q = n div d; r = n mod d
      in if 2 * r < d \<or> (2 * r = d \<and> even q) then q else Suc q)"

text \<open>The exponent \<open>e\<close> with \<open>2 ^ e \<le> n / d < 2 ^ (e + 1)\<close>.\<close>

definition ratio_exp :: "nat \<Rightarrow> nat \<Rightarrow> int" where
  "ratio_exp n d =
     (let e = int (floorlog 2 n) - int (floorlog 2 d)
      in if d * 2 ^ nat e \<le> n * 2 ^ nat (- e) then e else e - 1)"

text \<open>53-bit significand, least exponent \<open>-1074\<close>, overflow to infinity at \<open>2 ^ 1024\<close>.\<close>

definition f64_of_ratio :: "bool \<Rightarrow> nat \<Rightarrow> nat \<Rightarrow> f64" where
  "f64_of_ratio neg n d =
     (if n = 0 then F64_Fin 0
      else
        let k = max (ratio_exp n d - 52) (- 1074);
            m = (if 0 \<le> k then round_div n (d * 2 ^ nat k) else round_div (n * 2 ^ nat (- k)) d);
            v = (if 0 \<le> k then of_nat (m * 2 ^ nat k) else of_nat m / 2 ^ nat (- k)) :: rat
        in if 2 ^ 1024 \<le> v then F64_Inf neg else F64_Fin (if neg then - v else v))"

text \<open>\<open>i as f64\<close> for an integer \<open>i\<close>.\<close>

definition f64_of_int :: "int \<Rightarrow> f64" where
  "f64_of_int i = f64_of_ratio (i < 0) (nat \<bar>i\<bar>) 1"

lemma round_div_1 [simp]: "round_div n 1 = n" "round_div n (Suc 0) = n"
  by (simp_all add: round_div_def)

lemma floorlog_1: "floorlog 2 1 = 1" "floorlog 2 (Suc 0) = 1"
  by (code_simp, code_simp)

lemma ratio_exp_1_le:
  assumes "n < 2 ^ 53"
  shows "ratio_exp n 1 \<le> 52"
proof -
  have "floorlog 2 n \<le> 53"
    using assms by (simp add: floorlog_leI)
  then show ?thesis
    by (simp add: ratio_exp_def Let_def floorlog_1)
qed

text \<open>Integers of at most 53 bits convert exactly.\<close>

lemma f64_of_ratio_exact:
  assumes "n < 2 ^ 53"
  shows "f64_of_ratio neg n 1 = F64_Fin (if neg then - of_nat n else of_nat n)"
proof (cases "n = 0")
  case True
  then show ?thesis by (simp add: f64_of_ratio_def)
next
  case False
  define k where "k = max (ratio_exp n 1 - 52) (- 1074)"
  have k: "k \<le> 0"
    using ratio_exp_1_le [OF assms] by (simp add: k_def)
  have v: "(if 0 \<le> k then of_nat ((if 0 \<le> k then round_div n (1 * 2 ^ nat k)
              else round_div (n * 2 ^ nat (- k)) 1) * 2 ^ nat k)
            else of_nat (if 0 \<le> k then round_div n (1 * 2 ^ nat k)
              else round_div (n * 2 ^ nat (- k)) 1) / 2 ^ nat (- k) :: rat) = of_nat n"
    using k by (cases "k = 0") (simp_all add: field_simps)
  have "(of_nat n :: rat) < of_nat (2 ^ 53)"
    using assms by (simp only: of_nat_less_iff)
  also have "\<dots> \<le> 2 ^ 1024"
    by (simp add: power_increasing)
  finally have small: "\<not> (2 ^ 1024 \<le> (of_nat n :: rat))" by simp
  show ?thesis
    unfolding f64_of_ratio_def Let_def
    using False v [unfolded k_def] small by simp
qed

lemma f64_of_int_exact: "\<bar>i\<bar> < 2 ^ 53 \<Longrightarrow> f64_of_int i = F64_Fin (of_int i)"
proof -
  assume "\<bar>i\<bar> < 2 ^ 53"
  then have n: "nat \<bar>i\<bar> < 2 ^ 53" by (simp add: nat_less_iff)
  have "(if i < 0 then - of_nat (nat \<bar>i\<bar>) else of_nat (nat \<bar>i\<bar>)) = (of_int i :: rat)"
    by simp
  with f64_of_ratio_exact [OF n, of "i < 0"] show ?thesis
    unfolding f64_of_int_def by simp
qed

subsection \<open>Parsing\<close>

text \<open>\<open>Exp? ::= (e|E) Sign? Digit+\<close>, to the end of the input.\<close>

definition parse_exp :: "string \<Rightarrow> int option" where
  "parse_exp s =
     (case s of
        [] \<Rightarrow> Some 0
      | c # r \<Rightarrow>
          if ascii_lower c = CHR ''e''
          then (let neg = (case r of d # _ \<Rightarrow> d = CHR ''-'' | [] \<Rightarrow> False);
                    ds = (case r of d # r' \<Rightarrow> if d = CHR ''-'' \<or> d = CHR ''+'' then r' else r
                                  | [] \<Rightarrow> [])
                in if ds \<noteq> [] \<and> list_all is_ascii_digit ds
                   then Some (if neg then - int (digits_val 0 ds) else int (digits_val 0 ds))
                   else None)
          else None)"

text \<open>\<open>Number ::= (Digit+ | Digit+ '.' Digit* | Digit* '.' Digit+) Exp?\<close>.\<close>

definition parse_number :: "bool \<Rightarrow> string \<Rightarrow> f64 option" where
  "parse_number neg s =
     (let ip = takeWhile is_ascii_digit s;
          r = dropWhile is_ascii_digit s;
          dot = (case r of c # _ \<Rightarrow> c = CHR ''.'' | [] \<Rightarrow> False);
          fp = (if dot then takeWhile is_ascii_digit (tl r) else []);
          r' = (if dot then dropWhile is_ascii_digit (tl r) else r)
      in if ip = [] \<and> fp = [] then None
         else (case parse_exp r' of
                 None \<Rightarrow> None
               | Some e \<Rightarrow>
                   let m = digits_val 0 (ip @ fp); x = e - int (length fp)
                   in Some (if 0 \<le> x then f64_of_ratio neg (m * 10 ^ nat x) 1
                            else f64_of_ratio neg m (10 ^ nat (- x)))))"

text \<open>\<open>str::parse::<f64>().ok()\<close>; the words \<open>inf\<close>, \<open>infinity\<close> and \<open>nan\<close> are accepted in any case.\<close>

definition parse_f64 :: "string \<Rightarrow> f64 option" where
  "parse_f64 s =
     (let neg = (case s of c # _ \<Rightarrow> c = CHR ''-'' | [] \<Rightarrow> False);
          body = (case s of c # r \<Rightarrow> if c = CHR ''-'' \<or> c = CHR ''+'' then r else s | [] \<Rightarrow> []);
          word = to_ascii_lowercase body
      in if word = ''inf'' \<or> word = ''infinity'' then Some (F64_Inf neg)
         else if word = ''nan'' then Some F64_NaN
         else parse_number neg body)"

end
