(* ===== verification/Core.thy ===== *)
theory Core
  imports Json
begin

text \<open>
  The crate \<open>guardian-core\<close>: the canonical action model every adapter normalizes into and
  the decision type of the policy engine, with the fold step \<open>most_restrictive\<close> and its laws.
\<close>

subsection \<open>Actions\<close>

datatype action_kind =
    K_FileRead | K_FileWrite | K_Exec | K_HttpRequest | K_Email | K_Payment | K_Delete | K_Other

datatype capability =
    Cap_Payment | Cap_Credential | Cap_Exfiltration | Cap_IrreversibleDelete
  | Cap_Messaging | Cap_Filesystem | Cap_Network | Cap_Other

fun capability_is_critical :: "capability \<Rightarrow> bool" where
  "capability_is_critical Cap_Payment = True"
| "capability_is_critical Cap_Credential = True"
| "capability_is_critical Cap_Exfiltration = True"
| "capability_is_critical Cap_IrreversibleDelete = True"
| "capability_is_critical _ = False"

record action_context =
  ctx_timestamp_ms :: int
  ctx_source :: string
  ctx_session :: "string option"
  ctx_host :: "string option"
  ctx_principal :: "string option"
  ctx_path :: "string option"
  ctx_extra :: "(string \<times> json) list"

record action =
  act_id :: string
  act_kind :: action_kind
  act_tool :: string
  act_args :: json
  act_capability :: "capability option"
  act_context :: action_context

definition action_is_critical :: "action \<Rightarrow> bool" where
  "action_is_critical a =
     (case act_capability a of Some c \<Rightarrow> capability_is_critical c | None \<Rightarrow> False)"

text \<open>The variant names are the wire form (\<open>Serialize\<close>) and the \<open>Debug\<close> form.\<close>

fun kind_name :: "action_kind \<Rightarrow> string" where
  "kind_name K_FileRead = ''FileRead''"
| "kind_name K_FileWrite = ''FileWrite''"
| "kind_name K_Exec = ''Exec''"
| "kind_name K_HttpRequest = ''HttpRequest''"
| "kind_name K_Email = ''Email''"
| "kind_name K_Payment = ''Payment''"
| "kind_name K_Delete = ''Delete''"
| "kind_name K_Other = ''Other''"

fun capability_name :: "capability \<Rightarrow> string" where
  "capability_name Cap_Payment = ''Payment''"
| "capability_name Cap_Credential = ''Credential''"
| "capability_name Cap_Exfiltration = ''Exfiltration''"
| "capability_name Cap_IrreversibleDelete = ''IrreversibleDelete''"
| "capability_name Cap_Messaging = ''Messaging''"
| "capability_name Cap_Filesystem = ''Filesystem''"
| "capability_name Cap_Network = ''Network''"
| "capability_name Cap_Other = ''Other''"

lemma kind_name_inj: "kind_name k = kind_name k' \<Longrightarrow> k = k'"
  by (cases k; cases k'; simp)

lemma capability_name_inj: "capability_name c = capability_name c' \<Longrightarrow> c = c'"
  by (cases c; cases c'; simp)

text \<open>\<open>serde_json::to_value\<close> on an action, with its \<open>skip_serializing_if\<close> attributes.\<close>

definition opt_field :: "string \<Rightarrow> string option \<Rightarrow> (string \<times> json) list" where
  "opt_field k v = (case v of None \<Rightarrow> [] | Some s \<Rightarrow> [(k, JStr s)])"

definition context_to_json :: "action_context \<Rightarrow> json" where
  "context_to_json c = jobj
     ([(''timestamp_ms'', JInt (ctx_timestamp_ms c)), (''source'', JStr (ctx_source c))]
      @ opt_field ''session'' (ctx_session c)
      @ opt_field ''host'' (ctx_host c)
      @ opt_field ''principal'' (ctx_principal c)
      @ opt_field ''path'' (ctx_path c)
      @ [(''extra'', JObj (ctx_extra c))])"

definition action_to_json :: "action \<Rightarrow> json" where
  "action_to_json a = jobj
     ([(''id'', JStr (act_id a)), (''kind'', JStr (kind_name (act_kind a))),
       (''tool'', JStr (act_tool a)), (''args'', act_args a)]
      @ opt_field ''capability'' (map_option capability_name (act_capability a))
      @ [(''context'', context_to_json (act_context a))])"

lemma action_to_json_fields:
  "jget ''kind'' (action_to_json a) = Some (JStr (kind_name (act_kind a)))"
  "jget ''args'' (action_to_json a) = Some (act_args a)"
  "jget ''capability'' (action_to_json a) =
     map_option (\<lambda>c. JStr (capability_name c)) (act_capability a)"
  "jget ''context'' (action_to_json a) = Some (context_to_json (act_context a))"
  by (simp_all add: action_to_json_def jget_jobj opt_field_def split: option.split)

subsection \<open>Decisions\<close>

datatype decision = Allow | Ask string | Deny string

fun restrictiveness :: "decision \<Rightarrow> nat" where
  "restrictiveness Allow = 0"
| "restrictiveness (Ask _) = 1"
| "restrictiveness (Deny _) = 2"

definition is_allow :: "decision \<Rightarrow> bool" where
  "is_allow d = (d = Allow)"

definition most_restrictive :: "decision \<Rightarrow> decision \<Rightarrow> decision" where
  "most_restrictive d other =
     (if restrictiveness other > restrictiveness d then other else d)"

lemma restrictiveness_0_iff [simp]: "restrictiveness d = 0 \<longleftrightarrow> d = Allow"
  by (cases d) auto

lemma restrictiveness_pos_iff [simp]: "0 < restrictiveness d \<longleftrightarrow> d \<noteq> Allow"
  by (cases d) auto

lemma restrictiveness_le_2: "restrictiveness d \<le> 2"
  by (cases d) auto

subsection \<open>Strictest-wins combination\<close>

text \<open>
  The contract of a "keep the stricter one, the earlier on a tie" combinator, with its
  laws derived once: a fold of it is the first element of greatest rank.
\<close>

locale strictest_wins =
  fixes rank :: "'d \<Rightarrow> nat"
    and combine :: "'d \<Rightarrow> 'd \<Rightarrow> 'd"
  assumes combine_rank: "rank (combine a b) = max (rank a) (rank b)"
    and combine_left: "rank b \<le> rank a \<Longrightarrow> combine a b = a"
    and combine_right: "rank a < rank b \<Longrightarrow> combine a b = b"
begin

lemma combine_idem [simp]: "combine a a = a"
  by (simp add: combine_left)

lemma combine_assoc: "combine (combine a b) c = combine a (combine b c)"
  by (cases "rank a < rank b"; cases "rank b < rank c"; cases "rank a < rank c")
     (simp_all add: combine_left combine_right)

lemma combine_keep_max: "fold (\<lambda>x acc. combine acc x) xs a = keep_max rank a xs"
proof (induction xs arbitrary: a)
  case Nil
  then show ?case by simp
next
  case (Cons x xs)
  then show ?case
    by (cases "rank a < rank x") (simp_all add: combine_right combine_left)
qed

lemma combine_fold_rank: "rank (fold (\<lambda>x acc. combine acc x) xs a) = Max (rank ` insert a (set xs))"
  by (simp only: combine_keep_max keep_max_Max)

lemma combine_fold_first:
  "is_first_max rank (a # xs) (fold (\<lambda>x acc. combine acc x) xs a)"
  by (simp only: combine_keep_max keep_max_Cons)

end

interpretation dec: strictest_wins restrictiveness most_restrictive
  by unfold_locales (auto simp: most_restrictive_def)

end
