(* ===== verification/Schema.thy ===== *)
theory Schema
  imports Core
begin

text \<open>
  \<open>guardian-policy/src/schema.rs\<close>: the policy file as data and its structural validation.
  Reading the TOML text is the parameter \<open>toml\<close> of \<open>policy_from_toml_str\<close>, which returns the policy
  or a message; \<open>Policy_Toml\<close> defines it from the attributes of the schema (\<open>read_policy\<close>) over the
  third-party parser.
\<close>

datatype decision_kind = DK_Allow | DK_Ask | DK_Deny

text \<open>
  The severity order \<open>allow < ask < deny\<close>, so that \<open>Max\<close> and \<open>sorted\<close> of the library speak
  about decisions.
\<close>

fun severity :: "decision_kind \<Rightarrow> nat" where
  "severity DK_Allow = 0"
| "severity DK_Ask = 1"
| "severity DK_Deny = 2"

lemma severity_inj: "severity k = severity k' \<Longrightarrow> k = k'"
  by (cases k; cases k'; simp)

instantiation decision_kind :: linorder
begin

definition less_eq_decision_kind :: "decision_kind \<Rightarrow> decision_kind \<Rightarrow> bool" where
  "less_eq_decision_kind k k' = (severity k \<le> severity k')"

definition less_decision_kind :: "decision_kind \<Rightarrow> decision_kind \<Rightarrow> bool" where
  "less_decision_kind k k' = (severity k < severity k')"

instance
  by standard
    (auto simp: less_eq_decision_kind_def less_decision_kind_def intro: severity_inj)

end

fun kind_of_decision :: "decision \<Rightarrow> decision_kind" where
  "kind_of_decision Allow = DK_Allow"
| "kind_of_decision (Ask _) = DK_Ask"
| "kind_of_decision (Deny _) = DK_Deny"

lemma severity_kind_of_decision [simp]: "severity (kind_of_decision d) = restrictiveness d"
  by (cases d) auto

lemma kind_of_decision_le_iff:
  "kind_of_decision d \<le> kind_of_decision d' \<longleftrightarrow> restrictiveness d \<le> restrictiveness d'"
  by (simp add: less_eq_decision_kind_def)

lemma kind_of_decision_eq_iff:
  "kind_of_decision d = kind_of_decision d' \<longleftrightarrow> restrictiveness d = restrictiveness d'"
  by (cases d; cases d') auto

lemma kind_of_decision_Allow_iff [simp]: "kind_of_decision d = DK_Allow \<longleftrightarrow> d = Allow"
  by (cases d) auto

subsection \<open>Policies\<close>

record cap =
  cap_amount_max :: "f64 option"
  cap_currency :: "string option"
  cap_count_max :: "int option"

record rule =
  rule_id :: string
  rule_when :: string
  rule_decision :: decision_kind
  rule_explain :: "string option"
  rule_critical :: bool
  rule_sandbox :: bool
  rule_cap :: "cap option"
  rule_tags :: "string list"

text \<open>\<open>meta\<close> is informational and never read; it is kept as its source text.\<close>

record policy =
  pol_version :: nat
  pol_role :: string
  pol_default :: decision_kind
  pol_meta :: "string option"
  pol_tools :: "(string, action_kind) hashmap"
  pol_rules :: "rule list"

datatype policy_error =
    PE_Toml string
  | PE_UnsupportedVersion nat
  | PE_PermissiveDefault
  | PE_DuplicateRuleId string
  | PE_InvalidWhen string string

fun check_rule_ids :: "string list \<Rightarrow> rule list \<Rightarrow> (policy_error, unit) result" where
  "check_rule_ids seen [] = Inr ()"
| "check_rule_ids seen (r # rs) =
     (if rule_id r \<in> set seen then Inl (PE_DuplicateRuleId (rule_id r))
      else check_rule_ids (rule_id r # seen) rs)"

definition validate_structure :: "policy \<Rightarrow> (policy_error, unit) result" where
  "validate_structure p =
     (if pol_version p \<noteq> 1 then Inl (PE_UnsupportedVersion (pol_version p))
      else if pol_default p = DK_Allow then Inl PE_PermissiveDefault
      else check_rule_ids [] (pol_rules p))"

definition policy_from_toml_str ::
    "(string \<Rightarrow> (string, policy) result) \<Rightarrow> string \<Rightarrow> (policy_error, policy) result" where
  "policy_from_toml_str toml s =
     (case toml s of
        Inl e \<Rightarrow> Inl (PE_Toml e)
      | Inr p \<Rightarrow> (case validate_structure p of Inl e \<Rightarrow> Inl e | Inr _ \<Rightarrow> Inr p))"

text \<open>What a loaded policy is known to satisfy.\<close>

definition policy_wf :: "policy \<Rightarrow> bool" where
  "policy_wf p \<longleftrightarrow>
     pol_version p = 1 \<and> pol_default p \<noteq> DK_Allow \<and> distinct (map rule_id (pol_rules p))"

lemma check_rule_ids_Inr:
  "check_rule_ids seen rs = Inr () \<longleftrightarrow>
     distinct (map rule_id rs) \<and> set seen \<inter> rule_id ` set rs = {}"
  by (induction rs arbitrary: seen) auto

lemma check_rule_ids_Inl:
  "check_rule_ids seen rs = Inl e \<Longrightarrow>
     \<exists>r \<in> set rs. e = PE_DuplicateRuleId (rule_id r)"
  by (induction rs arbitrary: seen) (auto split: if_splits)

lemma validate_structure_ok: "validate_structure p = Inr () \<longleftrightarrow> policy_wf p"
  by (simp add: validate_structure_def policy_wf_def check_rule_ids_Inr)

lemma policy_from_toml_str_wf:
  "policy_from_toml_str toml s = Inr p \<Longrightarrow> toml s = Inr p \<and> policy_wf p"
  by (auto simp: policy_from_toml_str_def validate_structure_ok [symmetric] split: sum.splits)

end
