(* ===== verification/Engine.thy ===== *)
theory Engine
  imports Schema "HOL-Library.Multiset"
begin

text \<open>
  \<open>guardian-policy/src/engine.rs\<close>: compiling a policy and evaluating an action, the
  deterministic security boundary. The CEL interpreter is third-party code. It enters as two
  parameters, its compiler and its evaluator of a compiled condition in a context; of its
  value type only the booleans are distinguished, as the code does.
\<close>

subsection \<open>The interpreter's interface and the evaluation context\<close>

datatype cel_value = Cel_Bool bool | Cel_Value json

record eval_env =
  env_user_home :: string
  env_trusted_hosts :: "string list"

record cel_ctx =
  cel_action :: json
  cel_user :: json
  cel_trusted_hosts :: "string list"
  cel_now :: int

type_synonym 'prog cel_exec = "'prog \<Rightarrow> cel_ctx \<Rightarrow> (string, cel_value) result"

record eval_outcome =
  out_decision :: decision
  out_matched_rule :: "string option"
  out_sandbox :: bool
  out_critical :: bool

record 'prog compiled_policy =
  cp_policy :: policy
  cp_programs :: "'prog list"

definition compile ::
    "(string \<Rightarrow> (string, 'prog) result) \<Rightarrow> policy \<Rightarrow> (policy_error, 'prog compiled_policy) result"
where
  "compile cel_compile p =
     (case collect_results
             (\<lambda>r. case cel_compile (rule_when r) of
                    Inl msg \<Rightarrow> Inl (PE_InvalidWhen (rule_id r) msg)
                  | Inr prog \<Rightarrow> Inr prog) (pol_rules p) of
        Inl e \<Rightarrow> Inl e
      | Inr progs \<Rightarrow> Inr \<lparr>cp_policy = p, cp_programs = progs\<rparr>)"

definition compiled_from_toml_str ::
    "(string \<Rightarrow> (string, policy) result) \<Rightarrow> (string \<Rightarrow> (string, 'prog) result) \<Rightarrow> string
       \<Rightarrow> (policy_error, 'prog compiled_policy) result" where
  "compiled_from_toml_str toml cel_compile s =
     (case policy_from_toml_str toml s of Inl e \<Rightarrow> Inl e | Inr p \<Rightarrow> compile cel_compile p)"

definition build_context :: "action \<Rightarrow> eval_env \<Rightarrow> cel_ctx" where
  "build_context a env =
     \<lparr>cel_action = action_to_json a,
      cel_user = jobj [(''home'', JStr (env_user_home env))],
      cel_trusted_hosts = env_trusted_hosts env,
      cel_now = ctx_timestamp_ms (act_context a)\<rparr>"

text \<open>Only \<open>Ok(Value::Bool(true))\<close> is a match; an error or any other value is not.\<close>

definition rule_matches :: "'prog cel_exec \<Rightarrow> 'prog \<Rightarrow> cel_ctx \<Rightarrow> bool" where
  "rule_matches exec prog ctx = (exec prog ctx = Inr (Cel_Bool True))"

subsection \<open>Caps\<close>

definition decision_from_kind :: "decision_kind \<Rightarrow> string option \<Rightarrow> decision" where
  "decision_from_kind k explain =
     (case k of
        DK_Allow \<Rightarrow> Allow
      | DK_Ask \<Rightarrow> Ask (case explain of Some e \<Rightarrow> e | None \<Rightarrow> ''This action needs your review.'')
      | DK_Deny \<Rightarrow> Deny (case explain of Some e \<Rightarrow> e | None \<Rightarrow> ''This action is blocked by policy.''))"

definition arg_number :: "action \<Rightarrow> string \<Rightarrow> f64 option" where
  "arg_number a key =
     (case jget key (act_args a) of
        None \<Rightarrow> None
      | Some v \<Rightarrow> (case as_f64 v of
                     Some x \<Rightarrow> Some x
                   | None \<Rightarrow> Option.bind (as_str v) parse_f64))"

text \<open>One numeric limit: exceeded, or not verifiable.\<close>

definition limit_violated :: "f64 option \<Rightarrow> f64 option \<Rightarrow> bool" where
  "limit_violated limit got =
     (case limit of
        None \<Rightarrow> False
      | Some mx \<Rightarrow> (case got of Some x \<Rightarrow> f64_gt x mx | None \<Rightarrow> True))"

definition cap_violated :: "cap \<Rightarrow> action \<Rightarrow> bool" where
  "cap_violated c a =
     (if limit_violated (cap_amount_max c) (arg_number a ''amount'') then True
      else if limit_violated (map_option f64_of_int (cap_count_max c)) (arg_number a ''count'')
      then True
      else (case cap_currency c of
              None \<Rightarrow> False
            | Some want \<Rightarrow>
                (case jget_str ''currency'' (act_args a) of
                   Some got \<Rightarrow> \<not> eq_ignore_ascii_case got want
                 | None \<Rightarrow> True)))"

definition apply_cap :: "rule \<Rightarrow> action \<Rightarrow> decision \<Rightarrow> decision" where
  "apply_cap r a d =
     (case rule_cap r of
        Some c \<Rightarrow>
          if cap_violated c a
          then most_restrictive d
                 (Ask (''Exceeds the limit configured for `'' @ rule_id r @ ''`.''))
          else d
      | None \<Rightarrow> d)"

subsection \<open>Evaluation\<close>

text \<open>\<open>decision_from_kind(rule.decision, rule.explain)\<close> with the cap applied.\<close>

definition rule_verdict :: "action \<Rightarrow> rule \<Rightarrow> decision" where
  "rule_verdict a r = apply_cap r a (decision_from_kind (rule_decision r) (rule_explain r))"

definition rule_step :: "action \<Rightarrow> rule \<Rightarrow> bool \<times> eval_outcome \<Rightarrow> bool \<times> eval_outcome" where
  "rule_step a r st =
     (let (matched_any, o1) = st;
          o2 = o1\<lparr>out_sandbox := out_sandbox o1 \<or> rule_sandbox r,
                  out_critical := out_critical o1 \<or> rule_critical r\<rparr>;
          d = rule_verdict a r
      in if \<not> matched_any
         then (True, o2\<lparr>out_decision := d, out_matched_rule := Some (rule_id r)\<rparr>)
         else (let combined = most_restrictive (out_decision o2) d
               in if combined \<noteq> out_decision o2
                  then (True, o2\<lparr>out_decision := combined, out_matched_rule := Some (rule_id r)\<rparr>)
                  else (True, o2)))"

fun eval_rules ::
    "'prog cel_exec \<Rightarrow> action \<Rightarrow> cel_ctx \<Rightarrow> (rule \<times> 'prog) list \<Rightarrow> bool \<times> eval_outcome
       \<Rightarrow> bool \<times> eval_outcome" where
  "eval_rules exec a ctx [] st = st"
| "eval_rules exec a ctx ((r, prog) # rps) st =
     (if \<not> rule_matches exec prog ctx then eval_rules exec a ctx rps st
      else eval_rules exec a ctx rps (rule_step a r st))"

text \<open>The floor's reason; the three bytes are the UTF-8 form of the em dash of the source.\<close>

definition floor_reason :: string where
  "floor_reason =
     ''Critical category (money, credentials, data exfiltration, ''
     @ ''or irreversible deletion) '' @ [CHR 0xE2, CHR 0x80, CHR 0x94] @ '' always reviewed.''"

definition critical_floor :: "action \<Rightarrow> eval_outcome \<Rightarrow> eval_outcome" where
  "critical_floor a out =
     (if action_is_critical a
      then (let o' = out\<lparr>out_critical := True\<rparr>
            in if out_decision o' = Allow
               then o'\<lparr>out_decision := Ask floor_reason,
                       out_matched_rule := Some ''critical-category-floor''\<rparr>
               else o')
      else out)"

definition initial_outcome :: "policy \<Rightarrow> eval_outcome" where
  "initial_outcome p =
     \<lparr>out_decision = decision_from_kind (pol_default p) None, out_matched_rule = None,
      out_sandbox = False, out_critical = False\<rparr>"

definition evaluate ::
    "'prog cel_exec \<Rightarrow> 'prog compiled_policy \<Rightarrow> action \<Rightarrow> eval_env \<Rightarrow> eval_outcome" where
  "evaluate exec cp a env =
     critical_floor a
       (snd (eval_rules exec a (build_context a env)
               (zip (pol_rules (cp_policy cp)) (cp_programs cp))
               (False, initial_outcome (cp_policy cp))))"

subsection \<open>Compilation\<close>

text \<open>A compiled policy: validated, with one program per rule.\<close>

definition compiled_wf :: "'prog compiled_policy \<Rightarrow> bool" where
  "compiled_wf cp \<longleftrightarrow>
     policy_wf (cp_policy cp) \<and> length (cp_programs cp) = length (pol_rules (cp_policy cp))"

lemma compile_programs:
  assumes "compile cel_compile p = Inr cp"
  shows "cp_policy cp = p"
    and "list_all2 (\<lambda>r prog. cel_compile (rule_when r) = Inr prog) (pol_rules p) (cp_programs cp)"
proof -
  from assms obtain progs where
    c: "collect_results
          (\<lambda>r. case cel_compile (rule_when r) of
                 Inl msg \<Rightarrow> Inl (PE_InvalidWhen (rule_id r) msg)
               | Inr prog \<Rightarrow> Inr prog) (pol_rules p) = Inr progs"
    and cp: "cp = \<lparr>cp_policy = p, cp_programs = progs\<rparr>"
    by (auto simp: compile_def split: sum.splits)
  from cp show "cp_policy cp = p" by simp
  from c cp show "list_all2 (\<lambda>r prog. cel_compile (rule_when r) = Inr prog)
      (pol_rules p) (cp_programs cp)"
    by (auto simp: collect_results_Inr elim!: list_all2_mono split: sum.splits)
qed

lemma compiled_from_toml_str_Inr:
  assumes "compiled_from_toml_str toml cel_compile s = Inr cp"
  shows "compiled_wf cp" and "toml s = Inr (cp_policy cp)"
    and "list_all2 (\<lambda>r prog. cel_compile (rule_when r) = Inr prog)
           (pol_rules (cp_policy cp)) (cp_programs cp)"
proof -
  from assms obtain p where p: "policy_from_toml_str toml s = Inr p"
    and c: "compile cel_compile p = Inr cp"
    by (auto simp: compiled_from_toml_str_def split: sum.splits)
  note progs = compile_programs [OF c] and wf = policy_from_toml_str_wf [OF p]
  from progs wf show "toml s = Inr (cp_policy cp)" by simp
  from progs show l: "list_all2 (\<lambda>r prog. cel_compile (rule_when r) = Inr prog)
      (pol_rules (cp_policy cp)) (cp_programs cp)" by simp
  from l progs(1) wf show "compiled_wf cp"
    by (simp add: compiled_wf_def list_all2_lengthD)
qed

end
