(* ===== verification/Engine_Laws.thy ===== *)
theory Engine_Laws
  imports Engine
begin

text \<open>
  What the evaluator of \<open>Engine\<close> guarantees: the rule loop is the first strictest matching
  rule (the abstract specification \<open>evaluate_spec\<close>), the critical-category floor, when a
  silent \<open>allow\<close> is possible at all, independence of the rule order, and what a cap stops.
\<close>

subsection \<open>The rule loop as a choice among the matching rules\<close>

definition matched_rules ::
    "'prog cel_exec \<Rightarrow> 'prog compiled_policy \<Rightarrow> action \<Rightarrow> eval_env \<Rightarrow> rule list" where
  "matched_rules exec cp a env =
     map fst (filter (\<lambda>(r, prog). rule_matches exec prog (build_context a env))
                (zip (pol_rules (cp_policy cp)) (cp_programs cp)))"

abbreviation verdict_rank :: "action \<Rightarrow> rule \<Rightarrow> nat" where
  "verdict_rank a r \<equiv> restrictiveness (rule_verdict a r)"

text \<open>The outcome the loop must produce when \<open>w\<close> wins among the matching rules \<open>rs\<close>.\<close>

definition outcome_of :: "action \<Rightarrow> rule list \<Rightarrow> rule \<Rightarrow> eval_outcome" where
  "outcome_of a rs w =
     \<lparr>out_decision = rule_verdict a w, out_matched_rule = Some (rule_id w),
      out_sandbox = list_ex rule_sandbox rs, out_critical = list_ex rule_critical rs\<rparr>"

definition evaluate_spec :: "policy \<Rightarrow> action \<Rightarrow> rule list \<Rightarrow> eval_outcome" where
  "evaluate_spec p a rs =
     (case rs of
        [] \<Rightarrow> initial_outcome p
      | r # rs' \<Rightarrow> outcome_of a rs (keep_max (verdict_rank a) r rs'))"

lemma eval_rules_fold:
  "eval_rules exec a ctx rps st =
     fold (rule_step a) (map fst (filter (\<lambda>(r, prog). rule_matches exec prog ctx) rps)) st"
  by (induction exec a ctx rps st rule: eval_rules.induct) auto

lemma rule_step_first:
  "rule_step a r (False, initial_outcome p) = (True, outcome_of a [r] r)"
  by (simp add: rule_step_def outcome_of_def initial_outcome_def)

lemma rule_step_next:
  "rule_step a r (True, outcome_of a rs w) =
     (True, outcome_of a (rs @ [r]) (if verdict_rank a r > verdict_rank a w then r else w))"
  by (auto simp: rule_step_def outcome_of_def Let_def most_restrictive_def)

lemma fold_rule_step:
  "fold (rule_step a) rs' (True, outcome_of a rs w) =
     (True, outcome_of a (rs @ rs') (keep_max (verdict_rank a) w rs'))"
  by (induction rs' arbitrary: rs w) (simp_all add: rule_step_next)

lemma evaluate_refines_spec:
  "evaluate exec cp a env =
     critical_floor a (evaluate_spec (cp_policy cp) a (matched_rules exec cp a env))"
proof (cases "matched_rules exec cp a env")
  case Nil
  then show ?thesis
    by (simp add: evaluate_def eval_rules_fold evaluate_spec_def matched_rules_def)
next
  case (Cons r rs)
  then show ?thesis
    using fold_rule_step [of a rs "[r]" r]
    by (simp add: evaluate_def eval_rules_fold evaluate_spec_def matched_rules_def
          rule_step_first)
qed

subsection \<open>The floor\<close>

lemma critical_floor_noncritical: "\<not> action_is_critical a \<Longrightarrow> critical_floor a out = out"
  by (simp add: critical_floor_def)

lemma critical_floor_critical:
  "action_is_critical a \<Longrightarrow>
     out_critical (critical_floor a out) \<and> out_decision (critical_floor a out) \<noteq> Allow"
  by (simp add: critical_floor_def Let_def)

lemma critical_floor_rank:
  "restrictiveness (out_decision out) \<le> restrictiveness (out_decision (critical_floor a out))"
  by (simp add: critical_floor_def Let_def)

lemma critical_floor_decision:
  "out_decision (critical_floor a out) =
     (if action_is_critical a \<and> out_decision out = Allow then Ask floor_reason
      else out_decision out)"
  by (simp add: critical_floor_def Let_def)

lemma critical_floor_rank_cong:
  assumes "restrictiveness (out_decision out) = restrictiveness (out_decision out')"
  shows "restrictiveness (out_decision (critical_floor a out)) =
           restrictiveness (out_decision (critical_floor a out'))"
proof -
  have "out_decision out = Allow \<longleftrightarrow> out_decision out' = Allow"
    using assms by (metis restrictiveness_0_iff)
  with assms show ?thesis by (simp add: critical_floor_decision)
qed

lemma critical_floor_sandbox [simp]: "out_sandbox (critical_floor a out) = out_sandbox out"
  by (simp add: critical_floor_def Let_def)

lemma critical_floor_flag [simp]:
  "out_critical (critical_floor a out) \<longleftrightarrow> action_is_critical a \<or> out_critical out"
  by (simp add: critical_floor_def Let_def)

subsection \<open>Verdicts of single rules\<close>

lemma decision_from_kind_kind [simp]: "kind_of_decision (decision_from_kind k e) = k"
  by (cases k) (simp_all add: decision_from_kind_def)

lemma decision_from_kind_Allow_iff [simp]: "decision_from_kind k e = Allow \<longleftrightarrow> k = DK_Allow"
  by (cases k) (simp_all add: decision_from_kind_def)

lemma most_restrictive_Allow_iff [simp]:
  "most_restrictive d d' = Allow \<longleftrightarrow> d = Allow \<and> d' = Allow"
  by (cases d; cases d') (simp_all add: most_restrictive_def)

definition cap_holds :: "action \<Rightarrow> rule \<Rightarrow> bool" where
  "cap_holds a r = (case rule_cap r of None \<Rightarrow> True | Some c \<Rightarrow> \<not> cap_violated c a)"

lemma rule_verdict_Allow_iff:
  "rule_verdict a r = Allow \<longleftrightarrow> rule_decision r = DK_Allow \<and> cap_holds a r"
  by (auto simp: rule_verdict_def apply_cap_def cap_holds_def split: option.splits)

lemma rule_verdict_kind:
  "kind_of_decision (rule_verdict a r) =
     (if cap_holds a r then rule_decision r else max (rule_decision r) DK_Ask)"
  by (cases "rule_decision r")
     (auto simp: rule_verdict_def apply_cap_def cap_holds_def decision_from_kind_def
       most_restrictive_def max_def less_eq_decision_kind_def split: option.splits)

lemma outcome_of_simps [simp]:
  "out_decision (outcome_of a rs w) = rule_verdict a w"
  "out_matched_rule (outcome_of a rs w) = Some (rule_id w)"
  "out_sandbox (outcome_of a rs w) = list_ex rule_sandbox rs"
  "out_critical (outcome_of a rs w) = list_ex rule_critical rs"
  by (simp_all add: outcome_of_def)

text \<open>The strictest verdict of the matching rules, or the default's.\<close>

lemma evaluate_spec_rank:
  "rs \<noteq> [] \<Longrightarrow> restrictiveness (out_decision (evaluate_spec p a rs)) = Max (verdict_rank a ` set rs)"
  by (cases rs) (simp_all add: evaluate_spec_def keep_max_Max [of "verdict_rank a"])

lemma evaluate_spec_Allow_iff:
  assumes "policy_wf p"
  shows "out_decision (evaluate_spec p a rs) = Allow \<longleftrightarrow>
           rs \<noteq> [] \<and> (\<forall>r \<in> set rs. rule_decision r = DK_Allow \<and> cap_holds a r)"
proof (cases rs)
  case Nil
  with assms show ?thesis
    by (simp add: evaluate_spec_def initial_outcome_def policy_wf_def)
next
  case (Cons r rs')
  then have "out_decision (evaluate_spec p a rs) = Allow \<longleftrightarrow> Max (verdict_rank a ` set rs) = 0"
    by (metis evaluate_spec_rank list.distinct(1) restrictiveness_0_iff)
  also have "\<dots> \<longleftrightarrow> (\<forall>r \<in> set rs. rule_verdict a r = Allow)"
    using Cons by (subst Max_eq_iff) auto
  finally show ?thesis
    using Cons by (simp add: rule_verdict_Allow_iff)
qed

lemma evaluate_spec_flags [simp]:
  "out_sandbox (evaluate_spec p a rs) = list_ex rule_sandbox rs"
  "out_critical (evaluate_spec p a rs) = list_ex rule_critical rs"
  by (simp_all add: evaluate_spec_def initial_outcome_def split: list.split)

lemma list_ex_mset: "mset rs = mset rs' \<Longrightarrow> list_ex P rs = list_ex P rs'"
  unfolding list_ex_iff by (drule mset_eq_setD) simp

lemma evaluate_spec_mset:
  assumes "mset rs = mset rs'"
  shows "restrictiveness (out_decision (evaluate_spec p a rs)) =
           restrictiveness (out_decision (evaluate_spec p a rs'))"
    and "out_sandbox (evaluate_spec p a rs) = out_sandbox (evaluate_spec p a rs')"
    and "out_critical (evaluate_spec p a rs) = out_critical (evaluate_spec p a rs')"
proof -
  have "set rs = set rs'" and nil: "rs = [] \<longleftrightarrow> rs' = []"
    using assms by (auto dest: mset_eq_setD)
  then show "restrictiveness (out_decision (evaluate_spec p a rs)) =
          restrictiveness (out_decision (evaluate_spec p a rs'))"
    by (cases "rs = []") (simp_all add: evaluate_spec_rank)
  show "out_sandbox (evaluate_spec p a rs) = out_sandbox (evaluate_spec p a rs')"
    and "out_critical (evaluate_spec p a rs) = out_critical (evaluate_spec p a rs')"
    using list_ex_mset [OF assms] by simp_all
qed

lemma matched_rules_mset:
  assumes "mset (zip (pol_rules (cp_policy cp)) (cp_programs cp)) =
           mset (zip (pol_rules (cp_policy cp')) (cp_programs cp'))"
  shows "mset (matched_rules exec cp a env) = mset (matched_rules exec cp' a env)"
  using assms by (simp add: matched_rules_def mset_filter)

subsection \<open>Caps\<close>

lemma parse_f64_NaN: "parse_f64 ''NaN'' = Some F64_NaN"
  by code_simp

lemma arg_number_int:
  "jget key (act_args a) = Some (JInt i) \<Longrightarrow> \<bar>i\<bar> < 2 ^ 53 \<Longrightarrow>
     arg_number a key = Some (F64_Fin (of_int i))"
  by (simp add: arg_number_def f64_of_int_exact)

lemma arg_number_NaN:
  "jget key (act_args a) = Some (JStr ''NaN'') \<Longrightarrow> arg_number a key = Some F64_NaN"
  by (simp add: arg_number_def parse_f64_NaN)

lemma limit_violated_simps [simp]:
  "\<not> limit_violated None got"
  "limit_violated (Some mx) None"
  "limit_violated (Some mx) (Some x) \<longleftrightarrow> f64_gt x mx"
  by (simp_all add: limit_violated_def)

lemma cap_violated_iff:
  "cap_violated c a \<longleftrightarrow>
     limit_violated (cap_amount_max c) (arg_number a ''amount'')
     \<or> limit_violated (map_option f64_of_int (cap_count_max c)) (arg_number a ''count'')
     \<or> (\<exists>want. cap_currency c = Some want \<and>
          (\<forall>got. jget_str ''currency'' (act_args a) = Some got \<longrightarrow>
             \<not> eq_ignore_ascii_case got want))"
  by (auto simp: cap_violated_def split: option.splits)

subsection \<open>Example policy\<close>

text \<open>
  Concrete inputs for the witnesses: a condition is the kind name it compares \<open>action.kind\<close>
  with, and the policy has an uncapped and a capped \<open>allow\<close> rule and a \<open>deny\<close> rule.
\<close>

definition ex_exec :: "string cel_exec" where
  "ex_exec prog ctx = Inr (Cel_Bool (jget ''kind'' (cel_action ctx) = Some (JStr prog)))"

definition ex_rule :: "string \<Rightarrow> string \<Rightarrow> decision_kind \<Rightarrow> cap option \<Rightarrow> rule" where
  "ex_rule i k d c =
     \<lparr>rule_id = i, rule_when = k, rule_decision = d, rule_explain = None, rule_critical = False,
      rule_sandbox = False, rule_cap = c, rule_tags = []\<rparr>"

definition ex_policy :: policy where
  "ex_policy =
     \<lparr>pol_version = 1, pol_role = ''t'', pol_default = DK_Ask, pol_meta = None, pol_tools = [],
      pol_rules =
        [ex_rule ''read'' ''FileRead'' DK_Allow None,
         ex_rule ''pay'' ''Payment'' DK_Allow
           (Some \<lparr>cap_amount_max = Some (F64_Fin 10), cap_currency = None, cap_count_max = None\<rparr>),
         ex_rule ''no-exec'' ''Exec'' DK_Deny None]\<rparr>"

definition ex_compiled :: "string compiled_policy" where
  "ex_compiled = \<lparr>cp_policy = ex_policy, cp_programs = [''FileRead'', ''Payment'', ''Exec'']\<rparr>"

definition ex_env :: eval_env where
  "ex_env = \<lparr>env_user_home = ''/home/u'', env_trusted_hosts = []\<rparr>"

definition ex_action :: "action_kind \<Rightarrow> (string \<times> json) list \<Rightarrow> capability option \<Rightarrow> action" where
  "ex_action k kvs c =
     \<lparr>act_id = ''act-0'', act_kind = k, act_tool = ''t'', act_args = JObj kvs, act_capability = c,
      act_context =
        \<lparr>ctx_timestamp_ms = 0, ctx_source = ''test'', ctx_session = None, ctx_host = None,
         ctx_principal = None, ctx_path = None, ctx_extra = []\<rparr>\<rparr>"

lemma rule_matches_ex:
  "rule_matches ex_exec prog (build_context a env) \<longleftrightarrow> prog = kind_name (act_kind a)"
  by (auto simp: rule_matches_def ex_exec_def build_context_def action_to_json_fields)

lemma ex_compiled_loads:
  "compiled_from_toml_str (\<lambda>_. Inr ex_policy) Inr ''policy.toml'' = Inr ex_compiled"
  by (simp add: compiled_from_toml_str_def policy_from_toml_str_def validate_structure_def
        compile_def ex_policy_def ex_rule_def ex_compiled_def)

lemma matched_rules_ex:
  "matched_rules ex_exec ex_compiled a env =
     filter (\<lambda>r. rule_when r = kind_name (act_kind a)) (pol_rules ex_policy)"
  by (simp add: matched_rules_def rule_matches_ex ex_compiled_def ex_policy_def ex_rule_def)

subsection \<open>Properties\<close>

text \<open>
  C1: an action whose capability is a critical category (money, credentials, exfiltration,
  irreversible deletion) is never allowed silently and is always flagged critical, whatever
  the policy, the compiled conditions and the interpreter.
\<close>

theorem critical_action_never_allowed:
  assumes "action_is_critical a"
  shows "out_decision (evaluate exec cp a env) \<noteq> Allow \<and> out_critical (evaluate exec cp a env)"
  using critical_floor_critical [OF assms] by (simp add: evaluate_def)

theorem critical_action_never_allowed_witness:
  "let a = ex_action K_FileRead [] (Some Cap_Credential)
   in rule_verdict a (hd (pol_rules ex_policy)) = Allow
      \<and> out_decision (evaluate ex_exec ex_compiled a ex_env) \<noteq> Allow"
proof -
  let ?a = "ex_action K_FileRead [] (Some Cap_Credential)"
  have "action_is_critical ?a"
    by (simp add: ex_action_def action_is_critical_def)
  from critical_action_never_allowed [OF this, of ex_exec ex_compiled ex_env] show ?thesis
    by (simp add: Let_def rule_verdict_Allow_iff cap_holds_def ex_policy_def ex_rule_def)
qed

text \<open>
  C6: most-restrictive-wins. The evaluator's loop implements its abstract specification: the
  outcome is that of the first among the strictest verdicts (caps applied) of the matching
  rules, with the sandbox and critical flags of all of them; without a matching rule it is the
  default. The critical-category floor is applied last.
\<close>

theorem evaluate_first_strictest:
  "case matched_rules exec cp a env of
     [] \<Rightarrow> evaluate exec cp a env = critical_floor a (initial_outcome (cp_policy cp))
   | r # rs \<Rightarrow>
       (\<exists>w. is_first_max (verdict_rank a) (r # rs) w \<and>
            evaluate exec cp a env = critical_floor a (outcome_of a (r # rs) w))"
proof (cases "matched_rules exec cp a env")
  case Nil
  then show ?thesis by (simp add: evaluate_refines_spec evaluate_spec_def)
next
  case (Cons r rs)
  then show ?thesis
    using keep_max_Cons [of "verdict_rank a" r rs]
    by (auto simp: evaluate_refines_spec evaluate_spec_def)
qed

text \<open>
  when a silent \<open>allow\<close> is possible. For a policy that loads, an action is allowed
  exactly if some rule matches it, every matching rule says \<open>allow\<close> with its cap respected, and
  the action is in no critical category. An unmatched action is therefore never allowed.
\<close>

theorem evaluate_allow_iff:
  assumes "compiled_from_toml_str toml cel_compile src = Inr cp"
  shows "out_decision (evaluate exec cp a env) = Allow \<longleftrightarrow>
           matched_rules exec cp a env \<noteq> []
           \<and> (\<forall>r \<in> set (matched_rules exec cp a env). rule_decision r = DK_Allow \<and> cap_holds a r)
           \<and> \<not> action_is_critical a"
proof -
  have wf: "policy_wf (cp_policy cp)"
    using compiled_from_toml_str_Inr(1) [OF assms] by (simp add: compiled_wf_def)
  show ?thesis
    by (auto simp: evaluate_refines_spec critical_floor_decision
          evaluate_spec_Allow_iff [OF wf])
qed

theorem evaluate_allow_iff_witness:
  "out_decision (evaluate ex_exec ex_compiled (ex_action K_FileRead [] None) ex_env) = Allow
   \<and> out_decision (evaluate ex_exec ex_compiled (ex_action K_Other [] None) ex_env) \<noteq> Allow"
  unfolding evaluate_allow_iff [OF ex_compiled_loads] matched_rules_ex
  by (simp add: ex_policy_def ex_rule_def ex_action_def action_is_critical_def cap_holds_def)

text \<open>
  the order of the rules does not matter for what happens to an action. Permuting the
  rules of a policy together with their compiled conditions leaves the kind of the decision, the
  sandbox flag and the critical flag unchanged (the reason and the rule named may change,
  since a tie keeps the earlier rule).
\<close>

theorem evaluate_order_independent:
  assumes "mset (zip (pol_rules (cp_policy cp)) (cp_programs cp)) =
           mset (zip (pol_rules (cp_policy cp')) (cp_programs cp'))"
    and "pol_default (cp_policy cp) = pol_default (cp_policy cp')"
  shows "kind_of_decision (out_decision (evaluate exec cp a env)) =
           kind_of_decision (out_decision (evaluate exec cp' a env))
         \<and> out_sandbox (evaluate exec cp a env) = out_sandbox (evaluate exec cp' a env)
         \<and> out_critical (evaluate exec cp a env) = out_critical (evaluate exec cp' a env)"
proof -
  have init: "initial_outcome (cp_policy cp) = initial_outcome (cp_policy cp')"
    using assms(2) by (simp add: initial_outcome_def)
  have spec: "evaluate_spec (cp_policy cp) a rs = evaluate_spec (cp_policy cp') a rs" for rs
    by (cases rs) (simp_all add: evaluate_spec_def init)
  note m = evaluate_spec_mset [OF matched_rules_mset [OF assms(1)], where p = "cp_policy cp'"]
  have "restrictiveness (out_decision (evaluate exec cp a env)) =
        restrictiveness (out_decision (evaluate exec cp' a env))"
    using critical_floor_rank_cong [OF m(1)] by (simp add: evaluate_refines_spec spec)
  then show ?thesis
    using m(2,3) [of a exec a env]
    by (simp add: kind_of_decision_eq_iff evaluate_refines_spec spec
          del: evaluate_spec_flags)
qed

theorem evaluate_order_independent_witness:
  "let r1 = ex_rule ''a'' ''Exec'' DK_Allow None; r2 = ex_rule ''b'' ''Exec'' DK_Deny None;
       p = ex_policy\<lparr>pol_rules := [r1, r2]\<rparr>; p' = ex_policy\<lparr>pol_rules := [r2, r1]\<rparr>;
       cp = \<lparr>cp_policy = p, cp_programs = [''Exec'', ''Exec'']\<rparr>;
       cp' = \<lparr>cp_policy = p', cp_programs = [''Exec'', ''Exec'']\<rparr>;
       a = ex_action K_Exec [] None
   in kind_of_decision (out_decision (evaluate ex_exec cp a ex_env)) =
      kind_of_decision (out_decision (evaluate ex_exec cp' a ex_env))"
  unfolding Let_def
  by (rule evaluate_order_independent [THEN conjunct1]) simp_all

text \<open>
  what a numeric limit of a cap stops. With a finite limit \<open>m\<close>, an integer amount of at
  most 53 bits violates it exactly when it exceeds \<open>m\<close>, and an amount that is absent or not a
  number or numeric string violates it always (fail safe).
\<close>

theorem cap_limit_exact:
  assumes "cap_amount_max c = Some (F64_Fin m)" and "cap_count_max c = None"
    and "cap_currency c = None"
  shows "(jget ''amount'' (act_args a) = Some (JInt i) \<and> \<bar>i\<bar> < 2 ^ 53 \<longrightarrow>
            (cap_violated c a \<longleftrightarrow> m < of_int i))
       \<and> (arg_number a ''amount'' = None \<longrightarrow> cap_violated c a)"
  using assms by (auto simp: cap_violated_iff arg_number_int)

theorem cap_limit_exact_witness:
  "let c = \<lparr>cap_amount_max = Some (F64_Fin 10), cap_currency = None, cap_count_max = None\<rparr>
   in cap_violated c (ex_action K_Payment [(''amount'', JInt 11)] None)
      \<and> \<not> cap_violated c (ex_action K_Payment [(''amount'', JInt 10)] None)"
proof -
  let ?c = "\<lparr>cap_amount_max = Some (F64_Fin 10), cap_currency = None, cap_count_max = None\<rparr>"
  have "cap_violated ?c (ex_action K_Payment [(''amount'', JInt i)] None) \<longleftrightarrow> 10 < i"
    if "\<bar>i\<bar> < 2 ^ 53" for i
    using cap_limit_exact [of ?c 10 "ex_action K_Payment [(''amount'', JInt i)] None" i] that
    by (simp add: ex_action_def)
  from this [of 11] this [of 10] show ?thesis by simp
qed

text \<open>
  a numeric string is parsed as an \<open>f64\<close>, and the parser accepts the word \<open>NaN\<close>, which
  exceeds no limit: an \<open>allow\<close> rule whose only cap is an amount limit allows an action (of no
  critical category) that carries \<open>"amount": "NaN"\<close>, for every limit.
\<close>

theorem nan_amount_passes_cap:
  assumes "rule_cap r = Some c" and "cap_count_max c = None" and "cap_currency c = None"
    and "jget ''amount'' (act_args a) = Some (JStr ''NaN'')"
  shows "rule_verdict a r = decision_from_kind (rule_decision r) (rule_explain r)"
  using assms
  by (cases "cap_amount_max c")
     (simp_all add: rule_verdict_def apply_cap_def cap_violated_iff arg_number_NaN)

theorem nan_amount_passes_cap_witness:
  "rule_verdict (ex_action K_Payment [(''amount'', JStr ''NaN'')] None) (pol_rules ex_policy ! 1)
     = Allow"
  by (subst nan_amount_passes_cap
        [where c = "\<lparr>cap_amount_max = Some (F64_Fin 10), cap_currency = None, cap_count_max = None\<rparr>"])
     (simp_all add: ex_policy_def ex_rule_def ex_action_def)



end
