(* ===== verification/Crypto.thy ===== *)
theory Crypto
  imports Rust_Str
begin

text \<open>
  The third-party cryptography (\<open>blake3\<close>, \<open>ed25519-dalek\<close>, \<open>hex\<close>) as one parameter of the
  model: a record of functions. \<open>crypto_ok\<close> states the documented behaviour the code relies
  on (digest and signature sizes, a signature verifies under its own public key, hex decodes
  what it encodes, in any case); no theorem assumes that a hash is injective or a signature unforgeable
  without naming it. Also here: the little-endian bytes of an \<open>i64\<close>.
\<close>

record ('sk, 'vk) crypto =
  cr_hash :: "string \<Rightarrow> string"
  cr_sign :: "'sk \<Rightarrow> string \<Rightarrow> string"
  cr_public :: "'sk \<Rightarrow> 'vk"
  cr_verify :: "'vk \<Rightarrow> string \<Rightarrow> string \<Rightarrow> bool"
  cr_key_bytes :: "'vk \<Rightarrow> string"
  cr_key_of_bytes :: "string \<Rightarrow> 'vk option"
  cr_hex_encode :: "string \<Rightarrow> string"
  cr_hex_decode :: "string \<Rightarrow> string option"

definition crypto_ok :: "('sk, 'vk) crypto \<Rightarrow> bool" where
  "crypto_ok cr \<longleftrightarrow>
     (\<forall>x. length (cr_hash cr x) = 32)
     \<and> (\<forall>sk m. length (cr_sign cr sk m) = 64)
     \<and> (\<forall>sk m. cr_verify cr (cr_public cr sk) m (cr_sign cr sk m))
     \<and> (\<forall>vk. length (cr_key_bytes cr vk) = 32)
     \<and> (\<forall>vk. cr_key_of_bytes cr (cr_key_bytes cr vk) = Some vk)
     \<and> (\<forall>x. cr_hex_decode cr (cr_hex_encode cr x) = Some x)
     \<and> (\<forall>x. trim (cr_hex_encode cr x) = cr_hex_encode cr x)
     \<and> (\<forall>s t. eq_ignore_ascii_case s t \<longrightarrow> cr_hex_decode cr s = cr_hex_decode cr t)"

lemma crypto_okD:
  assumes "crypto_ok cr"
  shows "length (cr_hash cr x) = 32" and "length (cr_sign cr sk m) = 64"
    and "cr_verify cr (cr_public cr sk) m (cr_sign cr sk m)"
    and "length (cr_key_bytes cr vk) = 32"
    and "cr_key_of_bytes cr (cr_key_bytes cr vk) = Some vk"
    and "cr_hex_decode cr (cr_hex_encode cr x) = Some x"
    and "trim (cr_hex_encode cr x) = cr_hex_encode cr x"
    and "eq_ignore_ascii_case s t \<Longrightarrow> cr_hex_decode cr s = cr_hex_decode cr t"
  using assms unfolding crypto_ok_def by blast+

subsection \<open>Machine integers\<close>

text \<open>The \<open>i64\<close> a mathematical integer wraps to.\<close>

definition i64_wrap :: "int \<Rightarrow> int" where
  "i64_wrap i = (i + 2 ^ 63) mod 2 ^ 64 - 2 ^ 63"

definition is_i64 :: "int \<Rightarrow> bool" where
  "is_i64 i \<longleftrightarrow> - (2 ^ 63) \<le> i \<and> i < 2 ^ 63"

lemma i64_wrap_id: "is_i64 i \<Longrightarrow> i64_wrap i = i"
  by (simp add: i64_wrap_def is_i64_def)

lemma is_i64_wrap: "is_i64 (i64_wrap i)"
proof -
  have "0 \<le> (i + 2 ^ 63) mod 2 ^ 64" "(i + 2 ^ 63) mod 2 ^ 64 < 2 ^ 64"
    by (rule pos_mod_sign, simp, rule pos_mod_bound, simp)
  then show ?thesis by (simp add: i64_wrap_def is_i64_def)
qed

fun le_bytes :: "nat \<Rightarrow> int \<Rightarrow> string" where
  "le_bytes 0 i = []"
| "le_bytes (Suc k) i = char_of (nat (i mod 256)) # le_bytes k (i div 256)"

lemma length_le_bytes [simp]: "length (le_bytes k i) = k"
  by (induction k arbitrary: i) auto

lemma char_of_byte_inj:
  assumes "char_of (nat (i mod 256)) = (char_of (nat (j mod 256)) :: char)"
  shows "i mod 256 = (j mod 256 :: int)"
proof -
  have small: "nat (k mod 256) mod 256 = nat (k mod 256)" for k :: int
    by (rule mod_less) (simp add: nat_less_iff)
  have "of_char (char_of (nat (i mod 256)) :: char)
      = (of_char (char_of (nat (j mod 256)) :: char) :: nat)"
    using assms by (rule arg_cong)
  then have "nat (i mod 256) = nat (j mod 256)"
    by (simp only: of_char_of small)
  moreover have "0 \<le> k mod 256" for k :: int
    by simp
  ultimately show ?thesis
    by (simp only: eq_nat_nat_iff)
qed

lemma le_bytes_mod_inj: "le_bytes k i = le_bytes k j \<Longrightarrow> i mod 256 ^ k = j mod 256 ^ k"
proof (induction k arbitrary: i j)
  case 0
  then show ?case by simp
next
  case (Suc k)
  have c: "char_of (nat (i mod 256)) = (char_of (nat (j mod 256)) :: char)"
    and t: "le_bytes k (i div 256) = le_bytes k (j div 256)"
    using Suc.prems by (simp_all only: le_bytes.simps list.inject)
  have "x mod 256 ^ Suc k = 256 * (x div 256 mod 256 ^ k) + x mod 256" for x :: int
    by (simp only: power_Suc zmod_zmult2_eq [of "256 ^ k"] zero_le_power)
  then show ?case
    by (simp only: char_of_byte_inj [OF c] Suc.IH [OF t])
qed

lemma le_bytes_i64_inj:
  assumes "le_bytes 8 i = le_bytes 8 j" and "is_i64 i" and "is_i64 j"
  shows "i = j"
proof -
  have "i mod 2 ^ 64 = j mod 2 ^ 64"
    using le_bytes_mod_inj [OF assms(1)] by simp
  then have "(i + 2 ^ 63) mod 2 ^ 64 = (j + 2 ^ 63) mod 2 ^ 64"
    by (metis mod_add_left_eq)
  then have "i64_wrap i = i64_wrap j" by (simp add: i64_wrap_def)
  then show ?thesis using assms by (simp add: i64_wrap_id)
qed

subsection \<open>An instance\<close>

text \<open>
  A concrete instance for the witnesses, with no cryptographic strength: the digest keeps the
  first 32 bytes, a signature is the key's bit and the message in 64 bytes.
\<close>

definition pad :: "nat \<Rightarrow> string \<Rightarrow> string" where
  "pad n s = take n (s @ replicate n CHR 0x00)"

lemma length_pad [simp]: "length (pad n s) = n"
  by (simp add: pad_def)

definition hex_digit :: "nat \<Rightarrow> char" where
  "hex_digit n = ''0123456789abcdef'' ! n"

definition hex_value :: "char \<Rightarrow> nat option" where
  "hex_value c = (let n = (of_char c :: nat)
     in if 48 \<le> n \<and> n \<le> 57 then Some (n - 48)
        else if 97 \<le> n \<and> n \<le> 102 then Some (n - 87)
        else if 65 \<le> n \<and> n \<le> 70 then Some (n - 55) else None)"

fun hex_enc :: "string \<Rightarrow> string" where
  "hex_enc [] = []"
| "hex_enc (c # s) =
     hex_digit (of_char c div 16) # hex_digit (of_char c mod 16) # hex_enc s"

fun hex_dec :: "string \<Rightarrow> string option" where
  "hex_dec [] = Some []"
| "hex_dec [c] = None"
| "hex_dec (a # b # s) =
     (case (hex_value a, hex_value b, hex_dec s) of
        (Some x, Some y, Some t) \<Rightarrow> Some (char_of (16 * x + y) # t)
      | _ \<Rightarrow> None)"

definition is_hex_char :: "char \<Rightarrow> bool" where
  "is_hex_char c \<longleftrightarrow> c \<in> set ''0123456789abcdef''"

lemma hex_value_digit_all: "list_all (\<lambda>n. hex_value (hex_digit n) = Some n) [0..<16]"
  by code_simp

lemma hex_value_digit: "n < 16 \<Longrightarrow> hex_value (hex_digit n) = Some n"
  using hex_value_digit_all by (auto simp: list_all_iff simp del: upt_rec_numeral)

lemma hex_digit_hex: "n < 16 \<Longrightarrow> is_hex_char (hex_digit n)"
  unfolding is_hex_char_def hex_digit_def by (rule nth_mem) simp

lemma hex_dec_enc: "hex_dec (hex_enc s) = Some s"
proof (induction s)
  case Nil
  then show ?case by simp
next
  case (Cons c s)
  have "(of_char c :: nat) < 256" by (rule nat_of_char_less_256)
  then have "(of_char c :: nat) div 16 < 16" by (simp add: less_mult_imp_div_less)
  moreover have "char_of (16 * (of_char c div 16) + of_char c mod 16 :: nat) = c"
    by (simp only: mult_div_mod_eq char_of_char)
  ultimately show ?case
    using Cons by (simp add: hex_value_digit)
qed

lemma hex_value_lower: "hex_value (ascii_lower c) = hex_value c"
  by (auto simp: hex_value_def ascii_lower_def Let_def of_char_of)

lemma hex_dec_lower: "hex_dec (to_ascii_lowercase s) = hex_dec s"
  by (induction s rule: hex_dec.induct) (simp_all add: to_ascii_lowercase_def hex_value_lower)

lemma hex_dec_ci: "eq_ignore_ascii_case s t \<Longrightarrow> hex_dec s = hex_dec t"
  by (metis eq_ignore_ascii_case_def hex_dec_lower)

lemma hex_enc_hex: "c \<in> set (hex_enc s) \<Longrightarrow> is_hex_char c"
proof (induction s)
  case Nil
  then show ?case by simp
next
  case (Cons d s)
  have "(of_char d :: nat) < 256" by (rule nat_of_char_less_256)
  then have "(of_char d :: nat) div 16 < 16" by (simp add: less_mult_imp_div_less)
  with Cons show ?case by (auto simp: hex_digit_hex)
qed

lemma hex_char_plain: "is_hex_char c \<Longrightarrow> \<not> is_whitespace [c] \<and> \<not> is_cont c"
  by (auto simp: is_hex_char_def is_whitespace_def is_cont_def Let_def)

lemma trim_plain:
  assumes "\<forall>c \<in> set s. \<not> is_whitespace [c] \<and> \<not> is_cont c"
  shows "trim s = s"
proof -
  have u: "utf8_chars s = map (\<lambda>c. [c]) s"
    using assms by (simp add: utf8_chars_ascii)
  have d: "dropWhile is_whitespace xs = xs" if "\<forall>x \<in> set xs. \<not> is_whitespace x" for xs
    using that by (cases xs) auto
  have "dropWhile is_whitespace (map (\<lambda>c. [c]) s) = map (\<lambda>c. [c]) s"
    and "dropWhile is_whitespace (rev (map (\<lambda>c. [c]) s)) = rev (map (\<lambda>c. [c]) s)"
    using assms by (auto intro!: d)
  then show ?thesis
    by (simp add: trim_def u concat_map_singleton [where f = "\<lambda>c. c", simplified])
qed

definition ex_sign :: "bool \<Rightarrow> string \<Rightarrow> string" where
  "ex_sign sk m = pad 64 ((if sk then CHR 0x01 else CHR 0x00) # m)"

definition ex_key_bytes :: "bool \<Rightarrow> string" where
  "ex_key_bytes vk = replicate 32 (if vk then CHR 0x01 else CHR 0x00)"

definition ex_crypto :: "(bool, bool) crypto" where
  "ex_crypto =
     \<lparr>cr_hash = pad 32, cr_sign = ex_sign, cr_public = id,
      cr_verify = (\<lambda>vk m s. s = ex_sign vk m), cr_key_bytes = ex_key_bytes,
      cr_key_of_bytes =
        (\<lambda>b. if b = ex_key_bytes True then Some True
             else if b = ex_key_bytes False then Some False else None),
      cr_hex_encode = hex_enc, cr_hex_decode = hex_dec\<rparr>"

lemma ex_crypto_ok: "crypto_ok ex_crypto"
proof -
  have "trim (hex_enc x) = hex_enc x" for x
    by (rule trim_plain) (auto dest: hex_enc_hex hex_char_plain)
  then show ?thesis
    by (auto simp: crypto_ok_def ex_crypto_def hex_dec_enc ex_sign_def ex_key_bytes_def
          intro: hex_dec_ci)
qed

end
