(* ===== verification/Audit_Log.thy ===== *)
theory Audit_Log
  imports Core Crypto
begin

text \<open>
  \<open>guardian-audit/src/lib.rs\<close>: the append-only, hash-chained audit log. The SQLite database
  is its three tables: the rows of \<open>audit_log\<close> (in insertion order; a \<open>SELECT\<close> orders them by
  key), the single row of \<open>audit_head\<close>, the single row of \<open>audit_head_sig\<close>. Serialization of an
  entry (\<open>ser\<close>, \<open>de\<close>) is serde_json and the cryptography is the parameter \<open>cr\<close>. The flag \<open>io\<close>
  of \<open>append\<close> says whether SQLite completes the transaction; a transaction that fails leaves the
  database as it was.
\<close>

subsection \<open>Entries\<close>

record audit_entry =
  ae_timestamp_ms :: int
  ae_action_id :: string
  ae_action_kind :: string
  ae_decision :: string
  ae_decision_reason :: "string option"
  ae_matched_rule :: "string option"
  ae_checker_rationale :: "string option"
  ae_user_response :: "string option"
  ae_critical :: bool
  ae_host :: "string option"

fun decision_name :: "decision \<Rightarrow> string" where
  "decision_name Allow = ''allow''"
| "decision_name (Ask _) = ''ask''"
| "decision_name (Deny _) = ''deny''"

fun decision_reason :: "decision \<Rightarrow> string option" where
  "decision_reason Allow = None"
| "decision_reason (Ask r) = Some r"
| "decision_reason (Deny r) = Some r"

definition for_decision ::
    "action \<Rightarrow> decision \<Rightarrow> string option \<Rightarrow> string option \<Rightarrow> string option \<Rightarrow> bool \<Rightarrow> audit_entry"
where
  "for_decision a d matched rationale response critical =
     \<lparr>ae_timestamp_ms = ctx_timestamp_ms (act_context a), ae_action_id = act_id a,
      ae_action_kind = kind_name (act_kind a), ae_decision = decision_name d,
      ae_decision_reason = decision_reason d, ae_matched_rule = matched,
      ae_checker_rationale = rationale, ae_user_response = response, ae_critical = critical,
      ae_host = ctx_host (act_context a)\<rparr>"

datatype audit_error = AE_Db string | AE_Serde string | AE_Tampered string | AE_BadKey string

subsection \<open>The database and the log\<close>

record audit_row =
  row_seq :: int
  row_content :: string
  row_prev :: string
  row_hash :: string

record audit_db =
  db_rows :: "audit_row list"
  db_head :: "(int \<times> string) option"
  db_sig :: "string option"

record 'sk audit_log =
  al_db :: audit_db
  al_key :: "'sk option"

definition GENESIS :: string where
  "GENESIS = replicate 32 CHR 0x00"

lemma length_GENESIS [simp]: "length GENESIS = 32"
  by (simp add: GENESIS_def)

text \<open>A database file that does not exist yet.\<close>

definition empty_db :: audit_db where
  "empty_db = \<lparr>db_rows = [], db_head = None, db_sig = None\<rparr>"

text \<open>\<open>CREATE TABLE IF NOT EXISTS\<close> and \<open>INSERT OR IGNORE\<close> of the genesis head.\<close>

definition from_conn :: "audit_db \<Rightarrow> 'sk option \<Rightarrow> 'sk audit_log" where
  "from_conn db key =
     \<lparr>al_db = db\<lparr>db_head := (case db_head db of None \<Rightarrow> Some (0, GENESIS) | Some h \<Rightarrow> Some h)\<rparr>,
      al_key = key\<rparr>"

definition open_log :: "audit_db \<Rightarrow> 'sk audit_log" where
  "open_log db = from_conn db None"

definition open_signed :: "audit_db \<Rightarrow> 'sk \<Rightarrow> 'sk audit_log" where
  "open_signed db key = from_conn db (Some key)"

text \<open>The bytes signed for the head, and the chaining hash.\<close>

definition head_message :: "int \<Rightarrow> string \<Rightarrow> string" where
  "head_message seq hash = le_bytes 8 seq @ hash"

definition chain_hash :: "('sk, 'vk) crypto \<Rightarrow> string \<Rightarrow> string \<Rightarrow> string" where
  "chain_hash cr prev content = cr_hash cr (prev @ content)"

text \<open>\<open>seq as u64\<close>.\<close>

definition i64_as_u64 :: "int \<Rightarrow> nat" where
  "i64_as_u64 i = nat (i mod 2 ^ 64)"

definition audit_append ::
    "('sk, 'vk) crypto \<Rightarrow> (audit_entry \<Rightarrow> (string, string) result) \<Rightarrow> bool \<Rightarrow> 'sk audit_log \<Rightarrow> audit_entry
       \<Rightarrow> (audit_error, nat) result \<times> 'sk audit_log" where
  "audit_append cr ser io lg e =
     (case ser e of
        Inl msg \<Rightarrow> (Inl (AE_Serde msg), lg)
      | Inr content \<Rightarrow>
          (case db_head (al_db lg) of
             None \<Rightarrow> (Inl (AE_Db ''Query returned no rows''), lg)
           | Some (last_seq, last_hash) \<Rightarrow>
               (let seq = i64_wrap (last_seq + 1);
                    hash = chain_hash cr last_hash content;
                    db = al_db lg
                in if seq \<in> row_seq ` set (db_rows db)
                   then (Inl (AE_Db ''UNIQUE constraint failed: audit_log.seq''), lg)
                   else if \<not> io then (Inl (AE_Db ''disk I/O error''), lg)
                   else
                     (Inr (i64_as_u64 seq),
                      lg\<lparr>al_db := db\<lparr>db_rows := db_rows db @
                             [\<lparr>row_seq = seq, row_content = content, row_prev = last_hash,
                               row_hash = hash\<rparr>],
                           db_head := Some (seq, hash),
                           db_sig := (case al_key lg of
                                        Some key \<Rightarrow> Some (cr_sign cr key (head_message seq hash))
                                      | None \<Rightarrow> db_sig db)\<rparr>\<rparr>))))"

definition audit_len :: "'sk audit_log \<Rightarrow> nat" where
  "audit_len lg = length (db_rows (al_db lg))"

definition audit_is_empty :: "'sk audit_log \<Rightarrow> bool" where
  "audit_is_empty lg = (audit_len lg = 0)"

text \<open>\<open>SELECT ... FROM audit_log ORDER BY seq ASC\<close>.\<close>

definition select_asc :: "audit_db \<Rightarrow> audit_row list" where
  "select_asc db = sort_key row_seq (db_rows db)"

subsection \<open>Browsing\<close>

definition unreadable_entry :: audit_entry where
  "unreadable_entry =
     \<lparr>ae_timestamp_ms = 0, ae_action_id = [], ae_action_kind = ''<unreadable>'',
      ae_decision = ''?'', ae_decision_reason = Some ''row content is not valid JSON'',
      ae_matched_rule = None, ae_checker_rationale = None, ae_user_response = None,
      ae_critical = False, ae_host = None\<rparr>"

text \<open>\<open>LIMIT\<close> with the count cast to an \<open>i64\<close>: a negative limit is no limit.\<close>

definition sql_limit :: "nat \<Rightarrow> 'a list \<Rightarrow> 'a list" where
  "sql_limit n xs = (let i = i64_wrap (int n) in if i < 0 then xs else take (nat i) xs)"

definition read_entry :: "(string \<Rightarrow> audit_entry option) \<Rightarrow> string \<Rightarrow> audit_entry" where
  "read_entry de content = (case de content of Some e \<Rightarrow> e | None \<Rightarrow> unreadable_entry)"

definition audit_tail ::
    "(string \<Rightarrow> audit_entry option) \<Rightarrow> 'sk audit_log \<Rightarrow> nat \<Rightarrow> (nat \<times> audit_entry) list" where
  "audit_tail de lg limit =
     rev (map (\<lambda>r. (i64_as_u64 (row_seq r), read_entry de (row_content r)))
            (sql_limit limit (rev (select_asc (al_db lg)))))"

subsection \<open>Verification\<close>

fun walk ::
    "('sk, 'vk) crypto \<Rightarrow> int \<Rightarrow> string \<Rightarrow> int \<Rightarrow> string \<Rightarrow> audit_row list
       \<Rightarrow> (audit_error, int \<times> string) result" where
  "walk cr expected prev last_seq last_hash [] = Inr (last_seq, last_hash)"
| "walk cr expected prev last_seq last_hash (r # rs) =
     (if row_seq r \<noteq> expected
      then Inl (AE_Tampered (''expected seq '' @ dec_int expected @ '', found ''
             @ dec_int (row_seq r) @ '' (gap, reorder, or deletion)''))
      else if row_prev r \<noteq> prev
      then Inl (AE_Tampered (''prev_hash mismatch at seq '' @ dec_int (row_seq r)
             @ '' (broken chain link)''))
      else if chain_hash cr prev (row_content r) \<noteq> row_hash r
      then Inl (AE_Tampered (''hash mismatch at seq '' @ dec_int (row_seq r)
             @ '' (entry content was modified)''))
      else walk cr (expected + 1) (row_hash r) (row_seq r) (row_hash r) rs)"

definition verify_chain :: "('sk, 'vk) crypto \<Rightarrow> audit_db \<Rightarrow> (audit_error, int \<times> string) result" where
  "verify_chain cr db =
     (case walk cr 1 GENESIS 0 GENESIS (select_asc db) of
        Inl e \<Rightarrow> Inl e
      | Inr (last_seq, last_hash) \<Rightarrow>
          (case db_head db of
             None \<Rightarrow> Inl (AE_Db ''Query returned no rows'')
           | Some (head_seq, head_hash) \<Rightarrow>
               if head_seq \<noteq> last_seq \<or> head_hash \<noteq> last_hash
               then Inl (AE_Tampered (''head mismatch: head records seq '' @ dec_int head_seq
                      @ '' but chain ends at '' @ dec_int last_seq @ '' (tail truncation)''))
               else Inr (last_seq, last_hash)))"

definition verify_head_sig ::
    "('sk, 'vk) crypto \<Rightarrow> audit_db \<Rightarrow> int \<Rightarrow> string \<Rightarrow> 'vk \<Rightarrow> (audit_error, unit) result" where
  "verify_head_sig cr db head_seq head_hash key =
     (case db_sig db of
        None \<Rightarrow> Inl (AE_Tampered ''head signature is missing'')
      | Some sig \<Rightarrow>
          if length sig \<noteq> 64 then Inl (AE_Tampered ''head signature is malformed'')
          else if cr_verify cr key (head_message head_seq head_hash) sig then Inr ()
          else Inl (AE_Tampered ''head signature does not verify''))"

definition audit_verify :: "('sk, 'vk) crypto \<Rightarrow> 'sk audit_log \<Rightarrow> (audit_error, unit) result" where
  "audit_verify cr lg =
     (case verify_chain cr (al_db lg) of
        Inl e \<Rightarrow> Inl e
      | Inr (head_seq, head_hash) \<Rightarrow>
          (case al_key lg of
             Some key \<Rightarrow> verify_head_sig cr (al_db lg) head_seq head_hash (cr_public cr key)
           | None \<Rightarrow> Inr ()))"

definition verify_with_pubkey ::
    "('sk, 'vk) crypto \<Rightarrow> 'sk audit_log \<Rightarrow> string \<Rightarrow> (audit_error, unit) result" where
  "verify_with_pubkey cr lg trusted_hex =
     (case cr_hex_decode cr (trim trusted_hex) of
        None \<Rightarrow> Inl (AE_BadKey ''invalid hex'')
      | Some bytes \<Rightarrow>
          if length bytes \<noteq> 32 then Inl (AE_BadKey ''public key must be 32 bytes'')
          else (case cr_key_of_bytes cr bytes of
                  None \<Rightarrow> Inl (AE_BadKey ''not a curve point'')
                | Some key \<Rightarrow>
                    (case verify_chain cr (al_db lg) of
                       Inl e \<Rightarrow> Inl e
                     | Inr (head_seq, head_hash) \<Rightarrow>
                         verify_head_sig cr (al_db lg) head_seq head_hash key)))"

end
