(* ===== verification/Audit_Laws.thy ===== *)
theory Audit_Laws
  imports Audit_Log "HOL-Library.Multiset"
begin

text \<open>
  What the audit log promises: the walk accepts exactly the canonical chain of the recorded
  contents, every append extends it by one entry, and a database that verifies against a given
  head has the contents that produced the head, unless two of the strings the verification
  hashed collide.
\<close>

subsection \<open>The canonical chain\<close>

fun chain_rows :: "('sk, 'vk) crypto \<Rightarrow> int \<Rightarrow> string \<Rightarrow> string list \<Rightarrow> audit_row list" where
  "chain_rows cr n prev [] = []"
| "chain_rows cr n prev (c # cs) =
     \<lparr>row_seq = n, row_content = c, row_prev = prev, row_hash = chain_hash cr prev c\<rparr>
       # chain_rows cr (n + 1) (chain_hash cr prev c) cs"

fun chain_end :: "('sk, 'vk) crypto \<Rightarrow> string \<Rightarrow> string list \<Rightarrow> string" where
  "chain_end cr prev [] = prev"
| "chain_end cr prev (c # cs) = chain_end cr (chain_hash cr prev c) cs"

text \<open>The strings hashed along the chain.\<close>

fun chain_inputs :: "('sk, 'vk) crypto \<Rightarrow> string \<Rightarrow> string list \<Rightarrow> string list" where
  "chain_inputs cr prev [] = []"
| "chain_inputs cr prev (c # cs) = (prev @ c) # chain_inputs cr (chain_hash cr prev c) cs"

definition log_contents :: "audit_db \<Rightarrow> string list" where
  "log_contents db = map row_content (select_asc db)"

definition chain_intact :: "('sk, 'vk) crypto \<Rightarrow> audit_db \<Rightarrow> string list \<Rightarrow> bool" where
  "chain_intact cr db cs \<longleftrightarrow>
     select_asc db = chain_rows cr 1 GENESIS cs
     \<and> db_head db = Some (int (length cs), chain_end cr GENESIS cs)"

lemma map_content_chain_rows [simp]: "map row_content (chain_rows cr n p cs) = cs"
  by (induction cs arbitrary: n p) auto

lemma length_chain_rows [simp]: "length (chain_rows cr n p cs) = length cs"
  by (induction cs arbitrary: n p) auto

lemma chain_rows_append:
  "chain_rows cr n p (cs @ ds) =
     chain_rows cr n p cs @ chain_rows cr (n + int (length cs)) (chain_end cr p cs) ds"
  by (induction cs arbitrary: n p) (auto simp: algebra_simps)

lemma chain_end_append: "chain_end cr p (cs @ ds) = chain_end cr (chain_end cr p cs) ds"
  by (induction cs arbitrary: p) auto

lemma chain_inputs_append:
  "chain_inputs cr p (cs @ ds) = chain_inputs cr p cs @ chain_inputs cr (chain_end cr p cs) ds"
  by (induction cs arbitrary: p) auto

lemma chain_rows_seq:
  "map row_seq (chain_rows cr n p cs) = map (\<lambda>i. n + int i) [0..<length cs]"
proof (induction cs arbitrary: n p)
  case Nil
  then show ?case by simp
next
  case (Cons c cs)
  have "[0..<Suc (length cs)] = 0 # map Suc [0..<length cs]"
    by (subst upt_conv_Cons) (simp_all add: map_Suc_upt del: upt_Suc)
  then show ?case
    by (simp add: Cons o_def algebra_simps del: upt_Suc)
qed

lemma chain_rows_nth:
  "i < length cs \<Longrightarrow>
     row_seq (chain_rows cr n p cs ! i) = n + int i \<and> row_content (chain_rows cr n p cs ! i) = cs ! i"
proof (induction cs arbitrary: n p i)
  case Nil
  then show ?case by simp
next
  case (Cons c cs)
  then show ?case
    by (cases i) (auto simp: Cons.IH)
qed

lemma length_chain_end:
  "crypto_ok cr \<Longrightarrow> length p = 32 \<Longrightarrow> length (chain_end cr p cs) = 32"
  by (induction cs arbitrary: p) (auto simp: chain_hash_def crypto_okD(1))

subsection \<open>The walk accepts exactly the canonical chain\<close>

lemma walk_Inr_iff:
  "walk cr n p (n - 1) p rs = Inr (s, h) \<longleftrightarrow>
     rs = chain_rows cr n p (map row_content rs)
     \<and> s = n - 1 + int (length rs) \<and> h = chain_end cr p (map row_content rs)"
proof (induction rs arbitrary: n p)
  case Nil
  then show ?case by auto
next
  case (Cons r rs)
  show ?case
  proof (cases "row_seq r = n \<and> row_prev r = p \<and> chain_hash cr p (row_content r) = row_hash r")
    case True
    then have r: "r = \<lparr>row_seq = n, row_content = row_content r, row_prev = p,
                       row_hash = chain_hash cr p (row_content r)\<rparr>"
      by (cases r) simp
    have "walk cr n p (n - 1) p (r # rs) =
          walk cr (n + 1) (row_hash r) (n + 1 - 1) (row_hash r) rs"
      using True by simp
    then have "walk cr n p (n - 1) p (r # rs) = Inr (s, h) \<longleftrightarrow>
        rs = chain_rows cr (n + 1) (row_hash r) (map row_content rs)
        \<and> s = n + int (length rs) \<and> h = chain_end cr (row_hash r) (map row_content rs)"
      by (simp only: Cons.IH) simp
    moreover have "r # rs = chain_rows cr n p (map row_content (r # rs)) \<longleftrightarrow>
        rs = chain_rows cr (n + 1) (row_hash r) (map row_content rs)"
      using True r by simp
    ultimately show ?thesis
      using True by simp
  next
    case False
    then show ?thesis by (cases r) auto
  qed
qed

lemma length_select_asc [simp]: "length (select_asc db) = length (db_rows db)"
  by (simp add: select_asc_def)

lemma length_log_contents [simp]: "length (log_contents db) = length (db_rows db)"
  by (simp add: log_contents_def)

lemma chain_intact_contents: "chain_intact cr db cs \<Longrightarrow> log_contents db = cs"
  by (simp add: chain_intact_def log_contents_def)

lemma chain_intact_length: "chain_intact cr db cs \<Longrightarrow> length (db_rows db) = length cs"
  by (metis chain_intact_contents length_log_contents)

lemma verify_chain_Inr_iff:
  "verify_chain cr db = Inr (s, h) \<longleftrightarrow>
     chain_intact cr db (log_contents db)
     \<and> s = int (length (db_rows db)) \<and> h = chain_end cr GENESIS (log_contents db)"
  using walk_Inr_iff [of cr 1 GENESIS "select_asc db"]
  by (auto simp: verify_chain_def chain_intact_def log_contents_def
        split: sum.splits option.splits if_splits)

lemma verify_chain_intact:
  "chain_intact cr db cs \<Longrightarrow>
     verify_chain cr db = Inr (int (length cs), chain_end cr GENESIS cs)"
  by (simp add: verify_chain_Inr_iff chain_intact_contents chain_intact_length)

lemma verify_chain_ok_iff:
  "is_ok (verify_chain cr db) \<longleftrightarrow> chain_intact cr db (log_contents db)"
  by (auto simp: is_ok_iff verify_chain_Inr_iff)

subsection \<open>Appending\<close>

lemma sort_key_snoc:
  assumes "\<forall>y \<in> set xs. f y < (f x :: int)"
  shows "sort_key f (xs @ [x]) = sort_key f xs @ [x]"
proof (rule properties_for_sort_key)
  show "sorted (map f (sort_key f xs @ [x]))"
    using assms by (auto simp: sorted_append intro: less_imp_le)
  show "filter (\<lambda>y. f k = f y) (sort_key f xs @ [x]) = filter (\<lambda>y. f k = f y) (xs @ [x])" for k
    using sort_key_stable [of f "f k" xs] by (simp add: eq_commute [of "f k"])
qed simp

text \<open>What one call appends: the serialized entry when serde and SQLite succeed.\<close>

definition written ::
    "(audit_entry \<Rightarrow> (string, string) result) \<Rightarrow> bool \<times> audit_entry \<Rightarrow> string list" where
  "written ser op = (case ser (snd op) of Inl _ \<Rightarrow> [] | Inr c \<Rightarrow> if fst op then [c] else [])"

lemma length_written: "length (written ser op) \<le> 1"
  by (auto simp: written_def split: sum.splits)

text \<open>One past the largest number of rows for which the sequence number does not wrap.\<close>

definition audit_room :: nat where
  "audit_room = 2 ^ 63 - 1"

lemma audit_append_intact:
  assumes ok: "chain_intact cr (al_db lg) cs" and room: "length cs < audit_room"
  shows "audit_append cr ser io lg e =
           (case ser e of
              Inl m \<Rightarrow> (Inl (AE_Serde m), lg)
            | Inr c \<Rightarrow>
                if io
                then (let h = chain_end cr GENESIS (cs @ [c]); n = int (length cs) + 1
                      in (Inr (length cs + 1),
                          lg\<lparr>al_db := (al_db lg)\<lparr>db_rows := db_rows (al_db lg) @
                                [\<lparr>row_seq = n, row_content = c,
                                  row_prev = chain_end cr GENESIS cs, row_hash = h\<rparr>],
                              db_head := Some (n, h),
                              db_sig := (case al_key lg of
                                           Some k \<Rightarrow> Some (cr_sign cr k (head_message n h))
                                         | None \<Rightarrow> db_sig (al_db lg))\<rparr>\<rparr>))
                else (Inl (AE_Db ''disk I/O error''), lg))"
proof -
  have wrap: "i64_wrap (int (length cs) + 1) = int (length cs) + 1"
    using room by (intro i64_wrap_id) (simp add: is_i64_def audit_room_def)
  have u64: "i64_as_u64 (int (length cs) + 1) = length cs + 1"
    using room by (simp add: i64_as_u64_def audit_room_def nat_add_distrib)
  have head: "db_head (al_db lg) = Some (int (length cs), chain_end cr GENESIS cs)"
    using ok by (simp add: chain_intact_def)
  have "row_seq ` set (db_rows (al_db lg)) = set (map row_seq (select_asc (al_db lg)))"
    by (simp add: select_asc_def)
  also have "\<dots> = set (map (\<lambda>i. 1 + int i) [0..<length cs])"
    using ok by (simp only: chain_intact_def chain_rows_seq)
  finally have fresh: "int (length cs) + 1 \<notin> row_seq ` set (db_rows (al_db lg))"
    by auto
  show ?thesis
    using fresh
    by (simp add: audit_append_def head wrap u64 Let_def chain_end_append
          split: sum.split option.split)
qed

lemma audit_append_step:
  assumes ok: "chain_intact cr (al_db lg) cs" and room: "length cs < audit_room"
  shows "chain_intact cr (al_db (snd (audit_append cr ser io lg e))) (cs @ written ser (io, e))"
proof (cases "written ser (io, e)")
  case Nil
  then have "snd (audit_append cr ser io lg e) = lg"
    using audit_append_intact [OF ok room, of ser io e]
    by (auto simp: written_def split: sum.splits if_splits)
  with Nil ok show ?thesis by simp
next
  case (Cons c ws)
  then have w: "ser e = Inr c" "io" "ws = []"
    by (auto simp: written_def split: sum.splits if_splits)
  let ?row = "\<lparr>row_seq = int (length cs) + 1, row_content = c,
               row_prev = chain_end cr GENESIS cs, row_hash = chain_end cr GENESIS (cs @ [c])\<rparr>"
  have sel: "sort_key row_seq (db_rows (al_db lg)) = chain_rows cr 1 GENESIS cs"
    using ok by (simp add: chain_intact_def select_asc_def)
  have "set (map row_seq (db_rows (al_db lg))) = set (map row_seq (chain_rows cr 1 GENESIS cs))"
    by (simp flip: sel)
  also have "\<dots> = (\<lambda>i. 1 + int i) ` {0..<length cs}"
    unfolding chain_rows_seq by simp
  finally have "row_seq r \<in> (\<lambda>i. 1 + int i) ` {0..<length cs}"
    if "r \<in> set (db_rows (al_db lg))" for r
    using that by (metis image_eqI set_map)
  then have "\<forall>r \<in> set (db_rows (al_db lg)). row_seq r < row_seq ?row"
    by fastforce
  then have "sort_key row_seq (db_rows (al_db lg) @ [?row]) = chain_rows cr 1 GENESIS cs @ [?row]"
    by (simp only: sort_key_snoc sel)
  also have "\<dots> = chain_rows cr 1 GENESIS (cs @ [c])"
    by (simp add: chain_rows_append chain_end_append)
  finally show ?thesis
    using w Cons
    by (simp add: audit_append_intact [OF ok room] Let_def chain_intact_def select_asc_def)
qed

lemma audit_append_key [simp]: "al_key (snd (audit_append cr ser io lg e)) = al_key lg"
  by (simp add: audit_append_def Let_def split: sum.split option.split)

subsection \<open>The append-only contract\<close>

text \<open>
  What a recorder promises its clients: while there is room, an operation keeps the log intact
  and only ever appends.
\<close>

locale append_only =
  fixes entries :: "'s \<Rightarrow> 'e list"
    and intact :: "'s \<Rightarrow> bool"
    and add :: "'i \<Rightarrow> 's \<Rightarrow> 's"
    and new :: "'i \<Rightarrow> 's \<Rightarrow> 'e list"
    and room :: nat
  assumes add_intact: "intact s \<Longrightarrow> length (entries s) < room \<Longrightarrow> intact (add i s)"
    and add_entries:
      "intact s \<Longrightarrow> length (entries s) < room \<Longrightarrow> entries (add i s) = entries s @ new i s"
    and new_one: "length (new i s) \<le> 1"
begin

lemma add_room:
  "intact s \<Longrightarrow> length (entries s) + Suc n \<le> room \<Longrightarrow> length (entries (add i s)) + n \<le> room"
  using new_one [of i s] add_entries [of s i] by simp

lemma run_intact:
  "intact s \<Longrightarrow> length (entries s) + length is \<le> room \<Longrightarrow>
     intact (fold add is s) \<and> prefix (entries s) (entries (fold add is s))"
proof (induction "is" arbitrary: s)
  case Nil
  then show ?case by simp
next
  case (Cons i "is")
  from Cons.prems have s': "intact (add i s)" "prefix (entries s) (entries (add i s))"
    by (simp_all add: add_intact add_entries)
  from Cons.IH [OF s'(1)] add_room [of s "length is" i] Cons.prems s'(2) show ?case
    by (auto intro: prefix_order.trans)
qed

end

text \<open>The log itself: what an operation writes does not depend on the state.\<close>

locale append_log = append_only entries intact add "\<lambda>i s. writes i" room
  for entries :: "'s \<Rightarrow> 'e list" and intact add and writes :: "'i \<Rightarrow> 'e list" and room
begin

lemma run_append:
  "intact s \<Longrightarrow> length (entries s) + length is \<le> room \<Longrightarrow>
     entries (fold add is s) = entries s @ concat (map writes is)"
proof (induction "is" arbitrary: s)
  case Nil
  then show ?case by simp
next
  case (Cons i "is")
  from Cons.IH [of "add i s"] add_room [of s "length is" i] Cons.prems show ?case
    by (simp add: add_intact add_entries)
qed

end

text \<open>
  A mediator records what it lets out: an operation lets out at most as much as it writes. So does
  a run of operations, whose total is \<open>run_total\<close>.
\<close>

fun run_total :: "('i \<Rightarrow> 's \<Rightarrow> nat) \<Rightarrow> ('i \<Rightarrow> 's \<Rightarrow> 's) \<Rightarrow> 'i list \<Rightarrow> 's \<Rightarrow> nat" where
  "run_total sent add [] s = 0"
| "run_total sent add (i # is) s = sent i s + run_total sent add is (add i s)"

locale recording_mediator = append_only entries intact add new room
  for entries :: "'s \<Rightarrow> 'e list" and intact and add :: "'i \<Rightarrow> 's \<Rightarrow> 's" and new and room +
  fixes sent :: "'i \<Rightarrow> 's \<Rightarrow> nat"
  assumes sent_written: "intact s \<Longrightarrow> length (entries s) < room \<Longrightarrow> sent i s \<le> length (new i s)"
begin

lemma run_recorded:
  "intact s \<Longrightarrow> length (entries s) + length is \<le> room \<Longrightarrow>
     run_total sent add is s + length (entries s) \<le> length (entries (fold add is s))"
proof (induction "is" arbitrary: s)
  case Nil
  then show ?case by simp
next
  case (Cons i "is")
  from Cons.IH [of "add i s"] add_room [of s "length is" i] Cons.prems sent_written [of s i]
  show ?case by (simp add: add_intact add_entries)
qed

end

definition audit_op ::
    "('sk, 'vk) crypto \<Rightarrow> (audit_entry \<Rightarrow> (string, string) result) \<Rightarrow> bool \<times> audit_entry
       \<Rightarrow> 'sk audit_log \<Rightarrow> 'sk audit_log" where
  "audit_op cr ser op lg = snd (audit_append cr ser (fst op) lg (snd op))"

definition audit_intact :: "('sk, 'vk) crypto \<Rightarrow> 'sk audit_log \<Rightarrow> bool" where
  "audit_intact cr lg = is_ok (verify_chain cr (al_db lg))"

lemma audit_op_step:
  assumes "audit_intact cr lg" and "length (log_contents (al_db lg)) < audit_room"
  shows "chain_intact cr (al_db (audit_op cr ser op lg))
           (log_contents (al_db lg) @ written ser op)"
  using assms audit_append_step [of cr lg "log_contents (al_db lg)" ser "fst op" "snd op"]
  by (simp add: audit_op_def audit_intact_def verify_chain_ok_iff)

lemma audit_op_contract:
  assumes "audit_intact cr lg" and "length (log_contents (al_db lg)) < audit_room"
  shows "audit_intact cr (audit_op cr ser op lg)"
    and "log_contents (al_db (audit_op cr ser op lg)) = log_contents (al_db lg) @ written ser op"
  using audit_op_step [OF assms, of ser op] chain_intact_contents [OF audit_op_step [OF assms]]
  by (simp_all add: audit_intact_def verify_chain_ok_iff)

interpretation audit: append_log "\<lambda>lg. log_contents (al_db lg)" "audit_intact cr"
    "audit_op cr ser" "written ser" audit_room
  for cr :: "('sk, 'vk) crypto" and ser
  by unfold_locales (simp_all add: audit_op_contract length_written [simplified])

lemma from_conn_empty: "chain_intact cr (al_db (from_conn empty_db key)) []"
  by (simp add: chain_intact_def from_conn_def empty_db_def select_asc_def)

lemma audit_op_signed:
  assumes "audit_intact cr lg" and "length (log_contents (al_db lg)) < audit_room"
    and "al_key lg = Some k" and "written ser op \<noteq> []"
  shows "db_sig (al_db (audit_op cr ser op lg)) =
           Some (cr_sign cr k (head_message (int (length (log_contents (al_db lg))) + 1)
             (chain_end cr GENESIS (log_contents (al_db lg) @ written ser op))))"
proof -
  from assms(4) obtain c where "ser (snd op) = Inr c" "fst op"
    by (auto simp: written_def split: sum.splits if_splits)
  then show ?thesis
    using assms audit_append_intact [of cr lg "log_contents (al_db lg)" ser "fst op" "snd op"]
    by (simp add: audit_op_def audit_intact_def verify_chain_ok_iff written_def Let_def)
qed

subsection \<open>Tamper evidence\<close>

text \<open>A collision among the strings two verifications hash.\<close>

definition chain_collision :: "('sk, 'vk) crypto \<Rightarrow> string list \<Rightarrow> string list \<Rightarrow> bool" where
  "chain_collision cr cs ds \<longleftrightarrow>
     (\<exists>x \<in> set (chain_inputs cr GENESIS cs). \<exists>y \<in> set (chain_inputs cr GENESIS ds).
        x \<noteq> y \<and> cr_hash cr x = cr_hash cr y)"

lemma chain_end_inj:
  assumes "crypto_ok cr"
  shows "length cs = length ds \<Longrightarrow> chain_end cr GENESIS cs = chain_end cr GENESIS ds \<Longrightarrow>
           cs = ds \<or> chain_collision cr cs ds"
proof (induction cs arbitrary: ds rule: rev_induct)
  case Nil
  then show ?case by simp
next
  case (snoc c cs)
  then obtain d ds' where ds: "ds = ds' @ [d]" "length ds' = length cs"
    by (metis length_append_singleton length_Suc_conv_rev)
  let ?x = "chain_end cr GENESIS cs @ c" and ?y = "chain_end cr GENESIS ds' @ d"
  have eq: "cr_hash cr ?x = cr_hash cr ?y"
    using snoc.prems(2) ds by (simp add: chain_end_append chain_hash_def)
  show ?case
  proof (cases "?x = ?y")
    case True
    then have "chain_end cr GENESIS cs = chain_end cr GENESIS ds'" "c = d"
      by (simp_all add: append_eq_append_conv length_chain_end [OF assms])
    with snoc.IH [of ds'] ds show ?thesis
      by (auto simp: chain_collision_def chain_inputs_append)
  next
    case False
    with eq ds show ?thesis
      by (auto simp: chain_collision_def chain_inputs_append)
  qed
qed

subsection \<open>Reading back\<close>

lemma i64_as_u64_nat: "n < 2 ^ 64 \<Longrightarrow> i64_as_u64 (int n) = n"
  by (simp add: i64_as_u64_def)

lemma chain_rows_pairs:
  "map (\<lambda>r. (row_seq r, row_content r)) (chain_rows cr n p cs) =
     map (\<lambda>i. (n + int i, cs ! i)) [0..<length cs]"
  by (rule nth_equalityI)
     (simp_all add: chain_rows_nth)

lemma sql_limit_take: "n < 2 ^ 63 \<Longrightarrow> sql_limit n xs = take n xs"
  by (simp add: sql_limit_def i64_wrap_id is_i64_def Let_def)

lemma audit_tail_intact:
  assumes ok: "chain_intact cr (al_db lg) cs" and small: "length cs < 2 ^ 63" and n: "n < 2 ^ 63"
  shows "audit_tail de lg n =
           map (\<lambda>i. (i + 1, read_entry de (cs ! i))) [length cs - n ..< length cs]"
proof -
  let ?rows = "chain_rows cr 1 GENESIS cs"
  have "audit_tail de lg n =
      drop (length cs - n) (map (\<lambda>(s, c). (i64_as_u64 s, read_entry de c))
        (map (\<lambda>r. (row_seq r, row_content r)) ?rows))"
    using ok n
    by (simp add: audit_tail_def chain_intact_def sql_limit_take rev_map take_rev o_def drop_map)
  also have "\<dots> = map (\<lambda>i. (i + 1, read_entry de (cs ! i))) [length cs - n ..< length cs]"
    unfolding chain_rows_pairs using small
    by (simp add: drop_map o_def i64_as_u64_nat flip: of_nat_Suc)
  finally show ?thesis .
qed

subsection \<open>Example log\<close>

definition ex_entry :: audit_entry where
  "ex_entry = for_decision
     \<lparr>act_id = ''a1'', act_kind = K_Exec, act_tool = ''sh'', act_args = JNull,
      act_capability = None,
      act_context = \<lparr>ctx_timestamp_ms = 0, ctx_source = ''t'', ctx_session = None, ctx_host = None,
        ctx_principal = None, ctx_path = None, ctx_extra = []\<rparr>\<rparr> Allow None None None False"

definition ex_ser :: "audit_entry \<Rightarrow> (string, string) result" where
  "ex_ser e = Inr (ae_action_id e)"

definition ex_lg0 :: "bool audit_log" where
  "ex_lg0 = open_signed empty_db True"

definition ex_lg1 :: "bool audit_log" where
  "ex_lg1 = audit_op ex_crypto ex_ser (True, ex_entry) ex_lg0"

lemma ex_lg0_intact: "audit_intact ex_crypto ex_lg0" "log_contents (al_db ex_lg0) = []"
  by (simp_all add: audit_intact_def ex_lg0_def open_signed_def verify_chain_ok_iff
        chain_intact_contents [OF from_conn_empty] from_conn_empty)

lemma ex_written: "written ex_ser (True, ex_entry) = [''a1'']"
  by (simp add: written_def ex_ser_def ex_entry_def for_decision_def)

lemma ex_lg0_key: "al_key ex_lg0 = Some True"
  by (simp add: ex_lg0_def open_signed_def from_conn_def)

lemma ex_crypto_sign: "cr_sign ex_crypto = ex_sign" "cr_public ex_crypto = id"
  "cr_hash ex_crypto = pad 32" "cr_verify ex_crypto = (\<lambda>vk m s. s = ex_sign vk m)"
  by (simp_all add: ex_crypto_def)

lemma ex_lg1_intact:
  "chain_intact ex_crypto (al_db ex_lg1) [''a1'']"
  "db_sig (al_db ex_lg1) =
     Some (ex_sign True (head_message 1 (chain_end ex_crypto GENESIS [''a1''])))"
  "al_key ex_lg1 = Some True"
  using audit_op_step [OF ex_lg0_intact(1), of ex_ser "(True, ex_entry)"]
    audit_op_signed [OF ex_lg0_intact(1), of True ex_ser "(True, ex_entry)"] ex_lg0_key
  unfolding ex_lg0_intact(2) ex_written ex_lg1_def
  by (simp_all add: audit_room_def ex_crypto_sign del: chain_end.simps)
     (simp add: audit_op_def)

subsection \<open>Properties\<close>

text \<open>
  what verification accepts. The walk and the head comparison succeed exactly on the
  canonical chain of some contents (sequence numbers 1, 2, 3, ... without a gap, each row linked
  to the one before and carrying the hash of its own content) whose last number and hash are
  the recorded head, and then return that head.
\<close>

theorem audit_verify_chain_iff:
  "verify_chain cr db = Inr (s, h) \<longleftrightarrow>
     (\<exists>cs. select_asc db = chain_rows cr 1 GENESIS cs \<and> s = int (length cs)
        \<and> h = chain_end cr GENESIS cs \<and> db_head db = Some (s, h))"
proof
  assume "verify_chain cr db = Inr (s, h)"
  then show "\<exists>cs. select_asc db = chain_rows cr 1 GENESIS cs \<and> s = int (length cs)
        \<and> h = chain_end cr GENESIS cs \<and> db_head db = Some (s, h)"
    by (intro exI [of _ "log_contents db"]) (simp add: verify_chain_Inr_iff chain_intact_def)
next
  assume "\<exists>cs. select_asc db = chain_rows cr 1 GENESIS cs \<and> s = int (length cs)
        \<and> h = chain_end cr GENESIS cs \<and> db_head db = Some (s, h)"
  then show "verify_chain cr db = Inr (s, h)"
    by (auto intro!: verify_chain_intact simp: chain_intact_def)
qed

text \<open>
  the log is append-only and stays verifiable. From a log that verifies, any sequence of
  appends (of which serde or SQLite may fail any) keeps every recorded entry, in order, adds
  exactly the entries whose append succeeded, and leaves a log that verifies, as long as the
  sequence number stays in an \<open>i64\<close>.
\<close>

theorem audit_append_only:
  assumes "is_ok (verify_chain cr (al_db lg))"
    and "length (db_rows (al_db lg)) + length ops < 2 ^ 63"
  shows "is_ok (verify_chain cr (al_db (fold (audit_op cr ser) ops lg)))
         \<and> log_contents (al_db (fold (audit_op cr ser) ops lg)) =
             log_contents (al_db lg) @ concat (map (written ser) ops)"
proof -
  have "length (log_contents (al_db lg)) + length ops \<le> audit_room"
    using assms(2) by (simp add: audit_room_def)
  from audit.run_append [OF _ this, of cr ser] audit.run_intact [OF _ this, of cr ser] assms(1)
  show ?thesis
    by (simp add: audit_intact_def)
qed

theorem audit_append_only_witness:
  "log_contents (al_db (fold (audit_op ex_crypto ex_ser)
      [(True, ex_entry), (False, ex_entry), (True, ex_entry)] (open_log empty_db)))
     = [''a1'', ''a1'']"
proof -
  have "is_ok (verify_chain ex_crypto (al_db (open_log empty_db :: bool audit_log)))"
    unfolding open_log_def by (simp add: verify_chain_intact [OF from_conn_empty])
  moreover have "log_contents (al_db (open_log empty_db :: bool audit_log)) = []"
    unfolding open_log_def by (rule chain_intact_contents [OF from_conn_empty])
  ultimately show ?thesis
    using audit_append_only [of ex_crypto "open_log empty_db"
        "[(True, ex_entry), (False, ex_entry), (True, ex_entry)]" ex_ser]
    by (simp add: open_log_def from_conn_def empty_db_def written_def ex_ser_def ex_entry_def
          for_decision_def)
qed

text \<open>
  C7: tamper evidence. Two databases that both verify with the same head record the same
  entries in the same order, unless two of the strings hashed while verifying them collide.
  So any edit, reordering, insertion or deletion under an unchanged head is detected.
\<close>

theorem audit_tamper_evident:
  assumes "crypto_ok cr" and "verify_chain cr db = Inr (s, h)" and "verify_chain cr db' = Inr (s, h)"
  shows "log_contents db = log_contents db'
         \<or> chain_collision cr (log_contents db) (log_contents db')"
  using assms(2,3) chain_end_inj [OF assms(1), of "log_contents db" "log_contents db'"]
  by (simp add: verify_chain_Inr_iff)

theorem audit_tamper_evident_witness:
  "\<exists>s h. verify_chain ex_crypto (al_db ex_lg1) = Inr (s, h)
     \<and> (log_contents (al_db ex_lg1) = log_contents (al_db ex_lg1)
        \<or> chain_collision ex_crypto (log_contents (al_db ex_lg1)) (log_contents (al_db ex_lg1)))"
  using audit_tamper_evident [OF ex_crypto_ok verify_chain_intact [OF ex_lg1_intact(1)]
      verify_chain_intact [OF ex_lg1_intact(1)]] verify_chain_intact [OF ex_lg1_intact(1)]
  by blast

text \<open>
  C17: what a signed head proves. Let \<open>hist\<close> be the entries the key holder appended, in order,
  and suppose the stored signature is valid only for messages the holder signed (one per
  append). If a signed log verifies, its entries are a non-empty prefix of \<open>hist\<close>, unless
  two hashed strings collide: entries cannot be forged, reordered or removed from the middle.
  What verification cannot exclude is a rollback to an earlier signed state.
\<close>

theorem signed_log_authentic:
  assumes cr: "crypto_ok cr" and ok: "audit_verify cr lg = Inr ()" and key: "al_key lg = Some k"
    and len: "length (db_rows (al_db lg)) < 2 ^ 63" "length hist < 2 ^ 63"
    and unforgeable: "\<And>sig s h. db_sig (al_db lg) = Some sig \<Longrightarrow> length h = 32 \<Longrightarrow>
       cr_verify cr (cr_public cr k) (head_message s h) sig \<Longrightarrow>
       \<exists>n. 0 < n \<and> n \<le> length hist \<and>
         head_message s h = head_message (int n) (chain_end cr GENESIS (take n hist))"
  shows "log_contents (al_db lg) \<noteq> [] \<and> prefix (log_contents (al_db lg)) hist
         \<or> chain_collision cr (log_contents (al_db lg))
              (take (length (log_contents (al_db lg))) hist)"
proof -
  let ?cs = "log_contents (al_db lg)"
  let ?s = "int (length ?cs)" and ?h = "chain_end cr GENESIS ?cs"
  obtain sig where sig: "db_sig (al_db lg) = Some sig"
    and v: "cr_verify cr (cr_public cr k) (head_message ?s ?h) sig"
    using ok key
    by (auto simp: audit_verify_def verify_head_sig_def verify_chain_Inr_iff
          split: sum.splits option.splits if_splits)
  have l32: "length ?h = 32"
    by (rule length_chain_end [OF cr length_GENESIS])
  from unforgeable [OF sig l32 v] obtain n where n: "0 < n" "n \<le> length hist"
    and m: "head_message ?s ?h = head_message (int n) (chain_end cr GENESIS (take n hist))"
    by blast
  from m have le: "le_bytes 8 ?s = le_bytes 8 (int n)"
    and h: "?h = chain_end cr GENESIS (take n hist)"
    by (simp_all add: head_message_def)
  have "?s = int n"
    using le len n by (intro le_bytes_i64_inj) (simp_all add: is_i64_def)
  then have ln: "length ?cs = n" by simp
  with n have "length ?cs = length (take n hist)" by simp
  from chain_end_inj [OF cr this h] show ?thesis
    using n ln by (auto simp: take_is_prefix)
qed

theorem signed_log_authentic_witness:
  "prefix (log_contents (al_db ex_lg1)) [''a1'', ''a2'']
   \<or> chain_collision ex_crypto (log_contents (al_db ex_lg1)) [''a1'']"
proof -
  note c = chain_intact_contents [OF ex_lg1_intact(1)]
  have ok: "audit_verify ex_crypto ex_lg1 = Inr ()"
    by (simp add: audit_verify_def verify_chain_intact [OF ex_lg1_intact(1)] ex_lg1_intact
          verify_head_sig_def ex_crypto_sign ex_sign_def del: chain_end.simps)
  have "log_contents (al_db ex_lg1) \<noteq> [] \<and> prefix (log_contents (al_db ex_lg1)) [''a1'', ''a2'']
        \<or> chain_collision ex_crypto (log_contents (al_db ex_lg1))
             (take (length (log_contents (al_db ex_lg1))) [''a1'', ''a2''])"
  proof (rule signed_log_authentic [OF ex_crypto_ok ok ex_lg1_intact(3)])
    fix sig s h
    assume sig: "db_sig (al_db ex_lg1) = Some sig" and h: "length (h :: string) = 32"
      and v: "cr_verify ex_crypto (cr_public ex_crypto True) (head_message s h) sig"
    let ?m = "head_message 1 (chain_end ex_crypto GENESIS [''a1''])"
    have l: "length (head_message s h) = 40" "length ?m = 40"
      using h by (simp_all add: head_message_def length_chain_end [OF ex_crypto_ok] del: chain_end.simps)
    from sig v have "ex_sign True ?m = ex_sign True (head_message s h)"
      by (simp add: ex_lg1_intact(2) ex_crypto_sign del: chain_end.simps)
    with l have "head_message s h = ?m"
      by (simp add: ex_sign_def pad_def)
    then show "\<exists>n. 0 < n \<and> n \<le> length [''a1'', ''a2''] \<and> head_message s h =
        head_message (int n) (chain_end ex_crypto GENESIS (take n [''a1'', ''a2'']))"
      by (intro exI [of _ 1]) simp
  qed (simp_all add: chain_intact_length [OF ex_lg1_intact(1)])
  with c show ?thesis by simp
qed

text \<open>
  C35: an honest signed log is accepted. After a successful append to a log that verifies its
  chain, \<open>verify\<close> succeeds with the signing key, and \<open>verify_with_pubkey\<close> succeeds with the hex
  form of the matching public key.
\<close>

theorem signed_append_accepted:
  assumes "crypto_ok cr" and "is_ok (verify_chain cr (al_db lg))"
    and "length (db_rows (al_db lg)) < 2 ^ 63 - 1" and "al_key lg = Some k"
    and "audit_append cr ser io lg e = (Inr n, lg')"
  shows "audit_verify cr lg' = Inr ()
         \<and> verify_with_pubkey cr lg' (cr_hex_encode cr (cr_key_bytes cr (cr_public cr k))) = Inr ()
         \<and> n = length (db_rows (al_db lg)) + 1"
proof -
  let ?cs = "log_contents (al_db lg)"
  have ok: "audit_intact cr lg" and room: "length ?cs < audit_room"
    and ci: "chain_intact cr (al_db lg) ?cs"
    using assms(2,3) by (simp_all add: audit_intact_def audit_room_def verify_chain_ok_iff)
  have lg': "lg' = audit_op cr ser (io, e) lg"
    using assms(5) by (simp add: audit_op_def)
  obtain c where w: "written ser (io, e) = [c]" and n: "n = length ?cs + 1"
    using assms(5) audit_append_intact [OF ci room, of ser io e]
    by (auto simp: written_def Let_def split: sum.splits if_splits)
  note step = audit_op_step [OF ok room, of ser "(io, e)", folded lg', unfolded w]
  have sig: "db_sig (al_db lg') =
      Some (cr_sign cr k (head_message (int (length (?cs @ [c]))) (chain_end cr GENESIS (?cs @ [c]))))"
    using audit_op_signed [OF ok room assms(4), of ser "(io, e)"] by (simp add: lg' w add.commute)
  have key: "al_key lg' = Some k"
    using assms(4) by (simp add: lg' audit_op_def)
  have "verify_head_sig cr (al_db lg') (int (length (?cs @ [c]))) (chain_end cr GENESIS (?cs @ [c]))
          (cr_public cr k) = Inr ()"
    by (simp add: verify_head_sig_def sig crypto_okD(2,3) [OF assms(1)])
  then show ?thesis
    using n by (simp add: audit_verify_def verify_with_pubkey_def key verify_chain_intact [OF step]
          crypto_okD(4-7) [OF assms(1)])
qed

theorem signed_append_accepted_witness:
  "audit_verify ex_crypto ex_lg1 = Inr ()"
proof -
  have "audit_append ex_crypto ex_ser True ex_lg0 ex_entry = (Inr 1, ex_lg1)"
    using audit_append_intact [of ex_crypto ex_lg0 "[]" ex_ser True ex_entry] ex_lg0_intact
    by (intro prod_eqI)
       (simp_all add: audit_intact_def verify_chain_ok_iff ex_lg1_def audit_op_def audit_room_def
         ex_ser_def Let_def)
  then show ?thesis
    using signed_append_accepted [OF ex_crypto_ok, of ex_lg0 True ex_ser True ex_entry 1 ex_lg1]
      ex_lg0_intact(1) ex_lg0_key
    by (simp add: audit_intact_def ex_lg0_def open_signed_def from_conn_def empty_db_def)
qed

text \<open>
  a signed log that was just created is reported as tampered with: it verifies only once
  something has been appended, because the signature row is written by \<open>append\<close> alone.
\<close>

theorem fresh_signed_log_rejected:
  "audit_verify cr (open_signed empty_db key) = Inl (AE_Tampered ''head signature is missing'')"
  using verify_chain_intact [OF from_conn_empty, of cr "Some key"]
  by (simp add: audit_verify_def open_signed_def)
     (simp add: from_conn_def empty_db_def verify_head_sig_def)

text \<open>
  browsing shows what was recorded. On a log that verifies, \<open>tail n\<close> lists the last \<open>n\<close>
  entries (or all), oldest first, each with its sequence number; an entry whose text does not
  parse is shown as the placeholder and hides no other.
\<close>

theorem audit_tail_lists_recorded:
  assumes "is_ok (verify_chain cr (al_db lg))" and "length (db_rows (al_db lg)) < 2 ^ 63"
    and "n < 2 ^ 63"
  shows "audit_tail de lg n =
           (let cs = log_contents (al_db lg)
            in map (\<lambda>i. (i + 1, read_entry de (cs ! i))) [length cs - n ..< length cs])"
  using audit_tail_intact [of cr lg "log_contents (al_db lg)" n de] assms
  by (simp add: verify_chain_ok_iff Let_def)

theorem audit_tail_lists_recorded_witness:
  "audit_tail (\<lambda>_. None) ex_lg1 5 = [(1, unreadable_entry)]"
proof -
  have "is_ok (verify_chain ex_crypto (al_db ex_lg1))"
    by (simp add: verify_chain_intact [OF ex_lg1_intact(1)])
  from audit_tail_lists_recorded [OF this, of 5 "\<lambda>_. None"] show ?thesis
    by (simp add: chain_intact_contents [OF ex_lg1_intact(1)]
          chain_intact_length [OF ex_lg1_intact(1)] read_entry_def)
qed

end
