(* ===== verification/Report.thy ===== *)
theory Report
  imports Audit_Log "HOL-Library.Multiset" "HOL-Library.Product_Lexorder"
begin

text \<open>
  \<open>guardian-audit/src/report.rs\<close>: the periodic report over a window of audit entries and
  its suggestions to relax a rule. The two hash maps of the code are folded over and then
  sorted by a total order, so that the model sorts by the same keys (count descending, then
  label).
\<close>

definition MIN_OCCURRENCES_FOR_SUGGESTION :: nat where
  "MIN_OCCURRENCES_FOR_SUGGESTION = 3"

definition TOP_BLOCKED :: nat where
  "TOP_BLOCKED = 5"

record label_count =
  lc_label :: string
  lc_count :: nat

record suggestion =
  sug_label :: string
  sug_asked :: nat
  sug_text :: string

record report =
  rep_total :: nat
  rep_allows :: nat
  rep_asks :: nat
  rep_denies :: nat
  rep_blocked :: "label_count list"
  rep_suggestions :: "suggestion list"

record ask_group =
  ag_asked :: nat
  ag_approved :: nat
  ag_critical :: bool

definition label_of :: "audit_entry \<Rightarrow> string" where
  "label_of e = (case ae_matched_rule e of Some r \<Rightarrow> r | None \<Rightarrow> ae_action_kind e)"

definition default_group :: ask_group where
  "default_group = \<lparr>ag_asked = 0, ag_approved = 0, ag_critical = False\<rparr>"

text \<open>\<open>map.entry(k).or_default()\<close>, then modified in place.\<close>

definition hm_upsert :: "'v \<Rightarrow> 'k \<Rightarrow> ('v \<Rightarrow> 'v) \<Rightarrow> ('k, 'v) hashmap \<Rightarrow> ('k, 'v) hashmap" where
  "hm_upsert d k f m = AList.update k (f (case map_of m k of Some v \<Rightarrow> v | None \<Rightarrow> d)) m"

definition group_add :: "audit_entry \<Rightarrow> ask_group \<Rightarrow> ask_group" where
  "group_add e g =
     \<lparr>ag_asked = ag_asked g + 1,
      ag_approved =
        (if ae_user_response e = Some ''approved'' then ag_approved g + 1 else ag_approved g),
      ag_critical = ag_critical g \<or> ae_critical e\<rparr>"

record tally =
  ta_report :: report
  ta_blocked :: "(string, nat) hashmap"
  ta_asks :: "(string, ask_group) hashmap"

definition report_step :: "audit_entry \<Rightarrow> tally \<Rightarrow> tally" where
  "report_step e t =
     (let r = ta_report t in
      if ae_decision e = ''allow'' then t\<lparr>ta_report := r\<lparr>rep_allows := rep_allows r + 1\<rparr>\<rparr>
      else if ae_decision e = ''deny'' then
        t\<lparr>ta_report := r\<lparr>rep_denies := rep_denies r + 1\<rparr>,
          ta_blocked := hm_upsert 0 (label_of e) (\<lambda>n. n + 1) (ta_blocked t)\<rparr>
      else if ae_decision e = ''ask'' then
        t\<lparr>ta_report := r\<lparr>rep_asks := rep_asks r + 1\<rparr>,
          ta_asks := hm_upsert default_group (label_of e) (group_add e) (ta_asks t)\<rparr>
      else t)"

text \<open>\<open>sort_by(|a, b| b.count.cmp(&a.count).then(a.label.cmp(&b.label)))\<close>.\<close>

definition top_counts :: "(string, nat) hashmap \<Rightarrow> nat \<Rightarrow> label_count list" where
  "top_counts m n =
     take n (sort_key (\<lambda>c. (- int (lc_count c), lc_label c))
               (map (\<lambda>(label, count). \<lparr>lc_label = label, lc_count = count\<rparr>) m))"

definition suggestible :: "ask_group \<Rightarrow> bool" where
  "suggestible g \<longleftrightarrow>
     \<not> ag_critical g \<and> ag_asked g \<ge> MIN_OCCURRENCES_FOR_SUGGESTION \<and> ag_approved g = ag_asked g"

definition suggestion_of :: "string \<Rightarrow> nat \<Rightarrow> suggestion" where
  "suggestion_of label n =
     \<lparr>sug_label = label, sug_asked = n,
      sug_text = [CHR 0x27] @ label @ [CHR 0x27] @ '' was asked '' @ dec_nat n
        @ '' times and you approved every one '' @ [CHR 0xE2, CHR 0x80, CHR 0x94]
        @ '' consider an allow rule. (Review first; Guardian never applies this automatically.)''\<rparr>"

definition empty_tally :: "nat \<Rightarrow> tally" where
  "empty_tally n =
     \<lparr>ta_report = \<lparr>rep_total = n, rep_allows = 0, rep_asks = 0, rep_denies = 0, rep_blocked = [],
                   rep_suggestions = []\<rparr>,
      ta_blocked = [], ta_asks = []\<rparr>"

definition build_report :: "audit_entry list \<Rightarrow> report" where
  "build_report es =
     (let t = fold report_step es (empty_tally (length es))
      in (ta_report t)
           \<lparr>rep_blocked := top_counts (ta_blocked t) TOP_BLOCKED,
            rep_suggestions :=
              sort_key (\<lambda>s. (- int (sug_asked s), sug_label s))
                (map (\<lambda>(label, g). suggestion_of label (ag_asked g))
                   (filter (\<lambda>(_, g). suggestible g) (ta_asks t)))\<rparr>)"

subsection \<open>What the tallies hold\<close>

definition asks_of :: "string \<Rightarrow> audit_entry list \<Rightarrow> audit_entry list" where
  "asks_of l es = filter (\<lambda>e. ae_decision e = ''ask'' \<and> label_of e = l) es"

definition denies_of :: "string \<Rightarrow> audit_entry list \<Rightarrow> audit_entry list" where
  "denies_of l es = filter (\<lambda>e. ae_decision e = ''deny'' \<and> label_of e = l) es"

definition group_of :: "audit_entry list \<Rightarrow> ask_group" where
  "group_of es =
     \<lparr>ag_asked = length es,
      ag_approved = length (filter (\<lambda>e. ae_user_response e = Some ''approved'') es),
      ag_critical = list_ex ae_critical es\<rparr>"

definition decided :: "string \<Rightarrow> audit_entry list \<Rightarrow> nat" where
  "decided d es = length (filter (\<lambda>e. ae_decision e = d) es)"

lemma map_of_upsert [simp]:
  "map_of (hm_upsert d k f m) =
     (map_of m)(k \<mapsto> f (case map_of m k of Some v \<Rightarrow> v | None \<Rightarrow> d))"
  by (simp add: hm_upsert_def)

lemma hm_ok_upsert [simp, preserves]: "hm_ok m \<Longrightarrow> hm_ok (hm_upsert d k f m)"
  by (simp add: hm_upsert_def)

definition tally_ok :: "nat \<Rightarrow> audit_entry list \<Rightarrow> tally \<Rightarrow> bool" where
  "tally_ok n es t \<longleftrightarrow>
     hm_ok (ta_blocked t) \<and> hm_ok (ta_asks t)
     \<and> ta_report t = \<lparr>rep_total = n, rep_allows = decided ''allow'' es,
          rep_asks = decided ''ask'' es, rep_denies = decided ''deny'' es, rep_blocked = [],
          rep_suggestions = []\<rparr>
     \<and> (\<forall>l. map_of (ta_blocked t) l =
            (if denies_of l es = [] then None else Some (length (denies_of l es))))
     \<and> (\<forall>l. map_of (ta_asks t) l =
            (if asks_of l es = [] then None else Some (group_of (asks_of l es))))"

lemma tally_ok_step:
  assumes "tally_ok n es t"
  shows "tally_ok n (es @ [e]) (report_step e t)"
proof -
  have "group_add e (group_of xs) = group_of (xs @ [e])" for xs
    by (simp add: group_add_def group_of_def)
  moreover have "default_group = group_of []"
    by (simp add: default_group_def group_of_def)
  ultimately have g: "group_add e (if xs = [] then default_group else group_of xs)
      = group_of (xs @ [e])" for xs
    by metis
  consider "ae_decision e = ''allow''" | "ae_decision e = ''deny''" | "ae_decision e = ''ask''"
    | "ae_decision e \<notin> {''allow'', ''deny'', ''ask''}"
    by blast
  then show ?thesis
  proof cases
    case 3
    have "map_of (ta_asks (report_step e t)) l =
        (if asks_of l (es @ [e]) = [] then None else Some (group_of (asks_of l (es @ [e]))))" for l
      using assms 3 g [of "asks_of l es"]
      by (auto simp: tally_ok_def report_step_def Let_def asks_of_def split: if_splits)
    with assms 3 show ?thesis
      by (simp add: tally_ok_def report_step_def Let_def decided_def denies_of_def)
  qed (use assms in \<open>auto simp: tally_ok_def report_step_def Let_def decided_def denies_of_def
        asks_of_def split: if_splits\<close>)
qed

lemma tally_ok_fold: "tally_ok n es t \<Longrightarrow> tally_ok n (es @ fs) (fold report_step fs t)"
proof (induction fs arbitrary: es t)
  case Nil
  then show ?case by simp
next
  case (Cons f fs)
  from Cons.IH [OF tally_ok_step [OF Cons.prems]] show ?case by simp
qed

lemma tally_ok_empty: "tally_ok n [] (empty_tally n)"
  by (simp add: tally_ok_def empty_tally_def decided_def denies_of_def asks_of_def)

lemma tally_ok_run: "tally_ok n es (fold report_step es (empty_tally n))"
  using tally_ok_fold [OF tally_ok_empty, of n es] by simp

lemma sort_key_unique:
  assumes "mset xs = mset ys" and "inj_on f (set xs)"
  shows "sort_key f xs = sort_key (f :: 'a \<Rightarrow> 'k :: linorder) ys"
  by (rule sort_key_inj_key_eq) (use assms in simp_all)

lemma hm_mset_eq:
  assumes "hm_ok m" and "hm_ok m'" and "map_of m = map_of m'"
  shows "mset m = mset m'"
proof -
  have "set m = set m'"
    using assms by (auto simp: hm_in_set_iff)
  then show ?thesis
    using assms by (simp add: hm_ok_def distinct_map set_eq_iff_mset_eq_distinct)
qed

lemma length_filter_all_iff: "length (filter P xs) = length xs \<longleftrightarrow> (\<forall>x \<in> set xs. P x)"
proof (induction xs)
  case Nil
  then show ?case by simp
next
  case (Cons x xs)
  have "length (filter P xs) \<noteq> Suc (length xs)"
    using length_filter_le [of P xs] by linarith
  with Cons show ?case by auto
qed

lemma suggestion_label [simp]: "sug_label (suggestion_of l n) = l" "sug_asked (suggestion_of l n) = n"
  by (simp_all add: suggestion_of_def)

subsection \<open>Properties\<close>

text \<open>
  when the report suggests relaxing a rule. A suggestion is made for a label exactly
  if the window holds at least three \<open>ask\<close> entries with that label, every one of them was
  approved, and none of them was in a critical category; its count is theirs.
\<close>

theorem report_suggests_iff:
  "s \<in> set (rep_suggestions (build_report es)) \<longleftrightarrow>
     (\<exists>l. s = suggestion_of l (length (asks_of l es))
        \<and> 3 \<le> length (asks_of l es)
        \<and> (\<forall>e \<in> set (asks_of l es). ae_user_response e = Some ''approved'' \<and> \<not> ae_critical e))"
proof -
  let ?t = "fold report_step es (empty_tally (length es))"
  note ok = tally_ok_run [of "length es" es, unfolded tally_ok_def]
  have sugg: "suggestible (group_of xs) \<longleftrightarrow> 3 \<le> length xs \<and>
      (\<forall>e \<in> set xs. ae_user_response e = Some ''approved'' \<and> \<not> ae_critical e)" for xs
    by (auto simp: suggestible_def group_of_def MIN_OCCURRENCES_FOR_SUGGESTION_def list_ex_iff
          length_filter_all_iff)
  have "s \<in> set (rep_suggestions (build_report es)) \<longleftrightarrow>
      (\<exists>l g. map_of (ta_asks ?t) l = Some g \<and> suggestible g \<and> s = suggestion_of l (ag_asked g))"
    using ok by (auto simp: build_report_def Let_def image_iff hm_in_set_iff)
  also have "\<dots> \<longleftrightarrow> (\<exists>l. asks_of l es \<noteq> [] \<and> suggestible (group_of (asks_of l es))
      \<and> s = suggestion_of l (length (asks_of l es)))"
    using ok by (auto simp: group_of_def split: if_splits)
  also have "\<dots> \<longleftrightarrow> (\<exists>l. s = suggestion_of l (length (asks_of l es))
      \<and> 3 \<le> length (asks_of l es)
      \<and> (\<forall>e \<in> set (asks_of l es). ae_user_response e = Some ''approved'' \<and> \<not> ae_critical e))"
    unfolding sugg by (rule iff_exI) force
  finally show ?thesis .
qed

text \<open>
  the report does not depend on the order of the entries, as the code's comment says:
  permuting the window changes no count, no ranking and no suggestion.
\<close>

theorem report_order_independent:
  assumes "mset es = mset es'"
  shows "build_report es = build_report es'"
proof -
  let ?t = "fold report_step es (empty_tally (length es))"
    and ?t' = "fold report_step es' (empty_tally (length es'))"
  have len: "length es = length es'"
    using assms by (rule mset_eq_length)
  have flt: "length (filter P es) = length (filter P es')" for P
    using assms by (metis mset_filter size_mset)
  have ex: "list_ex P (filter Q es) = list_ex P (filter Q es')" for P Q
    using mset_eq_setD [OF assms] by (auto simp: list_ex_iff)
  note ok = tally_ok_run [of "length es" es, unfolded tally_ok_def]
    and ok' = tally_ok_run [of "length es'" es', unfolded tally_ok_def]
  have nil: "filter P es = [] \<longleftrightarrow> filter P es' = []" for P
    using flt [of P] by (metis length_0_conv)
  have "map_of (ta_blocked ?t) = map_of (ta_blocked ?t')"
    using ok ok' by (auto simp: fun_eq_iff denies_of_def flt nil)
  then have b: "mset (ta_blocked ?t) = mset (ta_blocked ?t')"
    using ok ok' by (intro hm_mset_eq) auto
  have "group_of (asks_of l es) = group_of (asks_of l es')" for l
    by (simp add: group_of_def asks_of_def flt ex)
  then have "map_of (ta_asks ?t) = map_of (ta_asks ?t')"
    using ok ok' by (auto simp: fun_eq_iff asks_of_def nil)
  then have a: "mset (ta_asks ?t) = mset (ta_asks ?t')"
    using ok ok' by (intro hm_mset_eq) auto
  have "ta_report ?t = ta_report ?t'"
    using ok ok' len by (simp add: decided_def flt)
  moreover have "top_counts (ta_blocked ?t) n = top_counts (ta_blocked ?t') n" for n
    unfolding top_counts_def using b
    by (intro arg_cong [where f = "take n"] sort_key_unique) (auto simp: inj_on_def)
  moreover have "sort_key (\<lambda>s. (- int (sug_asked s), sug_label s))
        (map (\<lambda>(label, g). suggestion_of label (ag_asked g))
           (filter (\<lambda>(_, g). suggestible g) (ta_asks ?t)))
      = sort_key (\<lambda>s. (- int (sug_asked s), sug_label s))
        (map (\<lambda>(label, g). suggestion_of label (ag_asked g))
           (filter (\<lambda>(_, g). suggestible g) (ta_asks ?t')))"
    using a by (intro sort_key_unique) (auto simp: inj_on_def)
  ultimately show ?thesis
    by (simp add: build_report_def Let_def)
qed

text \<open>Concrete windows: a rule asked and approved three times, and the same with one denial.\<close>

definition ex_ask :: "string option \<Rightarrow> bool \<Rightarrow> audit_entry" where
  "ex_ask response critical =
     unreadable_entry\<lparr>ae_decision := ''ask'', ae_matched_rule := Some ''r'',
       ae_user_response := response, ae_critical := critical\<rparr>"

theorem report_suggests_iff_witness:
  "(let ok = ex_ask (Some ''approved'') False; no = ex_ask (Some ''denied'') False;
        crit = ex_ask (Some ''approved'') True
    in suggestion_of ''r'' 3 \<in> set (rep_suggestions (build_report [ok, ok, ok]))
       \<and> suggestion_of ''r'' 3 \<notin> set (rep_suggestions (build_report [ok, no, ok]))
       \<and> suggestion_of ''r'' 3 \<notin> set (rep_suggestions (build_report [ok, crit, ok])))"
proof -
  have l: "s = t \<Longrightarrow> sug_label s = sug_label t" for s t
    by simp
  show ?thesis
    unfolding report_suggests_iff Let_def
    by (auto simp: asks_of_def ex_ask_def unreadable_entry_def label_of_def numeral_3_eq_3 dest!: l)
qed

theorem report_order_independent_witness:
  "let ok = ex_ask (Some ''approved'') False; no = ex_ask (Some ''denied'') False
   in build_report [ok, no] = build_report [no, ok]"
  unfolding Let_def by (rule report_order_independent) simp

end
