(* ===== verification/Vault.thy ===== *)
theory Vault
  imports Json Crypto "HOL-Library.Product_Lexorder"
begin

text \<open>
  \<open>guardian-broker/src/vault.rs\<close>: tokenization of carried sensitive values. The operating
  system's random generator is the field \<open>va_rng\<close> of the vault: the draws its future calls of
  \<open>random_id\<close> will see, each \<open>Inr\<close> the bytes or \<open>Inl\<close> the address the code prints when the
  generator is not available. A character boundary and a slice are as in \<open>Rust_Str\<close>.
\<close>

definition PREFIX :: string where
  "PREFIX = ''[[GDN-''"

definition SUFFIX :: string where
  "SUFFIX = '']]''"

definition MIN_KNOWN_LEN :: nat where
  "MIN_KNOWN_LEN = 4"

type_synonym draw = "(string, string) result"

record vault =
  va_known :: "string list"
  va_by_id :: "(string, string) hashmap"
  va_by_value :: "(string, string) hashmap"
  va_rng :: "nat \<Rightarrow> draw"

definition vault_new :: "(nat \<Rightarrow> draw) \<Rightarrow> vault" where
  "vault_new rng = \<lparr>va_known = [], va_by_id = [], va_by_value = [], va_rng = rng\<rparr>"

definition token_count :: "vault \<Rightarrow> nat" where
  "token_count v = length (va_by_id v)"

definition random_id :: "draw \<Rightarrow> string" where
  "random_id d = (case d of Inl addr \<Rightarrow> ''x'' @ addr | Inr b \<Rightarrow> hex_enc b)"

definition learn :: "vault \<Rightarrow> string \<Rightarrow> vault" where
  "learn v value =
     (let t = trim value
      in if length t \<ge> MIN_KNOWN_LEN \<and> t \<notin> set (va_known v)
         then v\<lparr>va_known := va_known v @ [t]\<rparr> else v)"

definition token_text :: "string \<Rightarrow> string" where
  "token_text i = PREFIX @ i @ SUFFIX"

definition token_for :: "vault \<Rightarrow> string \<Rightarrow> string \<times> vault" where
  "token_for v value =
     (case map_of (va_by_value v) value of
        Some i \<Rightarrow> (token_text i, v)
      | None \<Rightarrow>
          (let i = random_id (va_rng v 0)
           in (token_text i,
               v\<lparr>va_by_id := AList.update i value (va_by_id v),
                 va_by_value := AList.update value i (va_by_value v),
                 va_rng := (\<lambda>n. va_rng v (Suc n))\<rparr>)))"

subsection \<open>Detection\<close>

type_synonym span = "nat \<times> nat"

definition slice :: "string \<Rightarrow> nat \<Rightarrow> nat \<Rightarrow> string" where
  "slice s a b = take (b - a) (drop a s)"

definition occurs_ci :: "string \<Rightarrow> string \<Rightarrow> nat \<Rightarrow> bool" where
  "occurs_ci hay needle i \<longleftrightarrow>
     i + length needle \<le> length hay
     \<and> eq_ignore_ascii_case (slice hay i (i + length needle)) needle
     \<and> is_char_boundary hay i \<and> is_char_boundary hay (i + length needle)"

function find_ci_from :: "string \<Rightarrow> string \<Rightarrow> nat \<Rightarrow> span list" where
  "find_ci_from hay needle i =
     (if needle = [] \<or> length hay < i + length needle then []
      else if occurs_ci hay needle i
           then (i, i + length needle) # find_ci_from hay needle (i + length needle)
           else find_ci_from hay needle (Suc i))"
  by pat_completeness auto
termination
  by (relation "measure (\<lambda>(hay, needle, i). Suc (length hay) - i)") (auto simp: neq_Nil_conv)

declare find_ci_from.simps [simp del]

definition find_all_ci :: "string \<Rightarrow> string \<Rightarrow> span list" where
  "find_all_ci hay needle =
     (if needle = [] \<or> length needle > length hay then [] else find_ci_from hay needle 0)"

text \<open>The checksum: \<open>double\<close> is the flag of the next digit, digits are read from the right.\<close>

fun luhn_sum :: "bool \<Rightarrow> string \<Rightarrow> nat" where
  "luhn_sum double [] = 0"
| "luhn_sum double (d # ds) =
     (let v = digit_val d;
          w = (if double then (if v * 2 > 9 then v * 2 - 9 else v * 2) else v)
      in w + luhn_sum (\<not> double) ds)"

definition luhn_ok :: "string \<Rightarrow> bool" where
  "luhn_ok digits = (luhn_sum False (rev digits) mod 10 = 0)"

definition is_run_char :: "char \<Rightarrow> bool" where
  "is_run_char c = (is_ascii_digit c \<or> c = CHR '' '' \<or> c = CHR ''-'')"

text \<open>The inner loop: the end of the run and the position of its last digit.\<close>

function scan_run :: "string \<Rightarrow> nat \<Rightarrow> nat \<Rightarrow> nat \<times> nat" where
  "scan_run tx j last_digit =
     (if j < length tx \<and> is_run_char (tx ! j)
      then scan_run tx (Suc j) (if is_ascii_digit (tx ! j) then j else last_digit)
      else (j, last_digit))"
  by pat_completeness auto
termination
  by (relation "measure (\<lambda>(tx, j, l). length tx - j)") auto

declare scan_run.simps [simp del]

lemma scan_run_ge: "j \<le> fst (scan_run tx j l)"
proof (induction tx j l rule: scan_run.induct)
  case (1 tx j l)
  then show ?case
    by (subst scan_run.simps) (auto dest: Suc_leD)
qed

lemma scan_run_gt: "i < length tx \<Longrightarrow> is_ascii_digit (tx ! i) \<Longrightarrow> i < fst (scan_run tx i l)"
  using scan_run_ge [of "Suc i" tx i]
  by (subst scan_run.simps) (simp add: is_run_char_def)

function card_spans_from :: "string \<Rightarrow> nat \<Rightarrow> span list" where
  "card_spans_from tx i =
     (if i < length tx
      then if is_ascii_digit (tx ! i)
           then (let j = fst (scan_run tx i i); last_digit = snd (scan_run tx i i);
                     digits = filter is_ascii_digit (slice tx i j)
                 in (if 13 \<le> length digits \<and> length digits \<le> 19 \<and> luhn_ok digits
                     then (i, last_digit + 1) # card_spans_from tx j
                     else card_spans_from tx j))
           else card_spans_from tx (Suc i)
      else [])"
  by pat_completeness auto
termination
  by (relation "measure (\<lambda>(tx, i). length tx - i)")
     (auto intro: diff_less_mono2 scan_run_gt)

declare card_spans_from.simps [simp del]

definition find_card_spans :: "string \<Rightarrow> span list" where
  "find_card_spans tx = card_spans_from tx 0"

subsection \<open>Tokenizing and restoring\<close>

definition candidate_spans :: "string list \<Rightarrow> string \<Rightarrow> span list" where
  "candidate_spans known tx =
     sort_key (\<lambda>(s, e). (int s, - int e))
       (concat (map (find_all_ci tx) known) @ find_card_spans tx)"

fun replace_spans :: "string \<Rightarrow> span list \<Rightarrow> nat \<Rightarrow> vault \<Rightarrow> string \<times> vault" where
  "replace_spans tx [] pos v = (drop pos tx, v)"
| "replace_spans tx ((s, e) # spans) pos v =
     (if s < pos then replace_spans tx spans pos v
      else (case token_for v (slice tx s e) of
              (tok, v1) \<Rightarrow>
                (case replace_spans tx spans e v1 of
                   (out, v2) \<Rightarrow> (slice tx pos s @ tok @ out, v2))))"

definition tokenize :: "vault \<Rightarrow> string \<Rightarrow> string \<times> vault" where
  "tokenize v tx = replace_spans tx (candidate_spans (va_known v) tx) 0 v"

lemma drop_after_find:
  "find_sub PREFIX rest = Some start \<Longrightarrow> length (drop (start + length PREFIX) rest) < length rest"
  by (drule find_sub_length) (simp add: PREFIX_def)

function detok :: "(string, string) hashmap \<Rightarrow> string \<Rightarrow> string" where
  "detok by_id rest =
     (case find_sub PREFIX rest of
        None \<Rightarrow> rest
      | Some start \<Rightarrow>
          (let after = drop (start + length PREFIX) rest
           in take start rest @
              (case find_sub SUFFIX after of
                 Some end_at \<Rightarrow>
                   (let i = take end_at after
                    in (case map_of by_id i of Some v \<Rightarrow> v | None \<Rightarrow> token_text i)
                       @ detok by_id (drop (end_at + length SUFFIX) after))
               | None \<Rightarrow> PREFIX @ after)))"
  by pat_completeness auto
termination
  by (relation "measure (\<lambda>(m, rest). length rest)") (auto dest!: drop_after_find)

declare detok.simps [simp del]

definition detokenize :: "vault \<Rightarrow> string \<Rightarrow> string" where
  "detokenize v tx = detok (va_by_id v) tx"

text \<open>The recursion over JSON values; the keys of an object are left alone.\<close>

fun tokenize_json :: "vault \<Rightarrow> json \<Rightarrow> json \<times> vault"
and tokenize_array :: "vault \<Rightarrow> json list \<Rightarrow> json list \<times> vault"
and tokenize_object :: "vault \<Rightarrow> (string \<times> json) list \<Rightarrow> (string \<times> json) list \<times> vault" where
  "tokenize_json v (JStr s) = (case tokenize v s of (t, v1) \<Rightarrow> (JStr t, v1))"
| "tokenize_json v (JArr xs) = (case tokenize_array v xs of (ys, v1) \<Rightarrow> (JArr ys, v1))"
| "tokenize_json v (JObj kvs) = (case tokenize_object v kvs of (ys, v1) \<Rightarrow> (JObj ys, v1))"
| "tokenize_json v JNull = (JNull, v)"
| "tokenize_json v (JBool b) = (JBool b, v)"
| "tokenize_json v (JInt i) = (JInt i, v)"
| "tokenize_json v (JFloat f) = (JFloat f, v)"
| "tokenize_array v [] = ([], v)"
| "tokenize_array v (x # xs) =
     (case tokenize_json v x of
        (y, v1) \<Rightarrow> (case tokenize_array v1 xs of (ys, v2) \<Rightarrow> (y # ys, v2)))"
| "tokenize_object v [] = ([], v)"
| "tokenize_object v ((k, x) # kvs) =
     (case tokenize_json v x of
        (y, v1) \<Rightarrow> (case tokenize_object v1 kvs of (ys, v2) \<Rightarrow> ((k, y) # ys, v2)))"

fun detokenize_json :: "vault \<Rightarrow> json \<Rightarrow> json"
and detokenize_array :: "vault \<Rightarrow> json list \<Rightarrow> json list"
and detokenize_object :: "vault \<Rightarrow> (string \<times> json) list \<Rightarrow> (string \<times> json) list" where
  "detokenize_json v (JStr s) = JStr (detokenize v s)"
| "detokenize_json v (JArr xs) = JArr (detokenize_array v xs)"
| "detokenize_json v (JObj kvs) = JObj (detokenize_object v kvs)"
| "detokenize_json v JNull = JNull"
| "detokenize_json v (JBool b) = JBool b"
| "detokenize_json v (JInt i) = JInt i"
| "detokenize_json v (JFloat f) = JFloat f"
| "detokenize_array v [] = []"
| "detokenize_array v (x # xs) = detokenize_json v x # detokenize_array v xs"
| "detokenize_object v [] = []"
| "detokenize_object v ((k, x) # kvs) = (k, detokenize_json v x) # detokenize_object v kvs"

end
