(* ===== verification/Vault_Laws.thy ===== *)
theory Vault_Laws
  imports Vault
begin

text \<open>
  What the vault guarantees: restoring what it tokenized gives the text back, an unknown token
  expands to nothing, every occurrence of a known value and every card number meets a span that
  was replaced, and the checksum is Luhn's. And what it does not: a known value can stay in the
  clear where two known values overlap.
\<close>

subsection \<open>Finding the markers\<close>

lemma contains_sub_drop: "contains_sub (drop j s) p \<Longrightarrow> contains_sub s p"
proof -
  assume "contains_sub (drop j s) p"
  then obtain a b where "drop j s = a @ p @ b" by (auto simp: contains_sub_iff)
  then have "s = (take j s @ a) @ p @ b" by (metis append.assoc append_take_drop_id)
  then show ?thesis unfolding contains_sub_iff by blast
qed

lemma contains_sub_take: "contains_sub (take j s) p \<Longrightarrow> contains_sub s p"
proof -
  assume "contains_sub (take j s) p"
  then obtain a b where "take j s = a @ p @ b" by (auto simp: contains_sub_iff)
  then have "s = a @ p @ (b @ drop j s)" by (metis append.assoc append_take_drop_id)
  then show ?thesis unfolding contains_sub_iff by blast
qed

lemma contains_sub_slice: "contains_sub (slice s a b) p \<Longrightarrow> contains_sub (drop a s) p"
  unfolding slice_def by (rule contains_sub_take)

lemma contains_sub_prefix: "prefix p s \<Longrightarrow> contains_sub s p"
  by (auto simp: contains_sub_iff prefix_def)

lemma contains_sub_Cons: "contains_sub s p \<Longrightarrow> contains_sub (c # s) p"
  by (rule contains_sub_drop [where j = 1]) simp

lemma prefix_gap:
  assumes "prefix PREFIX (c # g @ PREFIX @ r)"
  shows "prefix PREFIX (c # g)"
proof (cases "length PREFIX \<le> length (c # g)")
  case True
  have "prefix (c # g) (c # g @ PREFIX @ r)" by simp
  from prefix_length_prefix [OF assms this True] show ?thesis .
next
  case False
  then have "length g \<le> 4" by (simp add: PREFIX_def)
  then consider "g = []" | a where "g = [a]" | a b where "g = [a, b]"
    | a b d where "g = [a, b, d]" | a b d e where "g = [a, b, d, e]"
    by (cases g; cases "tl g"; cases "tl (tl g)"; cases "tl (tl (tl g))";
        cases "tl (tl (tl (tl g)))") auto
  then show ?thesis
    using assms by cases (simp_all add: PREFIX_def)
qed

lemma find_prefix_gap:
  "\<not> contains_sub g PREFIX \<Longrightarrow> find_sub PREFIX (g @ PREFIX @ r) = Some (length g)"
proof (induction g)
  case Nil
  then show ?case by (simp add: PREFIX_def)
next
  case (Cons c g)
  then have "\<not> prefix PREFIX (c # g)" "\<not> contains_sub g PREFIX"
    by (auto dest: contains_sub_prefix contains_sub_Cons)
  with Cons.IH show ?case by (auto dest: prefix_gap)
qed

lemma find_suffix_id:
  "CHR '']'' \<notin> set i \<Longrightarrow> find_sub SUFFIX (i @ SUFFIX @ r) = Some (length i)"
  by (induction i) (auto simp: SUFFIX_def)

lemma detok_plain: "\<not> contains_sub g PREFIX \<Longrightarrow> detok m g = g"
  by (subst detok.simps) (simp add: contains_sub_def)

lemma detok_token:
  assumes "\<not> contains_sub g PREFIX" and "CHR '']'' \<notin> set i"
  shows "detok m (g @ token_text i @ r) =
           g @ (case map_of m i of Some v \<Rightarrow> v | None \<Rightarrow> token_text i) @ detok m r"
  using find_prefix_gap [OF assms(1), of "i @ SUFFIX @ r"] find_suffix_id [OF assms(2), of r]
  by (subst detok.simps) (simp add: token_text_def)

subsection \<open>The maps of the vault\<close>

definition vault_ok :: "vault \<Rightarrow> bool" where
  "vault_ok v \<longleftrightarrow>
     hm_ok (va_by_id v) \<and> hm_ok (va_by_value v)
     \<and> (\<forall>x i. map_of (va_by_value v) x = Some i \<longrightarrow>
          map_of (va_by_id v) i = Some x \<and> CHR '']'' \<notin> set i)"

text \<open>The next \<open>k\<close> drawn ids are new and pairwise different.\<close>

definition fresh_ids :: "nat \<Rightarrow> vault \<Rightarrow> bool" where
  "fresh_ids k v \<longleftrightarrow>
     (\<forall>n < k. map_of (va_by_id v) (random_id (va_rng v n)) = None
            \<and> CHR '']'' \<notin> set (random_id (va_rng v n)))
     \<and> (\<forall>n < k. \<forall>m < n. random_id (va_rng v m) \<noteq> random_id (va_rng v n))"

lemma fresh_ids_mono: "fresh_ids k v \<Longrightarrow> j \<le> k \<Longrightarrow> fresh_ids j v"
  by (auto simp: fresh_ids_def)

lemma vault_ok_new [simp, preserves]: "vault_ok (vault_new rng)"
  by (simp add: vault_ok_def vault_new_def)

lemma vault_ok_learn [simp, preserves]: "vault_ok v \<Longrightarrow> vault_ok (learn v x)"
  by (simp add: vault_ok_def learn_def Let_def)

lemma fresh_ids_learn [simp]: "fresh_ids k (learn v x) = fresh_ids k v"
  by (simp add: fresh_ids_def learn_def Let_def)

lemma random_id_hex: "CHR '']'' \<notin> set (random_id (Inr b))"
  by (auto simp: random_id_def dest!: hex_enc_hex) (simp add: is_hex_char_def)

lemma token_for_ok:
  assumes ok: "vault_ok v" and fresh: "fresh_ids (Suc k) v" and t: "token_for v x = (tok, v')"
  obtains i where "tok = token_text i" and "CHR '']'' \<notin> set i"
    and "map_of (va_by_id v') i = Some x" and "map_of (va_by_id v) \<subseteq>\<^sub>m map_of (va_by_id v')"
    and "vault_ok v'" and "fresh_ids k v'" and "va_known v' = va_known v"
proof (cases "map_of (va_by_value v) x")
  case (Some i)
  with t ok fresh_ids_mono [OF fresh, of k] show ?thesis
    by (intro that [of i]) (auto simp: token_for_def vault_ok_def)
next
  case None
  let ?i = "random_id (va_rng v 0)"
  have v': "v' = v\<lparr>va_by_id := AList.update ?i x (va_by_id v),
                  va_by_value := AList.update x ?i (va_by_value v),
                  va_rng := (\<lambda>n. va_rng v (Suc n))\<rparr>"
    and tok: "tok = token_text ?i"
    using t None by (auto simp: token_for_def Let_def)
  have i: "map_of (va_by_id v) ?i = None" "CHR '']'' \<notin> set ?i"
    using fresh by (auto simp: fresh_ids_def)
  have "map_of (va_by_id v) \<subseteq>\<^sub>m map_of (va_by_id v')"
    using i by (auto simp: v' map_le_def)
  moreover have "vault_ok v'"
    using ok i by (auto simp: vault_ok_def v')
  moreover have "fresh_ids k v'"
    unfolding fresh_ids_def
  proof (intro conjI allI impI)
    fix n assume n: "n < k"
    have "random_id (va_rng v (Suc n)) \<noteq> ?i"
      using fresh n unfolding fresh_ids_def by (metis Suc_less_eq zero_less_Suc)
    then show "map_of (va_by_id v') (random_id (va_rng v' n)) = None"
      and "CHR '']'' \<notin> set (random_id (va_rng v' n))"
      using fresh n by (auto simp: v' fresh_ids_def)
    fix m assume "m < n"
    then show "random_id (va_rng v' m) \<noteq> random_id (va_rng v' n)"
      using fresh n by (simp add: v' fresh_ids_def)
  qed
  ultimately show ?thesis
    using i by (intro that [of ?i]) (simp_all add: tok v')
qed

subsection \<open>Spans\<close>

lemma find_ci_from_sound:
  "(s, e) \<in> set (find_ci_from hay needle i) \<Longrightarrow>
     i \<le> s \<and> occurs_ci hay needle s \<and> e = s + length needle \<and> s < e"
proof (induction hay needle i rule: find_ci_from.induct)
  case (1 hay needle i)
  then show ?case
    by (subst (asm) (3) find_ci_from.simps)
       (auto split: if_splits dest: Suc_leD add_leD1)
qed

lemma find_ci_from_complete:
  "occurs_ci hay needle p \<Longrightarrow> needle \<noteq> [] \<Longrightarrow> i \<le> p \<Longrightarrow>
     \<exists>s. (s, s + length needle) \<in> set (find_ci_from hay needle i)
       \<and> s \<le> p \<and> p < s + length needle"
proof (induction hay needle i rule: find_ci_from.induct)
  case (1 hay needle i)
  have len: "\<not> (needle = [] \<or> length hay < i + length needle)"
    using "1.prems" by (auto simp: occurs_ci_def)
  show ?case
  proof (cases "occurs_ci hay needle i")
    case True
    show ?thesis
    proof (cases "p < i + length needle")
      case True
      with \<open>occurs_ci hay needle i\<close> len "1.prems" show ?thesis
        by (intro exI [of _ i]) (subst find_ci_from.simps, simp)
    next
      case False
      with "1.IH"(1) [OF len True] "1.prems" True len show ?thesis
        by (subst find_ci_from.simps) auto
    qed
  next
    case False
    with "1.prems" have "Suc i \<le> p" by (metis le_neq_implies_less Suc_leI)
    with "1.IH"(2) [OF len False] "1.prems" False len show ?thesis
      by (subst find_ci_from.simps) auto
  qed
qed

lemma find_all_ci_eq: "find_all_ci hay needle = find_ci_from hay needle 0"
  by (auto simp: find_all_ci_def find_ci_from.simps)

lemma scan_run_step:
  "j < length tx \<and> is_run_char (tx ! j) \<Longrightarrow>
     scan_run tx j l = scan_run tx (Suc j) (if is_ascii_digit (tx ! j) then j else l)"
  by (subst scan_run.simps) simp

lemma scan_run_end: "\<not> (j < length tx \<and> is_run_char (tx ! j)) \<Longrightarrow> scan_run tx j l = (j, l)"
  by (subst scan_run.simps) (rule if_not_P)

lemma scan_run_stops:
  assumes "j \<le> p" and "p < length tx \<Longrightarrow> \<not> is_run_char (tx ! p)" and "p \<le> length tx"
  shows "fst (scan_run tx j l) \<le> p"
  using assms
proof (induction tx j l rule: scan_run.induct)
  case (1 tx j l)
  show ?case
  proof (cases "j < length tx \<and> is_run_char (tx ! j)")
    case True
    with "1.prems" have "Suc j \<le> p" by (metis Suc_leI le_neq_implies_less)
    from "1.IH" [OF True this "1.prems"(2,3)] show ?thesis
      unfolding scan_run_step [OF True, of l] .
  next
    case False
    with "1.prems" show ?thesis by (simp add: scan_run_end)
  qed
qed

lemma scan_run_reaches:
  assumes "\<forall>q. j \<le> q \<and> q < p \<longrightarrow> is_run_char (tx ! q)" and "j \<le> p" and "p \<le> length tx"
  shows "p \<le> fst (scan_run tx j l)"
  using assms
proof (induction tx j l rule: scan_run.induct)
  case (1 tx j l)
  show ?case
  proof (cases "j < p")
    case True
    with "1.prems" have c: "j < length tx \<and> is_run_char (tx ! j)" by auto
    from "1.IH" [OF c] "1.prems" True show ?thesis
      unfolding scan_run_step [OF c, of l] by auto
  next
    case False
    then show ?thesis using scan_run_ge [of j tx l] by linarith
  qed
qed

lemma scan_run_last:
  assumes "l < j" and "j \<le> length tx"
  shows "snd (scan_run tx j l) < fst (scan_run tx j l) \<and> fst (scan_run tx j l) \<le> length tx
         \<and> l \<le> snd (scan_run tx j l)"
  using assms
proof (induction tx j l rule: scan_run.induct)
  case (1 tx j l)
  show ?case
  proof (cases "j < length tx \<and> is_run_char (tx ! j)")
    case True
    from "1.IH" [OF True] True "1.prems" show ?thesis
      unfolding scan_run_step [OF True, of l] by (auto split: if_splits)
  next
    case False
    with "1.prems" show ?thesis by (simp add: scan_run_end)
  qed
qed

lemma scan_run_digit:
  assumes "i < length tx" and "is_ascii_digit (tx ! i)"
  shows "snd (scan_run tx i i) < fst (scan_run tx i i)" and "fst (scan_run tx i i) \<le> length tx"
    and "i \<le> snd (scan_run tx i i)"
proof -
  have c: "i < length tx \<and> is_run_char (tx ! i)"
    using assms by (simp add: is_run_char_def)
  from scan_run_last [of i "Suc i" tx] assms
  show "snd (scan_run tx i i) < fst (scan_run tx i i)" and "fst (scan_run tx i i) \<le> length tx"
    and "i \<le> snd (scan_run tx i i)"
    unfolding scan_run_step [OF c, of i] by simp_all
qed

lemma card_spans_from_sound:
  "(s, e) \<in> set (card_spans_from tx i) \<Longrightarrow> i \<le> s \<and> s < e \<and> e \<le> length tx"
proof (induction tx i rule: card_spans_from.induct)
  case (1 tx i)
  show ?case
  proof (cases "i < length tx \<and> is_ascii_digit (tx ! i)")
    case True
    then have t: "i < length tx" "is_ascii_digit (tx ! i)" by auto
    note d = scan_run_digit [OF t] scan_run_gt [OF t, of i]
    from "1.prems" t have "(s, e) = (i, snd (scan_run tx i i) + 1)
        \<or> (s, e) \<in> set (card_spans_from tx (fst (scan_run tx i i)))"
      by (subst (asm) card_spans_from.simps) (auto simp: Let_def split: if_splits)
    moreover have "fst (scan_run tx i i) \<le> s \<and> s < e \<and> e \<le> length tx"
      if "(s, e) \<in> set (card_spans_from tx (fst (scan_run tx i i)))"
      using "1.IH"(1,2) [OF t refl refl refl] that by blast
    ultimately show ?thesis using d by auto
  next
    case False
    with "1.prems" have "i < length tx" "(s, e) \<in> set (card_spans_from tx (Suc i))"
      by (subst (asm) card_spans_from.simps; auto split: if_splits)+
    with "1.IH"(3) False show ?thesis by auto
  qed
qed

text \<open>A maximal run of digits, spaces and dashes that starts with a digit.\<close>

definition card_run :: "string \<Rightarrow> string \<Rightarrow> string \<Rightarrow> bool" where
  "card_run pre run post \<longleftrightarrow>
     (pre = [] \<or> \<not> is_run_char (last pre)) \<and> (post = [] \<or> \<not> is_run_char (hd post))
     \<and> run \<noteq> [] \<and> is_ascii_digit (hd run) \<and> (\<forall>c \<in> set run. is_run_char c)"

definition is_card :: "string \<Rightarrow> bool" where
  "is_card run \<longleftrightarrow>
     (let digits = filter is_ascii_digit run
      in 13 \<le> length digits \<and> length digits \<le> 19 \<and> luhn_ok digits)"

lemma card_run_nth:
  assumes "card_run pre run post" and "tx = pre @ run @ post"
  shows "length pre < length tx" and "is_ascii_digit (tx ! length pre)"
    and "length pre + length run < length tx \<Longrightarrow> \<not> is_run_char (tx ! (length pre + length run))"
    and "length pre \<le> q \<Longrightarrow> q < length pre + length run \<Longrightarrow> is_run_char (tx ! q)"
  using assms
  by (auto simp: card_run_def nth_append hd_conv_nth last_conv_nth not_less
        split: if_splits)

lemma card_run_before:
  assumes "card_run pre run post" and "tx = pre @ run @ post" and "i < length pre"
  shows "\<not> is_run_char (tx ! (length pre - 1))"
  using assms by (cases pre rule: rev_cases) (auto simp: card_run_def nth_append)

lemma card_run_scan:
  assumes r: "card_run pre run post" and tx: "tx = pre @ run @ post"
  shows "fst (scan_run tx (length pre) (length pre)) = length pre + length run"
proof (rule antisym)
  show "fst (scan_run tx (length pre) (length pre)) \<le> length pre + length run"
    by (rule scan_run_stops) (use card_run_nth(3) [OF r tx] tx in auto)
  show "length pre + length run \<le> fst (scan_run tx (length pre) (length pre))"
    by (rule scan_run_reaches) (use card_run_nth(4) [OF r tx] tx in auto)
qed

lemma card_spans_from_complete:
  assumes r: "card_run pre run post" and tx: "tx = pre @ run @ post" and card: "is_card run"
  shows "i \<le> length pre \<Longrightarrow>
           \<exists>e. (length pre, e) \<in> set (card_spans_from tx i) \<and> length pre < e"
  using tx
proof (induction tx i rule: card_spans_from.induct)
  case (1 tx i)
  note n = card_run_nth [OF r "1.prems"(2)]
  have i: "i < length tx" using n(1) "1.prems"(1) by simp
  show ?case
  proof (cases "i = length pre")
    case True
    have "slice tx i (length pre + length run) = run"
      by (simp add: slice_def True "1.prems"(2))
    then have "(i, snd (scan_run tx i i) + 1) \<in> set (card_spans_from tx i)"
      using n(2) i True card card_run_scan [OF r "1.prems"(2)]
      by (subst card_spans_from.simps) (simp add: is_card_def Let_def)
    moreover have "i \<le> snd (scan_run tx i i)"
      using scan_run_digit(3) [OF i] n(2) True by simp
    ultimately show ?thesis using True by auto
  next
    case False
    with "1.prems"(1) have lt: "i < length pre" by simp
    show ?thesis
    proof (cases "is_ascii_digit (tx ! i)")
      case True
      have "\<not> is_run_char (tx ! (length pre - 1))"
        by (rule card_run_before [OF r "1.prems"(2) lt])
      then have "fst (scan_run tx i i) \<le> length pre - 1"
        using lt i n(1) by (intro scan_run_stops) auto
      then have le: "fst (scan_run tx i i) \<le> length pre" by simp
      have "\<exists>e. (length pre, e) \<in> set (card_spans_from tx (fst (scan_run tx i i)))
              \<and> length pre < e"
        using "1.IH"(1,2) [OF i True refl refl refl] le "1.prems"(2) by blast
      then show ?thesis
        using i True by (subst card_spans_from.simps) (auto simp: Let_def)
    next
      case False
      with "1.IH"(3) [OF i False] lt "1.prems"(2) i show ?thesis
        by (subst card_spans_from.simps) auto
    qed
  qed
qed

subsection \<open>The replaced spans\<close>

text \<open>The greedy selection, and chains of disjoint spans in reading order.\<close>

fun kept_spans :: "span list \<Rightarrow> nat \<Rightarrow> span list" where
  "kept_spans [] pos = []"
| "kept_spans ((s, e) # spans) pos =
     (if s < pos then kept_spans spans pos else (s, e) # kept_spans spans e)"

fun spans_from :: "nat \<Rightarrow> nat \<Rightarrow> span list \<Rightarrow> bool" where
  "spans_from pos len [] \<longleftrightarrow> pos \<le> len"
| "spans_from pos len ((s, e) # spans) \<longleftrightarrow> pos \<le> s \<and> s < e \<and> spans_from e len spans"

lemma replace_spans_kept:
  "replace_spans tx spans pos v = replace_spans tx (kept_spans spans pos) pos v"
  by (induction tx spans pos v rule: replace_spans.induct) (auto split: prod.splits)

lemma kept_spans_chain:
  "\<forall>(s, e) \<in> set spans. s < e \<and> e \<le> len \<Longrightarrow> pos \<le> len \<Longrightarrow> spans_from pos len (kept_spans spans pos)"
  by (induction spans pos rule: kept_spans.induct) auto

lemma kept_spans_cover:
  assumes "sorted (map fst spans)" and "(s, e) \<in> set spans" and "s < e"
    and "pos \<le> s \<or> (\<exists>s' \<le> s. (s', pos) \<in> K)"
  shows "\<exists>(s', e') \<in> set (kept_spans spans pos) \<union> K. s' \<le> s \<and> s < e'"
  using assms
proof (induction spans pos arbitrary: K rule: kept_spans.induct)
  case (1 pos)
  then show ?case by simp
next
  case (2 s0 e0 spans pos)
  show ?case
  proof (cases "s0 < pos")
    case True
    show ?thesis
    proof (cases "(s, e) = (s0, e0)")
      case True
      with \<open>s0 < pos\<close> "2.prems"(4) show ?thesis by auto
    next
      case False
      with "2.IH"(1) [OF True, of K] "2.prems" True show ?thesis by auto
    qed
  next
    case False
    show ?thesis
    proof (cases "(s, e) = (s0, e0)")
      case True
      with False "2.prems"(3) show ?thesis by auto
    next
      case neq: False
      with "2.prems"(1,2) have s: "s0 \<le> s" "(s, e) \<in> set spans" "sorted (map fst spans)"
        by auto
      have "\<exists>(s', e') \<in> set (kept_spans spans e0) \<union> insert (s0, e0) K. s' \<le> s \<and> s < e'"
        using "2.IH"(2) [OF False s(3,2) "2.prems"(3), of "insert (s0, e0) K"] s(1) by auto
      with False show ?thesis by auto
    qed
  qed
qed

lemma sorted_fst_candidates: "sorted (map fst (candidate_spans known tx))"
proof -
  have "sorted (map (\<lambda>(s, e). (int s, - int e)) (candidate_spans known tx))"
    unfolding candidate_spans_def by (rule sorted_sort_key)
  then show ?thesis
    by (auto simp: sorted_map split_beta intro: sorted_wrt_mono_rel [rotated])
qed

lemma set_candidates:
  "set (candidate_spans known tx) =
     (\<Union>k \<in> set known. set (find_ci_from tx k 0)) \<union> set (card_spans_from tx 0)"
  by (auto simp: candidate_spans_def find_all_ci_eq find_card_spans_def)

lemma candidate_bounds: "\<forall>(s, e) \<in> set (candidate_spans known tx). s < e \<and> e \<le> length tx"
  by (auto simp: set_candidates dest!: find_ci_from_sound card_spans_from_sound)
     (auto simp: occurs_ci_def)

definition replaced_spans :: "vault \<Rightarrow> string \<Rightarrow> span list" where
  "replaced_spans v tx = kept_spans (candidate_spans (va_known v) tx) 0"

lemma candidate_replaced:
  assumes "(s, e) \<in> set (candidate_spans (va_known v) tx)"
  shows "\<exists>(s', e') \<in> set (replaced_spans v tx). s' \<le> s \<and> s < e'"
proof -
  from assms candidate_bounds have "s < e" by blast
  from kept_spans_cover [OF sorted_fst_candidates assms this, of 0 "{}"] show ?thesis
    by (simp add: replaced_spans_def)
qed

subsection \<open>Restoring what was tokenized\<close>

text \<open>\<open>w\<close> knows at least the tokens of \<open>v\<close>.\<close>

definition extends :: "vault \<Rightarrow> vault \<Rightarrow> bool" where
  "extends v w \<longleftrightarrow> map_of (va_by_id v) \<subseteq>\<^sub>m map_of (va_by_id w)"

lemma extends_refl [simp]: "extends v v"
  by (simp add: extends_def)

lemma extends_trans: "extends u v \<Longrightarrow> extends v w \<Longrightarrow> extends u w"
  by (auto simp: extends_def intro: map_le_trans)

text \<open>A tokenizing step: the vault stays consistent, keeps its tokens and known values.\<close>

definition vault_step :: "nat \<Rightarrow> vault \<Rightarrow> vault \<Rightarrow> bool" where
  "vault_step k v v' \<longleftrightarrow>
     vault_ok v' \<and> fresh_ids k v' \<and> extends v v' \<and> va_known v' = va_known v"

lemma vault_step_trans: "vault_step j u v \<Longrightarrow> vault_step k v w \<Longrightarrow> vault_step k u w"
  by (auto simp: vault_step_def intro: extends_trans)

lemma slice_drop: "a \<le> b \<Longrightarrow> slice tx a b @ drop b tx = drop a tx"
  unfolding slice_def by (metis append_take_drop_id drop_drop le_add_diff_inverse2)

lemma slice_parts:
  "pos \<le> s \<Longrightarrow> s \<le> e \<Longrightarrow> slice tx pos s @ slice tx s e @ drop e tx = drop pos tx"
  by (simp add: slice_drop)

lemma detokenize_span:
  assumes clear: "\<not> contains_sub (drop pos tx) PREFIX" and se: "pos \<le> s" "s \<le> e"
    and i: "CHR '']'' \<notin> set i" "map_of (va_by_id w) i = Some (slice tx s e)"
    and rest: "detokenize w out = drop e tx"
  shows "detokenize w (slice tx pos s @ token_text i @ out) = drop pos tx"
proof -
  have "\<not> contains_sub (slice tx pos s) PREFIX"
    using clear contains_sub_slice by blast
  with i have "detokenize w (slice tx pos s @ token_text i @ out) = slice tx pos s @ slice tx s e @ detokenize w out"
    unfolding detokenize_def by (simp add: detok_token)
  also have "\<dots> = drop pos tx"
    using rest slice_parts [OF se] by simp
  finally show ?thesis .
qed

lemma replace_spans_restored:
  assumes "vault_ok v" and "fresh_ids (length spans + k) v"
    and "\<forall>(s, e) \<in> set spans. s < e \<and> e \<le> length tx"
    and "\<not> contains_sub (drop pos tx) PREFIX"
    and "replace_spans tx spans pos v = (out, v')"
  shows "vault_step k v v' \<and> (\<forall>w. extends v' w \<longrightarrow> detokenize w out = drop pos tx)"
  using assms
proof (induction tx spans pos v arbitrary: out v' rule: replace_spans.induct)
  case (1 tx pos v)
  then show ?case
    by (auto simp: vault_step_def detokenize_def detok_plain)
next
  case (2 tx s e spans pos v)
  show ?case
  proof (cases "s < pos")
    case True
    with "2.prems" have "fresh_ids (length spans + k) v"
      and "replace_spans tx spans pos v = (out, v')"
      by (auto elim: fresh_ids_mono)
    with "2.IH"(1) [OF True "2.prems"(1)] "2.prems"(3,4) show ?thesis by simp
  next
    case False
    obtain tok v1 where t: "token_for v (slice tx s e) = (tok, v1)" by fastforce
    obtain out2 v2 where r: "replace_spans tx spans e v1 = (out2, v2)" by fastforce
    from "2.prems"(5) False t r have out: "out = slice tx pos s @ tok @ out2" "v' = v2"
      by auto
    have se: "pos \<le> s" "s \<le> e" using "2.prems"(3) False by auto
    from "2.prems"(2) have "fresh_ids (Suc (length spans + k)) v" by simp
    from token_for_ok [OF "2.prems"(1) this t] obtain i where
      i: "tok = token_text i" "CHR '']'' \<notin> set i" "map_of (va_by_id v1) i = Some (slice tx s e)"
      and v1: "vault_ok v1" "fresh_ids (length spans + k) v1" "extends v v1"
        "va_known v1 = va_known v"
      by (metis extends_def)
    have pos: "drop e tx = drop (e - pos) (drop pos tx)" using se by simp
    have clear: "\<not> contains_sub (drop e tx) PREFIX"
      using "2.prems"(4) contains_sub_drop [of "e - pos" "drop pos tx"] unfolding pos by blast
    have IH: "vault_step k v1 v2" "extends v2 w \<Longrightarrow> detokenize w out2 = drop e tx" for w
      using "2.IH"(2) [OF False t [symmetric] v1(1,2) _ clear r] "2.prems"(3) by auto
    have "map_of (va_by_id w) i = Some (slice tx s e)" if "extends v2 w" for w
      using extends_trans [of v1 v2 w] IH(1) that i(3) by (auto simp: vault_step_def extends_def map_le_def dom_def)
    with IH v1 out i(1) show ?thesis
      using detokenize_span [OF "2.prems"(4) se i(2)] by (auto simp: vault_step_def intro: extends_trans)
  qed
qed

lemma tokenize_restored:
  assumes "vault_ok v" and "fresh_ids (length (candidate_spans (va_known v) tx) + k) v"
    and "\<not> contains_sub tx PREFIX" and "tokenize v tx = (out, v')"
  shows "vault_step k v v'" and "extends v' w \<Longrightarrow> detokenize w out = tx"
  using replace_spans_restored [OF assms(1,2) candidate_bounds, of 0 out v'] assms(3,4)
  by (auto simp: tokenize_def)

text \<open>Over a JSON value: how many ids tokenizing may draw, and that no string holds the marker.\<close>

fun json_spans :: "string list \<Rightarrow> json \<Rightarrow> nat"
and array_spans :: "string list \<Rightarrow> json list \<Rightarrow> nat"
and object_spans :: "string list \<Rightarrow> (string \<times> json) list \<Rightarrow> nat" where
  "json_spans known (JStr s) = length (candidate_spans known s)"
| "json_spans known (JArr xs) = array_spans known xs"
| "json_spans known (JObj kvs) = object_spans known kvs"
| "json_spans known JNull = 0"
| "json_spans known (JBool b) = 0"
| "json_spans known (JInt i) = 0"
| "json_spans known (JFloat f) = 0"
| "array_spans known [] = 0"
| "array_spans known (x # xs) = json_spans known x + array_spans known xs"
| "object_spans known [] = 0"
| "object_spans known ((k, x) # kvs) = json_spans known x + object_spans known kvs"

fun json_strings :: "json \<Rightarrow> string list"
and array_strings :: "json list \<Rightarrow> string list"
and object_strings :: "(string \<times> json) list \<Rightarrow> string list" where
  "json_strings (JStr s) = [s]"
| "json_strings (JArr xs) = array_strings xs"
| "json_strings (JObj kvs) = object_strings kvs"
| "json_strings JNull = []"
| "json_strings (JBool b) = []"
| "json_strings (JInt i) = []"
| "json_strings (JFloat f) = []"
| "array_strings [] = []"
| "array_strings (x # xs) = json_strings x @ array_strings xs"
| "object_strings [] = []"
| "object_strings ((k, x) # kvs) = json_strings x @ object_strings kvs"

abbreviation unmarked :: "string list \<Rightarrow> bool" where
  "unmarked ss \<equiv> \<forall>s \<in> set ss. \<not> contains_sub s PREFIX"

lemma json_restored:
  shows "vault_ok v \<Longrightarrow> fresh_ids (json_spans (va_known v) x + k) v \<Longrightarrow> unmarked (json_strings x) \<Longrightarrow>
           tokenize_json v x = (y, v') \<Longrightarrow>
           vault_step k v v' \<and> (\<forall>w. extends v' w \<longrightarrow> detokenize_json w y = x)"
    and "vault_ok v \<Longrightarrow> fresh_ids (array_spans (va_known v) xs + k) v \<Longrightarrow>
           unmarked (array_strings xs) \<Longrightarrow> tokenize_array v xs = (ys, v') \<Longrightarrow>
           vault_step k v v' \<and> (\<forall>w. extends v' w \<longrightarrow> detokenize_array w ys = xs)"
    and "vault_ok v \<Longrightarrow> fresh_ids (object_spans (va_known v) kvs + k) v \<Longrightarrow>
           unmarked (object_strings kvs) \<Longrightarrow> tokenize_object v kvs = (zs, v') \<Longrightarrow>
           vault_step k v v' \<and> (\<forall>w. extends v' w \<longrightarrow> detokenize_object w zs = kvs)"
proof (induction v x and v xs and v kvs arbitrary: y v' k and ys v' k and zs v' k
    rule: tokenize_json_tokenize_array_tokenize_object.induct)
  case (1 v s)
  then show ?case
    using tokenize_restored [of v s k "fst (tokenize v s)" "snd (tokenize v s)"]
    by (auto split: prod.splits)
next
  case (9 v x xs)
  obtain y1 v1 where t1: "tokenize_json v x = (y1, v1)" by fastforce
  obtain ys2 v2 where t2: "tokenize_array v1 xs = (ys2, v2)" by fastforce
  have "vault_step (array_spans (va_known v) xs + k) v v1
      \<and> (\<forall>w. extends v1 w \<longrightarrow> detokenize_json w y1 = x)"
    using "9.IH"(1) [OF "9.prems"(1) _ _ t1] "9.prems"(2,3) by (simp add: add.assoc)
  moreover from this have "vault_step k v1 v2 \<and> (\<forall>w. extends v2 w \<longrightarrow> detokenize_array w ys2 = xs)"
    using "9.IH"(2) [OF t1 [symmetric] _ _ _ t2] "9.prems"(3) by (auto simp: vault_step_def)
  ultimately show ?case
    using "9.prems"(4) t1 t2
    by (auto simp: vault_step_def intro: extends_trans)
next
  case (11 v key x kvs)
  obtain y1 v1 where t1: "tokenize_json v x = (y1, v1)" by fastforce
  obtain ys2 v2 where t2: "tokenize_object v1 kvs = (ys2, v2)" by fastforce
  have "vault_step (object_spans (va_known v) kvs + k) v v1
      \<and> (\<forall>w. extends v1 w \<longrightarrow> detokenize_json w y1 = x)"
    using "11.IH"(1) [OF "11.prems"(1) _ _ t1] "11.prems"(2,3) by (simp add: add.assoc)
  moreover from this have "vault_step k v1 v2 \<and> (\<forall>w. extends v2 w \<longrightarrow> detokenize_object w ys2 = kvs)"
    using "11.IH"(2) [OF t1 [symmetric] _ _ _ t2] "11.prems"(3) by (auto simp: vault_step_def)
  ultimately show ?case
    using "11.prems"(4) t1 t2
    by (auto simp: vault_step_def intro: extends_trans)
next
  case (2 v xs)
  then show ?case
    using "2.IH" [of k "fst (tokenize_array v xs)" "snd (tokenize_array v xs)"]
    by (auto split: prod.splits)
next
  case (3 v kvs)
  then show ?case
    using "3.IH" [of k "fst (tokenize_object v kvs)" "snd (tokenize_object v kvs)"]
    by (auto split: prod.splits)
qed (auto simp: vault_step_def)

subsection \<open>Unknown tokens\<close>

lemma take_find: "find_sub p s = Some i \<Longrightarrow> take i s @ p @ drop (i + length p) s = s"
  using find_sub_append by metis

lemma detok_inert:
  "(\<forall>i. map_of m i \<noteq> None \<longrightarrow> \<not> contains_sub tx i) \<Longrightarrow> detok m tx = tx"
proof (induction m tx rule: detok.induct)
  case (1 m tx)
  show ?case
  proof (cases "find_sub PREFIX tx")
    case None
    then show ?thesis by (subst detok.simps) simp
  next
    case (Some start)
    let ?after = "drop (start + length PREFIX) tx"
    note tx = take_find [OF Some]
    show ?thesis
    proof (cases "find_sub SUFFIX ?after")
      case None
      with Some tx show ?thesis by (subst detok.simps) (simp add: Let_def)
    next
      case (Some end_at)
      let ?i = "take end_at ?after"
      have after: "?i @ SUFFIX @ drop (end_at + length SUFFIX) ?after = ?after"
        by (rule take_find [OF Some])
      have "(take start tx @ PREFIX) @ ?i @ (SUFFIX @ drop (end_at + length SUFFIX) ?after) = tx"
        by (simp only: append.assoc after tx)
      then have "contains_sub tx ?i"
        unfolding contains_sub_iff by metis
      then have unknown: "map_of m ?i = None" using "1.prems" by auto
      have "detok m (drop (end_at + length SUFFIX) ?after) = drop (end_at + length SUFFIX) ?after"
        using "1.IH" [OF \<open>find_sub PREFIX tx = Some start\<close> refl Some refl] "1.prems"
          contains_sub_drop by blast
      with \<open>find_sub PREFIX tx = Some start\<close> Some unknown tx after show ?thesis
        by (subst detok.simps) (simp add: Let_def token_text_def)
    qed
  qed
qed

subsection \<open>The checksum\<close>

definition luhn_digit :: "bool \<Rightarrow> char \<Rightarrow> nat" where
  "luhn_digit doubled c =
     (if doubled then (2 * digit_val c) div 10 + (2 * digit_val c) mod 10 else digit_val c)"

lemma double_digit_sum:
  "n \<le> 9 \<Longrightarrow> (if n * 2 > 9 then n * 2 - 9 else n * 2) = 2 * n div 10 + 2 * n mod (10 :: nat)"
proof (cases "n \<le> 4")
  case False
  moreover assume "n \<le> 9"
  ultimately have "2 * n div 10 = 1"
    by (intro div_nat_eqI) simp_all
  with False \<open>n \<le> 9\<close> show ?thesis
    by (simp add: modulo_nat_def)
qed simp

lemma luhn_step:
  "is_ascii_digit d \<Longrightarrow>
     (if b then (if digit_val d * 2 > 9 then digit_val d * 2 - 9 else digit_val d * 2)
      else digit_val d) = luhn_digit b d"
  by (simp only: luhn_digit_def double_digit_sum digit_val_bound)

lemma luhn_sum_eq:
  "\<forall>d \<in> set ds. is_ascii_digit d \<Longrightarrow>
     luhn_sum b ds = (\<Sum>i<length ds. luhn_digit (odd i \<noteq> b) (ds ! i))"
proof (induction ds arbitrary: b)
  case Nil
  then show ?case by simp
next
  case (Cons d ds)
  have "(odd i \<noteq> (\<not> b)) = (odd (Suc i) \<noteq> b)" for i :: nat
    by auto
  then have "luhn_sum (\<not> b) ds = (\<Sum>i<length ds. luhn_digit (odd (Suc i) \<noteq> b) (ds ! i))"
    using Cons by simp
  with Cons.prems show ?case
    by (simp add: luhn_step sum.lessThan_Suc_shift del: sum.lessThan_Suc even_Suc)
qed

subsection \<open>Example vault\<close>

definition ex_rng :: "nat \<Rightarrow> draw" where
  "ex_rng n = Inr (le_bytes 16 (int n))"

definition ex_vault :: vault where
  "ex_vault = learn (vault_new ex_rng) ''Alice Rossi''"

lemma ex_rng_fresh: "k \<le> 1000 \<Longrightarrow> fresh_ids k (vault_new ex_rng)"
proof -
  assume k: "k \<le> 1000"
  have "random_id (ex_rng m) \<noteq> random_id (ex_rng n)" if "n < k" "m < n" for m n
  proof
    assume "random_id (ex_rng m) = random_id (ex_rng n)"
    then have "hex_enc (le_bytes 16 (int m)) = hex_enc (le_bytes 16 (int n))"
      by (simp add: random_id_def ex_rng_def)
    then have "le_bytes 16 (int m) = le_bytes 16 (int n)"
      by (metis hex_dec_enc option.inject)
    then have "int m mod 256 ^ 16 = int n mod 256 ^ 16"
      by (rule le_bytes_mod_inj)
    with that k show False by simp
  qed
  then show ?thesis
    by (simp add: fresh_ids_def vault_new_def) (simp add: ex_rng_def random_id_hex)
qed

lemma ex_vault_ok: "vault_ok ex_vault" and ex_vault_fresh: "k \<le> 1000 \<Longrightarrow> fresh_ids k ex_vault"
  by (simp_all add: ex_vault_def ex_rng_fresh)

lemma ex_vault_known: "va_known ex_vault = [''Alice Rossi'']"
  by code_simp

subsection \<open>Properties\<close>

text \<open>
  C20: what was tokenized is restored. Tokenizing a JSON value and then restoring it, with
  the vault as it is then or any later one that still knows its tokens, gives the value back, as
  long as no string of it contains the token marker and the ids drawn are new.
\<close>

theorem vault_json_roundtrip:
  assumes "vault_ok v" and "fresh_ids (json_spans (va_known v) x) v"
    and "unmarked (json_strings x)" and "tokenize_json v x = (y, v')" and "extends v' w"
  shows "detokenize_json w y = x \<and> vault_ok v' \<and> extends v v'"
  using json_restored(1) [of v x 0 y v'] assms by (simp add: vault_step_def)

theorem vault_json_roundtrip_witness:
  "let x = JObj [(''to'', JStr ''pay Alice Rossi''), (''n'', JInt 3)];
       t = tokenize_json ex_vault x
   in fst t \<noteq> x \<and> detokenize_json (snd t) (fst t) = x"
proof -
  let ?x = "JObj [(''to'', JStr ''pay Alice Rossi''), (''n'', JInt 3)]"
  let ?t = "tokenize_json ex_vault ?x"
  have "json_spans (va_known ex_vault) ?x = 1" by code_simp
  then have f: "fresh_ids (json_spans (va_known ex_vault) ?x) ex_vault"
    by (simp add: ex_vault_fresh)
  have u: "unmarked (json_strings ?x)" by code_simp
  have "fst ?t \<noteq> ?x" by code_simp
  with vault_json_roundtrip [OF ex_vault_ok f u, of "fst ?t" "snd ?t" "snd ?t"] show ?thesis
    by (simp add: Let_def)
qed

text \<open>
  what detection guarantees. The output is the text with certain disjoint spans
  replaced by tokens. Every occurrence of a known value (in any ASCII case, on character
  boundaries) meets one of them, unless an earlier occurrence of the same value overlaps it;
  so does every maximal run of digits, spaces and dashes that holds a card number.
\<close>

theorem vault_replaces_detected:
  assumes "known \<in> set (va_known v)" and "known \<noteq> []"
  shows "tokenize v tx = replace_spans tx (replaced_spans v tx) 0 v
         \<and> spans_from 0 (length tx) (replaced_spans v tx)
         \<and> (occurs_ci tx known p \<and> (\<forall>q < p. occurs_ci tx known q \<longrightarrow> q + length known \<le> p) \<longrightarrow>
              (\<exists>(s, e) \<in> set (replaced_spans v tx). s \<le> p \<and> p < e))
         \<and> (card_run pre run post \<and> is_card run \<and> tx = pre @ run @ post \<longrightarrow>
              (\<exists>(s, e) \<in> set (replaced_spans v tx). s \<le> length pre \<and> length pre < e))"
proof (intro conjI impI)
  show "tokenize v tx = replace_spans tx (replaced_spans v tx) 0 v"
    unfolding tokenize_def replaced_spans_def by (rule replace_spans_kept)
  show "spans_from 0 (length tx) (replaced_spans v tx)"
    unfolding replaced_spans_def by (rule kept_spans_chain [OF candidate_bounds]) simp
next
  assume p: "occurs_ci tx known p \<and> (\<forall>q < p. occurs_ci tx known q \<longrightarrow> q + length known \<le> p)"
  with find_ci_from_complete [of tx known p 0] assms(2) obtain s where
    s: "(s, s + length known) \<in> set (find_ci_from tx known 0)" "s \<le> p" "p < s + length known"
    by auto
  from find_ci_from_sound [OF s(1)] have "occurs_ci tx known s" by simp
  with p s(2,3) have "s = p" by (metis le_neq_implies_less not_le)
  with s(1) assms(1) have "(p, p + length known) \<in> set (candidate_spans (va_known v) tx)"
    by (auto simp: set_candidates)
  from candidate_replaced [OF this]
  show "\<exists>(s, e) \<in> set (replaced_spans v tx). s \<le> p \<and> p < e" .
next
  assume r: "card_run pre run post \<and> is_card run \<and> tx = pre @ run @ post"
  then obtain e where "(length pre, e) \<in> set (card_spans_from tx 0)"
    using card_spans_from_complete [of pre run post tx 0] by auto
  then have "(length pre, e) \<in> set (candidate_spans (va_known v) tx)"
    by (simp add: set_candidates)
  from candidate_replaced [OF this]
  show "\<exists>(s, e) \<in> set (replaced_spans v tx). s \<le> length pre \<and> length pre < e" .
qed

theorem vault_replaces_detected_witness:
  "\<exists>(s, e) \<in> set (replaced_spans ex_vault ''card:4111 1111 1111 1111.''). s \<le> 5 \<and> 5 < e"
proof -
  have k: "''Alice Rossi'' \<in> set (va_known ex_vault)" by (simp add: ex_vault_known)
  have c: "card_run ''card:'' ''4111 1111 1111 1111'' ''.''
      \<and> is_card ''4111 1111 1111 1111''
      \<and> ''card:4111 1111 1111 1111.'' = ''card:'' @ ''4111 1111 1111 1111'' @ ''.''"
    by code_simp
  have ne: "''Alice Rossi'' \<noteq> []" and five: "length ''card:'' = 5" by simp_all
  from vault_replaces_detected [OF k ne, THEN conjunct2, THEN conjunct2, THEN conjunct2, THEN mp, OF c]
  show ?thesis unfolding five .
qed

text \<open>
  a token the vault did not mint restores nothing. Text that contains none of the
  vault's ids passes through unchanged, token markers included.
\<close>

theorem unknown_tokens_inert:
  assumes "\<forall>i. map_of (va_by_id v) i \<noteq> None \<longrightarrow> \<not> contains_sub tx i"
  shows "detokenize v tx = tx"
  unfolding detokenize_def by (rule detok_inert [OF assms])

theorem unknown_tokens_inert_witness:
  "detokenize (snd (token_for ex_vault ''secret'')) ''[[GDN-ffff]] and [[GDN-'' =
     ''[[GDN-ffff]] and [[GDN-''"
proof (rule unknown_tokens_inert)
  have "va_by_id (snd (token_for ex_vault ''secret'')) =
          [(hex_enc (le_bytes 16 0), ''secret'')]"
    by code_simp
  moreover have "\<not> contains_sub ''[[GDN-ffff]] and [[GDN-'' (hex_enc (le_bytes 16 0))"
    by code_simp
  ultimately show "\<forall>i. map_of (va_by_id (snd (token_for ex_vault ''secret''))) i \<noteq> None \<longrightarrow>
      \<not> contains_sub ''[[GDN-ffff]] and [[GDN-'' i"
    by simp
qed

text \<open>
  \<open>luhn_ok\<close> is the Luhn checksum. On a string of digits it holds exactly if the sum
  over the digits, counted from the right from 0, of the even ones and of the digit sums of
  twice the odd ones, is divisible by 10.
\<close>

theorem luhn_ok_iff:
  assumes "\<forall>c \<in> set digits. is_ascii_digit c"
  shows "luhn_ok digits \<longleftrightarrow>
           10 dvd (\<Sum>i<length digits.
             let d = digit_val (digits ! (length digits - Suc i))
             in if even i then d else (2 * d) div 10 + (2 * d) mod 10)"
proof -
  have "luhn_sum False (rev digits) =
      (\<Sum>i<length digits. luhn_digit (odd i) (rev digits ! i))"
    using luhn_sum_eq [of "rev digits" False] assms by simp
  also have "\<dots> = (\<Sum>i<length digits.
      let d = digit_val (digits ! (length digits - Suc i))
      in if even i then d else (2 * d) div 10 + (2 * d) mod 10)"
    by (rule sum.cong) (simp_all add: rev_nth luhn_digit_def Let_def)
  finally show ?thesis
    by (simp only: luhn_ok_def dvd_eq_mod_eq_0)
qed

theorem luhn_ok_iff_witness:
  "10 dvd (\<Sum>i<length ''4111111111111111''.
     let d = digit_val (''4111111111111111'' ! (length ''4111111111111111'' - Suc i))
     in if even i then d else (2 * d) div 10 + (2 * d) mod 10)"
proof -
  have "\<forall>c \<in> set ''4111111111111111''. is_ascii_digit c" by code_simp
  from luhn_ok_iff [OF this, THEN iffD1] show ?thesis by code_simp
qed

text \<open>
  overlapping known values leak. With the values \<open>aaaa\<close> and \<open>baaa\<close> known, tokenizing
  \<open>baaaaaaa\<close> replaces only the first four characters and leaves the known value \<open>aaaa\<close> in the
  clear: the scan for a value skips overlapping occurrences, and the occurrence it reports is
  dropped because it overlaps the replaced one.
\<close>

theorem known_value_left_in_clear:
  "let v = learn (learn (vault_new rng) ''aaaa'') ''baaa''
   in va_known v = [''aaaa'', ''baaa'']
      \<and> replaced_spans v ''baaaaaaa'' = [(0, 4)]
      \<and> fst (tokenize v ''baaaaaaa'') = token_text (random_id (rng 0)) @ ''aaaa''"
proof -
  let ?v = "learn (learn (vault_new rng) ''aaaa'') ''baaa''"
  have known: "va_known ?v = [''aaaa'', ''baaa'']"
  proof -
    have "trim ''aaaa'' = ''aaaa''" "trim ''baaa'' = ''baaa''" by code_simp+
    then show ?thesis by (simp add: learn_def vault_new_def MIN_KNOWN_LEN_def)
  qed
  have empty: "va_by_value ?v = []" "va_rng ?v = rng"
    by (simp_all add: learn_def vault_new_def Let_def)
  have kept: "kept_spans (candidate_spans [''aaaa'', ''baaa''] ''baaaaaaa'') 0 = [(0, 4)]"
    by code_simp
  then have rep: "replaced_spans ?v ''baaaaaaa'' = [(0, 4)]"
    by (simp only: replaced_spans_def known)
  have "tokenize ?v ''baaaaaaa'' = replace_spans ''baaaaaaa'' [(0, 4)] 0 ?v"
    unfolding tokenize_def known by (subst replace_spans_kept) (simp only: kept)
  then have "fst (tokenize ?v ''baaaaaaa'') = token_text (random_id (rng 0)) @ ''aaaa''"
    by (simp add: slice_def token_for_def empty Let_def)
  with known rep show ?thesis by (simp add: Let_def)
qed

end
