(* ===== verification/Broker.thy ===== *)
theory Broker
  imports Json
begin

text \<open>
  The credential broker, \<open>guardian-broker/src/lib.rs\<close>, with the caveats of
  \<open>capability.rs\<close> and the keychain of \<open>keychain.rs\<close>. The operating system's keychain is a
  parameter (what it answers for a target); the TOML parser is a parameter of the loaders.
\<close>

subsection \<open>Capabilities with caveats\<close>

record capability_request =
  rq_host :: string
  rq_now_ms :: int
  rq_amount :: "f64 option"
  rq_critical :: bool
  rq_freshly_approved :: bool

record caveats =
  cv_not_after_ms :: "int option"
  cv_allowed_hosts :: "string list"
  cv_max_amount :: "f64 option"
  cv_require_fresh :: bool

definition caveats_default :: caveats where
  "caveats_default =
     \<lparr>cv_not_after_ms = None, cv_allowed_hosts = [], cv_max_amount = None,
      cv_require_fresh = False\<rparr>"

definition caveats_permissive :: caveats where
  "caveats_permissive = caveats_default\<lparr>cv_require_fresh := True\<rparr>"

datatype caveat_violation =
    CV_Expired
  | CV_HostNotAllowed string
  | CV_AmountExceeded f64 f64
  | CV_StaleCriticalApproval

definition caveats_check :: "caveats \<Rightarrow> capability_request \<Rightarrow> (caveat_violation, unit) result" where
  "caveats_check c rq =
     (if (case cv_not_after_ms c of Some d \<Rightarrow> rq_now_ms rq \<ge> d | None \<Rightarrow> False)
      then Inl CV_Expired
      else if cv_allowed_hosts c \<noteq> []
              \<and> \<not> list_ex (\<lambda>h. eq_ignore_ascii_case h (rq_host rq)) (cv_allowed_hosts c)
      then Inl (CV_HostNotAllowed (rq_host rq))
      else
        (case (case (cv_max_amount c, rq_amount rq) of
                 (Some mx, Some got) \<Rightarrow> if f64_gt got mx then Some (mx, got) else None
               | _ \<Rightarrow> None) of
           Some (mx, got) \<Rightarrow> Inl (CV_AmountExceeded mx got)
         | None \<Rightarrow>
             if cv_require_fresh c \<and> rq_critical rq \<and> \<not> rq_freshly_approved rq
             then Inl CV_StaleCriticalApproval
             else Inr ()))"

subsection \<open>The broker\<close>

definition DEFAULT_FIELD :: string where
  "DEFAULT_FIELD = ''auth_token''"

record broker =
  br_secrets :: "(string, string) hashmap"
  br_caveats :: "(string, caveats) hashmap"

definition broker_new :: "(string, string) hashmap \<Rightarrow> broker" where
  "broker_new secrets = \<lparr>br_secrets = secrets, br_caveats = []\<rparr>"

definition broker_from_toml ::
    "(string \<Rightarrow> (string, (string, string) hashmap) result) \<Rightarrow> string \<Rightarrow> (string, broker) result" where
  "broker_from_toml toml s = (case toml s of Inl e \<Rightarrow> Inl e | Inr m \<Rightarrow> Inr (broker_new m))"

definition set_caveats :: "broker \<Rightarrow> string \<Rightarrow> caveats \<Rightarrow> broker" where
  "set_caveats b target c = b\<lparr>br_caveats := AList.update target c (br_caveats b)\<rparr>"

definition caveats_from_toml ::
    "(string \<Rightarrow> (string, (string, caveats) hashmap) result) \<Rightarrow> broker \<Rightarrow> string
       \<Rightarrow> (string, unit) result \<times> broker" where
  "caveats_from_toml toml b s =
     (case toml s of
        Inl e \<Rightarrow> (Inl e, b)
      | Inr m \<Rightarrow> (Inr (), b\<lparr>br_caveats := hm_extend (br_caveats b) m\<rparr>))"

definition broker_authorize ::
    "broker \<Rightarrow> string \<Rightarrow> capability_request \<Rightarrow> (caveat_violation, unit) result" where
  "broker_authorize b target rq =
     (case map_of (br_caveats b) target of Some c \<Rightarrow> caveats_check c rq | None \<Rightarrow> Inr ())"

text \<open>
  The keychain: what \<open>Entry::new(SERVICE, target)?.get_password()\<close> answers, where the
  keychain's error \<open>NoEntry\<close> is told apart from any other.
\<close>

datatype keyring_error = KR_NoEntry | KR_Other string

type_synonym keychain = "string \<Rightarrow> (keyring_error, string) result"

definition keychain_load :: "keychain \<Rightarrow> string \<Rightarrow> (keyring_error, string option) result" where
  "keychain_load kc target =
     (case kc target of
        Inr secret \<Rightarrow> Inr (Some secret)
      | Inl KR_NoEntry \<Rightarrow> Inr None
      | Inl e \<Rightarrow> Inl e)"

text \<open>The loop keeps what it inserted before an error.\<close>

fun add_keychain_targets ::
    "keychain \<Rightarrow> string list \<Rightarrow> broker \<Rightarrow> (keyring_error, unit) result \<times> broker" where
  "add_keychain_targets kc [] b = (Inr (), b)"
| "add_keychain_targets kc (t # ts) b =
     (case keychain_load kc t of
        Inl e \<Rightarrow> (Inl e, b)
      | Inr (Some secret) \<Rightarrow>
          add_keychain_targets kc ts
            (b\<lparr>br_secrets := AList.update t secret (br_secrets b)\<rparr>)
      | Inr None \<Rightarrow> add_keychain_targets kc ts b)"

definition broker_from_keychain :: "keychain \<Rightarrow> string list \<Rightarrow> (keyring_error, broker) result" where
  "broker_from_keychain kc targets =
     (case add_keychain_targets kc targets (broker_new []) of
        (Inl e, b) \<Rightarrow> Inl e
      | (Inr _, b) \<Rightarrow> Inr b)"

definition broker_has :: "broker \<Rightarrow> string \<Rightarrow> bool" where
  "broker_has b target = hm_contains target (br_secrets b)"

definition broker_token_for :: "broker \<Rightarrow> string \<Rightarrow> string option" where
  "broker_token_for b target = map_of (br_secrets b) target"

definition body_leaks_secret :: "broker \<Rightarrow> string \<Rightarrow> bool" where
  "body_leaks_secret b hay =
     list_ex (\<lambda>(_, token). length token \<ge> 8 \<and> contains_sub hay token) (br_secrets b)"

definition inject_as :: "broker \<Rightarrow> string \<Rightarrow> json \<Rightarrow> string \<Rightarrow> bool \<times> json" where
  "inject_as b target args field =
     (case map_of (br_secrets b) target of
        None \<Rightarrow> (False, args)
      | Some token \<Rightarrow>
          (case (if args = JNull then JObj [] else args) of
             JObj m \<Rightarrow> (True, JObj (obj_insert field (JStr token) m))
           | other \<Rightarrow> (False, other)))"

definition inject :: "broker \<Rightarrow> string \<Rightarrow> json \<Rightarrow> bool \<times> json" where
  "inject b target args = inject_as b target args DEFAULT_FIELD"

subsection \<open>Lemmas\<close>

lemma caveats_check_ok_iff:
  "caveats_check c rq = Inr () \<longleftrightarrow>
     (\<forall>d. cv_not_after_ms c = Some d \<longrightarrow> rq_now_ms rq < d)
     \<and> (cv_allowed_hosts c = []
        \<or> (\<exists>h \<in> set (cv_allowed_hosts c). eq_ignore_ascii_case h (rq_host rq)))
     \<and> (\<forall>mx got. cv_max_amount c = Some mx \<longrightarrow> rq_amount rq = Some got \<longrightarrow> \<not> f64_gt got mx)
     \<and> (cv_require_fresh c \<longrightarrow> rq_critical rq \<longrightarrow> rq_freshly_approved rq)"
  by (auto simp: caveats_check_def list_ex_iff not_le split: option.splits)

lemma add_keychain_targets_secrets:
  "add_keychain_targets kc ts b = (Inr (), b') \<Longrightarrow>
     map_of (br_secrets b') t =
       (if t \<in> set ts then (case kc t of Inr s \<Rightarrow> Some s | Inl _ \<Rightarrow> map_of (br_secrets b) t)
        else map_of (br_secrets b) t)"
proof (induction kc ts b rule: add_keychain_targets.induct)
  case (1 kc b)
  then show ?case by simp
next
  case (2 kc u ts b)
  then show ?case
    by (auto simp: keychain_load_def split: sum.splits keyring_error.splits)
qed

subsection \<open>Properties\<close>

text \<open>
  what a caveat lets through. The broker authorizes a use exactly if the target has
  no caveats, or the deadline lies strictly ahead, the host is among the allowed ones (in any
  case; any host when the list is empty), the amount does not exceed the maximum, and a critical
  action that needs a fresh approval has one.
\<close>

theorem broker_authorize_iff:
  "broker_authorize b target rq = Inr () \<longleftrightarrow>
     (\<forall>c. map_of (br_caveats b) target = Some c \<longrightarrow>
        (\<forall>d. cv_not_after_ms c = Some d \<longrightarrow> rq_now_ms rq < d)
        \<and> (cv_allowed_hosts c = []
           \<or> (\<exists>h \<in> set (cv_allowed_hosts c). eq_ignore_ascii_case h (rq_host rq)))
        \<and> (\<forall>mx got. cv_max_amount c = Some mx \<longrightarrow> rq_amount rq = Some got \<longrightarrow> \<not> f64_gt got mx)
        \<and> (cv_require_fresh c \<longrightarrow> rq_critical rq \<longrightarrow> rq_freshly_approved rq))"
  unfolding caveats_check_ok_iff [symmetric]
  by (auto simp: broker_authorize_def split: option.split)

theorem broker_authorize_iff_witness:
  "(let b = set_caveats (broker_new []) ''api''
              (caveats_permissive\<lparr>cv_not_after_ms := Some 10, cv_allowed_hosts := [''API.example'']\<rparr>);
        rq = \<lparr>rq_host = ''api.example'', rq_now_ms = 9, rq_amount = None, rq_critical = True,
              rq_freshly_approved = True\<rparr>
    in broker_authorize b ''api'' rq = Inr ()
       \<and> broker_authorize b ''api'' (rq\<lparr>rq_now_ms := 10\<rparr>) \<noteq> Inr ()
       \<and> broker_authorize b ''api'' (rq\<lparr>rq_freshly_approved := False\<rparr>) \<noteq> Inr ())"
proof -
  have "eq_ignore_ascii_case ''API.example'' ''api.example''" by code_simp
  then show ?thesis
    unfolding broker_authorize_iff Let_def
    by (simp add: set_caveats_def broker_new_def caveats_permissive_def caveats_default_def)
qed

text \<open>
  injection puts the held credential, and only it, into the arguments. When \<open>inject\<close>
  reports success, the field holds the broker's own secret for the target, whatever the agent had
  put there, and every other field is as it was; otherwise no secret was written.
\<close>

theorem inject_held_secret:
  "case inject b target args of
     (True, args') \<Rightarrow>
       (\<exists>token. map_of (br_secrets b) target = Some token
          \<and> jget DEFAULT_FIELD args' = Some (JStr token))
       \<and> (\<forall>k. k \<noteq> DEFAULT_FIELD \<longrightarrow> jget k args' = jget k args)
   | (False, args') \<Rightarrow> args' = args"
  by (auto simp: inject_def inject_as_def map_of_obj_insert split: option.split json.splits)

theorem inject_held_secret_witness:
  "\<exists>args'. inject (broker_new [(''api'', ''s3cr3t'')]) ''api''
       (JObj [(''auth_token'', JStr ''mine''), (''q'', JInt 1)]) = (True, args')
     \<and> jget ''auth_token'' args' = Some (JStr ''s3cr3t'') \<and> jget ''q'' args' = Some (JInt 1)"
proof -
  let ?b = "broker_new [(''api'', ''s3cr3t'')]"
    and ?a = "JObj [(''auth_token'', JStr ''mine''), (''q'', JInt 1)]"
  have "fst (inject ?b ''api'' ?a)"
    by (simp add: inject_def inject_as_def broker_new_def)
  then obtain a' where a': "inject ?b ''api'' ?a = (True, a')"
    by (cases "inject ?b ''api'' ?a") auto
  from inject_held_secret [of ?b "''api''" ?a] a' show ?thesis
    by (auto simp: broker_new_def DEFAULT_FIELD_def)
qed

end
