(* ===== verification/Credential.thy ===== *)
theory Credential
  imports Crypto
begin

text \<open>
  \<open>guardian-broker/src/credential.rs\<close>: issuer-signed, expiring claims. The canonical bytes
  of a credential (\<open>serde_json::to_vec\<close>, on data that always serializes) are the parameter
  \<open>canon\<close>.
\<close>

record credential =
  cd_subject :: string
  cd_issuer :: string
  cd_claims :: "(string \<times> string) list"
  cd_not_after_ms :: "int option"

record signed_credential =
  sc_credential :: credential
  sc_signature :: string

datatype credential_error = CE_BadEncoding | CE_SignatureInvalid | CE_UntrustedIssuer | CE_Expired

definition issue ::
    "('sk, 'vk) crypto \<Rightarrow> (credential \<Rightarrow> string) \<Rightarrow> credential \<Rightarrow> 'sk \<Rightarrow> signed_credential" where
  "issue cr canon c sk =
     (let c' = c\<lparr>cd_issuer := cr_hex_encode cr (cr_key_bytes cr (cr_public cr sk))\<rparr>
      in \<lparr>sc_credential = c', sc_signature = cr_hex_encode cr (cr_sign cr sk (canon c'))\<rparr>)"

text \<open>Decoding of a hex key and of a hex signature, with their length checks.\<close>

definition decode_key :: "('sk, 'vk) crypto \<Rightarrow> string \<Rightarrow> 'vk option" where
  "decode_key cr s =
     (case cr_hex_decode cr s of
        None \<Rightarrow> None
      | Some b \<Rightarrow> if length b \<noteq> 32 then None else cr_key_of_bytes cr b)"

definition decode_sig :: "('sk, 'vk) crypto \<Rightarrow> string \<Rightarrow> string option" where
  "decode_sig cr s =
     (case cr_hex_decode cr s of
        None \<Rightarrow> None
      | Some b \<Rightarrow> if length b \<noteq> 64 then None else Some b)"

definition credential_verify ::
    "('sk, 'vk) crypto \<Rightarrow> (credential \<Rightarrow> string) \<Rightarrow> signed_credential \<Rightarrow> int \<Rightarrow> string option
       \<Rightarrow> (credential_error, credential) result" where
  "credential_verify cr canon sc now trusted =
     (let c = sc_credential sc in
      case decode_key cr (cd_issuer c) of
        None \<Rightarrow> Inl CE_BadEncoding
      | Some key \<Rightarrow>
          (case decode_sig cr (sc_signature sc) of
             None \<Rightarrow> Inl CE_BadEncoding
           | Some sig \<Rightarrow>
               if \<not> cr_verify cr key (canon c) sig then Inl CE_SignatureInvalid
               else if (case trusted of Some t \<Rightarrow> \<not> eq_ignore_ascii_case (cd_issuer c) t
                                      | None \<Rightarrow> False)
               then Inl CE_UntrustedIssuer
               else if (case cd_not_after_ms c of Some d \<Rightarrow> now \<ge> d | None \<Rightarrow> False)
               then Inl CE_Expired
               else Inr c))"

text \<open>\<open>generate_issuer_key\<close>: the key whose seed the generator drew; \<open>None\<close> is the panic.\<close>

definition generate_issuer_key :: "(string \<Rightarrow> 'sk) \<Rightarrow> string option \<Rightarrow> 'sk option" where
  "generate_issuer_key key_of_seed seed = map_option key_of_seed seed"

lemma decode_key_encode:
  "crypto_ok cr \<Longrightarrow> decode_key cr (cr_hex_encode cr (cr_key_bytes cr vk)) = Some vk"
  by (simp add: decode_key_def crypto_okD)

lemma decode_sig_encode:
  "crypto_ok cr \<Longrightarrow> length s = 64 \<Longrightarrow> decode_sig cr (cr_hex_encode cr s) = Some s"
  by (simp add: decode_sig_def crypto_okD)

lemma credential_verify_Inr:
  "credential_verify cr canon sc now trusted = Inr c \<Longrightarrow>
     c = sc_credential sc
     \<and> (\<exists>key sig. decode_key cr (cd_issuer c) = Some key \<and> decode_sig cr (sc_signature sc) = Some sig
          \<and> cr_verify cr key (canon c) sig)
     \<and> (\<forall>t. trusted = Some t \<longrightarrow> eq_ignore_ascii_case (cd_issuer c) t)
     \<and> (\<forall>d. cd_not_after_ms c = Some d \<longrightarrow> now < d)"
  by (auto simp: credential_verify_def Let_def split: option.splits if_splits)

subsection \<open>Properties\<close>

text \<open>
  an issued credential verifies until it expires. A credential signed by \<open>issue\<close>
  verifies with its issuer as the trusted one, and returns the credential with the issuer's key
  in it, as long as its expiry lies ahead; from then on verification reports the expiry.
\<close>

theorem issued_credential_verifies:
  assumes "crypto_ok cr"
    and "trusted = Some (cr_hex_encode cr (cr_key_bytes cr (cr_public cr sk))) \<or> trusted = None"
  shows "credential_verify cr canon (issue cr canon c sk) now trusted =
           (if (\<exists>d. cd_not_after_ms c = Some d \<and> d \<le> now) then Inl CE_Expired
            else Inr (c\<lparr>cd_issuer := cr_hex_encode cr (cr_key_bytes cr (cr_public cr sk))\<rparr>))"
  using assms
  by (auto simp: credential_verify_def issue_def Let_def decode_key_encode decode_sig_encode
        crypto_okD(2,3) split: option.split)

lemma ex_crypto_public: "cr_public ex_crypto sk = sk" "cr_sign ex_crypto = ex_sign"
  "cr_verify ex_crypto vk m s \<longleftrightarrow> s = ex_sign vk m"
  by (simp_all add: ex_crypto_def)

lemma length_ex_sign [simp]: "length (ex_sign sk m) = 64"
  by (simp add: ex_sign_def)

definition ex_credential :: credential where
  "ex_credential =
     \<lparr>cd_subject = ''bot'', cd_issuer = [], cd_claims = [(''role'', ''reader'')],
      cd_not_after_ms = Some 10\<rparr>"

theorem issued_credential_verifies_witness:
  "is_ok (credential_verify ex_crypto cd_subject (issue ex_crypto cd_subject ex_credential True) 9 None)
   \<and> credential_verify ex_crypto cd_subject (issue ex_crypto cd_subject ex_credential True) 10 None
       = Inl CE_Expired"
  using issued_credential_verifies [OF ex_crypto_ok, of None True cd_subject ex_credential]
  by (simp add: ex_credential_def)

text \<open>
  only the trusted issuer can vouch. If a credential verifies with the trusted issuer
  \<open>t\<close>, whose key is \<open>vk\<close>, then the key's holder signed exactly these claims, provided the
  signature is valid only for credentials the holder signed; and it has not expired.
\<close>

theorem verified_credential_authentic:
  assumes "crypto_ok cr" and "credential_verify cr canon sc now (Some t) = Inr c"
    and "decode_key cr t = Some vk"
    and "\<And>c' sig. decode_sig cr (sc_signature sc) = Some sig \<Longrightarrow>
           cr_verify cr vk (canon c') sig \<Longrightarrow> c' \<in> signed"
  shows "c \<in> signed \<and> c = sc_credential sc \<and> (\<forall>d. cd_not_after_ms c = Some d \<longrightarrow> now < d)"
proof -
  note v = credential_verify_Inr [OF assms(2)]
  then have "decode_key cr (cd_issuer c) = decode_key cr t"
    using crypto_okD(8) [OF assms(1)] by (auto simp: decode_key_def)
  with v assms(3,4) show ?thesis by auto
qed

theorem verified_credential_authentic_witness:
  "let sc = issue ex_crypto cd_subject ex_credential True;
       t = cr_hex_encode ex_crypto (cr_key_bytes ex_crypto True)
   in cd_subject (sc_credential sc) = ''bot''
      \<and> credential_verify ex_crypto cd_subject sc 0 (Some t) = Inr (sc_credential sc)"
proof -
  let ?sc = "issue ex_crypto cd_subject ex_credential True"
    and ?t = "cr_hex_encode ex_crypto (cr_key_bytes ex_crypto True)"
  have v: "credential_verify ex_crypto cd_subject ?sc 0 (Some ?t) = Inr (sc_credential ?sc)"
    by (simp add: credential_verify_def issue_def Let_def decode_key_encode [OF ex_crypto_ok]
          decode_sig_encode [OF ex_crypto_ok] crypto_okD(2,3) [OF ex_crypto_ok] ex_crypto_public
          ex_credential_def)
  have sig: "decode_sig ex_crypto (sc_signature ?sc) = Some (ex_sign True ''bot'')"
    by (simp add: issue_def Let_def decode_sig_encode [OF ex_crypto_ok] ex_credential_def
          ex_crypto_public)
  from verified_credential_authentic [OF ex_crypto_ok v decode_key_encode [OF ex_crypto_ok],
      of "{c. ex_sign True (cd_subject c) = ex_sign True ''bot''}"] sig v
  show ?thesis
    by (auto simp: Let_def ex_crypto_public issue_def ex_credential_def)
qed

end
