(* ===== verification/Pack.thy ===== *)
theory Pack
  imports Schema Crypto
begin

text \<open>
  \<open>guardian-policy/src/pack.rs\<close>: signed community policy packs. A pack directory is its
  files by name, each readable or not, and whether it can be listed. The TOML parser, the JSON
  of the manifest (\<open>canon\<close>, \<open>de\<close>) and the cryptography are parameters.
\<close>

definition MANIFEST_FILE :: string where
  "MANIFEST_FILE = ''guardian-pack.json''"

record file_entry =
  fe_name :: string
  fe_blake3 :: string

record manifest =
  mf_name :: string
  mf_version :: string
  mf_files :: "file_entry list"

record signed_pack =
  sp_manifest :: manifest
  sp_publisher :: string
  sp_signature :: string

datatype pack_error =
    PK_Io string
  | PK_NotSigned string
  | PK_Malformed string
  | PK_BadEncoding
  | PK_SignatureInvalid
  | PK_UntrustedPublisher
  | PK_FileAltered string
  | PK_FileSetMismatch string
  | PK_CriticalWidening string
  | PK_Policy string

record pack_dir =
  pd_listable :: bool
  pd_files :: "(string, string option) hashmap"

subsection \<open>Reading the directory\<close>

text \<open>\<open>p.extension() == "toml"\<close>: a name that is only an extension has none.\<close>

definition is_toml :: "string \<Rightarrow> bool" where
  "is_toml n = (suffix ''.toml'' n \<and> length n > 5)"

definition policy_files :: "pack_dir \<Rightarrow> (pack_error, string list) result" where
  "policy_files d =
     (if pd_listable d then Inr (sort (filter is_toml (map fst (pd_files d))))
      else Inl (PK_Io ''read_dir''))"

definition read_bytes :: "pack_dir \<Rightarrow> string \<Rightarrow> (pack_error, string) result" where
  "read_bytes d name =
     (case map_of (pd_files d) name of Some (Some b) \<Rightarrow> Inr b | _ \<Rightarrow> Inl (PK_Io name))"

definition read_text :: "pack_dir \<Rightarrow> string \<Rightarrow> (pack_error, string) result" where
  "read_text d name =
     (case read_bytes d name of
        Inl e \<Rightarrow> Inl e
      | Inr b \<Rightarrow> if utf8_valid b then Inr b else Inl (PK_Io name))"

definition blake3_hex :: "('sk, 'vk) crypto \<Rightarrow> string \<Rightarrow> string" where
  "blake3_hex cr b = cr_hex_encode cr (cr_hash cr b)"

subsection \<open>Signing\<close>

definition build_manifest ::
    "('sk, 'vk) crypto \<Rightarrow> pack_dir \<Rightarrow> string \<Rightarrow> string \<Rightarrow> (pack_error, manifest) result" where
  "build_manifest cr d name version =
     (case policy_files d of
        Inl e \<Rightarrow> Inl e
      | Inr names \<Rightarrow>
          (case collect_results
                  (\<lambda>n. case read_bytes d n of
                         Inl e \<Rightarrow> Inl e
                       | Inr b \<Rightarrow> Inr \<lparr>fe_name = n, fe_blake3 = blake3_hex cr b\<rparr>) names of
             Inl e \<Rightarrow> Inl e
           | Inr files \<Rightarrow> Inr \<lparr>mf_name = name, mf_version = version, mf_files = files\<rparr>))"

definition pack_sign ::
    "('sk, 'vk) crypto \<Rightarrow> (manifest \<Rightarrow> string) \<Rightarrow> pack_dir \<Rightarrow> string \<Rightarrow> string \<Rightarrow> 'sk
       \<Rightarrow> (pack_error, signed_pack) result" where
  "pack_sign cr canon d name version sk =
     (case build_manifest cr d name version of
        Inl e \<Rightarrow> Inl e
      | Inr m \<Rightarrow>
          Inr \<lparr>sp_manifest = m,
               sp_publisher = cr_hex_encode cr (cr_key_bytes cr (cr_public cr sk)),
               sp_signature = cr_hex_encode cr (cr_sign cr sk (canon m))\<rparr>)"

definition sign_with_seed_hex ::
    "('sk, 'vk) crypto \<Rightarrow> (string \<Rightarrow> 'sk) \<Rightarrow> (manifest \<Rightarrow> string) \<Rightarrow> pack_dir \<Rightarrow> string \<Rightarrow> string
       \<Rightarrow> string \<Rightarrow> (pack_error, signed_pack) result" where
  "sign_with_seed_hex cr key_of_seed canon d name version seed_hex =
     (case cr_hex_decode cr (trim seed_hex) of
        None \<Rightarrow> Inl PK_BadEncoding
      | Some seed \<Rightarrow>
          if length seed \<noteq> 32 then Inl PK_BadEncoding
          else pack_sign cr canon d name version (key_of_seed seed))"

subsection \<open>Verifying\<close>

definition load_signed ::
    "(string \<Rightarrow> (string, signed_pack) result) \<Rightarrow> pack_dir \<Rightarrow> (pack_error, signed_pack) result" where
  "load_signed de d =
     (if \<not> hm_contains MANIFEST_FILE (pd_files d) then Inl (PK_NotSigned MANIFEST_FILE)
      else (case read_text d MANIFEST_FILE of
              Inl e \<Rightarrow> Inl e
            | Inr t \<Rightarrow> (case de t of Inl e \<Rightarrow> Inl (PK_Malformed e) | Inr sp \<Rightarrow> Inr sp)))"

definition parse_verifying_key :: "('sk, 'vk) crypto \<Rightarrow> string \<Rightarrow> (pack_error, 'vk) result" where
  "parse_verifying_key cr hex =
     (case cr_hex_decode cr hex of
        None \<Rightarrow> Inl PK_BadEncoding
      | Some b \<Rightarrow>
          if length b \<noteq> 32 then Inl PK_BadEncoding
          else (case cr_key_of_bytes cr b of None \<Rightarrow> Inl PK_BadEncoding | Some k \<Rightarrow> Inr k))"

definition parse_signature :: "('sk, 'vk) crypto \<Rightarrow> string \<Rightarrow> (pack_error, string) result" where
  "parse_signature cr hex =
     (case cr_hex_decode cr hex of
        None \<Rightarrow> Inl PK_BadEncoding
      | Some b \<Rightarrow> if length b \<noteq> 64 then Inl PK_BadEncoding else Inr b)"

text \<open>The \<open>BTreeSet\<close> symmetric difference, in ascending order.\<close>

definition name_diff :: "string list \<Rightarrow> string list \<Rightarrow> string list" where
  "name_diff xs ys =
     sort (remdups (filter (\<lambda>x. x \<notin> set ys) xs @ filter (\<lambda>y. y \<notin> set xs) ys))"

fun check_files ::
    "('sk, 'vk) crypto \<Rightarrow> pack_dir \<Rightarrow> file_entry list \<Rightarrow> (pack_error, unit) result" where
  "check_files cr d [] = Inr ()"
| "check_files cr d (f # fs) =
     (case read_bytes d (fe_name f) of
        Inl e \<Rightarrow> Inl e
      | Inr b \<Rightarrow>
          if blake3_hex cr b \<noteq> fe_blake3 f then Inl (PK_FileAltered (fe_name f))
          else check_files cr d fs)"

definition pack_verify ::
    "('sk, 'vk) crypto \<Rightarrow> (manifest \<Rightarrow> string) \<Rightarrow> pack_dir \<Rightarrow> signed_pack \<Rightarrow> string option
       \<Rightarrow> (pack_error, unit) result" where
  "pack_verify cr canon d sp trusted =
     (case parse_verifying_key cr (sp_publisher sp) of
        Inl e \<Rightarrow> Inl e
      | Inr key \<Rightarrow>
          (case parse_signature cr (sp_signature sp) of
             Inl e \<Rightarrow> Inl e
           | Inr sig \<Rightarrow>
               if \<not> cr_verify cr key (canon (sp_manifest sp)) sig then Inl PK_SignatureInvalid
               else if (case trusted of Some t \<Rightarrow> \<not> eq_ignore_ascii_case (sp_publisher sp) t
                                      | None \<Rightarrow> False)
               then Inl PK_UntrustedPublisher
               else
                 (case policy_files d of
                    Inl e \<Rightarrow> Inl e
                  | Inr on_disk \<Rightarrow>
                      (let listed = map fe_name (mf_files (sp_manifest sp))
                       in if set on_disk \<noteq> set listed
                          then Inl (PK_FileSetMismatch (join '', '' (name_diff on_disk listed)))
                          else check_files cr d (mf_files (sp_manifest sp))))))"

subsection \<open>Loading\<close>

fun policy_error_message :: "policy_error \<Rightarrow> string" where
  "policy_error_message (PE_Toml m) = ''failed to parse policy TOML: '' @ m"
| "policy_error_message (PE_UnsupportedVersion v) =
     ''unsupported policy version '' @ dec_nat v @ '' (this build supports v1)''"
| "policy_error_message PE_PermissiveDefault =
     ''defaults.decision must be `ask` or `deny`, never `allow`''"
| "policy_error_message (PE_DuplicateRuleId i) = ''duplicate rule id: '' @ i"
| "policy_error_message (PE_InvalidWhen i m) =
     ''rule `'' @ i @ ''` has an invalid `when` expression: '' @ m"

definition load_policy ::
    "(string \<Rightarrow> (string, policy) result) \<Rightarrow> pack_dir \<Rightarrow> string \<Rightarrow> (pack_error, policy) result" where
  "load_policy toml d name =
     (case read_text d name of
        Inl e \<Rightarrow> Inl e
      | Inr t \<Rightarrow> (case policy_from_toml_str toml t of
                    Inl e \<Rightarrow> Inl (PK_Policy (policy_error_message e))
                  | Inr p \<Rightarrow> Inr p))"

definition widens :: "rule \<Rightarrow> bool" where
  "widens r = (rule_critical r \<and> rule_decision r = DK_Allow)"

definition critical_widening_rules ::
    "(string \<Rightarrow> (string, policy) result) \<Rightarrow> pack_dir \<Rightarrow> (pack_error, string list) result" where
  "critical_widening_rules toml d =
     (case policy_files d of
        Inl e \<Rightarrow> Inl e
      | Inr names \<Rightarrow>
          (case collect_results (load_policy toml d) names of
             Inl e \<Rightarrow> Inl e
           | Inr ps \<Rightarrow>
               Inr (concat (map (\<lambda>p. map (\<lambda>r. pol_role p @ ''::'' @ rule_id r)
                                      (filter widens (pol_rules p))) ps))))"

definition load_pack ::
    "('sk, 'vk) crypto \<Rightarrow> (manifest \<Rightarrow> string) \<Rightarrow> (string \<Rightarrow> (string, signed_pack) result)
       \<Rightarrow> (string \<Rightarrow> (string, policy) result) \<Rightarrow> pack_dir \<Rightarrow> string option \<Rightarrow> bool
       \<Rightarrow> (pack_error, policy list) result" where
  "load_pack cr canon de toml d trusted allow_critical =
     (case load_signed de d of
        Inl e \<Rightarrow> Inl e
      | Inr sp \<Rightarrow>
          (case pack_verify cr canon d sp trusted of
             Inl e \<Rightarrow> Inl e
           | Inr _ \<Rightarrow>
               (case critical_widening_rules toml d of
                  Inl e \<Rightarrow> Inl e
                | Inr widening \<Rightarrow>
                    if widening \<noteq> [] \<and> \<not> allow_critical
                    then Inl (PK_CriticalWidening (join '', '' widening))
                    else collect_results (\<lambda>f. load_policy toml d (fe_name f))
                           (mf_files (sp_manifest sp)))))"

subsection \<open>Lemmas\<close>

lemma check_files_ok:
  "check_files cr d fs = Inr () \<longleftrightarrow>
     (\<forall>f \<in> set fs. \<exists>b. read_bytes d (fe_name f) = Inr b \<and> blake3_hex cr b = fe_blake3 f)"
  by (induction fs) (auto split: sum.splits)

lemma read_text_bytes: "read_text d n = Inr b \<Longrightarrow> read_bytes d n = Inr b"
  by (auto simp: read_text_def split: sum.splits if_splits)

lemma load_policy_text:
  "load_policy toml d n = Inr p \<Longrightarrow> \<exists>b. read_text d n = Inr b \<and> policy_from_toml_str toml b = Inr p"
  by (auto simp: load_policy_def split: sum.splits)

lemma load_policy_cong: "read_text d n = read_text d' n \<Longrightarrow> load_policy toml d n = load_policy toml d' n"
  by (simp add: load_policy_def)

lemma pack_verify_ok_iff:
  "pack_verify cr canon d sp trusted = Inr () \<longleftrightarrow>
     (\<exists>key sig. parse_verifying_key cr (sp_publisher sp) = Inr key
        \<and> parse_signature cr (sp_signature sp) = Inr sig
        \<and> cr_verify cr key (canon (sp_manifest sp)) sig)
     \<and> (\<forall>t. trusted = Some t \<longrightarrow> eq_ignore_ascii_case (sp_publisher sp) t)
     \<and> (\<exists>names. policy_files d = Inr names
          \<and> set names = fe_name ` set (mf_files (sp_manifest sp)))
     \<and> check_files cr d (mf_files (sp_manifest sp)) = Inr ()"
  by (auto simp: pack_verify_def Let_def split: sum.splits option.splits if_splits)

lemma critical_widening_Nil:
  assumes "critical_widening_rules toml d = Inr []" and "policy_files d = Inr names"
    and "n \<in> set names" and "load_policy toml d n = Inr p"
  shows "\<forall>r \<in> set (pol_rules p). \<not> widens r"
proof -
  from assms(1,2) obtain ps where
    ps: "list_all2 (\<lambda>n p. load_policy toml d n = Inr p) names ps"
    and none: "\<forall>p \<in> set ps. filter widens (pol_rules p) = []"
    by (auto simp: critical_widening_rules_def collect_results_Inr split: sum.splits)
  from ps assms(3,4) have "p \<in> set ps"
    by (auto simp: list_all2_conv_all_nth in_set_conv_nth)
  with none show ?thesis by (auto simp: filter_empty_conv)
qed

lemma load_pack_Inr:
  assumes "load_pack cr canon de toml d trusted allow_critical = Inr ps"
  obtains sp where "load_signed de d = Inr sp" and "pack_verify cr canon d sp trusted = Inr ()"
    and "list_all2 (\<lambda>f p. load_policy toml d (fe_name f) = Inr p) (mf_files (sp_manifest sp)) ps"
    and "\<not> allow_critical \<Longrightarrow> critical_widening_rules toml d = Inr []"
  using assms
  by (auto simp: load_pack_def collect_results_Inr split: sum.splits if_splits)

lemma blake3_hex_inj: "crypto_ok cr \<Longrightarrow> blake3_hex cr a = blake3_hex cr b \<Longrightarrow> cr_hash cr a = cr_hash cr b"
  unfolding blake3_hex_def by (metis crypto_okD(6) option.inject)

subsection \<open>Properties\<close>

text \<open>
  C24: what a loaded pack is. If a pack loads with a trusted publisher, its manifest
  carries a signature that verifies under the publisher's key, which is the trusted one; the
  policy files on disk are exactly the listed ones, each with its listed hash; the policies
  returned are theirs, each of them valid; and without the opt-in no rule of them allows a
  critical action.
\<close>

theorem loaded_pack_verified:
  assumes "load_pack cr canon de toml d (Some t) allow_critical = Inr ps"
  shows "\<exists>sp key sig names. load_signed de d = Inr sp \<and> eq_ignore_ascii_case (sp_publisher sp) t
           \<and> parse_verifying_key cr (sp_publisher sp) = Inr key
           \<and> parse_signature cr (sp_signature sp) = Inr sig
           \<and> cr_verify cr key (canon (sp_manifest sp)) sig
           \<and> policy_files d = Inr names \<and> set names = fe_name ` set (mf_files (sp_manifest sp))
           \<and> list_all2 (\<lambda>f p. \<exists>b. read_bytes d (fe_name f) = Inr b \<and> blake3_hex cr b = fe_blake3 f
                                \<and> toml b = Inr p \<and> policy_wf p) (mf_files (sp_manifest sp)) ps
           \<and> (\<not> allow_critical \<longrightarrow> (\<forall>p \<in> set ps. \<forall>r \<in> set (pol_rules p).
                 \<not> (rule_critical r \<and> rule_decision r = DK_Allow)))"
proof -
  obtain sp where sp: "load_signed de d = Inr sp" "pack_verify cr canon d sp (Some t) = Inr ()"
    and ps: "list_all2 (\<lambda>f p. load_policy toml d (fe_name f) = Inr p) (mf_files (sp_manifest sp)) ps"
    and crit: "\<not> allow_critical \<Longrightarrow> critical_widening_rules toml d = Inr []"
    using load_pack_Inr [OF assms] by blast
  from sp(2) obtain key sig names where
    v: "parse_verifying_key cr (sp_publisher sp) = Inr key"
      "parse_signature cr (sp_signature sp) = Inr sig"
      "cr_verify cr key (canon (sp_manifest sp)) sig" "eq_ignore_ascii_case (sp_publisher sp) t"
      "policy_files d = Inr names" "set names = fe_name ` set (mf_files (sp_manifest sp))"
    and files: "\<forall>f \<in> set (mf_files (sp_manifest sp)). \<exists>b. read_bytes d (fe_name f) = Inr b
      \<and> blake3_hex cr b = fe_blake3 f"
    unfolding pack_verify_ok_iff check_files_ok by blast
  have "list_all2 (\<lambda>f p. \<exists>b. read_bytes d (fe_name f) = Inr b \<and> blake3_hex cr b = fe_blake3 f
          \<and> toml b = Inr p \<and> policy_wf p) (mf_files (sp_manifest sp)) ps"
    using ps files
    by (force simp: list_all2_conv_all_nth dest!: load_policy_text read_text_bytes
          policy_from_toml_str_wf)
  moreover have "\<forall>p \<in> set ps. \<forall>r \<in> set (pol_rules p). \<not> widens r" if "\<not> allow_critical"
  proof
    fix p assume "p \<in> set ps"
    then obtain f where "f \<in> set (mf_files (sp_manifest sp))"
      "load_policy toml d (fe_name f) = Inr p"
      using list_all2_right [OF ps] by blast
    with critical_widening_Nil [OF crit [OF that] v(5)] v(6)
    show "\<forall>r \<in> set (pol_rules p). \<not> widens r" by blast
  qed
  ultimately show ?thesis
    using sp(1) v unfolding widens_def by blast
qed

text \<open>
  a signed manifest fixes the policies. Two directories that load as packs with the
  same manifest give the same policies, unless two of the files listed under one name differ and
  collide under the hash.
\<close>

theorem pack_contents_authentic:
  assumes "crypto_ok cr"
    and "load_pack cr canon de toml d trusted allow = Inr ps"
    and "load_pack cr canon de toml d' trusted' allow' = Inr ps'"
    and "load_signed de d = Inr sp" and "load_signed de d' = Inr sp'"
    and "sp_manifest sp = sp_manifest sp'"
  shows "ps = ps' \<or> (\<exists>f \<in> set (mf_files (sp_manifest sp)). \<exists>b b'.
           read_bytes d (fe_name f) = Inr b \<and> read_bytes d' (fe_name f) = Inr b'
           \<and> b \<noteq> b' \<and> cr_hash cr b = cr_hash cr b')"
proof (rule disjCI)
  let ?fs = "mf_files (sp_manifest sp)"
  assume no: "\<not> (\<exists>f \<in> set ?fs. \<exists>b b'. read_bytes d (fe_name f) = Inr b
      \<and> read_bytes d' (fe_name f) = Inr b' \<and> b \<noteq> b' \<and> cr_hash cr b = cr_hash cr b')"
  have p: "pack_verify cr canon d sp trusted = Inr ()"
      "list_all2 (\<lambda>f p. load_policy toml d (fe_name f) = Inr p) ?fs ps"
    using load_pack_Inr [OF assms(2)] assms(4) by (metis Inr_inject)+
  have p': "pack_verify cr canon d' sp' trusted' = Inr ()"
      "list_all2 (\<lambda>f p. load_policy toml d' (fe_name f) = Inr p) ?fs ps'"
    using load_pack_Inr [OF assms(3)] assms(5,6) by (metis Inr_inject)+
  have "read_bytes d (fe_name f) = read_bytes d' (fe_name f)" if "f \<in> set ?fs" for f
    using p(1) p'(1) assms(6) that no blake3_hex_inj [OF assms(1)]
    unfolding pack_verify_ok_iff check_files_ok by metis
  then have "load_policy toml d (fe_name f) = load_policy toml d' (fe_name f)" if "f \<in> set ?fs" for f
    using that by (intro load_policy_cong) (simp add: read_text_def)
  with p(2) p'(2) show "ps = ps'"
    by (auto simp: list_all2_conv_all_nth intro!: nth_equalityI)
qed

text \<open>
  what the publisher signs verifies. The pack \<open>sign\<close> produces for a directory
  verifies against that directory, with the publisher's key as the trusted one.
\<close>

theorem signed_pack_verifies:
  assumes "crypto_ok cr" and "pack_sign cr canon d name version sk = Inr sp"
  shows "pack_verify cr canon d sp (Some (cr_hex_encode cr (cr_key_bytes cr (cr_public cr sk)))) = Inr ()"
proof -
  from assms(2) obtain names files where names: "policy_files d = Inr names"
    and files: "list_all2 (\<lambda>n f. (case read_bytes d n of
           Inl e \<Rightarrow> Inl e
         | Inr b \<Rightarrow> Inr \<lparr>fe_name = n, fe_blake3 = blake3_hex cr b\<rparr>) = Inr f) names files"
    and sp: "sp = \<lparr>sp_manifest = \<lparr>mf_name = name, mf_version = version, mf_files = files\<rparr>,
        sp_publisher = cr_hex_encode cr (cr_key_bytes cr (cr_public cr sk)),
        sp_signature = cr_hex_encode cr
          (cr_sign cr sk (canon \<lparr>mf_name = name, mf_version = version, mf_files = files\<rparr>))\<rparr>"
    by (auto simp: pack_sign_def build_manifest_def collect_results_Inr split: sum.splits)
  have ok: "fe_name f = n \<and> (\<exists>b. read_bytes d n = Inr b \<and> blake3_hex cr b = fe_blake3 f)"
    if "(case read_bytes d n of Inl e \<Rightarrow> Inl e
         | Inr b \<Rightarrow> Inr \<lparr>fe_name = n, fe_blake3 = blake3_hex cr b\<rparr>) = (Inr f :: (pack_error, file_entry) result)"
    for n f
    using that by (auto split: sum.splits)
  from files have "list_all2 (\<lambda>n f. fe_name f = n \<and>
      (\<exists>b. read_bytes d n = Inr b \<and> blake3_hex cr b = fe_blake3 f)) names files"
    by (rule list_all2_mono) (rule ok)
  then have "map fe_name files = names"
    and "\<forall>f \<in> set files. \<exists>b. read_bytes d (fe_name f) = Inr b \<and> blake3_hex cr b = fe_blake3 f"
    by (auto simp: list_all2_conv_all_nth in_set_conv_nth intro!: nth_equalityI)
  then show ?thesis
    using names crypto_okD(2-6) [OF assms(1)]
    by (auto simp: pack_verify_ok_iff sp parse_verifying_key_def parse_signature_def
          check_files_ok)
qed

subsection \<open>Witnesses\<close>

text \<open>A pack of one policy file, signed with the example cryptography.\<close>

definition ex_pack_policy :: policy where
  "ex_pack_policy =
     \<lparr>pol_version = 1, pol_role = ''r'', pol_default = DK_Ask, pol_meta = None, pol_tools = [],
      pol_rules = []\<rparr>"

definition ex_pack_dir :: pack_dir where
  "ex_pack_dir =
     \<lparr>pd_listable = True, pd_files = [(''a.toml'', Some ''x''), (MANIFEST_FILE, Some ''m'')]\<rparr>"

definition ex_pack :: signed_pack where
  "ex_pack =
     \<lparr>sp_manifest = \<lparr>mf_name = ''p'', mf_version = ''1'',
        mf_files = [\<lparr>fe_name = ''a.toml'', fe_blake3 = blake3_hex ex_crypto ''x''\<rparr>]\<rparr>,
      sp_publisher = cr_hex_encode ex_crypto (cr_key_bytes ex_crypto (cr_public ex_crypto True)),
      sp_signature = cr_hex_encode ex_crypto (cr_sign ex_crypto True ''p'')\<rparr>"

lemma ex_pack_files: "policy_files ex_pack_dir = Inr [''a.toml'']"
  by (simp add: policy_files_def ex_pack_dir_def is_toml_def MANIFEST_FILE_def
        suffix_to_prefix)

lemma ex_pack_read: "read_bytes ex_pack_dir ''a.toml'' = Inr ''x''"
  "read_text ex_pack_dir ''a.toml'' = Inr ''x''" "load_signed (\<lambda>_. Inr ex_pack) ex_pack_dir = Inr ex_pack"
proof -
  have u: "utf8_valid ''x''" "utf8_valid ''m''" by code_simp+
  then show "read_bytes ex_pack_dir ''a.toml'' = Inr ''x''"
    and "read_text ex_pack_dir ''a.toml'' = Inr ''x''"
    and "load_signed (\<lambda>_. Inr ex_pack) ex_pack_dir = Inr ex_pack"
    by (simp_all add: read_text_def read_bytes_def load_signed_def ex_pack_dir_def
          hm_contains_def MANIFEST_FILE_def)
qed

lemma ex_pack_load:
  "load_pack ex_crypto mf_name (\<lambda>_. Inr ex_pack) (\<lambda>_. Inr ex_pack_policy) ex_pack_dir
     (Some (sp_publisher ex_pack)) False = Inr [ex_pack_policy]"
proof -
  have v: "pack_verify ex_crypto mf_name ex_pack_dir ex_pack (Some (sp_publisher ex_pack)) = Inr ()"
    using crypto_okD(2-6) [OF ex_crypto_ok]
    by (simp add: pack_verify_ok_iff check_files_ok ex_pack_files ex_pack_read ex_pack_def
          parse_verifying_key_def parse_signature_def)
  have l: "load_policy (\<lambda>_. Inr ex_pack_policy) ex_pack_dir ''a.toml'' = Inr ex_pack_policy"
    by (simp add: load_policy_def ex_pack_read policy_from_toml_str_def validate_structure_def
          ex_pack_policy_def)
  have w: "critical_widening_rules (\<lambda>_. Inr ex_pack_policy) ex_pack_dir = Inr []"
    by (simp add: critical_widening_rules_def ex_pack_files l) (simp add: ex_pack_policy_def)
  have "mf_files (sp_manifest ex_pack) =
      [\<lparr>fe_name = ''a.toml'', fe_blake3 = blake3_hex ex_crypto ''x''\<rparr>]"
    by (simp add: ex_pack_def)
  then show ?thesis
    by (simp add: load_pack_def ex_pack_read v w l)
qed

theorem loaded_pack_verified_witness:
  "\<exists>key sig. parse_verifying_key ex_crypto (sp_publisher ex_pack) = Inr key
     \<and> cr_verify ex_crypto key (mf_name (sp_manifest ex_pack)) sig"
  using loaded_pack_verified [OF ex_pack_load] by (simp add: ex_pack_read) blast

theorem pack_contents_authentic_witness:
  "[ex_pack_policy] = [ex_pack_policy] \<or> (\<exists>f \<in> set (mf_files (sp_manifest ex_pack)). \<exists>b b'.
     read_bytes ex_pack_dir (fe_name f) = Inr b \<and> read_bytes ex_pack_dir (fe_name f) = Inr b'
     \<and> b \<noteq> b' \<and> cr_hash ex_crypto b = cr_hash ex_crypto b')"
  by (rule pack_contents_authentic [OF ex_crypto_ok ex_pack_load ex_pack_load ex_pack_read(3)
        ex_pack_read(3) refl])

theorem signed_pack_verifies_witness:
  "\<exists>sp. pack_sign ex_crypto mf_name ex_pack_dir ''p'' ''1'' True = Inr sp
     \<and> pack_verify ex_crypto mf_name ex_pack_dir sp
          (Some (cr_hex_encode ex_crypto (cr_key_bytes ex_crypto (cr_public ex_crypto True)))) = Inr ()"
proof -
  have "pack_sign ex_crypto mf_name ex_pack_dir ''p'' ''1'' True = Inr ex_pack"
    by (simp add: pack_sign_def build_manifest_def ex_pack_files ex_pack_read ex_pack_def)
  from signed_pack_verifies [OF ex_crypto_ok this] this show ?thesis by blast
qed

end
