(* ===== verification/Checker.thy ===== *)
theory Checker
  imports Core
begin

text \<open>
  \<open>guardian-checker/src/lib.rs\<close>: the advisory explanation and risk score. The network is
  what the endpoint answered (an error, or the body's chunks, of which any may fail to
  arrive); decoding an explanation is serde_json, the parameter \<open>de\<close>. The explanation never
  enters the policy engine, whose \<open>evaluate\<close> has no such argument.
\<close>

record explanation =
  ex_plain_text :: string
  ex_risk :: nat
  ex_rationale :: string

fun kind_phrase :: "action_kind \<Rightarrow> string" where
  "kind_phrase K_FileRead = ''read files on your computer''"
| "kind_phrase K_FileWrite = ''create or modify files on your computer''"
| "kind_phrase K_Exec = ''run a command on your computer''"
| "kind_phrase K_HttpRequest = ''make a network request''"
| "kind_phrase K_Email = ''send an email on your behalf''"
| "kind_phrase K_Payment = ''move money''"
| "kind_phrase K_Delete = ''delete data''"
| "kind_phrase K_Other = ''perform an action''"

definition describe :: "action \<Rightarrow> string" where
  "describe a =
     ''The agent wants to '' @ kind_phrase (act_kind a) @ '' (via `'' @ act_tool a @ ''`).''"

fun kind_risk :: "action_kind \<Rightarrow> nat" where
  "kind_risk K_FileRead = 10"
| "kind_risk K_FileWrite = 30"
| "kind_risk K_HttpRequest = 40"
| "kind_risk K_Email = 45"
| "kind_risk K_Other = 50"
| "kind_risk K_Delete = 65"
| "kind_risk K_Exec = 70"
| "kind_risk K_Payment = 90"

definition base_risk :: "action \<Rightarrow> nat" where
  "base_risk a =
     (if (case act_capability a of Some c \<Rightarrow> capability_is_critical c | None \<Rightarrow> False)
      then max (kind_risk (act_kind a)) 90
      else kind_risk (act_kind a))"

definition stub_explain :: "action \<Rightarrow> explanation" where
  "stub_explain a =
     \<lparr>ex_plain_text = describe a, ex_risk = base_risk a,
      ex_rationale = ''Heuristic offline checker (no model).''\<rparr>"

definition MAX_BODY :: nat where
  "MAX_BODY = 256 * 1024"

text \<open>\<open>Inl ()\<close> is a connection, status or transfer error.\<close>

type_synonym http_reply = "(unit, (unit, string) result list) result"

fun read_body :: "string \<Rightarrow> (unit, string) result list \<Rightarrow> (unit, string) result" where
  "read_body body [] = Inr body"
| "read_body body (Inl e # chunks) = Inl ()"
| "read_body body (Inr chunk # chunks) =
     (if length body + length chunk > MAX_BODY then Inl () else read_body (body @ chunk) chunks)"

definition try_explain ::
    "(string \<Rightarrow> explanation option) \<Rightarrow> http_reply \<Rightarrow> (unit, explanation) result" where
  "try_explain de reply =
     (case reply of
        Inl _ \<Rightarrow> Inl ()
      | Inr chunks \<Rightarrow>
          (case read_body [] chunks of
             Inl _ \<Rightarrow> Inl ()
           | Inr body \<Rightarrow>
               (case de body of
                  None \<Rightarrow> Inl ()
                | Some e \<Rightarrow> Inr (e\<lparr>ex_risk := min (ex_risk e) 100\<rparr>))))"

definition http_explain ::
    "(string \<Rightarrow> explanation option) \<Rightarrow> http_reply \<Rightarrow> action \<Rightarrow> explanation" where
  "http_explain de reply a =
     (case try_explain de reply of
        Inr e \<Rightarrow> e
      | Inl _ \<Rightarrow>
          \<lparr>ex_plain_text = describe a, ex_risk = max (base_risk a) 60,
           ex_rationale = ''Checker endpoint unavailable; conservative offline estimate.''\<rparr>)"

lemma kind_risk_bounds: "10 \<le> kind_risk k \<and> kind_risk k \<le> 90"
  by (cases k) simp_all

lemma base_risk_bounds: "10 \<le> base_risk a \<and> base_risk a \<le> 90"
  using kind_risk_bounds [of "act_kind a"] by (simp add: base_risk_def)

lemma base_risk_critical: "action_is_critical a \<Longrightarrow> 90 \<le> base_risk a"
  by (auto simp: base_risk_def action_is_critical_def split: option.splits)

lemma read_body_bound:
  "length body \<le> MAX_BODY \<Longrightarrow> read_body body chunks = Inr b \<Longrightarrow> length b \<le> MAX_BODY"
  by (induction body chunks rule: read_body.induct) (auto split: if_splits)

lemma read_body_oversize:
  "MAX_BODY < length body + length (concat cs) \<Longrightarrow> length body \<le> MAX_BODY \<Longrightarrow>
     read_body body (map Inr cs) = Inl ()"
  by (induction cs arbitrary: body) auto

subsection \<open>Properties\<close>

text \<open>
  C36: the model-backed checker always answers, on the scale. Whatever the endpoint
  sends, the score is at most 100; if it sends an error, more than 256 KiB, or anything that
  is no explanation, the answer is the offline description with a score of at least 60, and of
  at least 90 for an action in a critical category.
\<close>

theorem http_checker_fallback:
  "ex_risk (http_explain de reply a) \<le> 100
   \<and> ((\<exists>cs. reply = Inr (map Inr cs) \<and> length (concat cs) \<le> MAX_BODY \<and> de (concat cs) \<noteq> None)
      \<or> (ex_plain_text (http_explain de reply a) = describe a
         \<and> 60 \<le> ex_risk (http_explain de reply a)
         \<and> (action_is_critical a \<longrightarrow> 90 \<le> ex_risk (http_explain de reply a))))"
proof (cases "try_explain de reply")
  case (Inl u)
  then show ?thesis
    using base_risk_bounds [of a] base_risk_critical [of a]
    by (auto simp: http_explain_def max_def)
next
  case (Inr e)
  then obtain chunks body where b: "reply = Inr chunks" "read_body [] chunks = Inr body"
    "de body \<noteq> None" "ex_risk e \<le> 100"
    by (auto simp: try_explain_def split: sum.splits option.splits)
  have "\<exists>cs. chunks = map Inr cs \<and> body = acc @ concat cs" if "read_body acc chunks = Inr body" for acc
    using that
  proof (induction acc chunks rule: read_body.induct)
    case (3 acc chunk chunks)
    then obtain cs where "chunks = map Inr cs" "body = (acc @ chunk) @ concat cs"
      by (auto split: if_splits)
    then show ?case by (intro exI [of _ "chunk # cs"]) simp
  qed simp_all
  from this [of "[]"] b(2) obtain cs where "chunks = map Inr cs" "body = concat cs" by auto
  moreover have "length body \<le> MAX_BODY"
    using read_body_bound [OF _ b(2)] by simp
  ultimately show ?thesis
    using Inr b by (auto simp: http_explain_def)
qed

theorem http_checker_fallback_witness:
  "let a = \<lparr>act_id = ''a'', act_kind = K_FileRead, act_tool = ''t'', act_args = JNull,
            act_capability = Some Cap_Credential,
            act_context = \<lparr>ctx_timestamp_ms = 0, ctx_source = ''s'', ctx_session = None,
              ctx_host = None, ctx_principal = None, ctx_path = None, ctx_extra = []\<rparr>\<rparr>
   in 90 \<le> ex_risk (http_explain (\<lambda>_. None) (Inl ()) a)"
  using http_checker_fallback [of "\<lambda>_. None" "Inl ()"]
  by (simp add: Let_def action_is_critical_def)

end
