(* ===== verification/Gateway.thy ===== *)
theory Gateway
  imports Engine Audit_Log Vault Checker
begin

text \<open>
  \<open>guardian-mcp-gateway/src/lib.rs\<close>: the mediation gateway. A tool call is normalized
  into an action, checked against the hard overrides, evaluated, shown to the Checker and the
  human if the decision is \<open>ask\<close>, recorded, and forwarded or blocked. The ports are the
  fields of \<open>gw_io\<close>: what the clock, the file system, the Checker, the human, the upstream, the
  detector and SQLite answer during one call. \<open>handle\<close> returns, beside the outcome and the new
  state, the port calls it made in their order.
\<close>

subsection \<open>Calls, outcomes and ports\<close>

record tool_call =
  tc_tool :: string
  tc_args :: json
  tc_kind :: "action_kind option"
  tc_capability :: "capability option"
  tc_session :: "string option"

datatype approval_response = Approved | Denied

datatype gateway_outcome =
    GO_Allowed json
  | GO_UpstreamError string
  | GO_Blocked string

datatype port_event =
    EV_Explain action
  | EV_Approve action explanation
  | EV_Record audit_entry bool
  | EV_Forward tool_call
  | EV_Detect string

record gw_io =
  io_now_ms :: int
  io_kill_file :: bool
  io_cwd :: string
  io_audit_ok :: bool
  io_explain :: "action \<Rightarrow> explanation"
  io_approve :: "action \<Rightarrow> explanation \<Rightarrow> approval_response"
  io_forward :: "tool_call \<Rightarrow> (string, json) result"
  io_detect :: "string \<Rightarrow> string list"
  io_rng :: "nat \<Rightarrow> draw"

text \<open>The third-party code the gateway calls.\<close>

record ('sk, 'vk, 'prog) deps =
  dp_crypto :: "('sk, 'vk) crypto"
  dp_ser_entry :: "audit_entry \<Rightarrow> (string, string) result"
  dp_cel :: "'prog cel_exec"
  dp_json_text :: "json \<Rightarrow> string"

subsection \<open>Self-protection\<close>

text \<open>
  The components of a Unix path. \<open>Path::components\<close> drops empty and \<open>.\<close> components except a
  leading \<open>.\<close>, which the loop of \<open>normalize_abs\<close> ignores; here all of them are dropped.
\<close>

datatype path_comp = PC_Root | PC_Parent | PC_Normal string

definition is_absolute :: "string \<Rightarrow> bool" where
  "is_absolute p = prefix ''/'' p"

definition path_comps :: "string \<Rightarrow> path_comp list" where
  "path_comps p =
     (if is_absolute p then [PC_Root] else [])
     @ map (\<lambda>s. if s = ''..'' then PC_Parent else PC_Normal s)
         (filter (\<lambda>s. s \<noteq> [] \<and> s \<noteq> ''.'') (split_by (\<lambda>c. c = CHR ''/'') p))"

definition path_join :: "string \<Rightarrow> string \<Rightarrow> string" where
  "path_join base p =
     (if is_absolute p then p
      else if base = [] then p
      else if suffix ''/'' base then base @ p
      else base @ ''/'' @ p)"

text \<open>\<open>PathBuf::pop\<close>: nothing happens at the root or on an empty path.\<close>

definition path_pop :: "path_comp list \<Rightarrow> path_comp list" where
  "path_pop out = (if out = [] \<or> last out = PC_Root then out else butlast out)"

fun normalize_comps :: "path_comp list \<Rightarrow> path_comp list \<Rightarrow> path_comp list" where
  "normalize_comps out [] = out"
| "normalize_comps out (PC_Parent # cs) = normalize_comps (path_pop out) cs"
| "normalize_comps out (c # cs) = normalize_comps (out @ [c]) cs"

definition normalize_abs :: "string \<Rightarrow> string \<Rightarrow> path_comp list" where
  "normalize_abs cwd p =
     normalize_comps [] (path_comps (if is_absolute p then p else path_join cwd p))"

record self_protection =
  sf_protected :: "string list"
  sf_kill_switch :: bool

definition kill_reason :: string where
  "kill_reason =
     ''Guardian kill switch is engaged '' @ [CHR 0xE2, CHR 0x80, CHR 0x94]
     @ '' all actions are blocked.''"

definition protects :: "self_protection \<Rightarrow> string \<Rightarrow> string \<Rightarrow> bool" where
  "protects sf cwd path =
     list_ex (\<lambda>p. prefix (normalize_abs cwd p) (normalize_abs cwd path)) (sf_protected sf)"

text \<open>\<open>sf_kill_switch\<close> says whether a sentinel is configured, \<open>kill_file\<close> whether it exists.\<close>

definition override_deny :: "self_protection \<Rightarrow> bool \<Rightarrow> string \<Rightarrow> action \<Rightarrow> string option" where
  "override_deny sf kill_file cwd a =
     (if sf_kill_switch sf \<and> kill_file then Some kill_reason
      else if act_kind a = K_FileWrite \<or> act_kind a = K_Delete
      then (case ctx_path (act_context a) of
              None \<Rightarrow> None
            | Some path \<Rightarrow>
                if protects sf cwd path
                then Some (''Guardian self-protection: refusing to modify its own file (''
                       @ path @ '').'')
                else None)
      else None)"

subsection \<open>Normalizing a tool call\<close>

definition infer_kind :: "string \<Rightarrow> action_kind" where
  "infer_kind tool =
     (let t = to_ascii_lowercase tool; has = contains_sub t in
      if has ''payment'' \<or> has ''transfer'' \<or> has ''pay'' then K_Payment
      else if has ''delete'' \<or> has ''remove'' then K_Delete
      else if has ''email'' \<or> has ''mail'' then K_Email
      else if has ''exec'' \<or> has ''shell'' \<or> has ''bash'' \<or> has ''run'' then K_Exec
      else if has ''http'' \<or> has ''fetch'' \<or> has ''request'' then K_HttpRequest
      else if has ''write'' \<or> has ''create'' \<or> has ''edit'' then K_FileWrite
      else if has ''read'' \<or> has ''open'' then K_FileRead
      else K_Other)"

fun infer_capability :: "action_kind \<Rightarrow> capability option" where
  "infer_capability K_Payment = Some Cap_Payment"
| "infer_capability K_Delete = Some Cap_IrreversibleDelete"
| "infer_capability K_Email = Some Cap_Messaging"
| "infer_capability K_HttpRequest = Some Cap_Network"
| "infer_capability K_FileRead = Some Cap_Filesystem"
| "infer_capability K_FileWrite = Some Cap_Filesystem"
| "infer_capability K_Exec = None"
| "infer_capability K_Other = None"

definition build_action :: "tool_call \<Rightarrow> string \<Rightarrow> string \<Rightarrow> int \<Rightarrow> action" where
  "build_action call source i now =
     (let kind = (case tc_kind call of Some k \<Rightarrow> k | None \<Rightarrow> infer_kind (tc_tool call))
      in \<lparr>act_id = i, act_kind = kind, act_tool = tc_tool call, act_args = tc_args call,
          act_capability =
            (case tc_capability call of Some c \<Rightarrow> Some c | None \<Rightarrow> infer_capability kind),
          act_context =
            \<lparr>ctx_timestamp_ms = now, ctx_source = source, ctx_session = None,
             ctx_host = jget_str ''host'' (tc_args call), ctx_principal = None,
             ctx_path = jget_str ''path'' (tc_args call), ctx_extra = []\<rparr>\<rparr>)"

text \<open>A little head and tail of a value, by characters.\<close>

definition mask :: "string \<Rightarrow> string" where
  "mask s =
     (let chs = utf8_chars s; n = length chs in
      if n \<le> 4 then replicate (max n 1) CHR ''*''
      else concat (take 2 chs) @ replicate (n - 4) CHR ''*'' @ concat (drop (n - 2) chs))"

subsection \<open>The gateway\<close>

record ('sk, 'prog) gateway =
  gw_source :: string
  gw_policy :: "'prog compiled_policy"
  gw_audit :: "'sk audit_log"
  gw_env :: eval_env
  gw_self :: self_protection
  gw_counter :: nat
  gw_protected :: "string list"
  gw_vaults :: "(string, vault) hashmap"
  gw_detector :: bool

definition gateway_new ::
    "string \<Rightarrow> 'prog compiled_policy \<Rightarrow> 'sk audit_log \<Rightarrow> eval_env \<Rightarrow> ('sk, 'prog) gateway" where
  "gateway_new source pol lg env =
     \<lparr>gw_source = source, gw_policy = pol, gw_audit = lg, gw_env = env,
      gw_self = \<lparr>sf_protected = [], sf_kill_switch = False\<rparr>, gw_counter = 0, gw_protected = [],
      gw_vaults = [], gw_detector = False\<rparr>"

definition with_self_protection ::
    "self_protection \<Rightarrow> ('sk, 'prog) gateway \<Rightarrow> ('sk, 'prog) gateway" where
  "with_self_protection sf g = g\<lparr>gw_self := sf\<rparr>"

definition with_data_protection ::
    "string list \<Rightarrow> ('sk, 'prog) gateway \<Rightarrow> ('sk, 'prog) gateway" where
  "with_data_protection values g = g\<lparr>gw_protected := values\<rparr>"

definition with_pii_detector :: "('sk, 'prog) gateway \<Rightarrow> ('sk, 'prog) gateway" where
  "with_pii_detector g = g\<lparr>gw_detector := True\<rparr>"

definition add_protected :: "string \<Rightarrow> ('sk, 'prog) gateway \<Rightarrow> ('sk, 'prog) gateway" where
  "add_protected value g =
     (if value \<in> set (gw_protected g) then g
      else g\<lparr>gw_protected := gw_protected g @ [value],
             gw_vaults := map (\<lambda>(s, v). (s, learn v value)) (gw_vaults g)\<rparr>)"

definition vault_stats :: "('sk, 'prog) gateway \<Rightarrow> nat \<times> nat" where
  "vault_stats g =
     (length (gw_protected g), sum_list (map (\<lambda>(s, v). token_count v) (gw_vaults g)))"

definition protected_masked :: "('sk, 'prog) gateway \<Rightarrow> string list" where
  "protected_masked g = map mask (gw_protected g)"

definition remove_last_protected :: "('sk, 'prog) gateway \<Rightarrow> bool \<times> ('sk, 'prog) gateway" where
  "remove_last_protected g =
     (gw_protected g \<noteq> [], g\<lparr>gw_protected := butlast (gw_protected g)\<rparr>)"

definition tokenization_on :: "('sk, 'prog) gateway \<Rightarrow> bool" where
  "tokenization_on g = (gw_protected g \<noteq> [] \<or> gw_detector g)"

text \<open>
  The session's vault, created and seeded on first use. The code copies the protected values under one
  lock and makes the vault under another; here it is one step (\<open>Gateway_Laws\<close> takes it apart).
\<close>

definition session_vault :: "(nat \<Rightarrow> draw) \<Rightarrow> string \<Rightarrow> ('sk, 'prog) gateway \<Rightarrow> vault" where
  "session_vault rng session g =
     (case map_of (gw_vaults g) session of
        Some v \<Rightarrow> v
      | None \<Rightarrow> fold (\<lambda>x v. learn v x) (gw_protected g) (vault_new rng))"

definition with_vault ::
    "(nat \<Rightarrow> draw) \<Rightarrow> string \<Rightarrow> (vault \<Rightarrow> 'a \<times> vault) \<Rightarrow> ('sk, 'prog) gateway
       \<Rightarrow> 'a \<times> ('sk, 'prog) gateway" where
  "with_vault rng session f g =
     (case f (session_vault rng session g) of
        (x, v) \<Rightarrow> (x, g\<lparr>gw_vaults := AList.update session v (gw_vaults g)\<rparr>))"

definition audit_record ::
    "('sk, 'vk, 'prog) deps \<Rightarrow> bool \<Rightarrow> action \<Rightarrow> decision \<Rightarrow> string option \<Rightarrow> explanation option
       \<Rightarrow> string option \<Rightarrow> bool \<Rightarrow> ('sk, 'prog) gateway
       \<Rightarrow> bool \<times> port_event \<times> ('sk, 'prog) gateway" where
  "audit_record dp io a d matched expl resp critical g =
     (let e = for_decision a d matched (map_option ex_rationale expl) resp critical
      in (case audit_append (dp_crypto dp) (dp_ser_entry dp) io (gw_audit g) e of
            (r, lg) \<Rightarrow> (is_ok r, EV_Record e (is_ok r), g\<lparr>gw_audit := lg\<rparr>)))"

definition normalize_call ::
    "int \<Rightarrow> tool_call \<Rightarrow> ('sk, 'prog) gateway \<Rightarrow> action \<times> ('sk, 'prog) gateway" where
  "normalize_call now call g =
     (build_action call (gw_source g) (''act-'' @ dec_nat (gw_counter g)) now,
      g\<lparr>gw_counter := (gw_counter g + 1) mod 2 ^ 64\<rparr>)"

text \<open>The port calls for an \<open>ask\<close>: whether to proceed, the explanation, the answer, the events.\<close>

definition resolve_decision ::
    "gw_io \<Rightarrow> action \<Rightarrow> decision
       \<Rightarrow> bool \<times> explanation option \<times> string option \<times> port_event list" where
  "resolve_decision io a d =
     (case d of
        Allow \<Rightarrow> (True, None, None, [])
      | Deny _ \<Rightarrow> (False, None, None, [])
      | Ask _ \<Rightarrow>
          (let expl = io_explain io a;
               approved = (io_approve io a expl = Approved)
           in (approved, Some expl, Some (if approved then ''approved'' else ''denied''),
               [EV_Explain a, EV_Approve a expl])))"

definition session_of :: "tool_call \<Rightarrow> string" where
  "session_of call = (case tc_session call of Some s \<Rightarrow> s | None \<Rightarrow> [])"

text \<open>The authorized egress: restore, forward, learn what the detector finds, redact.\<close>

definition forward_call ::
    "('sk, 'vk, 'prog) deps \<Rightarrow> gw_io \<Rightarrow> tool_call \<Rightarrow> ('sk, 'prog) gateway
       \<Rightarrow> gateway_outcome \<times> port_event list \<times> ('sk, 'prog) gateway" where
  "forward_call dp io call g =
     (if \<not> tokenization_on g
      then (case io_forward io call of
              Inr x \<Rightarrow> (GO_Allowed x, [EV_Forward call], g)
            | Inl e \<Rightarrow> (GO_UpstreamError e, [EV_Forward call], g))
      else
        (let session = session_of call;
             (real_args, g1) =
               with_vault (io_rng io) session (\<lambda>v. (detokenize_json v (tc_args call), v)) g;
             forwarded = call\<lparr>tc_args := real_args\<rparr>
         in (case io_forward io forwarded of
               Inl e \<Rightarrow> (GO_UpstreamError e, [EV_Forward forwarded], g1)
             | Inr x \<Rightarrow>
                 (let g2 =
                    (if gw_detector g1
                     then fold (\<lambda>found g. snd (with_vault (io_rng io) session
                                                (\<lambda>v. ((), learn v found)) g))
                            (io_detect io (dp_json_text dp x)) g1
                     else g1);
                      (redacted, g3) =
                        with_vault (io_rng io) session (\<lambda>v. tokenize_json v x) g2
                  in (GO_Allowed redacted,
                      EV_Forward forwarded #
                        (if gw_detector g1 then [EV_Detect (dp_json_text dp x)] else []),
                      g3)))))"

definition audit_unavailable :: string where
  "audit_unavailable = ''Guardian audit log unavailable; action blocked (fail-closed).''"

definition handle ::
    "('sk, 'vk, 'prog) deps \<Rightarrow> gw_io \<Rightarrow> tool_call \<Rightarrow> ('sk, 'prog) gateway
       \<Rightarrow> gateway_outcome \<times> port_event list \<times> ('sk, 'prog) gateway" where
  "handle dp io call g0 =
     (let (a, g) = normalize_call (io_now_ms io) call g0 in
      case override_deny (gw_self g) (io_kill_file io) (io_cwd io) a of
        Some reason \<Rightarrow>
          (case audit_record dp (io_audit_ok io) a (Deny reason) (Some ''self-protection'')
                  None None False g of
             (_, ev, g1) \<Rightarrow> (GO_Blocked reason, [ev], g1))
      | None \<Rightarrow>
          (let out = evaluate (dp_cel dp) (gw_policy g) a (gw_env g);
               (proceed, expl, resp, evs) = resolve_decision io a (out_decision out)
           in (case audit_record dp (io_audit_ok io) a (out_decision out) (out_matched_rule out)
                      expl resp (out_critical out) g of
                 (recorded, ev, g1) \<Rightarrow>
                   if proceed \<and> \<not> recorded then (GO_Blocked audit_unavailable, evs @ [ev], g1)
                   else if proceed
                   then (case forward_call dp io call g1 of
                           (o', fevs, g2) \<Rightarrow> (o', evs @ ev # fevs, g2))
                   else (GO_Blocked (case out_decision out of Deny reason \<Rightarrow> reason
                                                           | _ \<Rightarrow> ''Denied by the user.''),
                         evs @ [ev], g1))))"

definition gateway_audit_verify ::
    "('sk, 'vk) crypto \<Rightarrow> ('sk, 'prog) gateway \<Rightarrow> (audit_error, unit) result" where
  "gateway_audit_verify cr g = audit_verify cr (gw_audit g)"

definition gateway_audit_len :: "('sk, 'prog) gateway \<Rightarrow> nat" where
  "gateway_audit_len g = audit_len (gw_audit g)"

definition gateway_audit_tail ::
    "(string \<Rightarrow> audit_entry option) \<Rightarrow> ('sk, 'prog) gateway \<Rightarrow> nat \<Rightarrow> audit_entry list" where
  "gateway_audit_tail de g limit = map snd (audit_tail de (gw_audit g) limit)"

end
