(* ===== verification/Gateway_Laws.thy ===== *)
theory Gateway_Laws
  imports Gateway Engine_Laws Audit_Laws Vault_Laws
begin

text \<open>
  What mediation guarantees: nothing is forwarded without an \<open>allow\<close> or a human's approval and
  a log entry, the Checker and the human are consulted on \<open>ask\<close> only, the log stays verified and
  append-only over any run, sessions do not share tokens, and results are redacted with every
  protected value.
\<close>

subsection \<open>The course of one call\<close>

abbreviation call_action :: "gw_io \<Rightarrow> tool_call \<Rightarrow> ('sk, 'prog) gateway \<Rightarrow> action" where
  "call_action io call g \<equiv> fst (normalize_call (io_now_ms io) call g)"

abbreviation call_verdict ::
    "('sk, 'vk, 'prog) deps \<Rightarrow> gw_io \<Rightarrow> tool_call \<Rightarrow> ('sk, 'prog) gateway \<Rightarrow> eval_outcome" where
  "call_verdict dp io call g \<equiv>
     evaluate (dp_cel dp) (gw_policy g) (call_action io call g) (gw_env g)"

abbreviation call_override :: "gw_io \<Rightarrow> tool_call \<Rightarrow> ('sk, 'prog) gateway \<Rightarrow> string option" where
  "call_override io call g \<equiv>
     override_deny (gw_self g) (io_kill_file io) (io_cwd io) (call_action io call g)"

text \<open>The entry a call is recorded with.\<close>

definition call_entry ::
    "('sk, 'vk, 'prog) deps \<Rightarrow> gw_io \<Rightarrow> tool_call \<Rightarrow> ('sk, 'prog) gateway \<Rightarrow> audit_entry" where
  "call_entry dp io call g =
     (let a = call_action io call g in
      case call_override io call g of
        Some reason \<Rightarrow> for_decision a (Deny reason) (Some ''self-protection'') None None False
      | None \<Rightarrow>
          (let out = call_verdict dp io call g;
               (proceed, expl, resp, evs) = resolve_decision io a (out_decision out)
           in for_decision a (out_decision out) (out_matched_rule out)
                (map_option ex_rationale expl) resp (out_critical out)))"

definition call_appended ::
    "('sk, 'vk, 'prog) deps \<Rightarrow> gw_io \<Rightarrow> tool_call \<Rightarrow> ('sk, 'prog) gateway
       \<Rightarrow> (audit_error, nat) result \<times> 'sk audit_log" where
  "call_appended dp io call g =
     audit_append (dp_crypto dp) (dp_ser_entry dp) (io_audit_ok io) (gw_audit g)
       (call_entry dp io call g)"

text \<open>The state after the call was recorded, before anything is forwarded.\<close>

definition recorded_state ::
    "('sk, 'vk, 'prog) deps \<Rightarrow> gw_io \<Rightarrow> tool_call \<Rightarrow> ('sk, 'prog) gateway \<Rightarrow> ('sk, 'prog) gateway" where
  "recorded_state dp io call g =
     g\<lparr>gw_counter := (gw_counter g + 1) mod 2 ^ 64, gw_audit := snd (call_appended dp io call g)\<rparr>"

text \<open>Whether the call may be forwarded, once recorded.\<close>

definition call_cleared ::
    "('sk, 'vk, 'prog) deps \<Rightarrow> gw_io \<Rightarrow> tool_call \<Rightarrow> ('sk, 'prog) gateway \<Rightarrow> bool" where
  "call_cleared dp io call g \<longleftrightarrow>
     call_override io call g = None
     \<and> (case out_decision (call_verdict dp io call g) of
          Allow \<Rightarrow> True
        | Deny _ \<Rightarrow> False
        | Ask _ \<Rightarrow> io_approve io (call_action io call g)
                     (io_explain io (call_action io call g)) = Approved)"

definition call_consults ::
    "('sk, 'vk, 'prog) deps \<Rightarrow> gw_io \<Rightarrow> tool_call \<Rightarrow> ('sk, 'prog) gateway \<Rightarrow> port_event list" where
  "call_consults dp io call g =
     (if call_override io call g = None
      then (case out_decision (call_verdict dp io call g) of
              Ask _ \<Rightarrow> [EV_Explain (call_action io call g),
                        EV_Approve (call_action io call g) (io_explain io (call_action io call g))]
            | _ \<Rightarrow> [])
      else [])"

lemma audit_record_eq:
  "audit_record dp ok a d matched expl resp crit g =
     (let e = for_decision a d matched (map_option ex_rationale expl) resp crit;
          r = audit_append (dp_crypto dp) (dp_ser_entry dp) ok (gw_audit g) e
      in (is_ok (fst r), EV_Record e (is_ok (fst r)), g\<lparr>gw_audit := snd r\<rparr>))"
  by (simp add: audit_record_def Let_def split_beta)

lemma normalize_call_state [simp]:
  "snd (normalize_call now call g) = g\<lparr>gw_counter := (gw_counter g + 1) mod 2 ^ 64\<rparr>"
  by (simp add: normalize_call_def)

text \<open>\<open>handle\<close> in one equation: consult, record, and forward only when cleared and recorded.\<close>

lemma handle_eq:
  "handle dp io call g =
     (let ok = is_ok (fst (call_appended dp io call g));
          evs = call_consults dp io call g @ [EV_Record (call_entry dp io call g) ok];
          g1 = recorded_state dp io call g
      in if call_cleared dp io call g \<and> ok
         then (case forward_call dp io call g1 of (o', fevs, g2) \<Rightarrow> (o', evs @ fevs, g2))
         else (GO_Blocked
                 (case call_override io call g of
                    Some reason \<Rightarrow> reason
                  | None \<Rightarrow>
                      if call_cleared dp io call g then audit_unavailable
                      else (case out_decision (call_verdict dp io call g) of
                              Deny reason \<Rightarrow> reason | _ \<Rightarrow> ''Denied by the user.'')),
               evs, g1))"
proof -
  obtain a where a: "normalize_call (io_now_ms io) call g =
      (a, g\<lparr>gw_counter := (gw_counter g + 1) mod 2 ^ 64\<rparr>)"
    by (metis normalize_call_state prod.collapse)
  show ?thesis
    by (cases "override_deny (gw_self g) (io_kill_file io) (io_cwd io) a";
        cases "out_decision (evaluate (dp_cel dp) (gw_policy g) a (gw_env g))")
      (simp_all add: handle_def a audit_record_eq Let_def call_appended_def call_entry_def
        recorded_state_def call_cleared_def call_consults_def resolve_decision_def
        split: prod.split)
qed

subsection \<open>Forwarding\<close>

text \<open>The call that reaches the upstream: the arguments restored when tokenization is on.\<close>

definition restored_call :: "gw_io \<Rightarrow> tool_call \<Rightarrow> ('sk, 'prog) gateway \<Rightarrow> tool_call" where
  "restored_call io call g =
     (if tokenization_on g
      then call\<lparr>tc_args := detokenize_json (session_vault (io_rng io) (session_of call) g) (tc_args call)\<rparr>
      else call)"

fun is_forward :: "port_event \<Rightarrow> bool" where
  "is_forward (EV_Forward _) = True"
| "is_forward _ = False"

fun is_consult :: "port_event \<Rightarrow> bool" where
  "is_consult (EV_Explain _) = True"
| "is_consult (EV_Approve _ _) = True"
| "is_consult _ = False"

lemma forward_call_events:
  "\<exists>post. fst (snd (forward_call dp io call g)) = EV_Forward (restored_call io call g) # post
     \<and> filter is_forward post = [] \<and> filter is_consult post = []"
  by (auto simp: forward_call_def restored_call_def with_vault_def Let_def split_beta split: sum.split)

lemma ask_events_no_forward:
  "filter is_forward (case d of Ask x \<Rightarrow> [EV_Explain a, EV_Approve a e] | _ \<Rightarrow> []) = []"
  by (cases d) simp_all

lemma call_consults_no_forward [simp]: "filter is_forward (call_consults dp io call g) = []"
  unfolding call_consults_def
  by (simp only: ask_events_no_forward if_distrib [where f = "filter is_forward"] filter.simps
        if_cancel)

lemma with_vault_audit [simp]:
  "gw_audit (snd (with_vault rng s f g)) = gw_audit g"
  "gw_protected (snd (with_vault rng s f g)) = gw_protected g"
  "gw_detector (snd (with_vault rng s f g)) = gw_detector g"
  by (simp_all add: with_vault_def split_beta)

lemma learn_fold_state [simp]:
  "gw_audit (fold (\<lambda>x g. snd (with_vault rng s (F x) g)) xs g) = gw_audit g"
  "gw_protected (fold (\<lambda>x g. snd (with_vault rng s (F x) g)) xs g) = gw_protected g"
  "gw_detector (fold (\<lambda>x g. snd (with_vault rng s (F x) g)) xs g) = gw_detector g"
  by (induction xs arbitrary: g) simp_all

lemma forward_call_state [simp]:
  "gw_audit (snd (snd (forward_call dp io call g))) = gw_audit g"
  "gw_protected (snd (snd (forward_call dp io call g))) = gw_protected g"
  "gw_detector (snd (snd (forward_call dp io call g))) = gw_detector g"
  by (simp_all add: forward_call_def Let_def split_beta split: sum.split)

lemma recorded_state_simps [simp]:
  "gw_vaults (recorded_state dp io call g) = gw_vaults g"
  "gw_protected (recorded_state dp io call g) = gw_protected g"
  "gw_detector (recorded_state dp io call g) = gw_detector g"
  "gw_audit (recorded_state dp io call g) = snd (call_appended dp io call g)"
  "session_vault rng s (recorded_state dp io call g) = session_vault rng s g"
  "tokenization_on (recorded_state dp io call g) = tokenization_on g"
  "restored_call io' c (recorded_state dp io call g) = restored_call io' c g"
  by (simp_all add: recorded_state_def session_vault_def tokenization_on_def restored_call_def
        split: option.split)

text \<open>The trace of a call.\<close>

lemma handle_events:
  "\<exists>post. fst (snd (handle dp io call g)) =
       call_consults dp io call g
       @ [EV_Record (call_entry dp io call g) (is_ok (fst (call_appended dp io call g)))]
       @ (if call_cleared dp io call g \<and> is_ok (fst (call_appended dp io call g))
          then EV_Forward (restored_call io call g) # post else [])
     \<and> filter is_forward post = [] \<and> filter is_consult post = []"
proof (cases "call_cleared dp io call g \<and> is_ok (fst (call_appended dp io call g))")
  case True
  with forward_call_events [of dp io call "recorded_state dp io call g"] show ?thesis
    by (auto simp: handle_eq Let_def split_beta)
next
  case False
  then show ?thesis
    by (intro exI [of _ "[]"]) (auto simp: handle_eq Let_def)
qed

lemma forward_event:
  assumes "EV_Forward fc \<in> set (fst (snd (handle dp io call g)))"
  shows "fc = restored_call io call g \<and> call_cleared dp io call g
         \<and> is_ok (fst (call_appended dp io call g))"
proof -
  let ?ok = "is_ok (fst (call_appended dp io call g))"
  obtain post where "fst (snd (handle dp io call g)) =
        call_consults dp io call g @ [EV_Record (call_entry dp io call g) ?ok]
        @ (if call_cleared dp io call g \<and> ?ok then EV_Forward (restored_call io call g) # post else [])"
    and "filter is_forward post = []"
    using handle_events [of dp io call g] by blast
  then have "filter is_forward (fst (snd (handle dp io call g))) =
      (if call_cleared dp io call g \<and> ?ok then [EV_Forward (restored_call io call g)] else [])"
    by simp
  moreover have "EV_Forward fc \<in> set (filter is_forward (fst (snd (handle dp io call g))))"
    using assms by simp
  ultimately show ?thesis by (simp split: if_splits)
qed

lemma handle_audit:
  "gw_audit (snd (snd (handle dp io call g))) = snd (call_appended dp io call g)"
  by (simp add: handle_eq Let_def split_beta)

subsection \<open>The log over a run of calls\<close>

definition gateway_log :: "('sk, 'prog) gateway \<Rightarrow> string list" where
  "gateway_log g = log_contents (al_db (gw_audit g))"

definition gateway_intact :: "('sk, 'vk, 'prog) deps \<Rightarrow> ('sk, 'prog) gateway \<Rightarrow> bool" where
  "gateway_intact dp g = is_ok (verify_chain (dp_crypto dp) (al_db (gw_audit g)))"

definition handle_op ::
    "('sk, 'vk, 'prog) deps \<Rightarrow> gw_io \<times> tool_call \<Rightarrow> ('sk, 'prog) gateway \<Rightarrow> ('sk, 'prog) gateway" where
  "handle_op dp op g = snd (snd (handle dp (fst op) (snd op) g))"

definition call_written ::
    "('sk, 'vk, 'prog) deps \<Rightarrow> gw_io \<times> tool_call \<Rightarrow> ('sk, 'prog) gateway \<Rightarrow> string list" where
  "call_written dp op g =
     written (dp_ser_entry dp) (io_audit_ok (fst op), call_entry dp (fst op) (snd op) g)"

lemma handle_op_audit:
  "gw_audit (handle_op dp op g) =
     audit_op (dp_crypto dp) (dp_ser_entry dp)
       (io_audit_ok (fst op), call_entry dp (fst op) (snd op) g) (gw_audit g)"
  by (simp add: handle_op_def handle_audit call_appended_def audit_op_def)

definition call_sent ::
    "('sk, 'vk, 'prog) deps \<Rightarrow> gw_io \<times> tool_call \<Rightarrow> ('sk, 'prog) gateway \<Rightarrow> nat" where
  "call_sent dp op g = length (filter is_forward (fst (snd (handle dp (fst op) (snd op) g))))"

lemma call_sent_written:
  assumes "gateway_intact dp g" and "length (gateway_log g) < audit_room"
  shows "call_sent dp op g \<le> length (call_written dp op g)"
proof -
  have i: "chain_intact (dp_crypto dp) (al_db (gw_audit g)) (gateway_log g)"
    using assms(1) by (simp add: gateway_intact_def verify_chain_ok_iff gateway_log_def)
  have "call_written dp op g \<noteq> []" if "is_ok (fst (call_appended dp (fst op) (snd op) g))"
    using that audit_append_intact [OF i assms(2), of "dp_ser_entry dp" "io_audit_ok (fst op)"]
    by (auto simp: call_appended_def call_written_def written_def split: sum.splits if_splits)
  with handle_events [of dp "fst op" "snd op" g] show ?thesis
    by (auto simp: call_sent_def Suc_le_eq split: if_splits)
qed

interpretation mediated: recording_mediator gateway_log "gateway_intact dp" "handle_op dp"
    "call_written dp" audit_room "call_sent dp"
  for dp :: "('sk, 'vk, 'prog) deps"
proof unfold_locales
  fix s :: "('sk, 'prog) gateway" and i
  assume s: "gateway_intact dp s" "length (gateway_log s) < audit_room"
  then have a: "audit_intact (dp_crypto dp) (gw_audit s)"
      "length (log_contents (al_db (gw_audit s))) < audit_room"
    by (simp_all add: gateway_intact_def audit_intact_def gateway_log_def)
  show "gateway_intact dp (handle_op dp i s)"
    using audit_op_contract(1) [OF a] by (simp add: gateway_intact_def audit_intact_def handle_op_audit)
  show "gateway_log (handle_op dp i s) = gateway_log s @ call_written dp i s"
    using audit_op_contract(2) [OF a] by (simp add: gateway_log_def handle_op_audit call_written_def)
  show "call_sent dp i s \<le> length (call_written dp i s)"
    using s by (rule call_sent_written)
qed (simp add: call_written_def length_written [simplified])

text \<open>The events of a run.\<close>

fun run_events ::
    "('sk, 'vk, 'prog) deps \<Rightarrow> (gw_io \<times> tool_call) list \<Rightarrow> ('sk, 'prog) gateway \<Rightarrow> port_event list" where
  "run_events dp [] g = []"
| "run_events dp (op # ops) g =
     fst (snd (handle dp (fst op) (snd op) g)) @ run_events dp ops (handle_op dp op g)"

lemma run_events_sent:
  "length (filter is_forward (run_events dp ops g)) = run_total (call_sent dp) (handle_op dp) ops g"
  by (induction ops arbitrary: g) (simp_all add: call_sent_def)

subsection \<open>Sessions\<close>

lemma with_vault_other [simp]:
  "s' \<noteq> s \<Longrightarrow> map_of (gw_vaults (snd (with_vault rng s f g))) s' = map_of (gw_vaults g) s'"
  by (simp add: with_vault_def split_beta)

lemma with_vault_same:
  "map_of (gw_vaults (snd (with_vault rng s f g))) s = Some (snd (f (session_vault rng s g)))"
  by (simp add: with_vault_def split_beta)

lemma learn_fold_other:
  "s' \<noteq> s \<Longrightarrow>
     map_of (gw_vaults (fold (\<lambda>x g. snd (with_vault rng s (F x) g)) xs g)) s' = map_of (gw_vaults g) s'"
  by (induction xs arbitrary: g) simp_all

lemma forward_call_other:
  "s' \<noteq> session_of call \<Longrightarrow>
     map_of (gw_vaults (snd (snd (forward_call dp io call g)))) s' = map_of (gw_vaults g) s'"
  by (simp add: forward_call_def Let_def split_beta learn_fold_other split: sum.split)

lemma handle_other_sessions:
  "s' \<noteq> session_of call \<Longrightarrow>
     map_of (gw_vaults (snd (snd (handle dp io call g)))) s' = map_of (gw_vaults g) s'"
  by (simp add: handle_eq Let_def split_beta forward_call_other)

subsection \<open>Protected values\<close>

lemma va_known_token_for [simp]: "va_known (snd (token_for v x)) = va_known v"
  by (simp add: token_for_def Let_def split: option.split)

lemma va_known_replace [simp]: "va_known (snd (replace_spans tx spans pos v)) = va_known v"
proof (induction tx spans pos v rule: replace_spans.induct)
  case (1 tx pos v)
  then show ?case by simp
next
  case (2 tx s e spans pos v)
  obtain tok v1 where t: "token_for v (slice tx s e) = (tok, v1)" by fastforce
  have known: "va_known v1 = va_known v"
    using va_known_token_for [of v "slice tx s e"] unfolding t by simp
  show ?case
  proof (cases "s < pos")
    case True
    from 2(1) [OF True] True show ?thesis by simp
  next
    case False
    from 2(2) [OF False t [symmetric]] False known show ?thesis
      by (simp add: t split_beta)
  qed
qed

lemma va_known_tokenize [simp]: "va_known (snd (tokenize v tx)) = va_known v"
  by (simp add: tokenize_def)

lemma va_known_tokenize_json:
  shows "va_known (snd (tokenize_json v x)) = va_known v"
    and "va_known (snd (tokenize_array v xs)) = va_known v"
    and "va_known (snd (tokenize_object v kvs)) = va_known v"
proof (induction v x and v xs and v kvs
    rule: tokenize_json_tokenize_array_tokenize_object.induct)
  case (9 v x xs)
  obtain y v1 where t: "tokenize_json v x = (y, v1)" by fastforce
  from 9(1) 9(2) [OF t [symmetric]] show ?case
    by (simp add: t split_beta)
next
  case (11 v k x kvs)
  obtain y v1 where t: "tokenize_json v x = (y, v1)" by fastforce
  from 11(1) 11(2) [OF t [symmetric]] show ?case
    by (simp add: t split_beta)
qed (simp_all add: split_beta)

text \<open>\<open>v\<close> replaces the value \<open>x\<close>: it is too short to be learned, or known.\<close>

definition knows :: "vault \<Rightarrow> string \<Rightarrow> bool" where
  "knows v x \<longleftrightarrow> MIN_KNOWN_LEN \<le> length (trim x) \<longrightarrow> trim x \<in> set (va_known v)"

lemma knows_learn: "knows (learn v x) x" "knows v y \<Longrightarrow> knows (learn v x) y"
  by (auto simp: knows_def learn_def Let_def)

lemma knows_fold_learn: "(x \<in> set xs \<or> knows v x) \<Longrightarrow> knows (fold (\<lambda>x v. learn v x) xs v) x"
  by (induction xs arbitrary: v) (auto intro: knows_learn)

lemma knows_cong: "va_known v = va_known w \<Longrightarrow> knows v x = knows w x"
  by (simp add: knows_def)

text \<open>Every open session's vault knows every protected value.\<close>

definition vaults_know :: "('sk, 'prog) gateway \<Rightarrow> bool" where
  "vaults_know g \<longleftrightarrow>
     hm_ok (gw_vaults g)
     \<and> (\<forall>s v. map_of (gw_vaults g) s = Some v \<longrightarrow> (\<forall>x \<in> set (gw_protected g). knows v x))"

lemma session_vault_knows:
  "vaults_know g \<Longrightarrow> x \<in> set (gw_protected g) \<Longrightarrow> knows (session_vault rng s g) x"
  by (auto simp: vaults_know_def session_vault_def knows_fold_learn split: option.split)

lemma vaults_know_with_vault:
  assumes "vaults_know g" and "\<And>v x. knows v x \<Longrightarrow> knows (snd (f v)) x"
  shows "vaults_know (snd (with_vault rng s f g))"
  using assms session_vault_knows [OF assms(1)]
  by (auto simp: vaults_know_def with_vault_def split_beta)

lemma vaults_know_learn_fold:
  "vaults_know g \<Longrightarrow> vaults_know (fold (\<lambda>x g. snd (with_vault rng s (\<lambda>v. ((), learn v x)) g)) xs g)"
  by (induction xs arbitrary: g) (simp_all add: vaults_know_with_vault knows_learn)

lemma vaults_know_forward:
  "vaults_know g \<Longrightarrow> vaults_know (snd (snd (forward_call dp io call g)))"
  by (simp add: forward_call_def Let_def split_beta vaults_know_with_vault vaults_know_learn_fold
        knows_cong [OF va_known_tokenize_json(1)] split: sum.split)

lemma vaults_know_recorded: "vaults_know (recorded_state dp io call g) = vaults_know g"
  by (simp add: vaults_know_def)

lemma vaults_know_handle [preserves]:
  "vaults_know g \<Longrightarrow> vaults_know (snd (snd (handle dp io call g)))"
  by (simp add: handle_eq Let_def split_beta vaults_know_forward vaults_know_recorded)

lemma vaults_know_add [preserves]:
  assumes "vaults_know g"
  shows "vaults_know (add_protected x g)"
proof -
  have "map_of (map (\<lambda>(s, v). (s, learn v x)) m) s = map_option (\<lambda>v. learn v x) (map_of m s)"
    for m :: "(string, vault) hashmap" and s
    by (induction m) auto
  moreover have "fst \<circ> (\<lambda>(s :: string, v). (s, learn v x)) = fst"
    by auto
  ultimately show ?thesis
    using assms by (auto simp: vaults_know_def add_protected_def hm_ok_def intro: knows_learn)
qed

lemma vaults_know_remove [preserves]:
  "vaults_know g \<Longrightarrow> vaults_know (snd (remove_last_protected g))"
  by (auto simp: vaults_know_def remove_last_protected_def dest: in_set_butlastD)

text \<open>
  \<open>with_vault\<close> as the two critical sections it is: the list of protected values is copied under its own
  lock, and the vault is made from that copy under the lock of the vaults. A value that is added in
  between reaches the vaults there are and not the one that is about to be made, which never learns it.
\<close>

definition with_vault_seeded ::
    "string list \<Rightarrow> (nat \<Rightarrow> draw) \<Rightarrow> string \<Rightarrow> (vault \<Rightarrow> 'a \<times> vault) \<Rightarrow> ('sk, 'prog) gateway
       \<Rightarrow> 'a \<times> ('sk, 'prog) gateway" where
  "with_vault_seeded seed rng session f g =
     (case f (case map_of (gw_vaults g) session of
                Some v \<Rightarrow> v | None \<Rightarrow> fold (\<lambda>x v. learn v x) seed (vault_new rng)) of
        (x, v) \<Rightarrow> (x, g\<lparr>gw_vaults := AList.update session v (gw_vaults g)\<rparr>))"

lemma with_vault_undisturbed: "with_vault rng s f g = with_vault_seeded (gw_protected g) rng s f g"
  by (simp add: with_vault_def with_vault_seeded_def session_vault_def)

lemma learn_fold_known: "set (va_known (fold (\<lambda>x v. learn v x) xs v)) \<subseteq> set (va_known v) \<union> trim ` set xs"
  by (induction xs arbitrary: v) (force simp: learn_def Let_def split: if_splits)+

lemma protected_value_missed:
  assumes "map_of (gw_vaults g) session = None" and "trim x \<notin> trim ` set (gw_protected g)"
    and "snd (with_vault_seeded (gw_protected g) rng session (Pair ()) (add_protected x g)) = g'"
  shows "x \<in> set (gw_protected g') \<and> (\<forall>v. map_of (gw_vaults g') session = Some v \<longrightarrow> trim x \<notin> set (va_known v))"
proof -
  have "map_of (map (\<lambda>(s, v). (s, learn v x)) m) session = None" if "map_of m session = None"
    for m :: "(string, vault) hashmap"
    using that by (induction m) (auto split: if_splits)
  with assms(1) have "map_of (gw_vaults (add_protected x g)) session = None"
    by (simp add: add_protected_def)
  moreover have "x \<in> set (gw_protected (add_protected x g))" by (simp add: add_protected_def)
  ultimately show ?thesis
    using assms(2,3) learn_fold_known [of "gw_protected g" "vault_new rng"]
    by (auto simp: with_vault_seeded_def AList.update_conv' vault_new_def)
qed

lemma vaults_know_new [preserves]: "vaults_know (gateway_new src pol lg env)"
  by (simp add: vaults_know_def gateway_new_def)

text \<open>The vault a result is redacted with knows what the detector found in it.\<close>

lemma learn_fold_knows:
  "d \<in> set xs \<or> knows (session_vault rng s g) d \<Longrightarrow>
     knows (session_vault rng s (fold (\<lambda>x g. snd (with_vault rng s (\<lambda>v. ((), learn v x)) g)) xs g)) d"
proof (induction xs arbitrary: g)
  case Nil
  then show ?case by simp
next
  case (Cons x xs)
  have "session_vault rng s (snd (with_vault rng s (\<lambda>v. ((), learn v x)) g)) =
        learn (session_vault rng s g) x"
    by (simp add: session_vault_def with_vault_same)
  then have "d \<in> set xs \<or>
      knows (session_vault rng s (snd (with_vault rng s (\<lambda>v. ((), learn v x)) g))) d"
    using Cons.prems by (auto intro: knows_learn)
  from Cons.IH [OF this] show ?case by simp
qed

subsection \<open>Normalized paths\<close>

lemma path_pop_shape:
  assumes "out = PC_Root # map PC_Normal ns" "list_all ok ns"
  shows "\<exists>ms. path_pop out = PC_Root # map PC_Normal ms \<and> list_all ok ms"
proof (cases ns rule: rev_cases)
  case Nil
  with assms show ?thesis by (simp add: path_pop_def)
next
  case (snoc ms m)
  have "path_pop (PC_Root # map PC_Normal (ms @ [m])) = PC_Root # map PC_Normal ms"
    by (simp add: path_pop_def butlast_append)
  with assms snoc show ?thesis by (metis list_all_append)
qed

lemma normalize_comps_shape:
  "out = PC_Root # map PC_Normal ns \<Longrightarrow> list_all ok ns \<Longrightarrow> (\<forall>s. PC_Normal s \<in> set cs \<longrightarrow> ok s) \<Longrightarrow>
     PC_Root \<notin> set cs \<Longrightarrow>
     \<exists>ms. normalize_comps out cs = PC_Root # map PC_Normal ms \<and> list_all ok ms"
proof (induction cs arbitrary: out ns)
  case Nil
  then show ?case by auto
next
  case (Cons c cs)
  show ?case
  proof (cases c)
    case PC_Root
    with Cons.prems show ?thesis by simp
  next
    case PC_Parent
    have "\<exists>ms. path_pop out = PC_Root # map PC_Normal ms \<and> list_all ok ms"
      using path_pop_shape [OF Cons.prems(1,2)] .
    with Cons.IH Cons.prems(3,4) PC_Parent show ?thesis by auto
  next
    case (PC_Normal s)
    then have "out @ [c] = PC_Root # map PC_Normal (ns @ [s])" "list_all ok (ns @ [s])"
      using Cons.prems by auto
    from Cons.IH [OF this] Cons.prems(3,4) PC_Normal show ?thesis by simp
  qed
qed

lemma path_comps_ok:
  "PC_Normal s \<in> set (path_comps p) \<Longrightarrow>
     s \<noteq> [] \<and> s \<noteq> ''.'' \<and> s \<noteq> ''..'' \<and> CHR ''/'' \<notin> set s"
  using split_by_pieces [of "\<lambda>c. c = CHR ''/''" p]
  by (auto simp: path_comps_def split: if_splits)

lemma path_comps_absolute:
  "is_absolute p \<Longrightarrow> \<exists>cs. path_comps p = PC_Root # cs \<and> PC_Root \<notin> set cs"
  by (auto simp: path_comps_def)

subsection \<open>Example gateway\<close>

definition ex_dp :: "(bool, bool, string) deps" where
  "ex_dp = \<lparr>dp_crypto = ex_crypto, dp_ser_entry = ex_ser, dp_cel = ex_exec, dp_json_text = (\<lambda>_. [])\<rparr>"

definition ex_io :: gw_io where
  "ex_io =
     \<lparr>io_now_ms = 0, io_kill_file = False, io_cwd = ''/w'', io_audit_ok = True,
      io_explain = stub_explain, io_approve = (\<lambda>_ _. Approved), io_forward = (\<lambda>c. Inr (tc_args c)),
      io_detect = (\<lambda>_. []), io_rng = ex_rng\<rparr>"

text \<open>A gateway whose policy has one rule, on one kind of action.\<close>

definition ex_gateway :: "action_kind \<Rightarrow> decision_kind \<Rightarrow> (bool, string) gateway" where
  "ex_gateway k d =
     gateway_new ''mcp''
       \<lparr>cp_policy = ex_policy\<lparr>pol_rules := [ex_rule ''r'' (kind_name k) d None]\<rparr>,
        cp_programs = [kind_name k]\<rparr>
       (open_log empty_db) ex_env"

definition ex_call :: "action_kind \<Rightarrow> string \<Rightarrow> tool_call" where
  "ex_call k path =
     \<lparr>tc_tool = ''t'', tc_args = JObj [(''path'', JStr path)], tc_kind = Some k,
      tc_capability = Some Cap_Other, tc_session = Some ''s''\<rparr>"

lemma ex_gateway_verdict:
  "gw_policy g = gw_policy (ex_gateway k d) \<Longrightarrow>
     out_decision (call_verdict ex_dp io (ex_call k path) g) =
       decision_from_kind d None"
  by (simp add: ex_dp_def evaluate_def ex_gateway_def gateway_new_def rule_matches_ex
        normalize_call_def build_action_def ex_call_def critical_floor_def action_is_critical_def
        rule_step_def rule_verdict_def apply_cap_def ex_rule_def ex_policy_def)

lemma fresh_log_append:
  assumes "gw_audit g = open_log empty_db" and "io_audit_ok io"
    and "\<And>e. is_ok (dp_ser_entry dp e)"
  shows "is_ok (fst (call_appended dp io call g))"
proof -
  have "chain_intact (dp_crypto dp) (al_db (gw_audit g)) []"
    using assms(1) from_conn_empty [of "dp_crypto dp" None] by (simp add: open_log_def)
  moreover obtain c where "dp_ser_entry dp (call_entry dp io call g) = Inr c"
    using assms(3) by (metis is_ok_iff)
  ultimately show ?thesis
    using assms(2) by (simp add: audit_append_intact call_appended_def audit_room_def Let_def)
qed

lemma ex_log_append:
  "gw_audit g = open_log empty_db \<Longrightarrow> io_audit_ok io \<Longrightarrow> is_ok (fst (call_appended ex_dp io call g))"
  by (rule fresh_log_append) (simp_all add: ex_dp_def ex_ser_def)

lemma ex_gateway_cleared:
  assumes "gw_policy g = gw_policy (ex_gateway k DK_Allow)" and "call_override io (ex_call k path) g = None"
  shows "call_cleared ex_dp io (ex_call k path) g"
  using assms(2) ex_gateway_verdict [OF assms(1), of io path]
  by (simp add: call_cleared_def decision_from_kind_def)

lemma ex_gateway_forwards:
  assumes "call_cleared ex_dp io call g" and "gw_audit g = open_log empty_db" and "io_audit_ok io"
  shows "EV_Forward (restored_call io call g) \<in> set (fst (snd (handle ex_dp io call g)))"
  using handle_events [of ex_dp io call g] assms ex_log_append [OF assms(2,3), of call] by auto

lemma ex_gateway_no_override:
  "gw_self g = \<lparr>sf_protected = [], sf_kill_switch = False\<rparr> \<Longrightarrow> call_override io call g = None"
  by (simp add: override_deny_def protects_def split: option.split)

subsection \<open>Properties\<close>

text \<open>
  C2: nothing is forwarded unless it may be. If a call reaches the upstream, then no hard
  override applied to its action, the policy allowed it or the human approved the policy's
  \<open>ask\<close>, its entry had been recorded before, and what is forwarded is the call itself, with the
  tokens of its session restored when tokenization is on.
\<close>

theorem forward_only_cleared:
  assumes "handle dp io call g = (o', evs, g')" and "EV_Forward fc \<in> set evs"
  shows "fc = restored_call io call g \<and> call_override io call g = None
         \<and> (out_decision (call_verdict dp io call g) = Allow
            \<or> (\<exists>r. out_decision (call_verdict dp io call g) = Ask r)
              \<and> io_approve io (call_action io call g) (io_explain io (call_action io call g)) = Approved)
         \<and> (\<exists>pre post. evs = pre @ EV_Forward fc # post
              \<and> EV_Record (call_entry dp io call g) True \<in> set pre \<and> filter is_forward post = [])"
proof -
  let ?ok = "is_ok (fst (call_appended dp io call g))"
  obtain post where evs: "evs = call_consults dp io call g @ [EV_Record (call_entry dp io call g) ?ok]
        @ (if call_cleared dp io call g \<and> ?ok then EV_Forward (restored_call io call g) # post else [])"
    and post: "filter is_forward post = []"
    using handle_events [of dp io call g] assms(1) by auto
  have fc: "fc = restored_call io call g" and c: "call_cleared dp io call g" "?ok"
    using forward_event [of fc dp io call g] assms by simp_all
  have "\<exists>pre post. evs = pre @ EV_Forward fc # post
      \<and> EV_Record (call_entry dp io call g) True \<in> set pre \<and> filter is_forward post = []"
    using evs c post fc
    by (intro exI [of _ "call_consults dp io call g @ [EV_Record (call_entry dp io call g) True]"]
          exI [of _ post]) simp
  with c(1) fc show ?thesis
    by (auto simp: call_cleared_def split: decision.splits)
qed

text \<open>
  the Checker and the human see \<open>ask\<close> only. Whatever the call, the only calls to the
  two ports are one explanation and then one approval request for the call's own action, made
  exactly when no hard override applies and the policy's decision is \<open>ask\<close>.
\<close>

theorem consults_only_on_ask:
  "filter is_consult (fst (snd (handle dp io call g))) =
     (let a = call_action io call g in
      if call_override io call g = None \<and> (\<exists>r. out_decision (call_verdict dp io call g) = Ask r)
      then [EV_Explain a, EV_Approve a (io_explain io a)] else [])"
proof -
  have ask: "filter is_consult (case d of Ask x \<Rightarrow> [EV_Explain a, EV_Approve a e] | _ \<Rightarrow> []) =
      (if \<exists>r. d = Ask r then [EV_Explain a, EV_Approve a e] else [])" for d a e
    by (cases d) simp_all
  have "filter is_consult (fst (snd (handle dp io call g))) =
      filter is_consult (call_consults dp io call g)"
    using handle_events [of dp io call g] by (auto split: if_splits)
  moreover have nest: "(if p then if q then x else y else y) = (if p \<and> q then x else y)"
    for p q and x y :: "port_event list"
    by simp
  ultimately show ?thesis
    by (simp only: call_consults_def if_distrib [where f = "filter is_consult"] ask filter.simps
          nest Let_def)
qed

text \<open>
  the hard overrides. While the kill-switch file exists every call is blocked, and so
  is every write or delete whose path, made absolute and with \<open>.\<close> and \<open>..\<close> resolved, lies under
  a protected path; the only port such a call reaches is the log.
\<close>

theorem hard_overrides_block:
  assumes "sf_kill_switch (gw_self g) \<and> io_kill_file io
           \<or> act_kind (call_action io call g) \<in> {K_FileWrite, K_Delete}
             \<and> ctx_path (act_context (call_action io call g)) = Some path
             \<and> p \<in> set (sf_protected (gw_self g))
             \<and> prefix (normalize_abs (io_cwd io) p) (normalize_abs (io_cwd io) path)"
  shows "\<exists>reason ok. fst (handle dp io call g) = GO_Blocked reason
           \<and> fst (snd (handle dp io call g)) = [EV_Record (call_entry dp io call g) ok]
           \<and> ae_decision (call_entry dp io call g) = ''deny''"
proof -
  have "call_override io call g \<noteq> None"
    using assms by (auto simp: override_deny_def protects_def list_ex_iff)
  then obtain reason where r: "call_override io call g = Some reason"
    by blast
  then show ?thesis
    by (auto simp: handle_eq Let_def call_cleared_def call_consults_def call_entry_def
          for_decision_def)
qed

text \<open>
  C18: every forwarded call has its entry. Over any run of calls from a log that verifies
  (while sequence numbers last), the log keeps verifying, keeps its entries, and grows by at
  least as many entries as calls were forwarded.
\<close>

theorem run_audited:
  assumes "is_ok (verify_chain (dp_crypto dp) (al_db (gw_audit g)))"
    and "length (db_rows (al_db (gw_audit g))) + length ops < 2 ^ 63"
  shows "let g' = fold (\<lambda>(io, call) g. snd (snd (handle dp io call g))) ops g
         in is_ok (verify_chain (dp_crypto dp) (al_db (gw_audit g')))
            \<and> prefix (log_contents (al_db (gw_audit g))) (log_contents (al_db (gw_audit g')))
            \<and> length (filter is_forward (run_events dp ops g)) + length (log_contents (al_db (gw_audit g)))
                \<le> length (log_contents (al_db (gw_audit g')))"
proof -
  have op: "(\<lambda>(io, call) g. snd (snd (handle dp io call g))) = handle_op dp"
    by (auto simp: handle_op_def fun_eq_iff)
  have i: "gateway_intact dp g" and room: "length (gateway_log g) + length ops \<le> audit_room"
    using assms by (simp_all add: gateway_intact_def gateway_log_def audit_room_def)
  from mediated.run_intact [OF i room] mediated.run_recorded [OF i room] show ?thesis
    by (simp add: op Let_def gateway_intact_def gateway_log_def run_events_sent)
qed

text \<open>
  sessions are isolated. A call changes no vault but its own session's, and what is
  forwarded is restored with the vault of its own session alone.
\<close>

theorem sessions_isolated:
  assumes "handle dp io call g = (o', evs, g')"
  shows "(\<forall>s. s \<noteq> session_of call \<longrightarrow> map_of (gw_vaults g') s = map_of (gw_vaults g) s)
         \<and> (\<forall>fc v. EV_Forward fc \<in> set evs \<longrightarrow> tokenization_on g \<longrightarrow>
              map_of (gw_vaults g) (session_of call) = Some v \<longrightarrow>
              tc_args fc = detokenize_json v (tc_args call))"
proof -
  have "fc = restored_call io call g" if "EV_Forward fc \<in> set evs" for fc
    using forward_event [of fc dp io call g] assms that by simp
  moreover have "map_of (gw_vaults g') s = map_of (gw_vaults g) s" if "s \<noteq> session_of call" for s
    using handle_other_sessions [OF that, of dp io g] assms by simp
  moreover have "tc_args (restored_call io call g) = detokenize_json v (tc_args call)"
    if "tokenization_on g" and "map_of (gw_vaults g) (session_of call) = Some v" for v
    using that by (simp add: restored_call_def session_vault_def)
  ultimately show ?thesis by blast
qed

text \<open>
  C37: what the agent sees is redacted. When values are protected and every open vault
  knows them (which holds initially and is kept by every operation), an allowed result is the
  upstream's value tokenized by a vault that knows all protected values and everything the
  detector found in it; the invariant is kept.
\<close>

theorem allowed_result_redacted:
  assumes "vaults_know g" and "tokenization_on g"
    and "handle dp io call g = (GO_Allowed y, evs, g')"
  shows "(\<exists>x v. io_forward io (restored_call io call g) = Inr x \<and> y = fst (tokenize_json v x)
            \<and> (\<forall>p \<in> set (gw_protected g). knows v p)
            \<and> (gw_detector g \<longrightarrow> (\<forall>d \<in> set (io_detect io (dp_json_text dp x)). knows v d)))
         \<and> vaults_know g'"
proof
  let ?g = "recorded_state dp io call g" and ?s = "session_of call" and ?r = "io_rng io"
  let ?learn = "\<lambda>x g. snd (with_vault ?r ?s (\<lambda>v. ((), learn v x)) g)"
  let ?g1 = "snd (with_vault ?r ?s (\<lambda>v. (detokenize_json v (tc_args call), v)) ?g)"
  have fwd: "fst (forward_call dp io call ?g) = GO_Allowed y"
    using assms(3) by (auto simp: handle_eq Let_def split_beta split: if_splits)
  have know: "vaults_know ?g1"
    using assms(1) by (simp add: vaults_know_with_vault vaults_know_recorded)
  obtain x where x: "io_forward io (restored_call io call g) = Inr x"
    and y: "y = fst (tokenize_json (session_vault ?r ?s
        (if gw_detector g then fold ?learn (io_detect io (dp_json_text dp x)) ?g1 else ?g1)) x)"
    using fwd assms(2)
    by (auto simp: forward_call_def restored_call_def Let_def split_beta with_vault_def
          split: sum.splits)
  have "knows (session_vault ?r ?s (fold ?learn ds ?g1)) p"
    if "p \<in> set (gw_protected g) \<or> p \<in> set ds" for p ds
    using that session_vault_knows [OF know, of p ?r ?s]
    by (intro learn_fold_knows) auto
  then show "\<exists>x v. io_forward io (restored_call io call g) = Inr x \<and> y = fst (tokenize_json v x)
      \<and> (\<forall>p \<in> set (gw_protected g). knows v p)
      \<and> (gw_detector g \<longrightarrow> (\<forall>d \<in> set (io_detect io (dp_json_text dp x)). knows v d))"
    using x y session_vault_knows [OF know]
    by (intro exI conjI; (rule x | rule y)?) auto
  show "vaults_know g'"
    using vaults_know_handle [OF assms(1), of dp io call] assms(3) by simp
qed

text \<open>
  protected paths can be hidden behind tokens. The policy and the self-protection
  check judge the arguments as the agent sent them, tokens included, but what is forwarded has
  the tokens restored: a call whose path is a token of its session is judged on the token's
  text and executed on the real path.
\<close>

theorem token_judged_value_forwarded:
  assumes "handle dp io call g = (o', evs, g')" and "EV_Forward fc \<in> set evs"
    and "tokenization_on g" and "tc_args call = JObj [(''path'', JStr (token_text i))]"
    and "map_of (va_by_id (session_vault (io_rng io) (session_of call) g)) i = Some p"
    and "CHR '']'' \<notin> set i"
  shows "ctx_path (act_context (call_action io call g)) = Some (token_text i)
         \<and> jget_str ''path'' (tc_args fc) = Some p"
proof -
  have fc: "fc = restored_call io call g"
    using forward_event [of fc dp io call g] assms(1,2) by simp
  have "detok m (token_text i) = (case map_of m i of Some v \<Rightarrow> v | None \<Rightarrow> token_text i)" for m
  proof -
    have "\<not> contains_sub [] PREFIX" by code_simp
    from detok_token [OF this assms(6), of m "[]"] detok_plain [OF this] show ?thesis by simp
  qed
  then show ?thesis
    using assms(3-5)
    by (simp add: fc restored_call_def detokenize_def normalize_call_def build_action_def
          jget_str_def Let_def)
qed

text \<open>
  the paths the check compares are canonical. From an absolute working directory (or
  for an absolute path) the normalized form starts at the root and has only proper names, none
  empty, \<open>.\<close> or \<open>..\<close>, so that no spelling of a path escapes the prefix comparison.
\<close>

theorem normalize_abs_canonical:
  assumes "is_absolute cwd \<or> is_absolute p"
  shows "\<exists>names. normalize_abs cwd p = PC_Root # map PC_Normal names
           \<and> list_all (\<lambda>n. n \<noteq> [] \<and> n \<noteq> ''.'' \<and> n \<noteq> ''..'' \<and> CHR ''/'' \<notin> set n) names"
proof -
  let ?p = "if is_absolute p then p else path_join cwd p"
  have "is_absolute ?p"
    using assms by (auto simp: path_join_def is_absolute_def prefix_def)
  then obtain cs where cs: "path_comps ?p = PC_Root # cs" "PC_Root \<notin> set cs"
    using path_comps_absolute by blast
  have "\<exists>names. normalize_comps [PC_Root] cs = PC_Root # map PC_Normal names
      \<and> list_all (\<lambda>n. n \<noteq> [] \<and> n \<noteq> ''.'' \<and> n \<noteq> ''..'' \<and> CHR ''/'' \<notin> set n) names"
    using cs path_comps_ok [of _ ?p]
    by (intro normalize_comps_shape [of _ "[]"]) auto
  then show ?thesis
    by (simp add: normalize_abs_def cs(1))
qed

subsection \<open>Witnesses\<close>

lemma ex_gateway_state [simp]:
  "gw_self (ex_gateway k d) = \<lparr>sf_protected = [], sf_kill_switch = False\<rparr>"
  "gw_audit (ex_gateway k d) = open_log empty_db" "gw_vaults (ex_gateway k d) = []"
  "gw_protected (ex_gateway k d) = []" "gw_detector (ex_gateway k d) = False"
  by (simp_all add: ex_gateway_def gateway_new_def)

lemma ex_io_state [simp]:
  "io_audit_ok ex_io" "\<not> io_kill_file ex_io" "io_cwd ex_io = ''/w''" "io_rng ex_io = ex_rng"
  by (simp_all add: ex_io_def)

lemma ex_read_forwarded:
  "EV_Forward (restored_call ex_io (ex_call k p) (ex_gateway k DK_Allow))
     \<in> set (fst (snd (handle ex_dp ex_io (ex_call k p) (ex_gateway k DK_Allow))))"
  by (intro ex_gateway_forwards ex_gateway_cleared ex_gateway_no_override) simp_all

theorem forward_only_cleared_witness:
  "\<exists>fc evs. fst (snd (handle ex_dp ex_io (ex_call K_Exec ''/x'') (ex_gateway K_Exec DK_Ask))) = evs
     \<and> EV_Forward fc \<in> set evs
     \<and> (\<exists>r. out_decision (call_verdict ex_dp ex_io (ex_call K_Exec ''/x'') (ex_gateway K_Exec DK_Ask))
            = Ask r)"
proof -
  let ?g = "ex_gateway K_Exec DK_Ask" and ?c = "ex_call K_Exec ''/x''"
  have d: "\<exists>r. out_decision (call_verdict ex_dp ex_io ?c ?g) = Ask r"
    using ex_gateway_verdict [of ?g K_Exec DK_Ask ex_io "''/x''"] by (simp add: decision_from_kind_def)
  then obtain r where r: "out_decision (call_verdict ex_dp ex_io ?c ?g) = Ask r" by blast
  have n: "call_override ex_io ?c ?g = None"
    by (rule ex_gateway_no_override) simp
  have "io_approve ex_io a e = Approved" for a e
    by (simp add: ex_io_def)
  with r n have "call_cleared ex_dp ex_io ?c ?g"
    by (simp only: call_cleared_def decision.case option.simps simp_thms)
  from ex_gateway_forwards [OF this]
  have f: "EV_Forward (restored_call ex_io ?c ?g) \<in> set (fst (snd (handle ex_dp ex_io ?c ?g)))"
    by simp
  obtain o' evs g' where h: "handle ex_dp ex_io ?c ?g = (o', evs, g')"
    by (metis prod_cases3)
  from forward_only_cleared [OF h, of "restored_call ex_io ?c ?g"] f d h show ?thesis
    by auto
qed

theorem hard_overrides_block_witness:
  "let g = with_self_protection \<lparr>sf_protected = [''/g''], sf_kill_switch = True\<rparr>
             (ex_gateway K_FileWrite DK_Allow)
   in (\<exists>reason. fst (handle ex_dp ex_io (ex_call K_FileWrite ''../g/./policy.toml'') g)
                  = GO_Blocked reason)
      \<and> (\<exists>reason. fst (handle ex_dp (ex_io\<lparr>io_kill_file := True\<rparr>) (ex_call K_FileRead ''/x'') g)
                  = GO_Blocked reason)"
proof -
  let ?g = "with_self_protection \<lparr>sf_protected = [''/g''], sf_kill_switch = True\<rparr>
              (ex_gateway K_FileWrite DK_Allow)"
  have p: "prefix (normalize_abs ''/w'' ''/g'') (normalize_abs ''/w'' ''../g/./policy.toml'')"
    by code_simp
  have a: "act_kind (call_action ex_io (ex_call K_FileWrite ''../g/./policy.toml'') ?g) = K_FileWrite"
    "ctx_path (act_context (call_action ex_io (ex_call K_FileWrite ''../g/./policy.toml'') ?g))
       = Some ''../g/./policy.toml''"
    by (simp_all add: normalize_call_def build_action_def ex_call_def jget_str_def Let_def)
  have s: "''/g'' \<in> set (sf_protected (gw_self ?g))" "sf_kill_switch (gw_self ?g)"
    by (simp_all add: with_self_protection_def)
  have "\<exists>reason ok. fst (handle ex_dp ex_io (ex_call K_FileWrite ''../g/./policy.toml'') ?g)
          = GO_Blocked reason
        \<and> fst (snd (handle ex_dp ex_io (ex_call K_FileWrite ''../g/./policy.toml'') ?g))
          = [EV_Record (call_entry ex_dp ex_io (ex_call K_FileWrite ''../g/./policy.toml'') ?g) ok]
        \<and> ae_decision (call_entry ex_dp ex_io (ex_call K_FileWrite ''../g/./policy.toml'') ?g) = ''deny''"
    by (rule hard_overrides_block [of ?g ex_io _ "''../g/./policy.toml''" "''/g''"])
       (use p a s in simp)
  moreover have "\<exists>reason ok. fst (handle ex_dp (ex_io\<lparr>io_kill_file := True\<rparr>) (ex_call K_FileRead ''/x'') ?g)
          = GO_Blocked reason
        \<and> fst (snd (handle ex_dp (ex_io\<lparr>io_kill_file := True\<rparr>) (ex_call K_FileRead ''/x'') ?g))
          = [EV_Record (call_entry ex_dp (ex_io\<lparr>io_kill_file := True\<rparr>) (ex_call K_FileRead ''/x'') ?g) ok]
        \<and> ae_decision (call_entry ex_dp (ex_io\<lparr>io_kill_file := True\<rparr>) (ex_call K_FileRead ''/x'') ?g) = ''deny''"
    by (rule hard_overrides_block [of ?g "ex_io\<lparr>io_kill_file := True\<rparr>"]) (use s in simp)
  ultimately show ?thesis
    unfolding Let_def by blast
qed

theorem run_audited_witness:
  "is_ok (verify_chain ex_crypto (al_db (gw_audit
     (fold (\<lambda>(io, call) g. snd (snd (handle ex_dp io call g)))
        [(ex_io, ex_call K_Exec ''/x''), (ex_io, ex_call K_FileRead ''/y'')]
        (ex_gateway K_Exec DK_Allow)))))"
proof -
  have i: "is_ok (verify_chain (dp_crypto ex_dp) (al_db (gw_audit (ex_gateway K_Exec DK_Allow))))"
    unfolding ex_gateway_state open_log_def ex_dp_def
    by (simp add: verify_chain_intact [OF from_conn_empty])
  have "length (db_rows (al_db (gw_audit (ex_gateway K_Exec DK_Allow)))) = 0"
    by (simp add: open_log_def from_conn_def empty_db_def)
  with run_audited [OF i, of "[(ex_io, ex_call K_Exec ''/x''), (ex_io, ex_call K_FileRead ''/y'')]"]
  show ?thesis by (simp add: Let_def ex_dp_def)
qed

theorem sessions_isolated_witness:
  "map_of (gw_vaults (snd (snd (handle ex_dp ex_io (ex_call K_Exec ''/x'')
      ((ex_gateway K_Exec DK_Allow)\<lparr>gw_vaults := [(''other'', ex_vault)]\<rparr>))))) ''other'' = Some ex_vault"
proof -
  let ?g = "(ex_gateway K_Exec DK_Allow)\<lparr>gw_vaults := [(''other'', ex_vault)]\<rparr>"
  obtain o' evs g' where h: "handle ex_dp ex_io (ex_call K_Exec ''/x'') ?g = (o', evs, g')"
    by (metis prod_cases3)
  from sessions_isolated [OF h] h show ?thesis
    by (simp add: ex_call_def session_of_def)
qed

theorem normalize_abs_canonical_witness:
  "\<exists>names. normalize_abs ''/w'' ''../../a//./b/..'' = PC_Root # map PC_Normal names"
proof -
  have "is_absolute ''/w'' \<or> is_absolute ''../../a//./b/..''" by code_simp
  from normalize_abs_canonical [OF this] show ?thesis by blast
qed

text \<open>A session whose vault holds a token for a protected path.\<close>

definition ex_token_vault :: vault where
  "ex_token_vault = snd (token_for (learn (vault_new ex_rng) ''/g/policy'') ''/g/policy'')"

definition ex_token_gateway :: "(bool, string) gateway" where
  "ex_token_gateway =
     (with_self_protection \<lparr>sf_protected = [''/g''], sf_kill_switch = False\<rparr>
        (ex_gateway K_FileWrite DK_Allow))
       \<lparr>gw_protected := [''/g/policy''], gw_vaults := [(''s'', ex_token_vault)]\<rparr>"

definition ex_token_id :: string where
  "ex_token_id = hex_enc (le_bytes 16 0)"

lemma ex_token_gateway_facts:
  "call_override ex_io (ex_call K_FileWrite (token_text ex_token_id)) ex_token_gateway = None"
  "tokenization_on ex_token_gateway"
  "map_of (va_by_id (session_vault ex_rng ''s'' ex_token_gateway)) ex_token_id = Some ''/g/policy''"
  "CHR '']'' \<notin> set ex_token_id"
  "gw_policy ex_token_gateway = gw_policy (ex_gateway K_FileWrite DK_Allow)"
  "gw_audit ex_token_gateway = open_log empty_db"
proof -
  have "\<not> prefix (normalize_abs ''/w'' ''/g'') (normalize_abs ''/w'' (token_text ex_token_id))"
    by code_simp
  then show "call_override ex_io (ex_call K_FileWrite (token_text ex_token_id)) ex_token_gateway = None"
    by (simp add: override_deny_def protects_def ex_token_gateway_def with_self_protection_def
          normalize_call_def build_action_def ex_call_def jget_str_def Let_def)
  have "map_of (va_by_id ex_token_vault) ex_token_id = Some ''/g/policy''" by code_simp
  then show "map_of (va_by_id (session_vault ex_rng ''s'' ex_token_gateway)) ex_token_id = Some ''/g/policy''"
    by (simp add: session_vault_def ex_token_gateway_def)
  show "CHR '']'' \<notin> set ex_token_id"
    unfolding ex_token_id_def using random_id_hex [of "le_bytes 16 0"] by (simp add: random_id_def)
qed (simp_all add: ex_token_gateway_def tokenization_on_def with_self_protection_def)

theorem token_judged_value_forwarded_witness:
  "\<exists>fc. EV_Forward fc \<in> set (fst (snd (handle ex_dp ex_io
            (ex_call K_FileWrite (token_text ex_token_id)) ex_token_gateway)))
     \<and> jget_str ''path'' (tc_args fc) = Some ''/g/policy''
     \<and> prefix (normalize_abs ''/w'' ''/g'') (normalize_abs ''/w'' ''/g/policy'')"
proof -
  let ?c = "ex_call K_FileWrite (token_text ex_token_id)"
  obtain o' evs g' where h: "handle ex_dp ex_io ?c ex_token_gateway = (o', evs, g')"
    by (metis prod_cases3)
  have f: "EV_Forward (restored_call ex_io ?c ex_token_gateway) \<in> set evs"
    using ex_gateway_forwards [OF ex_gateway_cleared [OF ex_token_gateway_facts(5,1)]
        ex_token_gateway_facts(6)] h by simp
  have args: "tc_args ?c = JObj [(''path'', JStr (token_text ex_token_id))]"
    and s: "session_of ?c = ''s''"
    by (simp_all add: ex_call_def session_of_def)
  have v: "map_of (va_by_id (session_vault (io_rng ex_io) (session_of ?c) ex_token_gateway)) ex_token_id
      = Some ''/g/policy''"
    using ex_token_gateway_facts(3) s by simp
  have p: "prefix (normalize_abs ''/w'' ''/g'') (normalize_abs ''/w'' ''/g/policy'')" by code_simp
  from token_judged_value_forwarded [OF h f ex_token_gateway_facts(2) args v ex_token_gateway_facts(4)]
    f h p show ?thesis by auto
qed

theorem allowed_result_redacted_witness:
  "\<exists>y x v. fst (handle ex_dp ex_io (ex_call K_FileWrite ''/x'')
             ((ex_gateway K_FileWrite DK_Allow)\<lparr>gw_protected := [''secret value'']\<rparr>)) = GO_Allowed y
         \<and> y = fst (tokenize_json v x) \<and> knows v ''secret value''"
proof -
  let ?c = "ex_call K_FileWrite ''/x''"
  let ?g = "(ex_gateway K_FileWrite DK_Allow)\<lparr>gw_protected := [''secret value'']\<rparr>"
  have k: "vaults_know ?g" "tokenization_on ?g"
    by (simp_all add: vaults_know_def tokenization_on_def)
  have c: "call_cleared ex_dp ex_io ?c ?g"
    by (intro ex_gateway_cleared ex_gateway_no_override) simp_all
  have ok: "is_ok (fst (call_appended ex_dp ex_io ?c ?g))"
    by (intro ex_log_append) simp_all
  have t: "tokenization_on (recorded_state ex_dp ex_io ?c ?g)"
    by (simp add: tokenization_on_def)
  obtain y where y: "fst (forward_call ex_dp ex_io ?c (recorded_state ex_dp ex_io ?c ?g)) = GO_Allowed y"
    using t by (simp add: forward_call_def ex_io_def Let_def split_beta)
  then obtain evs g' where h: "handle ex_dp ex_io ?c ?g = (GO_Allowed y, evs, g')"
    using c ok by (auto simp: handle_eq Let_def split_beta)
  from allowed_result_redacted [OF k h] h show ?thesis by auto
qed

theorem consults_only_on_ask_witness:
  "filter is_consult (fst (snd (handle ex_dp ex_io (ex_call K_Exec ''/x'') (ex_gateway K_Exec DK_Allow)))) = []"
proof -
  have "out_decision (call_verdict ex_dp ex_io (ex_call K_Exec ''/x'') (ex_gateway K_Exec DK_Allow)) = Allow"
    using ex_gateway_verdict [of "ex_gateway K_Exec DK_Allow" K_Exec DK_Allow ex_io "''/x''"]
    by (simp add: decision_from_kind_def)
  then show ?thesis
    unfolding consults_only_on_ask by (simp only: Let_def decision.distinct simp_thms if_False)
qed

end
