(* ===== verification/Approval_Queue.thy ===== *)
theory Approval_Queue
  imports Gateway
begin

text \<open>
  The human-in-the-loop approval queue, \<open>guardian-daemon/src/lib.rs\<close>, as a concurrent object.
  A call of \<open>request\<close> is a future with a phase of its own, advanced by \<open>request_poll\<close>; the
  futures, the responders and the clock interleave in the step relation \<open>queue_step\<close>. Requests are
  numbered without bound by their position in \<open>aq_requests\<close> (the identity of their one-shot
  channel); the number the code gives out is the 64-bit counter, which wraps.

  A channel is empty, holds the response, or has lost its sender. The receiver lives until the
  awaited \<open>timeout\<close> is dropped; between the moment its poll finds the channel empty and the
  deadline passed, and that drop, a send still succeeds (\<open>PH_Expiring\<close>).
\<close>

subsection \<open>Notifications\<close>

definition ellipsis :: string where
  "ellipsis = [CHR 0xE2, CHR 0x80, CHR 0xA6]"

definition clip :: "string \<Rightarrow> nat \<Rightarrow> string" where
  "clip s0 mx =
     (let s = trim s0 in
      if char_count s \<le> mx then s else concat (take (mx - 1) (utf8_chars s)) @ ellipsis)"

definition approval_needed :: "string \<Rightarrow> string \<Rightarrow> string \<times> string" where
  "approval_needed tool summary =
     (''Guardian '' @ [CHR 0xE2, CHR 0x80, CHR 0x94] @ '' approval needed: '' @ clip tool 40,
      clip summary 180)"

subsection \<open>The queue\<close>

record pending_approval =
  pa_id :: nat
  pa_action_id :: string
  pa_tool :: string
  pa_explanation :: explanation

datatype channel = CH_Empty | CH_Sent approval_response | CH_Closed

datatype request_phase =
    PH_Starting
  | PH_Waiting
  | PH_Expiring
  | PH_Expired
  | PH_Done approval_response

record queue_entry =
  en_info :: pending_approval
  en_responder :: nat

record queue_request =
  qr_info :: pending_approval
  qr_phase :: request_phase
  qr_chan :: channel
  qr_deadline :: nat

record approval_queue =
  aq_pending :: "(nat, queue_entry) hashmap"
  aq_counter :: nat
  aq_timeout :: nat
  aq_notifications :: bool
  aq_requests :: "queue_request list"
  aq_now :: nat

definition queue_new :: "nat \<Rightarrow> approval_queue" where
  "queue_new timeout =
     \<lparr>aq_pending = [], aq_counter = 0, aq_timeout = timeout, aq_notifications = False,
      aq_requests = [], aq_now = 0\<rparr>"

definition with_notifications :: "bool \<Rightarrow> approval_queue \<Rightarrow> approval_queue" where
  "with_notifications on q = q\<lparr>aq_notifications := on\<rparr>"

fun receiver_alive :: "request_phase \<Rightarrow> bool" where
  "receiver_alive PH_Starting = True"
| "receiver_alive PH_Waiting = True"
| "receiver_alive PH_Expiring = True"
| "receiver_alive _ = False"

definition upd_request :: "nat \<Rightarrow> (queue_request \<Rightarrow> queue_request) \<Rightarrow> approval_queue \<Rightarrow> approval_queue" where
  "upd_request n f q = q\<lparr>aq_requests := (aq_requests q)[n := f (aq_requests q ! n)]\<rparr>"

text \<open>Dropping the sender of a channel that still waits for its message.\<close>

definition drop_sender :: "nat \<Rightarrow> approval_queue \<Rightarrow> approval_queue" where
  "drop_sender n q =
     upd_request n (\<lambda>r. if qr_chan r = CH_Empty then r\<lparr>qr_chan := CH_Closed\<rparr> else r) q"

text \<open>The start of \<open>request\<close>: the counter, the channel, the notification.\<close>

definition request_begin ::
    "string \<Rightarrow> string \<Rightarrow> explanation \<Rightarrow> approval_queue \<Rightarrow> (string \<times> string) option \<times> approval_queue" where
  "request_begin action_id tool expl q =
     (if aq_notifications q then Some (approval_needed tool (ex_plain_text expl)) else None,
      q\<lparr>aq_counter := (aq_counter q + 1) mod 2 ^ 64,
        aq_requests := aq_requests q @
          [\<lparr>qr_info = \<lparr>pa_id = aq_counter q, pa_action_id = action_id, pa_tool = tool,
                       pa_explanation = expl\<rparr>,
            qr_phase = PH_Starting, qr_chan = CH_Empty, qr_deadline = 0\<rparr>]\<rparr>)"

text \<open>\<open>lock().remove(&id)\<close> with the removed entry dropped.\<close>

definition queue_remove :: "nat \<Rightarrow> approval_queue \<Rightarrow> approval_queue" where
  "queue_remove i q =
     (case map_of (aq_pending q) i of
        Some e \<Rightarrow> drop_sender (en_responder e) (q\<lparr>aq_pending := AList.delete i (aq_pending q)\<rparr>)
      | None \<Rightarrow> q)"

text \<open>\<open>pending.insert\<close> drops the entry it replaces; then the timeout starts.\<close>

definition request_insert :: "nat \<Rightarrow> approval_queue \<Rightarrow> approval_queue" where
  "request_insert n q =
     (let info = qr_info (aq_requests q ! n); q1 = queue_remove (pa_id info) q
      in upd_request n (\<lambda>r. r\<lparr>qr_phase := PH_Waiting, qr_deadline := aq_now q + aq_timeout q\<rparr>)
           (q1\<lparr>aq_pending := AList.update (pa_id info) \<lparr>en_info = info, en_responder = n\<rparr>
                 (aq_pending q1)\<rparr>))"

text \<open>\<open>send\<close> consumes the sender, whether the receiver is there or not.\<close>

definition queue_respond :: "nat \<Rightarrow> approval_response \<Rightarrow> approval_queue \<Rightarrow> bool \<times> approval_queue" where
  "queue_respond i resp q =
     (case map_of (aq_pending q) i of
        None \<Rightarrow> (False, q)
      | Some e \<Rightarrow>
          (let q1 = q\<lparr>aq_pending := AList.delete i (aq_pending q)\<rparr>; n = en_responder e
           in if receiver_alive (qr_phase (aq_requests q ! n))
              then (True, upd_request n (\<lambda>r. r\<lparr>qr_chan := CH_Sent resp\<rparr>) q1)
              else (False, drop_sender n q1)))"

definition queue_pending :: "approval_queue \<Rightarrow> pending_approval list" where
  "queue_pending q = map (\<lambda>(_, e). en_info e) (aq_pending q)"

text \<open>
  One step of the future of request \<open>n\<close>: what it returned, if it did. \<open>timeout\<close> polls the
  channel before the clock.
\<close>

definition request_poll :: "nat \<Rightarrow> approval_queue \<Rightarrow> approval_response option \<times> approval_queue" where
  "request_poll n q =
     (let r = aq_requests q ! n;
          goto = (\<lambda>p. upd_request n (\<lambda>r. r\<lparr>qr_phase := p\<rparr>))
      in case qr_phase r of
           PH_Starting \<Rightarrow> (None, request_insert n q)
         | PH_Waiting \<Rightarrow>
             (case qr_chan r of
                CH_Sent resp \<Rightarrow> (Some resp, goto (PH_Done resp) q)
              | CH_Closed \<Rightarrow> (None, goto PH_Expired q)
              | CH_Empty \<Rightarrow>
                  (None, if qr_deadline r \<le> aq_now q then goto PH_Expiring q else q))
         | PH_Expiring \<Rightarrow> (None, goto PH_Expired q)
         | PH_Expired \<Rightarrow> (Some Denied, goto (PH_Done Denied) (queue_remove (pa_id (qr_info r)) q))
         | PH_Done _ \<Rightarrow> (None, q))"

text \<open>\<open>QueueApprover::request_approval\<close>.\<close>

definition approver_begin ::
    "action \<Rightarrow> explanation \<Rightarrow> approval_queue \<Rightarrow> (string \<times> string) option \<times> approval_queue" where
  "approver_begin a expl q = request_begin (act_id a) (act_tool a) expl q"

datatype queue_event =
    QE_Begin string string explanation
  | QE_Poll nat "approval_response option"
  | QE_Respond nat approval_response bool
  | QE_Tick nat

inductive queue_step :: "approval_queue \<Rightarrow> queue_event \<Rightarrow> approval_queue \<Rightarrow> bool" where
  step_begin: "queue_step q (QE_Begin a t e) (snd (request_begin a t e q))"
| step_poll: "n < length (aq_requests q) \<Longrightarrow> request_poll n q = (ret, q') \<Longrightarrow>
    queue_step q (QE_Poll n ret) q'"
| step_respond: "queue_respond i resp q = (ok, q') \<Longrightarrow> queue_step q (QE_Respond i resp ok) q'"
| step_tick: "queue_step q (QE_Tick d) (q\<lparr>aq_now := aq_now q + d\<rparr>)"

inductive_cases queue_stepE [elim]: "queue_step q ev q'"

inductive_simps queue_step_poll: "queue_step q (QE_Poll n ret) q'"
inductive_simps queue_step_respond: "queue_step q (QE_Respond i resp ok) q'"

code_pred queue_step .

end
