(* ===== verification/Approval_Laws.thy ===== *)
theory Approval_Laws
  imports Approval_Queue
begin

text \<open>
  What the approval queue guarantees under every interleaving of requests, responses and time:
  its invariant, the history of a run, and the properties of the answers.
\<close>

subsection \<open>The invariant\<close>

abbreviation req :: "approval_queue \<Rightarrow> nat \<Rightarrow> queue_request" where
  "req q n \<equiv> aq_requests q ! n"

text \<open>A request without an answer whose future is past its insertion.\<close>

definition awaits :: "approval_queue \<Rightarrow> nat \<Rightarrow> bool" where
  "awaits q n \<longleftrightarrow> n < length (aq_requests q) \<and> qr_chan (req q n) = CH_Empty
     \<and> (qr_phase (req q n) = PH_Waiting \<or> qr_phase (req q n) = PH_Expiring \<or> qr_phase (req q n) = PH_Expired)"

definition queued :: "approval_queue \<Rightarrow> nat \<Rightarrow> bool" where
  "queued q n \<longleftrightarrow> map_of (aq_pending q) (n mod 2 ^ 64) =
     Some \<lparr>en_info = qr_info (req q n), en_responder = n\<rparr>"

definition request_ok :: "nat \<Rightarrow> queue_request \<Rightarrow> bool" where
  "request_ok n r \<longleftrightarrow> pa_id (qr_info r) = n mod 2 ^ 64
     \<and> (qr_phase r = PH_Starting \<longrightarrow> qr_chan r = CH_Empty)
     \<and> (\<forall>resp. qr_phase r = PH_Done resp \<longrightarrow>
          qr_chan r = CH_Sent resp \<or> qr_chan r \<noteq> CH_Empty \<and> resp = Denied)"

definition entries_ok :: "approval_queue \<Rightarrow> bool" where
  "entries_ok q \<longleftrightarrow> (\<forall>i e. map_of (aq_pending q) i = Some e \<longrightarrow>
     awaits q (en_responder e) \<and> i = en_responder e mod 2 ^ 64
     \<and> en_info e = qr_info (req q (en_responder e)))"

definition queue_ok :: "approval_queue \<Rightarrow> bool" where
  "queue_ok q \<longleftrightarrow> aq_counter q = length (aq_requests q) mod 2 ^ 64 \<and> hm_ok (aq_pending q)
     \<and> (\<forall>n < length (aq_requests q). request_ok n (req q n))
     \<and> entries_ok q \<and> (\<forall>n. awaits q n \<longrightarrow> queued q n)"

lemma queue_okD:
  assumes "queue_ok q"
  shows "aq_counter q = length (aq_requests q) mod 2 ^ 64" and "hm_ok (aq_pending q)"
    and "n < length (aq_requests q) \<Longrightarrow> request_ok n (req q n)"
    and "map_of (aq_pending q) i = Some e \<Longrightarrow> awaits q (en_responder e)"
    and "map_of (aq_pending q) i = Some e \<Longrightarrow> i = en_responder e mod 2 ^ 64"
    and "map_of (aq_pending q) i = Some e \<Longrightarrow> en_info e = qr_info (req q (en_responder e))"
    and "awaits q n \<Longrightarrow> queued q n"
  using assms by (auto simp: queue_ok_def entries_ok_def)

lemma upd_request_simps [simp]:
  "length (aq_requests (upd_request n f q)) = length (aq_requests q)"
  "aq_pending (upd_request n f q) = aq_pending q"
  "aq_counter (upd_request n f q) = aq_counter q"
  "aq_now (upd_request n f q) = aq_now q" "aq_timeout (upd_request n f q) = aq_timeout q"
  by (simp_all add: upd_request_def)

lemma req_upd_request:
  "n < length (aq_requests q) \<Longrightarrow> req (upd_request n f q) m = (if m = n then f (req q n) else req q m)"
  by (auto simp: upd_request_def nth_list_update)

lemma drop_sender_simps [simp]:
  "length (aq_requests (drop_sender n q)) = length (aq_requests q)"
  "aq_pending (drop_sender n q) = aq_pending q" "aq_counter (drop_sender n q) = aq_counter q"
  "aq_now (drop_sender n q) = aq_now q" "aq_timeout (drop_sender n q) = aq_timeout q"
  by (simp_all add: drop_sender_def)

lemma req_drop_sender:
  "n < length (aq_requests q) \<Longrightarrow> req (drop_sender n q) m =
     (if m = n \<and> qr_chan (req q n) = CH_Empty then req q n\<lparr>qr_chan := CH_Closed\<rparr> else req q m)"
  by (auto simp: drop_sender_def req_upd_request)

lemma entry_responder:
  "queue_ok q \<Longrightarrow> map_of (aq_pending q) i = Some e \<Longrightarrow>
     en_responder e < length (aq_requests q) \<and> qr_chan (req q (en_responder e)) = CH_Empty"
  using queue_okD(4) by (auto simp: awaits_def)

text \<open>Taking an entry out and closing or filling its channel.\<close>

lemma remove_entry_ok:
  assumes ok: "queue_ok q" and e: "map_of (aq_pending q) i = Some e"
    and f: "\<And>r. qr_info (f r) = qr_info r" "\<And>r. qr_phase (f r) = qr_phase r"
      "\<And>r. qr_chan r = CH_Empty \<Longrightarrow> qr_chan (f r) \<noteq> CH_Empty"
  shows "queue_ok (upd_request (en_responder e) f (q\<lparr>aq_pending := AList.delete i (aq_pending q)\<rparr>))"
proof -
  define m where "m = en_responder e"
  define q' where "q' = upd_request m f (q\<lparr>aq_pending := AList.delete i (aq_pending q)\<rparr>)"
  have m: "m < length (aq_requests q)" "qr_chan (req q m) = CH_Empty"
    "qr_phase (req q m) = PH_Waiting \<or> qr_phase (req q m) = PH_Expiring \<or> qr_phase (req q m) = PH_Expired"
    using queue_okD(4) [OF ok e] by (auto simp: awaits_def m_def)
  have r: "req q' n = (if n = m then f (req q m) else req q n)" for n
    using m(1) by (simp add: req_upd_request q'_def)
  have s: "aq_pending q' = AList.delete i (aq_pending q)" "aq_counter q' = aq_counter q"
    "length (aq_requests q') = length (aq_requests q)"
    by (simp_all add: q'_def)
  have aw: "awaits q' n \<longleftrightarrow> awaits q n \<and> n \<noteq> m" for n
    using m(2) f(3) by (auto simp: awaits_def r s f)
  have "request_ok n (req q' n)" if "n < length (aq_requests q)" for n
    using queue_okD(3) [OF ok that] m(3) f by (auto simp: request_ok_def r)
  moreover have "entries_ok q'"
    unfolding entries_ok_def
  proof (intro allI impI)
    fix j d
    assume "map_of (aq_pending q') j = Some d"
    then have d: "map_of (aq_pending q) j = Some d" "j \<noteq> i" by (auto simp: s split: if_splits)
    moreover from d have "en_responder d \<noteq> m"
      using queue_okD(5) [OF ok d(1)] queue_okD(5) [OF ok e] by (auto simp: m_def)
    ultimately show "awaits q' (en_responder d)
        \<and> j = en_responder d mod 2 ^ 64 \<and> en_info d = qr_info (req q' (en_responder d))"
      using queue_okD(4,5,6) [OF ok d(1)] by (simp add: aw r)
  qed
  moreover have "queued q' n" if "awaits q' n" for n
  proof -
    have n: "queued q n" "n \<noteq> m"
      using that queue_okD(7) [OF ok] by (auto simp: aw)
    then have "n mod 2 ^ 64 \<noteq> i"
      using e by (auto simp: queued_def m_def)
    with n show ?thesis by (simp add: queued_def r s)
  qed
  ultimately show ?thesis
    using queue_okD(1,2) [OF ok] unfolding m_def [symmetric] q'_def [symmetric]
    by (simp add: queue_ok_def s)
qed

text \<open>A change of phase of a request that keeps whether it awaits its answer.\<close>

lemma goto_ok:
  assumes ok: "queue_ok q" and n: "n < length (aq_requests q)"
    and "request_ok n (req q n\<lparr>qr_phase := p\<rparr>)"
    and aw: "awaits (upd_request n (\<lambda>r. r\<lparr>qr_phase := p\<rparr>) q) n \<longleftrightarrow> awaits q n"
  shows "queue_ok (upd_request n (\<lambda>r. r\<lparr>qr_phase := p\<rparr>) q)"
proof -
  let ?q = "upd_request n (\<lambda>r. r\<lparr>qr_phase := p\<rparr>) q"
  have r: "req ?q m = (if m = n then req q n\<lparr>qr_phase := p\<rparr> else req q m)" for m
    using n by (rule req_upd_request)
  have "awaits ?q m \<longleftrightarrow> awaits q m" for m
    using aw by (cases "m = n") (auto simp: awaits_def r)
  then show ?thesis
    using ok assms(3) by (simp add: queue_ok_def entries_ok_def queued_def r)
qed

lemma request_begin_ok [preserves]: "queue_ok q \<Longrightarrow> queue_ok (snd (request_begin a t e q))"
proof -
  assume ok: "queue_ok q"
  let ?q = "snd (request_begin a t e q)"
  have aw: "awaits ?q n \<longleftrightarrow> awaits q n" for n
    by (auto simp: request_begin_def awaits_def nth_append)
  have i: "awaits q n \<Longrightarrow> req ?q n = req q n" for n
    by (simp add: request_begin_def awaits_def nth_append)
  have p: "aq_pending ?q = aq_pending q"
    by (simp add: request_begin_def)
  have "entries_ok ?q"
    using ok i by (simp add: queue_ok_def entries_ok_def aw p)
  moreover have "awaits q n \<Longrightarrow> queued ?q n" for n
    using queue_okD(7) [OF ok] i by (simp add: queued_def p)
  moreover have "request_ok n (req ?q n)" if "n < length (aq_requests ?q)" for n
    using that queue_okD(1,3) [OF ok]
    by (auto simp: request_begin_def nth_append request_ok_def less_Suc_eq)
  ultimately show ?thesis
    using queue_okD(1,2) [OF ok] unfolding queue_ok_def aw p
    by (simp add: request_begin_def mod_Suc_eq)
qed

lemma queue_remove_ok [preserves]: "queue_ok q \<Longrightarrow> queue_ok (queue_remove i q)"
  unfolding queue_remove_def drop_sender_def
  by (auto split: option.split intro!: remove_entry_ok)

lemma queue_respond_ok [preserves]: "queue_ok q \<Longrightarrow> queue_ok (snd (queue_respond i resp q))"
proof -
  assume ok: "queue_ok q"
  show ?thesis
  proof (cases "map_of (aq_pending q) i")
    case None
    with ok show ?thesis by (simp add: queue_respond_def)
  next
    case (Some e)
    show ?thesis
      by (auto simp: queue_respond_def Let_def Some drop_sender_def intro!: remove_entry_ok [OF ok Some])
  qed
qed

lemma queue_remove_simps [simp]:
  "length (aq_requests (queue_remove i q)) = length (aq_requests q)"
  "aq_pending (queue_remove i q) = AList.delete i (aq_pending q)"
  "aq_counter (queue_remove i q) = aq_counter q" "aq_now (queue_remove i q) = aq_now q"
  "aq_timeout (queue_remove i q) = aq_timeout q"
  by (auto simp: queue_remove_def delete_id map_of_eq_None_iff split: option.split)

lemma req_queue_remove:
  assumes ok: "queue_ok q"
  shows "req (queue_remove i q) n =
     (if awaits q n \<and> n mod 2 ^ 64 = i then req q n\<lparr>qr_chan := CH_Closed\<rparr> else req q n)"
proof (cases "map_of (aq_pending q) i")
  case None
  with queue_okD(7) [OF ok, of n] show ?thesis
    by (auto simp: queue_remove_def queued_def)
next
  case (Some e)
  have "awaits q n \<and> n mod 2 ^ 64 = i \<longleftrightarrow> n = en_responder e"
    using queue_okD(4,5,7) [OF ok] Some by (auto simp: queued_def)
  with Some entry_responder [OF ok Some] show ?thesis
    by (simp add: queue_remove_def req_drop_sender)
qed

text \<open>A state that differs from a sound one by the entry of one more request that awaits its answer.\<close>

lemma entry_added:
  assumes ok: "queue_ok q" and none: "map_of (aq_pending q) (n mod 2 ^ 64) = None" and n: "\<not> awaits q n"
    and s: "aq_pending q' = AList.update (n mod 2 ^ 64) \<lparr>en_info = qr_info (req q' n), en_responder = n\<rparr> (aq_pending q)"
    and r: "\<And>m. m \<noteq> n \<Longrightarrow> req q' m = req q m" and aw: "\<And>m. awaits q' m \<longleftrightarrow> awaits q m \<or> m = n"
  shows "entries_ok q'" and "awaits q' m \<Longrightarrow> queued q' m"
proof -
  show "entries_ok q'"
    unfolding entries_ok_def
  proof (intro allI impI)
    fix i e
    assume e: "map_of (aq_pending q') i = Some e"
    show "awaits q' (en_responder e) \<and> i = en_responder e mod 2 ^ 64
        \<and> en_info e = qr_info (req q' (en_responder e))"
    proof (cases "i = n mod 2 ^ 64")
      case True
      with e have "e = \<lparr>en_info = qr_info (req q' n), en_responder = n\<rparr>" by (simp add: s)
      with True show ?thesis by (simp add: aw)
    next
      case False
      with e have e1: "map_of (aq_pending q) i = Some e" by (simp add: s)
      from queue_okD(4) [OF ok e1] n have "en_responder e \<noteq> n" by auto
      with queue_okD(4,5,6) [OF ok e1] show ?thesis by (simp add: aw r)
    qed
  qed
  assume m: "awaits q' m"
  show "queued q' m"
  proof (cases "m = n")
    case True
    then show ?thesis by (simp add: queued_def s)
  next
    case False
    with m queue_okD(7) [OF ok] have "queued q m" by (simp add: aw)
    with False none show ?thesis by (auto simp: queued_def r s)
  qed
qed

lemma request_insert_ok [preserves]:
  assumes ok: "queue_ok q" and n: "n < length (aq_requests q)" and p: "qr_phase (req q n) = PH_Starting"
  shows "queue_ok (request_insert n q)"
proof -
  define q1 where "q1 = queue_remove (n mod 2 ^ 64) q"
  define q' where "q' = request_insert n q"
  have id: "pa_id (qr_info (req q n)) = n mod 2 ^ 64" and c: "qr_chan (req q n) = CH_Empty"
    using queue_okD(3) [OF ok n] p by (simp_all add: request_ok_def)
  have ok1: "queue_ok q1"
    unfolding q1_def by (rule queue_remove_ok [OF ok])
  have r1: "req q1 n = req q n" and l: "length (aq_requests q1) = length (aq_requests q)"
    using p by (simp_all add: q1_def req_queue_remove [OF ok] awaits_def)
  have r: "req q' m = (if m = n then req q n\<lparr>qr_phase := PH_Waiting,
      qr_deadline := aq_now q + aq_timeout q\<rparr> else req q1 m)" for m
    using n r1 by (simp add: q'_def request_insert_def id Let_def req_upd_request q1_def)
  have s: "aq_pending q' = AList.update (n mod 2 ^ 64) \<lparr>en_info = qr_info (req q n), en_responder = n\<rparr>
      (aq_pending q1)" "aq_counter q' = aq_counter q1" "length (aq_requests q') = length (aq_requests q1)"
    by (simp_all add: q'_def request_insert_def id Let_def q1_def)
  have "awaits q' m \<longleftrightarrow> awaits q1 m \<or> m = n" for m
    using n c by (auto simp: awaits_def r s l)
  moreover have "map_of (aq_pending q1) (n mod 2 ^ 64) = None"
    by (simp add: q1_def)
  moreover have "\<not> awaits q1 n"
    using p by (simp add: awaits_def r1)
  ultimately have "entries_ok q'" "awaits q' m \<Longrightarrow> queued q' m" for m
    by (auto intro!: entry_added [OF ok1] simp: r s)
  moreover have "request_ok m (req q' m)" if "m < length (aq_requests q')" for m
    using queue_okD(3) [OF ok1, of m] that id by (auto simp: request_ok_def r s r1)
  ultimately show ?thesis
    using queue_okD(1,2) [OF ok1] unfolding q'_def [symmetric] by (simp add: queue_ok_def s)
qed

lemma request_poll_ok [preserves]:
  assumes ok: "queue_ok q" and n: "n < length (aq_requests q)"
  shows "queue_ok (snd (request_poll n q))"
proof -
  note g = goto_ok [OF ok n]
  have rok: "request_ok n (req q n)"
    by (rule queue_okD(3) [OF ok n])
  show ?thesis
  proof (cases "qr_phase (req q n)")
    case PH_Starting
    with request_insert_ok [OF ok n] show ?thesis by (simp add: request_poll_def)
  next
    case PH_Waiting
    then show ?thesis
      using ok rok n
      by (auto simp: request_poll_def Let_def awaits_def req_upd_request request_ok_def
            split: channel.split intro!: g)
  next
    case PH_Expiring
    then show ?thesis
      using rok n
      by (auto simp: request_poll_def Let_def awaits_def req_upd_request request_ok_def intro!: g)
  next
    case PH_Expired
    let ?q = "queue_remove (n mod 2 ^ 64) q"
    have id: "pa_id (qr_info (req q n)) = n mod 2 ^ 64"
      using rok by (simp add: request_ok_def)
    have "qr_phase (req ?q n) = PH_Expired" "qr_chan (req ?q n) \<noteq> CH_Empty" "qr_info (req ?q n) = qr_info (req q n)"
      using PH_Expired n by (auto simp: req_queue_remove [OF ok] awaits_def)
    then have "queue_ok (upd_request n (\<lambda>r. r\<lparr>qr_phase := PH_Done Denied\<rparr>) ?q)"
      using n id
      by (intro goto_ok queue_remove_ok ok) (auto simp: awaits_def req_upd_request request_ok_def)
    with PH_Expired show ?thesis by (simp add: request_poll_def id)
  next
    case (PH_Done resp)
    with ok show ?thesis by (simp add: request_poll_def)
  qed
qed

lemma queue_step_ok: "queue_step q ev q' \<Longrightarrow> queue_ok q \<Longrightarrow> queue_ok q'"
proof (induction rule: queue_step.induct)
  case (step_poll n q ret q')
  with request_poll_ok [of q n] show ?case by simp
next
  case (step_respond i resp q ok q')
  with queue_respond_ok [of q i resp] show ?case by simp
next
  case (step_tick q d)
  then show ?case by (simp add: queue_ok_def entries_ok_def queued_def awaits_def)
qed (rule request_begin_ok)

lemma queue_new_ok [simp]: "queue_ok (queue_new t)" "queue_ok (with_notifications b (queue_new t))"
  by (simp_all add: queue_ok_def entries_ok_def awaits_def queue_new_def with_notifications_def)

subsection \<open>The history of a run\<close>

fun begins :: "queue_event list \<Rightarrow> (string \<times> string \<times> explanation) list" where
  "begins [] = []"
| "begins (QE_Begin a t e # evs) = (a, t, e) # begins evs"
| "begins (_ # evs) = begins evs"

lemma begins_append [simp]: "begins (xs @ ys) = begins xs @ begins ys"
  by (induction xs rule: begins.induct) simp_all

text \<open>What is shown for the \<open>n\<close>-th request.\<close>

definition shown :: "queue_event list \<Rightarrow> nat \<Rightarrow> pending_approval" where
  "shown evs n =
     (case begins evs ! n of (a, t, e) \<Rightarrow>
        \<lparr>pa_id = n mod 2 ^ 64, pa_action_id = a, pa_tool = t, pa_explanation = e\<rparr>)"

lemma shown_append: "n < length (begins evs) \<Longrightarrow> shown (evs @ evs') n = shown evs n"
  by (simp add: shown_def nth_append)

definition delivered ::
    "approval_queue \<Rightarrow> queue_event list \<Rightarrow> nat \<Rightarrow> approval_response \<Rightarrow> bool" where
  "delivered q0 evs n resp \<longleftrightarrow>
     (\<exists>pre post q1. evs = pre @ QE_Respond (n mod 2 ^ 64) resp True # post
        \<and> runs queue_step q0 pre q1 \<and> awaits q1 n \<and> receiver_alive (qr_phase (req q1 n)))"

lemma delivered_append: "delivered q0 evs n resp \<Longrightarrow> delivered q0 (evs @ evs') n resp"
  unfolding delivered_def by (metis append.assoc append_Cons)

definition queue_start :: "approval_queue \<Rightarrow> bool" where
  "queue_start q \<longleftrightarrow> (\<exists>t b. q = with_notifications b (queue_new t))"

definition queue_hist :: "approval_queue \<Rightarrow> queue_event list \<Rightarrow> approval_queue \<Rightarrow> bool" where
  "queue_hist q0 evs q \<longleftrightarrow> queue_ok q \<and> length (begins evs) = length (aq_requests q)
     \<and> (\<forall>n < length (aq_requests q). qr_info (req q n) = shown evs n
          \<and> (\<forall>resp. qr_chan (req q n) = CH_Sent resp \<longrightarrow> delivered q0 evs n resp))
     \<and> (\<forall>n resp. QE_Poll n (Some resp) \<in> set evs \<longrightarrow>
          n < length (aq_requests q) \<and> qr_phase (req q n) = PH_Done resp)"

lemma request_insert_frame:
  assumes "queue_ok q" and "n < length (aq_requests q)" and "qr_phase (req q n) = PH_Starting"
  shows "length (aq_requests (request_insert n q)) = length (aq_requests q)"
    and "qr_info (req (request_insert n q) m) = qr_info (req q m)"
    and "qr_phase (req (request_insert n q) m) = (if m = n then PH_Waiting else qr_phase (req q m))"
    and "qr_chan (req (request_insert n q) m) = CH_Sent resp \<Longrightarrow> qr_chan (req q m) = CH_Sent resp"
  using assms
  by (auto simp: request_insert_def Let_def req_upd_request req_queue_remove split: if_splits)

lemma request_poll_frame:
  assumes "queue_ok q" and "n < length (aq_requests q)" and "request_poll n q = (ret, q')"
  shows "length (aq_requests q') = length (aq_requests q)"
    and "qr_info (req q' m) = qr_info (req q m)"
    and "qr_phase (req q m) = PH_Done resp \<Longrightarrow> qr_phase (req q' m) = PH_Done resp"
    and "qr_chan (req q' m) = CH_Sent resp \<Longrightarrow> qr_chan (req q m) = CH_Sent resp"
    and "ret = Some resp \<Longrightarrow> qr_phase (req q' n) = PH_Done resp"
  using assms(3) request_insert_frame [OF assms(1,2)]
  by (auto simp: request_poll_def Let_def req_upd_request req_queue_remove assms(1,2)
        split: request_phase.splits channel.splits if_splits)

lemma queue_respond_frame:
  assumes ok: "queue_ok q" and r: "queue_respond i resp q = (sent, q')"
  shows "length (aq_requests q') = length (aq_requests q)"
    and "qr_info (req q' m) = qr_info (req q m)"
    and "qr_phase (req q' m) = qr_phase (req q m)"
    and "qr_chan (req q' m) = CH_Sent resp' \<Longrightarrow> qr_chan (req q m) = CH_Sent resp'
      \<or> sent \<and> resp' = resp \<and> i = m mod 2 ^ 64 \<and> awaits q m \<and> receiver_alive (qr_phase (req q m))"
  using r entry_responder [OF ok] queue_okD(4,5) [OF ok]
  by (auto simp: queue_respond_def Let_def req_upd_request req_drop_sender
        split: option.splits if_splits)

lemma queue_hist_frame:
  assumes h: "queue_hist q0 evs q" and "queue_ok q'" and b: "begins [ev] = []"
    and l: "length (aq_requests q') = length (aq_requests q)"
    and i: "\<And>m. m < length (aq_requests q) \<Longrightarrow> qr_info (req q' m) = qr_info (req q m)"
    and c: "\<And>m resp. m < length (aq_requests q) \<Longrightarrow> qr_chan (req q' m) = CH_Sent resp \<Longrightarrow>
      qr_chan (req q m) = CH_Sent resp \<or> delivered q0 (evs @ [ev]) m resp"
    and d: "\<And>m resp. m < length (aq_requests q) \<Longrightarrow> qr_phase (req q m) = PH_Done resp \<Longrightarrow>
      qr_phase (req q' m) = PH_Done resp"
    and p: "\<And>n resp. ev = QE_Poll n (Some resp) \<Longrightarrow>
      n < length (aq_requests q) \<and> qr_phase (req q' n) = PH_Done resp"
  shows "queue_hist q0 (evs @ [ev]) q'"
proof -
  have bl: "length (begins evs) = length (aq_requests q)"
    using h by (simp add: queue_hist_def)
  have "qr_info (req q' n) = shown (evs @ [ev]) n
      \<and> (\<forall>resp. qr_chan (req q' n) = CH_Sent resp \<longrightarrow> delivered q0 (evs @ [ev]) n resp)"
    if "n < length (aq_requests q)" for n
    using h that i [OF that] c [OF that] shown_append [of n evs "[ev]"] delivered_append
    unfolding queue_hist_def bl by metis
  moreover have "n < length (aq_requests q) \<and> qr_phase (req q' n) = PH_Done resp"
    if "QE_Poll n (Some resp) \<in> set (evs @ [ev])" for n resp
    using that h d p unfolding queue_hist_def by auto
  ultimately show ?thesis
    using assms(2) b bl unfolding queue_hist_def l by simp
qed

interpretation approvals: hist_system queue_step queue_start queue_hist
proof
  fix q0 :: approval_queue
  assume "queue_start q0"
  then show "queue_hist q0 [] q0"
    by (auto simp: queue_start_def queue_hist_def)
       (simp_all add: queue_new_def with_notifications_def)
next
  fix q0 evs q ev q'
  assume run: "runs queue_step q0 evs q" and h: "queue_hist q0 evs q" and st: "queue_step q ev q'"
  then have ok: "queue_ok q" and ok': "queue_ok q'"
    by (auto simp: queue_hist_def queue_step_ok)
  from st show "queue_hist q0 (evs @ [ev]) q'"
  proof cases
    case (step_begin a t e)
    have bl: "length (begins evs) = length (aq_requests q)"
      and c: "aq_counter q = length (aq_requests q) mod 2 ^ 64"
      using h queue_okD(1) [OF ok] by (simp_all add: queue_hist_def)
    have "shown (evs @ [ev]) n = (if n < length (aq_requests q) then shown evs n
        else \<lparr>pa_id = n mod 2 ^ 64, pa_action_id = a, pa_tool = t, pa_explanation = e\<rparr>)"
      if "n < Suc (length (aq_requests q))" for n
      using that bl step_begin(1) by (auto simp: shown_def nth_append less_Suc_eq)
    then show ?thesis
      using h ok' bl c step_begin delivered_append [of q0 evs]
      by (auto simp: queue_hist_def request_begin_def nth_append less_Suc_eq)
  next
    case (step_poll n ret)
    note f = request_poll_frame [OF ok step_poll(2,3)]
    show ?thesis
      by (rule queue_hist_frame [OF h ok']) (use f step_poll in auto)
  next
    case (step_respond i resp sent)
    note f = queue_respond_frame [OF ok step_respond(2)]
    have c: "qr_chan (req q m) = CH_Sent r \<or> delivered q0 (evs @ [ev]) m r"
      if "qr_chan (req q' m) = CH_Sent r" for m r
      using f(4) [OF that] run unfolding delivered_def step_respond(1) by blast
    show ?thesis
      by (rule queue_hist_frame [OF h ok' _ f(1,2) c]) (use f(3) step_respond(1) in simp_all)
  next
    case (step_tick d)
    show ?thesis
      by (rule queue_hist_frame [OF h ok']) (use step_tick in auto)
  qed
qed

lemma queue_pending_iff:
  assumes ok: "queue_ok q"
  shows "p \<in> set (queue_pending q) \<longleftrightarrow> (\<exists>n. awaits q n \<and> p = qr_info (req q n))"
proof
  assume "p \<in> set (queue_pending q)"
  then obtain i e where e: "(i, e) \<in> set (aq_pending q)" "p = en_info e"
    by (auto simp: queue_pending_def)
  then have "map_of (aq_pending q) i = Some e"
    using queue_okD(2) [OF ok] by (simp add: hm_in_set_iff)
  from queue_okD(4,6) [OF ok this] e(2) show "\<exists>n. awaits q n \<and> p = qr_info (req q n)"
    by blast
next
  assume "\<exists>n. awaits q n \<and> p = qr_info (req q n)"
  then obtain n where n: "awaits q n" "p = qr_info (req q n)" by blast
  then have "queued q n" using queue_okD(7) [OF ok] by blast
  then have "(n mod 2 ^ 64, \<lparr>en_info = p, en_responder = n\<rparr>) \<in> set (aq_pending q)"
    unfolding queued_def n(2) by (rule map_of_SomeD)
  then show "p \<in> set (queue_pending q)"
    by (force simp: queue_pending_def)
qed

lemma awaits_number:
  assumes ok: "queue_ok q" and "awaits q n" and "awaits q m" and "n mod 2 ^ 64 = m mod 2 ^ 64"
  shows "n = m"
proof -
  have "Some \<lparr>en_info = qr_info (req q n), en_responder = n\<rparr> =
      Some \<lparr>en_info = qr_info (req q m), en_responder = m\<rparr>"
    using queue_okD(7) [OF ok assms(2)] queue_okD(7) [OF ok assms(3)]
    unfolding queued_def assms(4) by (rule trans [OF sym])
  then show ?thesis by (auto dest: arg_cong [where f = en_responder])
qed

lemma awaits_id:
  assumes ok: "queue_ok q" and "awaits q n"
  shows "pa_id (qr_info (req q n)) = n mod 2 ^ 64"
  using queue_okD(3) [OF ok, of n] assms(2) by (simp add: awaits_def request_ok_def)

lemma pending_under_number:
  assumes ok: "queue_ok q" and aw: "awaits q n"
  shows "p \<in> set (queue_pending q) \<and> pa_id p = n mod 2 ^ 64 \<longleftrightarrow> p = qr_info (req q n)"
proof
  assume p: "p \<in> set (queue_pending q) \<and> pa_id p = n mod 2 ^ 64"
  then obtain m where m: "awaits q m" "p = qr_info (req q m)"
    using queue_pending_iff [OF ok] by blast
  with p awaits_id [OF ok m(1)] have "m mod 2 ^ 64 = n mod 2 ^ 64" by simp
  from awaits_number [OF ok m(1) aw this] m(2) show "p = qr_info (req q n)" by simp
next
  assume "p = qr_info (req q n)"
  with queue_pending_iff [OF ok, of p] awaits_id [OF ok aw] aw
  show "p \<in> set (queue_pending q) \<and> pa_id p = n mod 2 ^ 64" by auto
qed

subsection \<open>A scheduler\<close>

text \<open>A schedule of operations, run one after the other; a poll of no request does nothing.\<close>

datatype queue_op =
    QO_Begin string string explanation
  | QO_Poll nat
  | QO_Respond nat approval_response
  | QO_Tick nat

fun run_op :: "queue_op \<Rightarrow> approval_queue \<Rightarrow> queue_event list \<times> approval_queue" where
  "run_op (QO_Begin a t e) q = ([QE_Begin a t e], snd (request_begin a t e q))"
| "run_op (QO_Poll n) q =
     (if n < length (aq_requests q)
      then (case request_poll n q of (ret, q') \<Rightarrow> ([QE_Poll n ret], q')) else ([], q))"
| "run_op (QO_Respond i resp) q =
     (case queue_respond i resp q of (ok, q') \<Rightarrow> ([QE_Respond i resp ok], q'))"
| "run_op (QO_Tick d) q = ([QE_Tick d], q\<lparr>aq_now := aq_now q + d\<rparr>)"

fun drive :: "queue_op list \<Rightarrow> approval_queue \<Rightarrow> queue_event list \<times> approval_queue" where
  "drive [] q = ([], q)"
| "drive (op # ops) q =
     (case run_op op q of (evs, q1) \<Rightarrow>
        (case drive ops q1 of (evs', q2) \<Rightarrow> (evs @ evs', q2)))"

lemma run_op_runs: "runs queue_step q (fst (run_op op q)) (snd (run_op op q))"
proof (cases op)
  case (QO_Poll n)
  then show ?thesis
    by (cases "request_poll n q") (auto intro: step_poll)
next
  case (QO_Respond i resp)
  then show ?thesis
    by (cases "queue_respond i resp q") (auto intro: step_respond)
qed (auto intro: step_begin step_tick)

lemma drive_runs: "runs queue_step q (fst (drive ops q)) (snd (drive ops q))"
proof (induction ops arbitrary: q)
  case (Cons op ops)
  from Cons.IH [of "snd (run_op op q)"] run_op_runs [of q op] show ?case
    by (auto simp: split_beta runs_append)
qed simp

text \<open>Polling a request until it answers.\<close>

fun poll_until :: "nat \<Rightarrow> nat \<Rightarrow> approval_queue \<Rightarrow> approval_response option \<times> approval_queue" where
  "poll_until 0 n q = (None, q)"
| "poll_until (Suc k) n q =
     (case request_poll n q of
        (Some r, q') \<Rightarrow> (Some r, q')
      | (None, q') \<Rightarrow> poll_until k n q')"

lemmas queue_sim =
  queue_new_def request_begin_def request_poll_def request_insert_def queue_remove_def
  queue_respond_def upd_request_def drop_sender_def Let_def

definition ex_expl :: explanation where
  "ex_expl = \<lparr>ex_plain_text = ''Delete x'', ex_risk = 80, ex_rationale = []\<rparr>"

lemma poll_until_step:
  "request_poll n q = (None, q1) \<Longrightarrow> poll_until (Suc k) n q = poll_until k n q1"
  by simp

lemma request_poll_length: "length (aq_requests (snd (request_poll n q))) = length (aq_requests q)"
  by (auto simp: request_poll_def request_insert_def queue_remove_def Let_def
      split: request_phase.split channel.split option.split)

lemma poll_until_ok: "queue_ok q \<Longrightarrow> n < length (aq_requests q) \<Longrightarrow> queue_ok (snd (poll_until k n q))"
proof (induction k arbitrary: q)
  case (Suc k)
  then show ?case
    using request_poll_ok [OF Suc.prems] request_poll_length [of n q]
    by (cases "request_poll n q") (auto split: option.split)
qed simp

text \<open>Its entry is gone from the map of pending requests, whatever number it stood under.\<close>

definition entry_gone :: "approval_queue \<Rightarrow> nat \<Rightarrow> bool" where
  "entry_gone q n \<longleftrightarrow> (\<forall>(i, en) \<in> set (aq_pending q). en_responder en \<noteq> n)"

lemma entry_gone_iff: "queue_ok q \<Longrightarrow> entry_gone q n \<longleftrightarrow> \<not> awaits q n"
  using queue_okD(4,7) [of q]
  by (force simp: entry_gone_def hm_in_set_iff [OF queue_okD(2)] queued_def)

lemma poll_expired:
  assumes ok: "queue_ok q" and n: "n < length (aq_requests q)" and p: "qr_phase (req q n) = PH_Expired"
  shows "\<exists>q'. poll_until (Suc k) n q = (Some Denied, q')
    \<and> qr_phase (req q' n) = PH_Done Denied \<and> \<not> awaits q' n"
  using n by (simp add: request_poll_def p Let_def req_upd_request awaits_def)

lemma poll_expiring:
  assumes ok: "queue_ok q" and n: "n < length (aq_requests q)" and p: "qr_phase (req q n) = PH_Expiring"
  shows "\<exists>q'. poll_until (Suc (Suc k)) n q = (Some Denied, q')
    \<and> qr_phase (req q' n) = PH_Done Denied \<and> \<not> awaits q' n"
proof -
  define q1 where "q1 = snd (request_poll n q)"
  have s: "request_poll n q = (None, q1)"
    by (simp add: request_poll_def p q1_def)
  have "n < length (aq_requests q1)" "qr_phase (req q1 n) = PH_Expired" "queue_ok q1"
    using request_poll_ok [OF ok n] n by (simp_all add: q1_def request_poll_def p req_upd_request)
  from poll_expired [OF this(3,1,2)] show ?thesis
    unfolding poll_until_step [OF s] .
qed

lemma poll_waiting:
  assumes ok: "queue_ok q" and n: "n < length (aq_requests q)" and p: "qr_phase (req q n) = PH_Waiting"
    and d: "qr_deadline (req q n) \<le> aq_now q"
  shows "\<exists>q'. let resp = (case qr_chan (req q n) of CH_Sent r \<Rightarrow> r | _ \<Rightarrow> Denied) in
    poll_until (Suc (Suc (Suc k))) n q = (Some resp, q')
    \<and> qr_phase (req q' n) = PH_Done resp \<and> \<not> awaits q' n"
proof (cases "qr_chan (req q n)")
  case (CH_Sent r)
  with n show ?thesis
    by (simp add: request_poll_def p Let_def req_upd_request awaits_def)
next
  case CH_Closed
  define q1 where "q1 = snd (request_poll n q)"
  have s: "request_poll n q = (None, q1)"
    by (simp add: request_poll_def p CH_Closed q1_def)
  have "n < length (aq_requests q1)" "qr_phase (req q1 n) = PH_Expired" "queue_ok q1"
    using request_poll_ok [OF ok n] n
    by (simp_all add: q1_def request_poll_def p CH_Closed req_upd_request)
  from poll_expired [OF this(3,1,2)] CH_Closed show ?thesis
    unfolding poll_until_step [OF s] by simp
next
  case CH_Empty
  define q1 where "q1 = snd (request_poll n q)"
  have s: "request_poll n q = (None, q1)"
    by (simp add: request_poll_def p CH_Empty q1_def)
  have "n < length (aq_requests q1)" "qr_phase (req q1 n) = PH_Expiring" "queue_ok q1"
    using request_poll_ok [OF ok n] n d
    by (simp_all add: q1_def request_poll_def p CH_Empty req_upd_request)
  from poll_expiring [OF this(3,1,2)] CH_Empty show ?thesis
    unfolding poll_until_step [OF s] by simp
qed

lemma approval_given:
  assumes "queue_start q0" and h: "queue_hist q0 evs q" and n: "n < length (aq_requests q)"
    and "qr_phase (req q n) = PH_Done Approved"
  shows "\<exists>pre post q1. evs = pre @ QE_Respond (n mod 2 ^ 64) Approved True # post
     \<and> runs queue_step q0 pre q1 \<and> awaits q1 n
     \<and> (\<forall>p. p \<in> set (queue_pending q1) \<and> pa_id p = n mod 2 ^ 64 \<longleftrightarrow> p = shown evs n)"
proof -
  have "request_ok n (req q n)"
    using h n by (auto simp: queue_hist_def intro: queue_okD(3))
  with assms(4) have "qr_chan (req q n) = CH_Sent Approved"
    by (auto simp: request_ok_def)
  with h n have "delivered q0 evs n Approved"
    by (auto simp: queue_hist_def)
  then obtain pre post q1 where evs: "evs = pre @ QE_Respond (n mod 2 ^ 64) Approved True # post"
    and pre: "runs queue_step q0 pre q1" and aw: "awaits q1 n"
    by (auto simp: delivered_def)
  have h1: "queue_hist q0 pre q1"
    by (rule approvals.run_hist [OF pre assms(1)])
  have n1: "n < length (aq_requests q1)"
    using aw by (simp add: awaits_def)
  then have i: "qr_info (req q1 n) = shown evs n"
    using h1 shown_append [of n pre] by (simp add: queue_hist_def evs)
  have ok1: "queue_ok q1"
    using h1 by (simp add: queue_hist_def)
  have "p \<in> set (queue_pending q1) \<and> pa_id p = n mod 2 ^ 64 \<longleftrightarrow> p = shown evs n" for p
    by (rule pending_under_number [OF ok1 aw, unfolded i])
  with evs pre aw show ?thesis by blast
qed

subsection \<open>Properties\<close>

text \<open>
  C4: an approval is a human's approval of what was shown. In every run of the queue, a
  request that returned \<open>Approved\<close> was, at some earlier moment, pending under its number with its
  own action, tool and explanation (and nothing else under that number), and a response
  \<open>Approved\<close> to that number was accepted at that moment; also when the 64-bit counter wraps.
\<close>

theorem approval_was_given:
  assumes "queue_start q0" and "runs queue_step q0 evs q" and "QE_Poll n (Some Approved) \<in> set evs"
  shows "\<exists>pre post q1. evs = pre @ QE_Respond (n mod 2 ^ 64) Approved True # post
     \<and> runs queue_step q0 pre q1 \<and> awaits q1 n
     \<and> (\<forall>p. p \<in> set (queue_pending q1) \<and> pa_id p = n mod 2 ^ 64 \<longleftrightarrow> p = shown evs n)"
proof -
  have h: "queue_hist q0 evs q"
    by (rule approvals.run_hist [OF assms(2,1)])
  with assms(3) have "n < length (aq_requests q)" "qr_phase (req q n) = PH_Done Approved"
    by (auto simp: queue_hist_def)
  from approval_given [OF assms(1) h this] show ?thesis .
qed

theorem approval_was_given_witness:
  "\<exists>pre post q1. fst (drive
       [QO_Begin ''act-0'' ''rm'' ex_expl, QO_Poll 0, QO_Respond 0 Approved, QO_Poll 0] (queue_new 5))
     = pre @ QE_Respond 0 Approved True # post
     \<and> (\<exists>p \<in> set (queue_pending q1). pa_id p = 0 \<and> pa_tool p = ''rm'')"
proof -
  let ?ops = "[QO_Begin ''act-0'' ''rm'' ex_expl, QO_Poll 0, QO_Respond 0 Approved, QO_Poll 0]"
  have st: "queue_start (queue_new 5)"
    by (auto simp: queue_start_def queue_new_def with_notifications_def)
  have d: "fst (drive ?ops (queue_new 5)) =
      [QE_Begin ''act-0'' ''rm'' ex_expl, QE_Poll 0 None, QE_Respond 0 Approved True, QE_Poll 0 (Some Approved)]"
    by (simp add: queue_sim)
  have ev: "QE_Poll 0 (Some Approved) \<in> set (fst (drive ?ops (queue_new 5)))"
    unfolding d by simp
  have sh: "shown (fst (drive ?ops (queue_new 5))) 0 =
      \<lparr>pa_id = 0, pa_action_id = ''act-0'', pa_tool = ''rm'', pa_explanation = ex_expl\<rparr>"
    unfolding d by (simp add: shown_def)
  let ?p = "\<lparr>pa_id = 0, pa_action_id = ''act-0'', pa_tool = ''rm'', pa_explanation = ex_expl\<rparr>"
  obtain pre post q1 where
    e: "fst (drive ?ops (queue_new 5)) = pre @ QE_Respond (0 mod 2 ^ 64) Approved True # post"
    and p: "\<forall>p. p \<in> set (queue_pending q1) \<and> pa_id p = 0 mod 2 ^ 64 \<longleftrightarrow> p = ?p"
    using approval_was_given [OF st drive_runs ev] unfolding sh by blast
  have "?p \<in> set (queue_pending q1)"
    using p by blast
  moreover have "pa_id ?p = 0" "pa_tool ?p = ''rm''" by simp_all
  ultimately show ?thesis
    using e unfolding mod_0 by blast
qed

text \<open>
  C25: every request is answered, and without an approval it is denied. Once the deadline of
  a request has passed, at most three steps of its future return an answer: the response it was
  sent if it is still listening, otherwise \<open>Denied\<close>; afterwards no entry of the
  pending map is its own any more, under whatever number.
\<close>

theorem request_fails_closed:
  assumes "queue_start q0" and "runs queue_step q0 evs q" and "n < length (aq_requests q)"
    and "qr_phase (req q n) \<noteq> PH_Starting" and "\<forall>r. qr_phase (req q n) \<noteq> PH_Done r"
    and "qr_deadline (req q n) \<le> aq_now q"
  shows "\<exists>q' resp. poll_until 3 n q = (Some resp, q')
    \<and> resp = (case qr_chan (req q n) of
                CH_Sent r \<Rightarrow> if qr_phase (req q n) = PH_Waiting then r else Denied
              | _ \<Rightarrow> Denied)
    \<and> qr_phase (req q' n) = PH_Done resp \<and> entry_gone q' n"
proof -
  have ok: "queue_ok q"
    using approvals.run_hist [OF assms(2,1)] by (simp add: queue_hist_def)
  have gone: "entry_gone q' n" if "poll_until 3 n q = (x, q')" "\<not> awaits q' n" for x q'
    using that poll_until_ok [OF ok assms(3), of 3] by (simp add: entry_gone_iff del: poll_until.simps)
  note e = poll_expired [OF ok assms(3)] and g = poll_expiring [OF ok assms(3)]
  show ?thesis
  proof (cases "qr_phase (req q n)")
    case PH_Waiting
    with poll_waiting [OF ok assms(3) PH_Waiting assms(6), of 0] show ?thesis
      by (auto simp: Let_def numeral_3_eq_3 intro: gone [unfolded numeral_3_eq_3] simp del: poll_until.simps split: channel.splits)
  next
    case PH_Expiring
    with g [OF PH_Expiring, of 1] show ?thesis
      by (auto simp: numeral_3_eq_3 intro: gone [unfolded numeral_3_eq_3] simp del: poll_until.simps split: channel.splits)
  next
    case PH_Expired
    with e [OF PH_Expired, of 2] show ?thesis
      by (auto simp: numeral_3_eq_3 intro: gone [unfolded numeral_3_eq_3] simp del: poll_until.simps split: channel.splits)
  qed (use assms(4,5) in auto)
qed

text \<open>
  C38: the cockpit's view is exact. In every state of every run, the pending list shows just
  the requests that still wait for an answer, and \<open>respond\<close> succeeds exactly for the number of one
  that still listens.
\<close>

theorem pending_is_exact:
  assumes "queue_start q0" and "runs queue_step q0 evs q"
  shows "(p \<in> set (queue_pending q) \<longleftrightarrow> (\<exists>n. awaits q n \<and> p = shown evs n))
     \<and> (fst (queue_respond i resp q) \<longleftrightarrow>
          (\<exists>n. awaits q n \<and> i = n mod 2 ^ 64 \<and> receiver_alive (qr_phase (req q n))))"
proof
  have h: "queue_hist q0 evs q"
    by (rule approvals.run_hist [OF assms(2,1)])
  then have ok: "queue_ok q" by (simp add: queue_hist_def)
  have "awaits q n \<Longrightarrow> qr_info (req q n) = shown evs n" for n
    using h by (simp add: queue_hist_def awaits_def)
  then show "p \<in> set (queue_pending q) \<longleftrightarrow> (\<exists>n. awaits q n \<and> p = shown evs n)"
    using queue_pending_iff [OF ok] by metis
  show "fst (queue_respond i resp q) \<longleftrightarrow>
      (\<exists>n. awaits q n \<and> i = n mod 2 ^ 64 \<and> receiver_alive (qr_phase (req q n)))"
  proof (cases "map_of (aq_pending q) i")
    case None
    then have "\<not> (awaits q n \<and> i = n mod 2 ^ 64)" for n
      using queue_okD(7) [OF ok, of n] by (auto simp: queued_def)
    with None show ?thesis by (auto simp: queue_respond_def)
  next
    case (Some e)
    note aw = queue_okD(4) [OF ok Some] and i = queue_okD(5) [OF ok Some]
    have "n = en_responder e" if "awaits q n" "i = n mod 2 ^ 64" for n
      using awaits_number [OF ok that(1) aw] that(2) i by simp
    then have "(\<exists>n. awaits q n \<and> i = n mod 2 ^ 64 \<and> receiver_alive (qr_phase (req q n)))
        \<longleftrightarrow> receiver_alive (qr_phase (req q (en_responder e)))"
      using aw i by blast
    with Some show ?thesis by (simp add: queue_respond_def Let_def)
  qed
qed

text \<open>
  \<open>respond\<close> may report a delivery that is lost. There is a run in which the human's
  approval is accepted (\<open>respond\<close> returns \<open>true\<close>) between the poll that finds the deadline passed
  and the drop of the receiver, and the request returns \<open>Denied\<close>.
\<close>

theorem delivered_response_lost:
  "\<exists>evs q. runs queue_step (queue_new t) evs q
     \<and> QE_Respond 0 Approved True \<in> set evs \<and> QE_Poll 0 (Some Denied) \<in> set evs"
proof -
  let ?ops = "[QO_Begin ''act-0'' ''rm'' ex_expl, QO_Poll 0, QO_Tick t, QO_Poll 0, QO_Respond 0 Approved,
      QO_Poll 0, QO_Poll 0]"
  have "fst (drive ?ops (queue_new t)) =
      [QE_Begin ''act-0'' ''rm'' ex_expl, QE_Poll 0 None, QE_Tick t, QE_Poll 0 None,
       QE_Respond 0 Approved True, QE_Poll 0 None, QE_Poll 0 (Some Denied)]"
    by (simp add: queue_sim)
  with drive_runs [of "queue_new t" ?ops] show ?thesis
    by (intro exI [of _ "fst (drive ?ops (queue_new t))"] exI [of _ "snd (drive ?ops (queue_new t))"]) simp
qed

text \<open>A queue with one request, after its deadline.\<close>

definition ex_queue :: approval_queue where
  "ex_queue = snd (drive [QO_Begin ''act-0'' ''rm'' ex_expl, QO_Poll 0, QO_Tick 5] (queue_new 5))"

lemma ex_queue_run:
  "queue_start (queue_new 5)"
  "runs queue_step (queue_new 5) [QE_Begin ''act-0'' ''rm'' ex_expl, QE_Poll 0 None, QE_Tick 5] ex_queue"
  "length (aq_requests ex_queue) = 1" "qr_phase (req ex_queue 0) = PH_Waiting"
  "qr_chan (req ex_queue 0) = CH_Empty" "qr_deadline (req ex_queue 0) = 5" "aq_now ex_queue = 5"
proof -
  let ?ops = "[QO_Begin ''act-0'' ''rm'' ex_expl, QO_Poll 0, QO_Tick 5]"
  have "fst (drive ?ops (queue_new 5)) = [QE_Begin ''act-0'' ''rm'' ex_expl, QE_Poll 0 None, QE_Tick 5]"
    by (simp add: queue_sim)
  with drive_runs [of "queue_new 5" ?ops]
  show "runs queue_step (queue_new 5) [QE_Begin ''act-0'' ''rm'' ex_expl, QE_Poll 0 None, QE_Tick 5] ex_queue"
    by (simp only: ex_queue_def)
  show "queue_start (queue_new 5)"
    by (auto simp: queue_start_def queue_new_def with_notifications_def)
qed (simp_all add: ex_queue_def queue_sim)

theorem request_fails_closed_witness:
  "\<exists>q'. poll_until 3 0 ex_queue = (Some Denied, q') \<and> entry_gone q' 0 \<and> \<not> entry_gone ex_queue 0"
proof -
  have "0 < length (aq_requests ex_queue)" "qr_phase (req ex_queue 0) \<noteq> PH_Starting"
    "\<forall>r. qr_phase (req ex_queue 0) \<noteq> PH_Done r" "qr_deadline (req ex_queue 0) \<le> aq_now ex_queue"
    by (simp_all add: ex_queue_run)
  moreover have "\<not> entry_gone ex_queue 0"
    by (simp add: ex_queue_def queue_sim entry_gone_def)
  ultimately show ?thesis
    using request_fails_closed [OF ex_queue_run(1,2), of 0] by (auto simp: ex_queue_run simp del: poll_until.simps)
qed

theorem pending_is_exact_witness:
  "(\<exists>p \<in> set (queue_pending ex_queue). pa_tool p = ''rm'')
   \<and> fst (queue_respond 0 Approved ex_queue) \<and> \<not> fst (queue_respond 1 Approved ex_queue)"
proof -
  note x = pending_is_exact [OF ex_queue_run(1,2)]
  have a: "awaits ex_queue n \<longleftrightarrow> n = 0" for n
    by (auto simp: awaits_def ex_queue_run)
  have "pa_tool (shown [QE_Begin ''act-0'' ''rm'' ex_expl, QE_Poll 0 None, QE_Tick 5] 0) = ''rm''"
    by (simp add: shown_def)
  then show ?thesis
    using x unfolding a by (auto simp: ex_queue_run)
qed

end
