(* ===== verification/Proxy.thy ===== *)
theory Proxy
  imports Engine Audit_Log Broker
begin

text \<open>
  \<open>guardian-proxy/src/lib.rs\<close> and \<open>server.rs\<close>: the mediation of an HTTP request by the forward
  proxy. The sockets, TLS and the HTTP library are outside; of the library the model takes as
  parameters how a header value reads as text (\<open>to_str\<close>) and which texts are header values
  (\<open>HeaderValue::from_str\<close>). A request carries what reading its body gives. \<open>handle_request\<close>
  returns, beside the answer and the new log, the calls of the log and of the human in their order.
  Methods are HTTP tokens, hence ASCII, so \<open>to_lowercase\<close> is the ASCII folding.
\<close>

subsection \<open>The mediation core\<close>

record http_request =
  hr_method :: string
  hr_host :: string
  hr_path :: string

datatype proxy_outcome =
    PO_Forward "string option"
  | PO_Block string

text \<open>\<open>Debug\<close> of an outcome never shows the credential.\<close>

fun debug_fields :: "proxy_outcome \<Rightarrow> string \<times> string \<times> string option" where
  "debug_fields (PO_Forward auth) = (''Forward'', ''authorization'', map_option (\<lambda>_. ''<redacted>'') auth)"
| "debug_fields (PO_Block reason) = (''Block'', ''reason'', Some reason)"

fun strip_ports :: "string list \<Rightarrow> string \<Rightarrow> string" where
  "strip_ports [] h = h"
| "strip_ports (port # ports) h =
     (case strip_suffix port h of Some stripped \<Rightarrow> stripped | None \<Rightarrow> strip_ports ports h)"

definition normalize_host :: "string \<Rightarrow> string" where
  "normalize_host host = strip_ports ['':80'', '':443''] (to_ascii_lowercase (trim host))"

definition to_action :: "http_request \<Rightarrow> action" where
  "to_action rq =
     \<lparr>act_id = ''proxy'', act_kind = K_HttpRequest,
      act_tool = ''http.'' @ to_ascii_lowercase (hr_method rq),
      act_args = jobj [(''method'', JStr (hr_method rq)), (''path'', JStr (hr_path rq))],
      act_capability = None,
      act_context =
        \<lparr>ctx_timestamp_ms = 0, ctx_source = ''proxy'', ctx_session = None,
         ctx_host = Some (normalize_host (hr_host rq)), ctx_principal = None, ctx_path = None,
         ctx_extra = []\<rparr>\<rparr>"

definition tag_exfiltration :: "action \<Rightarrow> string list \<Rightarrow> action" where
  "tag_exfiltration a trusted =
     (let carries = (case Option.bind (map_of (ctx_extra (act_context a)) ''body_contains_known_secret'')
                            as_bool of Some b \<Rightarrow> b | None \<Rightarrow> False);
          to_trusted = (case ctx_host (act_context a) of
                          Some h \<Rightarrow> list_ex (\<lambda>t. t = h) trusted | None \<Rightarrow> False)
      in if \<not> carries then a
         else if \<not> to_trusted \<and> act_capability a = None
         then a\<lparr>act_capability := Some Cap_Exfiltration\<rparr>
         else a)"

definition classify :: "action \<Rightarrow> eval_outcome \<Rightarrow> broker \<Rightarrow> proxy_outcome" where
  "classify a out b =
     (case out_decision out of
        Allow \<Rightarrow>
          PO_Forward (map_option (\<lambda>t. ''Bearer '' @ t)
            (Option.bind (ctx_host (act_context a)) (broker_token_for b)))
      | Deny reason \<Rightarrow> PO_Block reason
      | Ask reason \<Rightarrow> PO_Block (''needs approval: '' @ reason))"

definition mediate ::
    "'prog cel_exec \<Rightarrow> http_request \<Rightarrow> 'prog compiled_policy \<Rightarrow> eval_env \<Rightarrow> broker \<Rightarrow> proxy_outcome" where
  "mediate exec rq pol env b =
     (let a = to_action rq; out = evaluate exec pol a env in classify a out b)"

subsection \<open>Requests on the wire\<close>

definition BODY_INSPECT_CAP :: nat where
  "BODY_INSPECT_CAP = 1024 * 1024"

text \<open>Header names are lower case; a name may occur more than once.\<close>

type_synonym headers = "(string \<times> string) list"

datatype body = Body "(unit, string) result"

record wire_request =
  wr_method :: string
  wr_uri_host :: "string option"
  wr_path_query :: "string option"
  wr_headers :: headers
  wr_body :: body

record wire_response =
  wp_status :: nat
  wp_headers :: headers
  wp_body :: string

datatype request_or_response = RR_Request wire_request | RR_Response wire_response

record http_lib =
  hl_to_str :: "string \<Rightarrow> string option"
  hl_value_ok :: "string \<Rightarrow> bool"

text \<open>\<open>headers().get(name).and_then(|v| v.to_str().ok())\<close>: the first value of the name.\<close>

definition header_str :: "http_lib \<Rightarrow> string \<Rightarrow> wire_request \<Rightarrow> string option" where
  "header_str hl name rq = Option.bind (map_of (wr_headers rq) name) (hl_to_str hl)"

text \<open>\<open>HeaderMap::insert\<close> replaces every value of the name.\<close>

definition header_insert :: "string \<Rightarrow> string \<Rightarrow> headers \<Rightarrow> headers" where
  "header_insert name v hs = filter (\<lambda>(k, _). k \<noteq> name) hs @ [(name, v)]"

text \<open>\<open>str::parse::<usize>\<close>: an optional sign \<open>+\<close>, digits, no overflow of 64 bits.\<close>

definition parse_usize :: "string \<Rightarrow> nat option" where
  "parse_usize s =
     (let ds = (case s of c # cs \<Rightarrow> if c = CHR ''+'' then cs else s | [] \<Rightarrow> s)
      in if ds \<noteq> [] \<and> list_all is_ascii_digit ds \<and> digits_val 0 ds < 2 ^ 64
         then Some (digits_val 0 ds) else None)"

record request_signals =
  rs_inspected :: bool
  rs_len :: nat
  rs_secret :: bool
  rs_websocket :: bool

definition uninspected :: request_signals where
  "uninspected = \<lparr>rs_inspected = False, rs_len = 0, rs_secret = False, rs_websocket = False\<rparr>"

subsection \<open>The handler\<close>

record ('sk, 'prog) proxy_handler =
  ph_policy :: "'prog compiled_policy"
  ph_env :: eval_env
  ph_broker :: broker
  ph_audit :: "'sk audit_log"
  ph_approver :: bool

text \<open>\<open>ph_approver\<close> says whether an approver is attached; \<open>pio_approve\<close> is its answer.\<close>

definition proxy_handler_new ::
    "'prog compiled_policy \<Rightarrow> eval_env \<Rightarrow> broker \<Rightarrow> 'sk audit_log \<Rightarrow> ('sk, 'prog) proxy_handler" where
  "proxy_handler_new pol env b lg =
     \<lparr>ph_policy = pol, ph_env = env, ph_broker = b, ph_audit = lg, ph_approver = False\<rparr>"

definition with_approver :: "('sk, 'prog) proxy_handler \<Rightarrow> ('sk, 'prog) proxy_handler" where
  "with_approver h = h\<lparr>ph_approver := True\<rparr>"

record proxy_io =
  pio_now_ms :: int
  pio_audit_ok :: bool
  pio_approve :: "action \<Rightarrow> bool"

record ('sk, 'vk, 'prog) proxy_deps =
  pd_crypto :: "('sk, 'vk) crypto"
  pd_ser_entry :: "audit_entry \<Rightarrow> (string, string) result"
  pd_cel :: "'prog cel_exec"
  pd_http :: http_lib

datatype proxy_event =
    PE_Record audit_entry bool
  | PE_Approve action

definition inspect :: "http_lib \<Rightarrow> broker \<Rightarrow> wire_request \<Rightarrow> wire_request \<times> request_signals" where
  "inspect hl b rq =
     (let ws = (case header_str hl ''upgrade'' rq of
                  Some v \<Rightarrow> eq_ignore_ascii_case v ''websocket'' | None \<Rightarrow> False);
          content_len = Option.bind (header_str hl ''content-length'' rq) parse_usize;
          bufferable = (wr_method rq \<noteq> ''CONNECT''
             \<and> (case content_len of Some n \<Rightarrow> n \<le> BODY_INSPECT_CAP | None \<Rightarrow> False))
      in if \<not> bufferable
         then (rq, uninspected\<lparr>rs_len := (case content_len of Some n \<Rightarrow> n | None \<Rightarrow> 0),
                               rs_websocket := ws\<rparr>)
         else (case wr_body rq of
                 Body (Inr bytes) \<Rightarrow>
                   (rq\<lparr>wr_body := Body (Inr bytes)\<rparr>,
                    \<lparr>rs_inspected = True, rs_len = length bytes,
                     rs_secret = (utf8_valid bytes \<and> body_leaks_secret b bytes),
                     rs_websocket = ws\<rparr>)
               | Body (Inl _) \<Rightarrow>
                   (rq\<lparr>wr_body := Body (Inr [])\<rparr>, uninspected\<lparr>rs_websocket := ws\<rparr>)))"

definition summarize :: "http_lib \<Rightarrow> wire_request \<Rightarrow> http_request" where
  "summarize hl rq =
     \<lparr>hr_method = wr_method rq,
      hr_host = (case wr_uri_host rq of
                   Some h \<Rightarrow> h
                 | None \<Rightarrow> (case header_str hl ''host'' rq of Some h \<Rightarrow> h | None \<Rightarrow> [])),
      hr_path = (case wr_path_query rq of Some p \<Rightarrow> p | None \<Rightarrow> ''/'')\<rparr>"

definition block_response :: "string \<Rightarrow> wire_response" where
  "block_response reason =
     \<lparr>wp_status = 403, wp_headers = [(''x-guardian-blocked'', ''1'')],
      wp_body = ''Guardian blocked this request: '' @ reason\<rparr>"

text \<open>The signals as the policy sees them.\<close>

definition signal_fields :: "request_signals \<Rightarrow> (string \<times> json) list" where
  "signal_fields s =
     [(''body_inspected'', JBool (rs_inspected s)), (''body_len'', JInt (int (rs_len s))),
      (''body_contains_known_secret'', JBool (rs_secret s))]
     @ (if rs_websocket s then [(''upgrade'', JStr ''websocket'')] else [])"

definition prepare ::
    "('sk, 'vk, 'prog) proxy_deps \<Rightarrow> int \<Rightarrow> ('sk, 'prog) proxy_handler \<Rightarrow> wire_request
       \<Rightarrow> request_signals \<Rightarrow> action \<times> eval_outcome" where
  "prepare dp now h rq sig =
     (let a0 = to_action (summarize (pd_http dp) rq);
          a1 = a0\<lparr>act_context := (act_context a0)\<lparr>ctx_timestamp_ms := now,
                    ctx_extra := fold (\<lambda>(k, v). obj_insert k v) (signal_fields sig)
                                   (ctx_extra (act_context a0))\<rparr>\<rparr>;
          a = tag_exfiltration a1 (env_trusted_hosts (ph_env h))
      in (a, evaluate (pd_cel dp) (ph_policy h) a (ph_env h)))"

text \<open>
  The message of a violated caveat, as the error type prints it (the amounts in the format of the
  standard library, a parameter; the proxy never reaches that case).
\<close>

fun caveat_message :: "(f64 \<Rightarrow> string) \<Rightarrow> caveat_violation \<Rightarrow> string" where
  "caveat_message show CV_Expired = ''capability expired''"
| "caveat_message show (CV_HostNotAllowed h) =
     ''host '' @ [CHR 0x27] @ h @ [CHR 0x27] @ '' is not in the capability'' @ [CHR 0x27]
     @ ''s allowed hosts''"
| "caveat_message show (CV_AmountExceeded mx got) =
     ''amount '' @ show got @ '' exceeds the capability'' @ [CHR 0x27] @ ''s max '' @ show mx"
| "caveat_message show CV_StaleCriticalApproval =
     ''a critical action requires a fresh approval (cached grant is not enough)''"

definition respond ::
    "http_lib \<Rightarrow> (f64 \<Rightarrow> string) \<Rightarrow> broker \<Rightarrow> wire_request \<Rightarrow> action \<Rightarrow> eval_outcome \<Rightarrow> bool
       \<Rightarrow> request_or_response" where
  "respond hl show_f64 b rq a out fresh =
     (case classify a out b of
        PO_Block reason \<Rightarrow> RR_Response (block_response reason)
      | PO_Forward authorization \<Rightarrow>
          (case (case ctx_host (act_context a) of
                   None \<Rightarrow> Inr ()
                 | Some host \<Rightarrow>
                     broker_authorize b host
                       \<lparr>rq_host = host, rq_now_ms = ctx_timestamp_ms (act_context a),
                        rq_amount = None, rq_critical = out_critical out,
                        rq_freshly_approved = fresh\<rparr>) of
             Inl violation \<Rightarrow>
               RR_Response (block_response (''capability caveat: '' @ caveat_message show_f64 violation))
           | Inr _ \<Rightarrow>
               RR_Request
                 (case authorization of
                    None \<Rightarrow> rq
                  | Some auth \<Rightarrow>
                      if wr_method rq \<noteq> ''CONNECT'' \<and> hl_value_ok hl auth
                      then rq\<lparr>wr_headers := header_insert ''authorization'' auth (wr_headers rq)\<rparr>
                      else rq)))"

definition proxy_record ::
    "('sk, 'vk, 'prog) proxy_deps \<Rightarrow> bool \<Rightarrow> action \<Rightarrow> eval_outcome \<Rightarrow> ('sk, 'prog) proxy_handler
       \<Rightarrow> bool \<times> proxy_event \<times> ('sk, 'prog) proxy_handler" where
  "proxy_record dp io a out h =
     (let e = for_decision a (out_decision out) (out_matched_rule out) None None (out_critical out)
      in (case audit_append (pd_crypto dp) (pd_ser_entry dp) io (ph_audit h) e of
            (r, lg) \<Rightarrow> (is_ok r, PE_Record e (is_ok r), h\<lparr>ph_audit := lg\<rparr>)))"

text \<open>An \<open>ask\<close> put to the human: the decision that results, whether it is a fresh approval.\<close>

definition resolve_ask ::
    "proxy_io \<Rightarrow> bool \<Rightarrow> action \<Rightarrow> eval_outcome \<Rightarrow> eval_outcome \<times> bool \<times> proxy_event list" where
  "resolve_ask io approver a out =
     (case out_decision out of
        Ask reason \<Rightarrow>
          if approver
          then (if pio_approve io a
                then (out\<lparr>out_decision := Allow\<rparr>, True, [PE_Approve a])
                else (out\<lparr>out_decision := Deny (''denied at review: '' @ reason)\<rparr>, False, [PE_Approve a]))
          else (out, False, [])
      | _ \<Rightarrow> (out, False, []))"

definition resolve_and_respond ::
    "http_lib \<Rightarrow> (f64 \<Rightarrow> string) \<Rightarrow> proxy_io \<Rightarrow> ('sk, 'prog) proxy_handler \<Rightarrow> wire_request
       \<Rightarrow> action \<Rightarrow> eval_outcome \<Rightarrow> request_or_response \<times> proxy_event list" where
  "resolve_and_respond hl show_f64 io h rq a out =
     (case resolve_ask io (ph_approver h) a out of
        (out', fresh, evs) \<Rightarrow>
          (respond hl show_f64 (ph_broker h) rq a out' fresh, evs))"

definition handle_request ::
    "('sk, 'vk, 'prog) proxy_deps \<Rightarrow> (f64 \<Rightarrow> string) \<Rightarrow> proxy_io \<Rightarrow> wire_request
       \<Rightarrow> ('sk, 'prog) proxy_handler
       \<Rightarrow> request_or_response \<times> proxy_event list \<times> ('sk, 'prog) proxy_handler" where
  "handle_request dp show_f64 io rq0 h0 =
     (let (rq, sig) = inspect (pd_http dp) (ph_broker h0) rq0;
          (a, out) = prepare dp (pio_now_ms io) h0 rq sig
      in (case proxy_record dp (pio_audit_ok io) a out h0 of
            (recorded, ev, h) \<Rightarrow>
              if \<not> recorded
              then (RR_Response (block_response
                      ''Guardian audit log unavailable; request blocked (fail-closed)''), [ev], h)
              else (case resolve_and_respond (pd_http dp) show_f64 io h rq a out of
                      (r, evs) \<Rightarrow> (r, ev # evs, h))))"

end
