(* ===== verification/Proxy_Laws.thy ===== *)
theory Proxy_Laws
  imports Proxy Engine_Laws Audit_Laws
begin

text \<open>
  What the forward proxy guarantees: nothing leaves that was not cleared and recorded, a known
  secret leaves for an untrusted host only with a human's approval, the broker's credential is
  attached to its own host only, and what the inspection cannot see.
\<close>

subsection \<open>One request, step by step\<close>

abbreviation seen_request :: "('sk, 'vk, 'prog) proxy_deps \<Rightarrow> ('sk, 'prog) proxy_handler \<Rightarrow> wire_request
    \<Rightarrow> wire_request" where
  "seen_request dp h rq \<equiv> fst (inspect (pd_http dp) (ph_broker h) rq)"

abbreviation seen_signals :: "('sk, 'vk, 'prog) proxy_deps \<Rightarrow> ('sk, 'prog) proxy_handler \<Rightarrow> wire_request
    \<Rightarrow> request_signals" where
  "seen_signals dp h rq \<equiv> snd (inspect (pd_http dp) (ph_broker h) rq)"

definition proxied_action :: "('sk, 'vk, 'prog) proxy_deps \<Rightarrow> int \<Rightarrow> ('sk, 'prog) proxy_handler
    \<Rightarrow> wire_request \<Rightarrow> action" where
  "proxied_action dp now h rq = fst (prepare dp now h (seen_request dp h rq) (seen_signals dp h rq))"

definition proxied_verdict :: "('sk, 'vk, 'prog) proxy_deps \<Rightarrow> int \<Rightarrow> ('sk, 'prog) proxy_handler
    \<Rightarrow> wire_request \<Rightarrow> eval_outcome" where
  "proxied_verdict dp now h rq = snd (prepare dp now h (seen_request dp h rq) (seen_signals dp h rq))"

definition proxied_entry :: "('sk, 'vk, 'prog) proxy_deps \<Rightarrow> int \<Rightarrow> ('sk, 'prog) proxy_handler
    \<Rightarrow> wire_request \<Rightarrow> audit_entry" where
  "proxied_entry dp now h rq =
     (let out = proxied_verdict dp now h rq
      in for_decision (proxied_action dp now h rq) (out_decision out) (out_matched_rule out)
           None None (out_critical out))"

definition proxied_append where
  "proxied_append dp io h rq =
     audit_append (pd_crypto dp) (pd_ser_entry dp) (pio_audit_ok io) (ph_audit h)
       (proxied_entry dp (pio_now_ms io) h rq)"

lemma handle_request_eq:
  "handle_request dp show_f64 io rq h =
     (let a = proxied_action dp (pio_now_ms io) h rq;
          out = proxied_verdict dp (pio_now_ms io) h rq;
          ok = is_ok (fst (proxied_append dp io h rq));
          ev = PE_Record (proxied_entry dp (pio_now_ms io) h rq) ok;
          h' = h\<lparr>ph_audit := snd (proxied_append dp io h rq)\<rparr>
      in if \<not> ok
         then (RR_Response (block_response
                 ''Guardian audit log unavailable; request blocked (fail-closed)''), [ev], h')
         else (respond (pd_http dp) show_f64 (ph_broker h) (seen_request dp h rq) a
                 (fst (resolve_ask io (ph_approver h) a out))
                 (fst (snd (resolve_ask io (ph_approver h) a out))),
               ev # snd (snd (resolve_ask io (ph_approver h) a out)), h'))"
  by (simp add: handle_request_def proxy_record_def resolve_and_respond_def proxied_action_def
        proxied_verdict_def proxied_entry_def proxied_append_def split_beta Let_def)

lemma proxied_verdict_eq:
  "proxied_verdict dp now h rq =
     evaluate (pd_cel dp) (ph_policy h) (proxied_action dp now h rq) (ph_env h)"
  by (simp add: proxied_verdict_def proxied_action_def prepare_def Let_def)

lemma proxied_action_host:
  "ctx_host (act_context (proxied_action dp now h rq)) =
     Some (normalize_host (hr_host (summarize (pd_http dp) (seen_request dp h rq))))"
  by (simp add: proxied_action_def prepare_def Let_def tag_exfiltration_def to_action_def)

lemma proxied_action_time: "ctx_timestamp_ms (act_context (proxied_action dp now h rq)) = now"
  by (simp add: proxied_action_def prepare_def Let_def tag_exfiltration_def)

lemma inspect_frame:
  "wr_headers (fst (inspect hl b rq)) = wr_headers rq" "wr_method (fst (inspect hl b rq)) = wr_method rq"
  "wr_uri_host (fst (inspect hl b rq)) = wr_uri_host rq"
  "wr_path_query (fst (inspect hl b rq)) = wr_path_query rq"
  by (auto simp: inspect_def Let_def split: option.splits body.splits sum.splits)

lemma summarize_inspect: "summarize hl (fst (inspect hl b rq)) = summarize hl rq"
  unfolding summarize_def header_str_def inspect_frame ..

lemma resolve_ask_allow:
  assumes "resolve_ask io approver a out = (out', fresh, evs)" and "out_decision out' = Allow"
  shows "(out_decision out = Allow \<and> out' = out \<and> \<not> fresh \<and> evs = [])
     \<or> (\<exists>r. out_decision out = Ask r) \<and> approver \<and> pio_approve io a \<and> fresh \<and> evs = [PE_Approve a]
        \<and> out_critical out' = out_critical out"
  using assms by (auto simp: resolve_ask_def split: decision.splits if_splits)

text \<open>What a forwarded request looks like.\<close>

definition credentialed :: "http_lib \<Rightarrow> broker \<Rightarrow> string \<Rightarrow> wire_request \<Rightarrow> wire_request" where
  "credentialed hl b host rq =
     (case broker_token_for b host of
        Some t \<Rightarrow>
          if wr_method rq \<noteq> ''CONNECT'' \<and> hl_value_ok hl (''Bearer '' @ t)
          then rq\<lparr>wr_headers := header_insert ''authorization'' (''Bearer '' @ t) (wr_headers rq)\<rparr>
          else rq
      | None \<Rightarrow> rq)"

lemma respond_forward:
  assumes "respond hl show_f64 b rq a out fresh = RR_Request rq'"
    and "ctx_host (act_context a) = Some host"
  shows "out_decision out = Allow \<and> rq' = credentialed hl b host rq
     \<and> broker_authorize b host
          \<lparr>rq_host = host, rq_now_ms = ctx_timestamp_ms (act_context a), rq_amount = None,
           rq_critical = out_critical out, rq_freshly_approved = fresh\<rparr> = Inr ()"
  using assms
  by (auto simp: respond_def classify_def credentialed_def split: decision.splits sum.splits option.splits)

lemma map_of_header_insert: "map_of (header_insert k v hs) j = (if j = k then Some v else map_of hs j)"
  by (induction hs) (auto simp: header_insert_def)

lemma evaluate_critical_not_allow:
  "action_is_critical a \<Longrightarrow> out_decision (evaluate exec cp a env) \<noteq> Allow \<and> out_critical (evaluate exec cp a env)"
  by (simp add: evaluate_def critical_floor_critical Let_def)

lemma proxied_host:
  "ctx_host (act_context (proxied_action dp now h rq)) =
     Some (normalize_host (hr_host (summarize (pd_http dp) rq)))"
  by (simp add: proxied_action_host summarize_inspect)

text \<open>A body the proxy reads: not a tunnel, with a length within the cap.\<close>

definition readable_body :: "http_lib \<Rightarrow> wire_request \<Rightarrow> bool" where
  "readable_body hl rq \<longleftrightarrow> wr_method rq \<noteq> ''CONNECT''
     \<and> (\<exists>n. Option.bind (header_str hl ''content-length'' rq) parse_usize = Some n \<and> n \<le> BODY_INSPECT_CAP)"

lemma inspect_readable:
  assumes "readable_body hl rq" and "wr_body rq = Body (Inr bytes)"
  shows "rs_secret (snd (inspect hl b rq)) \<longleftrightarrow> utf8_valid bytes \<and> body_leaks_secret b bytes"
    and "rs_inspected (snd (inspect hl b rq))" and "fst (inspect hl b rq) = rq"
  using assms by (auto simp: readable_body_def inspect_def Let_def split: option.splits)

lemma inspect_unreadable:
  assumes "\<not> readable_body hl rq"
  shows "fst (inspect hl b rq) = rq"
    and "snd (inspect hl b (rq\<lparr>wr_body := bd\<rparr>)) = snd (inspect hl b rq)"
    and "\<not> rs_secret (snd (inspect hl b rq))" and "\<not> rs_inspected (snd (inspect hl b rq))"
  using assms
  by (auto simp: readable_body_def inspect_def Let_def uninspected_def header_str_def split: option.splits)

text \<open>The inspection hands on the request itself; only a body that broke off while it was read is lost.\<close>

lemma inspect_hands_on:
  "fst (inspect hl b rq) =
     (if readable_body hl rq \<and> wr_body rq = Body (Inl ()) then rq\<lparr>wr_body := Body (Inr [])\<rparr> else rq)"
  by (auto simp: readable_body_def inspect_def Let_def split: option.splits body.splits sum.splits)

lemma signal_fields_secret:
  "map_of (fold (\<lambda>(k, v). obj_insert k v) (signal_fields sig) []) ''body_contains_known_secret'' =
     Some (JBool (rs_secret sig))"
  by (simp add: map_of_fold_obj_insert signal_fields_def)

lemma proxied_capability:
  "act_capability (proxied_action dp now h rq) =
     (if rs_secret (seen_signals dp h rq)
         \<and> normalize_host (hr_host (summarize (pd_http dp) rq)) \<notin> set (env_trusted_hosts (ph_env h))
      then Some Cap_Exfiltration else None)"
  using signal_fields_secret [of "seen_signals dp h rq"]
  by (auto simp: proxied_action_def prepare_def Let_def tag_exfiltration_def to_action_def
        summarize_inspect list_ex_iff)

fun with_body :: "body \<Rightarrow> request_or_response \<Rightarrow> request_or_response" where
  "with_body bd (RR_Request rq) = RR_Request (rq\<lparr>wr_body := bd\<rparr>)"
| "with_body bd (RR_Response r) = RR_Response r"

lemma respond_body:
  "respond hl show_f64 b (rq\<lparr>wr_body := bd\<rparr>) a out fresh =
     with_body bd (respond hl show_f64 b rq a out fresh)"
  by (simp add: respond_def split: proxy_outcome.split sum.split option.split)

subsection \<open>The log over a run of requests\<close>

definition proxy_log :: "('sk, 'prog) proxy_handler \<Rightarrow> string list" where
  "proxy_log h = log_contents (al_db (ph_audit h))"

definition proxy_intact :: "('sk, 'vk, 'prog) proxy_deps \<Rightarrow> ('sk, 'prog) proxy_handler \<Rightarrow> bool" where
  "proxy_intact dp h = audit_intact (pd_crypto dp) (ph_audit h)"

definition proxy_op ::
    "('sk, 'vk, 'prog) proxy_deps \<Rightarrow> (f64 \<Rightarrow> string) \<Rightarrow> proxy_io \<times> wire_request
       \<Rightarrow> ('sk, 'prog) proxy_handler \<Rightarrow> ('sk, 'prog) proxy_handler" where
  "proxy_op dp show_f64 op h = snd (snd (handle_request dp show_f64 (fst op) (snd op) h))"

definition request_written ::
    "('sk, 'vk, 'prog) proxy_deps \<Rightarrow> proxy_io \<times> wire_request \<Rightarrow> ('sk, 'prog) proxy_handler \<Rightarrow> string list" where
  "request_written dp op h =
     written (pd_ser_entry dp) (pio_audit_ok (fst op), proxied_entry dp (pio_now_ms (fst op)) h (snd op))"

fun goes_out :: "request_or_response \<Rightarrow> bool" where
  "goes_out (RR_Request _) = True"
| "goes_out (RR_Response _) = False"

definition request_sent ::
    "('sk, 'vk, 'prog) proxy_deps \<Rightarrow> (f64 \<Rightarrow> string) \<Rightarrow> proxy_io \<times> wire_request
       \<Rightarrow> ('sk, 'prog) proxy_handler \<Rightarrow> nat" where
  "request_sent dp show_f64 op h =
     (if goes_out (fst (handle_request dp show_f64 (fst op) (snd op) h)) then 1 else 0)"

lemma proxy_op_audit:
  "ph_audit (proxy_op dp show_f64 op h) =
     audit_op (pd_crypto dp) (pd_ser_entry dp)
       (pio_audit_ok (fst op), proxied_entry dp (pio_now_ms (fst op)) h (snd op)) (ph_audit h)"
  by (simp add: proxy_op_def handle_request_eq Let_def proxied_append_def audit_op_def)

lemma request_sent_written:
  assumes "proxy_intact dp h" and "length (proxy_log h) < audit_room"
  shows "request_sent dp show_f64 op h \<le> length (request_written dp op h)"
proof -
  have i: "chain_intact (pd_crypto dp) (al_db (ph_audit h)) (proxy_log h)"
    using assms(1) by (simp add: proxy_intact_def audit_intact_def verify_chain_ok_iff proxy_log_def)
  have "request_written dp op h \<noteq> []" if "is_ok (fst (proxied_append dp (fst op) h (snd op)))"
    using that audit_append_intact [OF i assms(2), of "pd_ser_entry dp" "pio_audit_ok (fst op)"]
    by (auto simp: proxied_append_def request_written_def written_def split: sum.splits if_splits)
  then show ?thesis
    by (auto simp: request_sent_def handle_request_eq Let_def Suc_le_eq)
qed

interpretation proxied: recording_mediator proxy_log "proxy_intact dp" "proxy_op dp show_f64"
    "request_written dp" audit_room "request_sent dp show_f64"
  for dp :: "('sk, 'vk, 'prog) proxy_deps" and show_f64
proof unfold_locales
  fix h :: "('sk, 'prog) proxy_handler" and op
  assume h: "proxy_intact dp h" "length (proxy_log h) < audit_room"
  then have a: "audit_intact (pd_crypto dp) (ph_audit h)" "length (log_contents (al_db (ph_audit h))) < audit_room"
    by (simp_all add: proxy_intact_def proxy_log_def)
  show "proxy_intact dp (proxy_op dp show_f64 op h)"
    using audit_op_contract(1) [OF a] by (simp add: proxy_intact_def proxy_op_audit)
  show "proxy_log (proxy_op dp show_f64 op h) = proxy_log h @ request_written dp op h"
    using audit_op_contract(2) [OF a] by (simp add: proxy_log_def proxy_op_audit request_written_def)
  show "request_sent dp show_f64 op h \<le> length (request_written dp op h)"
    using h by (rule request_sent_written)
qed (simp add: request_written_def length_written [simplified])

text \<open>The answers of a run, in order.\<close>

fun proxy_answers ::
    "('sk, 'vk, 'prog) proxy_deps \<Rightarrow> (f64 \<Rightarrow> string) \<Rightarrow> (proxy_io \<times> wire_request) list
       \<Rightarrow> ('sk, 'prog) proxy_handler \<Rightarrow> request_or_response list" where
  "proxy_answers dp show_f64 [] h = []"
| "proxy_answers dp show_f64 (op # ops) h =
     fst (handle_request dp show_f64 (fst op) (snd op) h) # proxy_answers dp show_f64 ops (proxy_op dp show_f64 op h)"

lemma proxy_answers_sent:
  "length (filter goes_out (proxy_answers dp show_f64 ops h))
     = run_total (request_sent dp show_f64) (proxy_op dp show_f64) ops h"
  by (induction ops arbitrary: h) (simp_all add: request_sent_def)

subsection \<open>Properties\<close>

text \<open>
  C5: the proxy forwards only what was cleared. A request goes out only if its decision was
  recorded first, the policy allowed it or asked and the attached human approved it, and the
  caveats of the broker for its host hold, a fresh approval being one just given. What goes out is
  the very request that came in, method, target, body and headers, but for \<open>authorization\<close>, which is
  set to the broker's own token for that host and never on the setup of a tunnel; only a body the
  proxy set out to read and that broke off is sent on empty.
\<close>

theorem proxy_forwards_cleared:
  assumes "handle_request dp show_f64 io rq h = (RR_Request rq', evs, h')"
  shows "let a = proxied_action dp (pio_now_ms io) h rq; out = proxied_verdict dp (pio_now_ms io) h rq;
             host = normalize_host (hr_host (summarize (pd_http dp) rq));
             fresh = (out_decision out \<noteq> Allow)
         in hd evs = PE_Record (proxied_entry dp (pio_now_ms io) h rq) True
            \<and> (out_decision out = Allow \<and> tl evs = []
               \<or> (\<exists>r. out_decision out = Ask r) \<and> ph_approver h \<and> pio_approve io a \<and> tl evs = [PE_Approve a])
            \<and> broker_authorize (ph_broker h) host
                 \<lparr>rq_host = host, rq_now_ms = pio_now_ms io, rq_amount = None,
                  rq_critical = out_critical out, rq_freshly_approved = fresh\<rparr> = Inr ()
            \<and> rq' = credentialed (pd_http dp) (ph_broker h) host
                (if readable_body (pd_http dp) rq \<and> wr_body rq = Body (Inl ()) then rq\<lparr>wr_body := Body (Inr [])\<rparr>
                 else rq)"
proof -
  let ?a = "proxied_action dp (pio_now_ms io) h rq" and ?out = "proxied_verdict dp (pio_now_ms io) h rq"
  obtain out' fresh aevs where r: "resolve_ask io (ph_approver h) ?a ?out = (out', fresh, aevs)"
    by (metis prod_cases3)
  have ok: "is_ok (fst (proxied_append dp io h rq))"
    and evs: "evs = PE_Record (proxied_entry dp (pio_now_ms io) h rq) True # aevs"
    and f: "respond (pd_http dp) show_f64 (ph_broker h) (seen_request dp h rq) ?a out' fresh = RR_Request rq'"
    using assms r by (auto simp: handle_request_eq Let_def split: if_splits)
  note fw = respond_forward [OF f proxied_host]
  then have "out_decision out' = Allow" by simp
  from resolve_ask_allow [OF r this] fw evs show ?thesis
    unfolding Let_def inspect_hands_on [symmetric, of _ _ "ph_broker h"] by (auto simp: proxied_action_time)
qed

text \<open>
  C30: a secret leaves for an untrusted host only with a human's approval. If the body was
  read (not a tunnel, a length within the cap), is text and contains one of the broker's secrets of
  at least eight bytes, then whatever the rules say, the request is forwarded to a host that is not
  trusted only after the human approved it.
\<close>

theorem exfiltration_needs_approval:
  assumes "handle_request dp show_f64 io rq h = (RR_Request rq', evs, h')"
    and "readable_body (pd_http dp) rq" and "wr_body rq = Body (Inr bytes)"
    and "utf8_valid bytes" and "body_leaks_secret (ph_broker h) bytes"
    and "normalize_host (hr_host (summarize (pd_http dp) rq)) \<notin> set (env_trusted_hosts (ph_env h))"
  shows "\<exists>a. PE_Approve a \<in> set evs \<and> pio_approve io a \<and> act_capability a = Some Cap_Exfiltration"
proof -
  let ?a = "proxied_action dp (pio_now_ms io) h rq"
  have c: "act_capability ?a = Some Cap_Exfiltration"
    using assms(4-6) inspect_readable(1) [OF assms(2,3)] by (simp add: proxied_capability)
  then have na: "out_decision (proxied_verdict dp (pio_now_ms io) h rq) \<noteq> Allow"
    unfolding proxied_verdict_eq
    by (intro conjunct1 [OF evaluate_critical_not_allow]) (simp add: action_is_critical_def)
  obtain out' fresh aevs where
    r: "resolve_ask io (ph_approver h) ?a (proxied_verdict dp (pio_now_ms io) h rq) = (out', fresh, aevs)"
    by (metis prod_cases3)
  have f: "respond (pd_http dp) show_f64 (ph_broker h) (seen_request dp h rq) ?a out' fresh = RR_Request rq'"
    and evs: "evs = PE_Record (proxied_entry dp (pio_now_ms io) h rq) True # aevs"
    using assms(1) r by (auto simp: handle_request_eq Let_def split: if_splits)
  have "out_decision out' = Allow"
    using respond_forward [OF f proxied_host] by simp
  from resolve_ask_allow [OF r this] na evs c show ?thesis by auto
qed

text \<open>
  what the inspection does not read it does not see. For a tunnel, a body without a
  length or over the cap, the proxy acts the same for every body, passes it on untouched, and the
  policy sees no secret in it.
\<close>

theorem unread_body_unseen:
  assumes "\<not> readable_body (pd_http dp) rq"
  shows "handle_request dp show_f64 io (rq\<lparr>wr_body := bd\<rparr>) h =
     (case handle_request dp show_f64 io rq h of
        (r, evs, h') \<Rightarrow> (with_body bd r, evs, h'))
     \<and> act_capability (proxied_action dp (pio_now_ms io) h rq) = None"
proof
  have r: "\<not> readable_body (pd_http dp) (rq\<lparr>wr_body := bd\<rparr>)"
    using assms by (simp add: readable_body_def header_str_def)
  note i = inspect_unreadable [OF assms] and j = inspect_unreadable(1) [OF r]
  have s: "summarize (pd_http dp) (rq\<lparr>wr_body := bd\<rparr>) = summarize (pd_http dp) rq"
    by (simp add: summarize_def header_str_def split: option.split)
  have p: "prepare dp now h (rq\<lparr>wr_body := bd\<rparr>) sig = prepare dp now h rq sig" for now sig
    unfolding prepare_def s ..
  have "proxied_action dp now h (rq\<lparr>wr_body := bd\<rparr>) = proxied_action dp now h rq"
    "proxied_verdict dp now h (rq\<lparr>wr_body := bd\<rparr>) = proxied_verdict dp now h rq" for now
    unfolding proxied_action_def proxied_verdict_def i(1,2) j p by (rule refl)+
  then show "handle_request dp show_f64 io (rq\<lparr>wr_body := bd\<rparr>) h =
     (case handle_request dp show_f64 io rq h of (r, evs, h') \<Rightarrow> (with_body bd r, evs, h'))"
    by (simp add: handle_request_eq Let_def proxied_append_def proxied_entry_def i(1) j respond_body)
  show "act_capability (proxied_action dp (pio_now_ms io) h rq) = None"
    using i(3) by (simp add: proxied_capability)
qed

text \<open>
  C19: every request that goes out has its entry. Over any run of requests through the proxy, from a
  log that verifies (while sequence numbers last), the log keeps verifying, keeps its entries, and
  grows by at least as many entries as requests were sent on.
\<close>

theorem proxy_run_recorded:
  assumes "is_ok (verify_chain (pd_crypto dp) (al_db (ph_audit h)))"
    and "length (db_rows (al_db (ph_audit h))) + length ops < 2 ^ 63"
  shows "let h' = fold (\<lambda>(io, rq) h. snd (snd (handle_request dp show_f64 io rq h))) ops h
         in is_ok (verify_chain (pd_crypto dp) (al_db (ph_audit h')))
            \<and> prefix (log_contents (al_db (ph_audit h))) (log_contents (al_db (ph_audit h')))
            \<and> length (filter goes_out (proxy_answers dp show_f64 ops h))
                + length (log_contents (al_db (ph_audit h))) \<le> length (log_contents (al_db (ph_audit h')))"
proof -
  have op: "(\<lambda>(io, rq) h. snd (snd (handle_request dp show_f64 io rq h))) = proxy_op dp show_f64"
    by (auto simp: proxy_op_def fun_eq_iff)
  have i: "proxy_intact dp h" and room: "length (proxy_log h) + length ops \<le> audit_room"
    using assms by (simp_all add: proxy_intact_def audit_intact_def proxy_log_def audit_room_def)
  from proxied.run_intact [OF i room, of show_f64] proxied.run_recorded [OF i room, of show_f64] show ?thesis
    by (simp add: op Let_def proxy_intact_def audit_intact_def proxy_log_def proxy_answers_sent)
qed

subsection \<open>Witnesses\<close>

text \<open>A proxy for one bank, whose token it holds, with a human attached.\<close>

definition ex_http :: http_lib where
  "ex_http = \<lparr>hl_to_str = Some, hl_value_ok = (\<lambda>_. True)\<rparr>"

definition ex_pd :: "(bool, bool, string) proxy_deps" where
  "ex_pd = \<lparr>pd_crypto = ex_crypto, pd_ser_entry = ex_ser, pd_cel = ex_exec, pd_http = ex_http\<rparr>"

definition ex_proxy :: "decision_kind \<Rightarrow> (bool, string) proxy_handler" where
  "ex_proxy d = with_approver (proxy_handler_new
     \<lparr>cp_policy = ex_policy\<lparr>pol_rules := [ex_rule ''r'' ''HttpRequest'' d None]\<rparr>,
      cp_programs = [''HttpRequest'']\<rparr> ex_env
     (broker_new [(''bank.local'', ''s3cret-token'')]) (open_log empty_db))"

definition ex_pio :: proxy_io where
  "ex_pio = \<lparr>pio_now_ms = 0, pio_audit_ok = True, pio_approve = (\<lambda>_. True)\<rparr>"

definition ex_post :: "string \<Rightarrow> string \<Rightarrow> wire_request" where
  "ex_post host body_text =
     \<lparr>wr_method = ''POST'', wr_uri_host = Some host, wr_path_query = None,
      wr_headers = [(''content-length'', ''20''), (''authorization'', ''mine'')],
      wr_body = Body (Inr body_text)\<rparr>"

lemma ex_proxy_state [simp]:
  "ph_policy (ex_proxy d) = \<lparr>cp_policy = ex_policy\<lparr>pol_rules := [ex_rule ''r'' ''HttpRequest'' d None]\<rparr>,
     cp_programs = [''HttpRequest'']\<rparr>"
  "ph_env (ex_proxy d) = ex_env" "ph_audit (ex_proxy d) = open_log empty_db" "ph_approver (ex_proxy d)"
  "br_caveats (ph_broker (ex_proxy d)) = []"
  "br_secrets (ph_broker (ex_proxy d)) = [(''bank.local'', ''s3cret-token'')]"
  by (simp_all add: ex_proxy_def with_approver_def proxy_handler_new_def broker_new_def)

lemma ex_post_readable: "readable_body (pd_http ex_pd) (ex_post host body_text)"
proof -
  have "parse_usize ''20'' = Some 20"
    by (simp add: parse_usize_def is_ascii_digit_def digit_val_def)
  then show ?thesis
    by (simp add: readable_body_def ex_pd_def ex_http_def ex_post_def header_str_def BODY_INSPECT_CAP_def)
qed

text \<open>Any handler with this one rule and a human who says yes.\<close>

lemma ex_handler_verdict:
  assumes "ph_policy h = \<lparr>cp_policy = ex_policy\<lparr>pol_rules := [ex_rule ''r'' ''HttpRequest'' d None]\<rparr>,
     cp_programs = [''HttpRequest'']\<rparr>"
  shows "out_decision (proxied_verdict ex_pd now h rq) \<in> {decision_from_kind d None, Ask floor_reason}"
proof -
  have "act_kind (proxied_action ex_pd now h rq) = K_HttpRequest"
    by (simp add: proxied_action_def prepare_def Let_def tag_exfiltration_def to_action_def)
  then show ?thesis
    by (simp add: proxied_verdict_eq assms evaluate_def ex_pd_def rule_matches_ex critical_floor_decision
          rule_step_def rule_verdict_def apply_cap_def ex_rule_def ex_policy_def)
qed

lemma ex_handler_forwards:
  assumes "ph_policy h = \<lparr>cp_policy = ex_policy\<lparr>pol_rules := [ex_rule ''r'' ''HttpRequest'' d None]\<rparr>,
     cp_programs = [''HttpRequest'']\<rparr>" and "d \<noteq> DK_Deny"
    and "ph_audit h = open_log empty_db" and "ph_approver h" and "br_caveats (ph_broker h) = []"
    and "pio_audit_ok io" and "\<And>a. pio_approve io a"
  shows "\<exists>rq' evs h'. handle_request ex_pd show_f64 io rq h = (RR_Request rq', evs, h')"
proof -
  have ok: "is_ok (fst (proxied_append ex_pd io h rq))"
    using assms(3,6)
    by (simp add: proxied_append_def ex_pd_def audit_append_def open_log_def from_conn_def
          empty_db_def ex_ser_def Let_def)
  let ?r = "resolve_ask io True (proxied_action ex_pd (pio_now_ms io) h rq) (proxied_verdict ex_pd (pio_now_ms io) h rq)"
  have "\<forall>r. out_decision (proxied_verdict ex_pd (pio_now_ms io) h rq) \<noteq> Deny r"
    using ex_handler_verdict [OF assms(1), of "pio_now_ms io" rq] assms(2)
    by (cases d) (auto simp: decision_from_kind_def)
  then have "out_decision (fst ?r) = Allow"
    using assms(7) by (simp add: resolve_ask_def split: decision.split)
  then have "\<exists>rq'. respond hl show_f64 (ph_broker h) rq1 a (fst ?r) fresh = RR_Request rq'"
    for hl rq1 a fresh
    using assms(5) by (simp add: respond_def classify_def broker_authorize_def split: option.split)
  then show ?thesis
    using ok assms(4) by (simp add: handle_request_eq Let_def)
qed

lemma ex_proxy_forwards:
  "d \<noteq> DK_Deny \<Longrightarrow> \<exists>rq' evs h'. handle_request ex_pd show_f64 ex_pio rq (ex_proxy d) = (RR_Request rq', evs, h')"
  by (rule ex_handler_forwards [of _ d]) (simp_all add: ex_pio_def)

theorem proxy_forwards_cleared_witness:
  "\<exists>evs h'. handle_request ex_pd (\<lambda>_. []) ex_pio (ex_post ''Bank.local'' ''hello'') (ex_proxy DK_Ask) =
     (RR_Request ((ex_post ''Bank.local'' ''hello'')
        \<lparr>wr_headers := [(''content-length'', ''20''), (''authorization'', ''Bearer s3cret-token'')]\<rparr>), evs, h')"
proof -
  let ?rq = "ex_post ''Bank.local'' ''hello''"
  obtain rq' evs h' where h: "handle_request ex_pd (\<lambda>_. []) ex_pio ?rq (ex_proxy DK_Ask) = (RR_Request rq', evs, h')"
    using ex_proxy_forwards [of DK_Ask] by blast
  have host: "normalize_host (hr_host (summarize (pd_http ex_pd) ?rq)) = ''bank.local''"
    by code_simp
  have whole: "wr_body ?rq \<noteq> Body (Inl ())" by (simp add: ex_post_def)
  have "rq' = credentialed (pd_http ex_pd) (ph_broker (ex_proxy DK_Ask)) ''bank.local'' ?rq"
    using proxy_forwards_cleared [OF h] whole unfolding Let_def host by (simp only: simp_thms if_False)
  also have "\<dots> = ?rq\<lparr>wr_headers := [(''content-length'', ''20''), (''authorization'', ''Bearer s3cret-token'')]\<rparr>"
    by (simp add: credentialed_def broker_token_for_def ex_pd_def ex_http_def ex_post_def header_insert_def)
  finally show ?thesis using h by blast
qed

theorem exfiltration_needs_approval_witness:
  "\<exists>a. PE_Approve a \<in> set (fst (snd (handle_request ex_pd (\<lambda>_. []) ex_pio
       (ex_post ''evil.example'' ''x=s3cret-token'') (ex_proxy DK_Allow))))"
proof -
  let ?rq = "ex_post ''evil.example'' ''x=s3cret-token''"
  obtain rq' evs h' where h: "handle_request ex_pd (\<lambda>_. []) ex_pio ?rq (ex_proxy DK_Allow) = (RR_Request rq', evs, h')"
    using ex_proxy_forwards [of DK_Allow] by blast
  have b: "wr_body ?rq = Body (Inr ''x=s3cret-token'')" "utf8_valid ''x=s3cret-token''"
    "body_leaks_secret (ph_broker (ex_proxy DK_Allow)) ''x=s3cret-token''"
    "normalize_host (hr_host (summarize (pd_http ex_pd) ?rq)) \<notin> set (env_trusted_hosts (ph_env (ex_proxy DK_Allow)))"
    by code_simp+
  from exfiltration_needs_approval [OF h ex_post_readable b] h show ?thesis by auto
qed

theorem unread_body_unseen_witness:
  "act_capability (proxied_action ex_pd 0 (ex_proxy DK_Allow)
     ((ex_post ''evil.example'' ''x=s3cret-token'')\<lparr>wr_headers := []\<rparr>)) = None"
proof -
  have "\<not> readable_body (pd_http ex_pd) ((ex_post ''evil.example'' ''x=s3cret-token'')\<lparr>wr_headers := []\<rparr>)"
    by (simp add: readable_body_def header_str_def)
  from unread_body_unseen [OF this, of _ "ex_pio"] show ?thesis by (simp add: ex_pio_def)
qed

theorem proxy_run_recorded_witness:
  "length (log_contents (al_db (ph_audit (fold (\<lambda>(io, rq) h. snd (snd (handle_request ex_pd (\<lambda>_. []) io rq h)))
     [(ex_pio, ex_post ''Bank.local'' ''hello'')] (ex_proxy DK_Ask))))) \<ge> 1"
proof -
  let ?rq = "ex_post ''Bank.local'' ''hello''"
  have i: "is_ok (verify_chain (pd_crypto ex_pd) (al_db (ph_audit (ex_proxy DK_Ask))))"
    by (simp add: open_log_def ex_pd_def verify_chain_intact [OF from_conn_empty])
  have n: "length (db_rows (al_db (ph_audit (ex_proxy DK_Ask)))) = 0"
    by (simp add: open_log_def from_conn_def empty_db_def)
  obtain rq' evs h' where h: "handle_request ex_pd (\<lambda>_. []) ex_pio ?rq (ex_proxy DK_Ask) = (RR_Request rq', evs, h')"
    using ex_proxy_forwards [of DK_Ask] by blast
  from proxy_run_recorded [OF i, of "[(ex_pio, ?rq)]" "\<lambda>_. []"] n h show ?thesis
    by (simp add: Let_def)
qed

end
