(* ===== verification/Mcp.thy ===== *)
theory Mcp
  imports Gateway
begin

text \<open>
  The MCP server of \<open>guardian-mcp-gateway/src/lib.rs\<close> (module \<open>mcp\<close>): one JSON-RPC message in, at
  most one out. Parsing and printing JSON text is serde_json, the parameters \<open>parse\<close> and \<open>enc\<close>. The
  router (the gateway itself or the bridge to a daemon) is any state-passing function from a call
  to an outcome.
\<close>

record tool_spec =
  ts_name :: string
  ts_description :: string
  ts_input_schema :: json

definition tool_spec_json :: "tool_spec \<Rightarrow> json" where
  "tool_spec_json t = jobj
     [(''name'', JStr (ts_name t)), (''description'', JStr (ts_description t)),
      (''inputSchema'', ts_input_schema t)]"

record mcp_server =
  ms_tools :: "tool_spec list"
  ms_classifier :: "(string, action_kind) hashmap"
  ms_name :: string
  ms_version :: string

text \<open>\<open>version\<close> is the crate's version, set by the build.\<close>

definition mcp_new :: "string \<Rightarrow> tool_spec list \<Rightarrow> mcp_server" where
  "mcp_new version tools =
     \<lparr>ms_tools = tools, ms_classifier = [], ms_name = ''guardian'', ms_version = version\<rparr>"

definition with_classifier :: "(string, action_kind) hashmap \<Rightarrow> mcp_server \<Rightarrow> mcp_server" where
  "with_classifier c s = s\<lparr>ms_classifier := c\<rparr>"

type_synonym 's router = "tool_call \<Rightarrow> 's \<Rightarrow> gateway_outcome \<times> 's"

type_synonym rpc_result = "(int \<times> string, json) result"

definition text_content :: "string \<Rightarrow> bool \<Rightarrow> json" where
  "text_content t err = jobj
     [(''content'', JArr [jobj [(''type'', JStr ''text''), (''text'', JStr t)]]), (''isError'', JBool err)]"

definition mcp_call :: "mcp_server \<Rightarrow> string \<Rightarrow> json \<Rightarrow> tool_call" where
  "mcp_call s name params =
     \<lparr>tc_tool = name, tc_args = (case jget ''arguments'' params of Some v \<Rightarrow> v | None \<Rightarrow> JNull),
      tc_kind = Some (case map_of (ms_classifier s) name of Some k \<Rightarrow> k | None \<Rightarrow> K_Other),
      tc_capability = None, tc_session = None\<rparr>"

definition tools_call ::
    "(json \<Rightarrow> string) \<Rightarrow> mcp_server \<Rightarrow> 's router \<Rightarrow> json \<Rightarrow> 's \<Rightarrow> rpc_result \<times> 's" where
  "tools_call enc s route params st =
     (case jget_str ''name'' params of
        None \<Rightarrow> (Inl (-32602, ''missing tool name''), st)
      | Some name \<Rightarrow>
          (case route (mcp_call s name params) st of
             (GO_Allowed v, st') \<Rightarrow> (Inr (text_content (enc v) False), st')
           | (GO_UpstreamError e, st') \<Rightarrow> (Inr (text_content (''tool error: '' @ e) True), st')
           | (GO_Blocked reason, st') \<Rightarrow> (Inl (-32000, ''Blocked by Guardian: '' @ reason), st')))"

definition initialize_result :: "mcp_server \<Rightarrow> json \<Rightarrow> json" where
  "initialize_result s params = jobj
     [(''protocolVersion'',
         JStr (case jget_str ''protocolVersion'' params of Some v \<Rightarrow> v | None \<Rightarrow> ''2024-11-05'')),
      (''capabilities'', jobj [(''tools'', JObj [])]),
      (''serverInfo'', jobj [(''name'', JStr (ms_name s)), (''version'', JStr (ms_version s))])]"

definition mcp_dispatch ::
    "(json \<Rightarrow> string) \<Rightarrow> mcp_server \<Rightarrow> 's router \<Rightarrow> string \<Rightarrow> json \<Rightarrow> 's \<Rightarrow> rpc_result \<times> 's" where
  "mcp_dispatch enc s route meth params st =
     (if meth = ''initialize'' then (Inr (initialize_result s params), st)
      else if meth = ''tools/list''
      then (Inr (jobj [(''tools'', JArr (map tool_spec_json (ms_tools s)))]), st)
      else if meth = ''ping'' then (Inr (JObj []), st)
      else if meth = ''tools/call'' then tools_call enc s route params st
      else (Inl (-32601, ''method not found: '' @ meth), st))"

definition success_msg :: "json \<Rightarrow> json \<Rightarrow> json" where
  "success_msg i result = jobj [(''jsonrpc'', JStr ''2.0''), (''id'', i), (''result'', result)]"

definition error_msg :: "json \<Rightarrow> int \<Rightarrow> string \<Rightarrow> json" where
  "error_msg i code message = jobj
     [(''jsonrpc'', JStr ''2.0''), (''id'', i),
      (''error'', jobj [(''code'', JInt code), (''message'', JStr message)])]"

definition success_line :: "(json \<Rightarrow> string) \<Rightarrow> json \<Rightarrow> json \<Rightarrow> string" where
  "success_line enc i result = enc (success_msg i result)"

definition error_line :: "(json \<Rightarrow> string) \<Rightarrow> json \<Rightarrow> int \<Rightarrow> string \<Rightarrow> string" where
  "error_line enc i code message = enc (error_msg i code message)"

definition handle_line ::
    "(string \<Rightarrow> json option) \<Rightarrow> (json \<Rightarrow> string) \<Rightarrow> mcp_server \<Rightarrow> 's router \<Rightarrow> string \<Rightarrow> 's
       \<Rightarrow> string option \<times> 's" where
  "handle_line parse enc s route line st =
     (case parse line of
        None \<Rightarrow> (Some (error_line enc JNull (-32700) ''parse error''), st)
      | Some request \<Rightarrow>
          (case jget ''id'' request of
             None \<Rightarrow> (None, st)
           | Some JNull \<Rightarrow> (None, st)
           | Some i \<Rightarrow>
               (let meth = (case jget_str ''method'' request of Some m \<Rightarrow> m | None \<Rightarrow> []);
                    params = (case jget ''params'' request of Some p \<Rightarrow> p | None \<Rightarrow> JNull)
                in case mcp_dispatch enc s route meth params st of
                     (Inr result, st') \<Rightarrow> (Some (success_line enc i result), st')
                   | (Inl (code, message), st') \<Rightarrow> (Some (error_line enc i code message), st'))))"

text \<open>The lines of standard input, blank ones skipped; the output lines.\<close>

fun serve_stdio ::
    "(string \<Rightarrow> json option) \<Rightarrow> (json \<Rightarrow> string) \<Rightarrow> mcp_server \<Rightarrow> 's router \<Rightarrow> string list \<Rightarrow> 's
       \<Rightarrow> string list \<times> 's" where
  "serve_stdio parse enc s route [] st = ([], st)"
| "serve_stdio parse enc s route (line # lines) st =
     (if trim line = [] then serve_stdio parse enc s route lines st
      else (case handle_line parse enc s route line st of
              (resp, st1) \<Rightarrow>
                (case serve_stdio parse enc s route lines st1 of
                   (out, st2) \<Rightarrow> ((case resp of Some r \<Rightarrow> [r] | None \<Rightarrow> []) @ out, st2))))"

text \<open>
  The gateway as a router: its answer, and in the state the port calls so far, the number of calls
  and the gateway; \<open>ios\<close> is what the ports answer during each call.
\<close>

definition gateway_route ::
    "('sk, 'vk, 'prog) deps \<Rightarrow> (nat \<Rightarrow> gw_io) \<Rightarrow> (port_event list \<times> nat \<times> ('sk, 'prog) gateway) router" where
  "gateway_route dp ios call st =
     (case st of (evs0, n, g0) \<Rightarrow>
        (case handle dp (ios n) call g0 of (out, evs, g) \<Rightarrow> (out, (evs0 @ evs, n + 1, g))))"

subsection \<open>Lemmas\<close>

lemma tools_call_route:
  "jget_str ''name'' params = Some name \<Longrightarrow>
     snd (tools_call enc s route params st) = snd (route (mcp_call s name params) st)"
  by (auto simp: tools_call_def split: prod.split gateway_outcome.split)

lemma tools_call_nameless:
  "jget_str ''name'' params = None \<Longrightarrow> snd (tools_call enc s route params st) = st"
  by (simp add: tools_call_def)

text \<open>The call a message leads to, if any.\<close>

definition routed_call :: "mcp_server \<Rightarrow> json \<Rightarrow> tool_call option" where
  "routed_call s request =
     (if (case jget ''id'' request of None \<Rightarrow> True | Some i \<Rightarrow> i = JNull)
         \<or> jget_str ''method'' request \<noteq> Some ''tools/call''
      then None
      else (let params = (case jget ''params'' request of Some p \<Rightarrow> p | None \<Rightarrow> JNull)
            in map_option (\<lambda>name. mcp_call s name params) (jget_str ''name'' params)))"

lemma mcp_dispatch_state:
  "snd (mcp_dispatch enc s route meth params st) =
     (if meth = ''tools/call''
      then (case jget_str ''name'' params of
              Some name \<Rightarrow> snd (route (mcp_call s name params) st) | None \<Rightarrow> st)
      else st)"
  by (simp add: mcp_dispatch_def tools_call_route tools_call_nameless split: option.split)

lemma handle_line_reply:
  assumes "parse line = Some request" and "jget ''id'' request = Some i" and "i \<noteq> JNull"
  shows "handle_line parse enc s route line st =
     (case mcp_dispatch enc s route (case jget_str ''method'' request of Some m \<Rightarrow> m | None \<Rightarrow> [])
             (case jget ''params'' request of Some p \<Rightarrow> p | None \<Rightarrow> JNull) st of
        (r, st') \<Rightarrow>
          (Some (case r of Inr result \<Rightarrow> success_line enc i result
                 | Inl (code, message) \<Rightarrow> error_line enc i code message), st'))"
  using assms by (cases i) (auto simp: handle_line_def Let_def split: prod.split sum.split)

lemma handle_line_state:
  assumes "parse line = Some request"
  shows "snd (handle_line parse enc s route line st) =
     (case routed_call s request of Some call \<Rightarrow> snd (route call st) | None \<Rightarrow> st)"
proof (cases "case jget ''id'' request of None \<Rightarrow> True | Some i \<Rightarrow> i = JNull")
  case True
  with assms show ?thesis
    by (auto simp: handle_line_def routed_call_def split: option.splits)
next
  case False
  then obtain i where i: "jget ''id'' request = Some i" "i \<noteq> JNull"
    by (auto split: option.splits)
  show ?thesis
    unfolding handle_line_reply [of parse line request i, OF assms i]
    using i by (auto simp: split_beta mcp_dispatch_state routed_call_def Let_def split: option.split)
qed

end
