(* ===== verification/Upstream.thy ===== *)
theory Upstream
  imports Mcp
begin

text \<open>
  The upstream side of \<open>guardian-mcp-gateway/src/lib.rs\<close> (module \<open>upstream\<close>): an MCP client over the
  pipes of a child process, and several of them behind one proxy, with namespaced tool names; and
  the \<open>presidio\<close> detector. A child's standard output is the list of the lines it will print (or the
  error of reading one), its standard input the lines written so far and the results of the writes
  to come.
\<close>

subsection \<open>Namespaces\<close>

definition SEP :: string where
  "SEP = ''__''"

definition namespaced_name :: "string \<Rightarrow> string \<Rightarrow> string" where
  "namespaced_name label tool = (if label = [] then tool else label @ SEP @ tool)"

definition route_name :: "string \<Rightarrow> (string \<Rightarrow> bool) \<Rightarrow> (string \<times> string) option" where
  "route_name name known =
     (case (case split_once SEP name of
              Some (label, tool) \<Rightarrow> if known label then Some (label, tool) else None
            | None \<Rightarrow> None) of
        Some r \<Rightarrow> Some r
      | None \<Rightarrow> if known [] then Some ([], name) else None)"

subsection \<open>One child process\<close>

record stdio_upstream =
  su_stdout :: "(string, string) result list"
  su_writes :: "(string, unit) result list"
  su_stdin :: "string list"
  su_tools :: "tool_spec list"
  su_counter :: int

definition write_line :: "string \<Rightarrow> stdio_upstream \<Rightarrow> (string, unit) result \<times> stdio_upstream" where
  "write_line line u =
     (case su_writes u of
        [] \<Rightarrow> (Inr (), u\<lparr>su_stdin := su_stdin u @ [line]\<rparr>)
      | Inr _ # ws \<Rightarrow> (Inr (), u\<lparr>su_writes := ws, su_stdin := su_stdin u @ [line]\<rparr>)
      | Inl e # ws \<Rightarrow> (Inl e, u\<lparr>su_writes := ws\<rparr>))"

text \<open>The loop of \<open>request\<close>: noise and the answers to other requests are skipped.\<close>

fun read_response ::
    "(string \<Rightarrow> json option) \<Rightarrow> int \<Rightarrow> (string, string) result list
       \<Rightarrow> (string, json) result \<times> (string, string) result list" where
  "read_response parse i [] = (Inl ''upstream closed the connection'', [])"
| "read_response parse i (Inl e # ls) = (Inl e, ls)"
| "read_response parse i (Inr line # ls) =
     (case parse line of
        None \<Rightarrow> read_response parse i ls
      | Some v \<Rightarrow>
          if Option.bind (jget ''id'' v) as_i64 \<noteq> Some i then read_response parse i ls
          else (case jget ''error'' v of
                  Some err \<Rightarrow>
                    (Inl (case jget_str ''message'' err of Some m \<Rightarrow> m | None \<Rightarrow> ''upstream error''), ls)
                | None \<Rightarrow> (Inr (case jget ''result'' v of Some r \<Rightarrow> r | None \<Rightarrow> JNull), ls)))"

record json_lib =
  jl_parse :: "string \<Rightarrow> json option"
  jl_show :: "json \<Rightarrow> string"

definition up_request ::
    "json_lib \<Rightarrow> string \<Rightarrow> json \<Rightarrow> stdio_upstream \<Rightarrow> (string, json) result \<times> stdio_upstream" where
  "up_request jl meth params u =
     (let i = su_counter u; u0 = u\<lparr>su_counter := i64_wrap (i + 1)\<rparr>;
          line = jl_show jl (jobj [(''jsonrpc'', JStr ''2.0''), (''id'', JInt i), (''method'', JStr meth),
                                   (''params'', params)])
      in case write_line line u0 of
           (Inl e, u1) \<Rightarrow> (Inl e, u1)
         | (Inr _, u1) \<Rightarrow>
             (case read_response (jl_parse jl) i (su_stdout u1) of
                (r, ls) \<Rightarrow> (r, u1\<lparr>su_stdout := ls\<rparr>)))"

definition up_notify :: "json_lib \<Rightarrow> string \<Rightarrow> stdio_upstream \<Rightarrow> (string, unit) result \<times> stdio_upstream" where
  "up_notify jl meth u =
     write_line (jl_show jl (jobj [(''jsonrpc'', JStr ''2.0''), (''method'', JStr meth)])) u"

definition parse_tool :: "json \<Rightarrow> tool_spec option" where
  "parse_tool t =
     map_option (\<lambda>name.
        \<lparr>ts_name = name,
         ts_description = (case jget_str ''description'' t of Some d \<Rightarrow> d | None \<Rightarrow> []),
         ts_input_schema = (case jget ''inputSchema'' t of
                              Some v \<Rightarrow> v | None \<Rightarrow> jobj [(''type'', JStr ''object'')])\<rparr>)
       (jget_str ''name'' t)"

definition parse_tools :: "json \<Rightarrow> tool_spec list" where
  "parse_tools v =
     (case Option.bind (jget ''tools'' v) as_array of
        Some arr \<Rightarrow> List.map_filter parse_tool arr
      | None \<Rightarrow> [])"

text \<open>\<open>spawn\<close>: start the process (its pipes, or the error), shake hands, list the tools.\<close>

definition up_spawn ::
    "json_lib \<Rightarrow> string \<Rightarrow> (string \<Rightarrow> string list \<Rightarrow> (string, stdio_upstream) result)
       \<Rightarrow> string \<Rightarrow> string list \<Rightarrow> (string, stdio_upstream) result" where
  "up_spawn jl version start program args =
     (case start program args of
        Inl e \<Rightarrow> Inl (''failed to spawn upstream `'' @ program @ ''`: '' @ e)
      | Inr child \<Rightarrow>
          (case up_request jl ''initialize''
                  (jobj [(''protocolVersion'', JStr ''2024-11-05''), (''capabilities'', JObj []),
                         (''clientInfo'', jobj [(''name'', JStr ''guardian''),
                                                (''version'', JStr version)])])
                  (child\<lparr>su_tools := [], su_counter := 1\<rparr>) of
             (Inl e, _) \<Rightarrow> Inl e
           | (Inr _, u1) \<Rightarrow>
               (case up_notify jl ''notifications/initialized'' u1 of
                  (Inl e, _) \<Rightarrow> Inl e
                | (Inr _, u2) \<Rightarrow>
                    (case up_request jl ''tools/list'' (JObj []) u2 of
                       (Inl e, _) \<Rightarrow> Inl e
                     | (Inr listed, u3) \<Rightarrow> Inr (u3\<lparr>su_tools := parse_tools listed\<rparr>)))))"

definition stdio_forward ::
    "json_lib \<Rightarrow> tool_call \<Rightarrow> stdio_upstream \<Rightarrow> (string, json) result \<times> stdio_upstream" where
  "stdio_forward jl call u =
     up_request jl ''tools/call'' (jobj [(''name'', JStr (tc_tool call)), (''arguments'', tc_args call)]) u"

subsection \<open>Several servers\<close>

type_synonym multi_upstream = "(string, stdio_upstream) hashmap"

definition multi_add :: "string \<Rightarrow> stdio_upstream \<Rightarrow> multi_upstream \<Rightarrow> bool \<times> multi_upstream" where
  "multi_add label server m =
     (if hm_contains label m then (False, m) else (True, AList.update label server m))"

definition multi_tools :: "multi_upstream \<Rightarrow> tool_spec list" where
  "multi_tools m =
     concat (map (\<lambda>(label, server).
       map (\<lambda>t. t\<lparr>ts_name := namespaced_name label (ts_name t)\<rparr>) (su_tools server)) m)"

definition multi_forward ::
    "json_lib \<Rightarrow> tool_call \<Rightarrow> multi_upstream \<Rightarrow> (string, json) result \<times> multi_upstream" where
  "multi_forward jl call m =
     (case route_name (tc_tool call) (\<lambda>l. hm_contains l m) of
        None \<Rightarrow> (Inl (''no upstream server routes tool '' @ [CHR 0x27] @ tc_tool call @ [CHR 0x27]), m)
      | Some (label, tool) \<Rightarrow>
          (case map_of m label of
             None \<Rightarrow> (Inl (''no upstream server '' @ [CHR 0x27] @ label @ [CHR 0x27]), m)
           | Some server \<Rightarrow>
               (case stdio_forward jl
                       \<lparr>tc_tool = tool, tc_args = tc_args call, tc_kind = None, tc_capability = None,
                        tc_session = None\<rparr> server of
                  (r, server') \<Rightarrow> (r, AList.update label server' m))))"

subsection \<open>The Presidio detector\<close>

record pii_detector =
  pii_endpoint :: string
  pii_language :: string
  pii_min_score :: f64

text \<open>The default score 0.5 is an \<open>f64\<close>.\<close>

definition pii_new :: "string \<Rightarrow> pii_detector" where
  "pii_new endpoint = \<lparr>pii_endpoint = endpoint, pii_language = ''en'', pii_min_score = F64_Fin (1 / 2)\<rparr>"

definition pii_with_language :: "string \<Rightarrow> pii_detector \<Rightarrow> pii_detector" where
  "pii_with_language lang d = d\<lparr>pii_language := lang\<rparr>"

definition pii_with_min_score :: "f64 \<Rightarrow> pii_detector \<Rightarrow> pii_detector" where
  "pii_with_min_score score d = d\<lparr>pii_min_score := score\<rparr>"

definition pii_span :: "f64 \<Rightarrow> string list \<Rightarrow> json \<Rightarrow> string option" where
  "pii_span min_score cs e =
     (let score = (case Option.bind (jget ''score'' e) as_f64 of Some x \<Rightarrow> x | None \<Rightarrow> F64_Fin 0)
      in if f64_gt min_score score then None
         else (case (Option.bind (jget ''start'' e) as_u64, Option.bind (jget ''end'' e) as_u64) of
                 (Some s, Some t) \<Rightarrow>
                   if s < t \<and> t \<le> length cs then Some (concat (take (t - s) (drop s cs))) else None
               | _ \<Rightarrow> None))"

text \<open>\<open>answer\<close> is the decoded body the endpoint returned for the request, or any failure.\<close>

definition pii_detect ::
    "pii_detector \<Rightarrow> (string \<Rightarrow> json \<Rightarrow> (unit, json list) result) \<Rightarrow> string \<Rightarrow> string list" where
  "pii_detect d answer s =
     (case answer (pii_endpoint d) (jobj [(''text'', JStr s), (''language'', JStr (pii_language d))]) of
        Inl _ \<Rightarrow> []
      | Inr entities \<Rightarrow> List.map_filter (pii_span (pii_min_score d) (utf8_chars s)) entities)"

end
