(* ===== verification/Mcp_Laws.thy ===== *)
theory Mcp_Laws
  imports Upstream Gateway_Laws
begin

text \<open>
  The MCP side end to end: which calls a session of messages makes, the shape of the replies, the
  gateway behind the server, the answers of an upstream and the routing of namespaced tools.
\<close>


text \<open>A call changes none of the settings.\<close>

definition gateway_settings ::
    "('sk, 'prog) gateway \<Rightarrow> string \<times> 'prog compiled_policy \<times> eval_env \<times> self_protection" where
  "gateway_settings g = (gw_source g, gw_policy g, gw_env g, gw_self g)"

lemma gateway_settings_updates [simp]:
  "gateway_settings (g\<lparr>gw_audit := lg\<rparr>) = gateway_settings g"
  "gateway_settings (g\<lparr>gw_counter := n\<rparr>) = gateway_settings g"
  "gateway_settings (g\<lparr>gw_vaults := vs\<rparr>) = gateway_settings g"
  "gateway_settings (g\<lparr>gw_protected := ps\<rparr>) = gateway_settings g"
  by (simp_all add: gateway_settings_def)

lemma with_vault_settings [simp]: "gateway_settings (snd (with_vault rng s f g)) = gateway_settings g"
  by (simp add: with_vault_def split_beta)

lemma learn_fold_settings [simp]:
  "gateway_settings (fold (\<lambda>x g. snd (with_vault rng s (F x) g)) xs g) = gateway_settings g"
  by (induction xs arbitrary: g) simp_all

lemma forward_call_settings [simp]:
  "gateway_settings (snd (snd (forward_call dp io call g))) = gateway_settings g"
  by (simp add: forward_call_def Let_def split_beta split: sum.split)

lemma recorded_state_settings [simp]: "gateway_settings (recorded_state dp io call g) = gateway_settings g"
  by (simp add: recorded_state_def)

lemma handle_settings: "gateway_settings (snd (snd (handle dp io call g))) = gateway_settings g"
  by (simp add: handle_eq Let_def split_beta)

subsection \<open>A session of messages\<close>

text \<open>The calls that the lines of a session make, in their order.\<close>

definition line_calls :: "(string \<Rightarrow> json option) \<Rightarrow> mcp_server \<Rightarrow> string \<Rightarrow> tool_call list" where
  "line_calls parse s line =
     (if trim line = [] then []
      else case Option.bind (parse line) (routed_call s) of Some call \<Rightarrow> [call] | None \<Rightarrow> [])"

definition session_calls :: "(string \<Rightarrow> json option) \<Rightarrow> mcp_server \<Rightarrow> string list \<Rightarrow> tool_call list" where
  "session_calls parse s lines = concat (map (line_calls parse s) lines)"

definition trusted_kind :: "mcp_server \<Rightarrow> string \<Rightarrow> action_kind" where
  "trusted_kind s name = (case map_of (ms_classifier s) name of Some k \<Rightarrow> k | None \<Rightarrow> K_Other)"

lemma handle_line_unparsed:
  "parse line = None \<Longrightarrow> snd (handle_line parse enc s route line st) = st"
  by (simp add: handle_line_def)

lemma serve_line_state:
  "trim line \<noteq> [] \<Longrightarrow> snd (handle_line parse enc s route line st) =
     fold (\<lambda>call st. snd (route call st)) (line_calls parse s line) st"
  by (cases "parse line")
     (auto simp: line_calls_def handle_line_unparsed handle_line_state split: option.split)

lemma routed_call_trusted:
  "routed_call s request = Some call \<Longrightarrow>
     tc_kind call = Some (trusted_kind s (tc_tool call)) \<and> tc_capability call = None \<and> tc_session call = None"
  by (auto simp: routed_call_def mcp_call_def trusted_kind_def Let_def split: if_splits)

lemma session_call_trusted:
  assumes "call \<in> set (session_calls parse s lines)"
  shows "tc_kind call = Some (trusted_kind s (tc_tool call)) \<and> tc_capability call = None \<and> tc_session call = None"
proof -
  obtain line where "call \<in> set (line_calls parse s line)"
    using assms by (auto simp: session_calls_def)
  then have "Option.bind (parse line) (routed_call s) = Some call"
    by (auto simp: line_calls_def split: if_splits option.splits)
  then obtain request where "routed_call s request = Some call"
    by (cases "parse line") auto
  then show ?thesis by (rule routed_call_trusted)
qed

lemma serve_stdio_state:
  "snd (serve_stdio parse enc s route lines st) =
     fold (\<lambda>call st. snd (route call st)) (session_calls parse s lines) st"
proof (induction lines arbitrary: st)
  case Nil
  then show ?case by (simp add: session_calls_def)
next
  case (Cons line lines)
  show ?case
  proof (cases "trim line = []")
    case True
    with Cons.IH show ?thesis by (simp add: session_calls_def line_calls_def)
  next
    case False
    with Cons.IH [of "snd (handle_line parse enc s route line st)"]
      serve_line_state [OF False, of parse enc s route st]
    show ?thesis by (simp add: session_calls_def split_beta)
  qed
qed

subsection \<open>Replies\<close>

lemma msg_fields:
  "jget ''id'' (success_msg i r) = Some i" "jget ''id'' (error_msg i c m) = Some i"
  "jget ''result'' (success_msg i r) = Some r" "jget ''error'' (success_msg i r) = None"
  "jget ''result'' (error_msg i c m) = None" "\<exists>e. jget ''error'' (error_msg i c m) = Some e"
  by (simp_all add: success_msg_def error_msg_def jget_jobj)

lemma success_reply:
  "\<exists>msg. success_line enc i r = enc msg \<and> jget ''id'' msg = Some i
     \<and> (jget ''result'' msg = None \<longleftrightarrow> (\<exists>e. jget ''error'' msg = Some e))"
  using msg_fields(1,3,4) [of i r] by (intro exI [of _ "success_msg i r"]) (simp add: success_line_def)

lemma error_reply:
  "\<exists>msg. error_line enc i c m = enc msg \<and> jget ''id'' msg = Some i
     \<and> (jget ''result'' msg = None \<longleftrightarrow> (\<exists>e. jget ''error'' msg = Some e))"
  using msg_fields(2,5,6) [of i c m] by (intro exI [of _ "error_msg i c m"]) (simp add: error_line_def)

subsection \<open>Upstream answers\<close>

lemma read_response_own:
  assumes "read_response parse i ls = (Inr v, rest)"
  shows "\<exists>line msg pre. ls = pre @ Inr line # rest \<and> parse line = Some msg
     \<and> Option.bind (jget ''id'' msg) as_i64 = Some i \<and> jget ''error'' msg = None
     \<and> v = (case jget ''result'' msg of Some r \<Rightarrow> r | None \<Rightarrow> JNull)"
  using assms
proof (induction parse i ls arbitrary: v rest rule: read_response.induct)
  case (3 parse i line ls)
  show ?case
  proof (cases "parse line")
    case None
    with 3 show ?thesis by (fastforce intro: exI [of _ "Inr line # _"])
  next
    case (Some msg)
    show ?thesis
    proof (cases "Option.bind (jget ''id'' msg) as_i64 = Some i")
      case False
      with 3 Some show ?thesis by (fastforce intro: exI [of _ "Inr line # _"])
    next
      case True
      with 3 Some show ?thesis
        by (intro exI [of _ line] exI [of _ msg] exI [of _ "[]"]) (auto split: option.splits)
    qed
  qed
qed simp_all

subsection \<open>Routing\<close>

lemma split_once_label:
  assumes "\<not> contains_sub (label @ ''_'') SEP"
  shows "split_once SEP (label @ SEP @ tool) = Some (label, tool)"
  using assms
proof (induction label)
  case Nil
  then show ?case by (simp add: split_once_def SEP_def)
next
  case (Cons c label)
  have "\<not> prefix SEP (c # label @ SEP @ tool)"
  proof
    assume "prefix SEP (c # label @ SEP @ tool)"
    then have "prefix SEP ((c # label) @ ''_'')"
      by (cases label) (auto simp: SEP_def)
    then have "contains_sub ((c # label) @ ''_'') SEP"
      unfolding contains_sub_iff prefix_def by (metis append_Nil)
    with Cons.prems show False by simp
  qed
  moreover have "\<not> contains_sub (label @ ''_'') SEP"
    using Cons.prems unfolding contains_sub_iff by (metis append_Cons)
  ultimately show ?case
    using Cons.IH by (auto simp: split_once_def split: option.splits)
qed

text \<open>The gateway once it has handled these calls, call number \<open>n\<close> first.\<close>

fun gateway_after ::
    "('sk, 'vk, 'prog) deps \<Rightarrow> (nat \<Rightarrow> gw_io) \<Rightarrow> nat \<Rightarrow> tool_call list \<Rightarrow> ('sk, 'prog) gateway
       \<Rightarrow> ('sk, 'prog) gateway" where
  "gateway_after dp ios n [] g = g"
| "gateway_after dp ios n (call # calls) g =
     gateway_after dp ios (n + 1) calls (snd (snd (handle dp (ios n) call g)))"

lemma gateway_after_settings: "gateway_settings (gateway_after dp ios n calls g) = gateway_settings g"
  by (induction calls arbitrary: n g) (simp_all add: handle_settings)

lemma gateway_route_fold:
  assumes "EV_Forward fc \<in> set (fst (fold (\<lambda>call st. snd (gateway_route dp ios call st)) calls (evs0, n, g)))"
    and "EV_Forward fc \<notin> set evs0"
  shows "\<exists>pre call post. calls = pre @ call # post
     \<and> EV_Forward fc \<in> set (fst (snd (handle dp (ios (n + length pre)) call (gateway_after dp ios n pre g))))"
  using assms
proof (induction calls arbitrary: evs0 n g)
  case Nil
  then show ?case by simp
next
  case (Cons call calls)
  obtain out evs g' where h: "handle dp (ios n) call g = (out, evs, g')"
    by (metis prod_cases3)
  show ?case
  proof (cases "EV_Forward fc \<in> set evs")
    case True
    with h show ?thesis
      by (intro exI [of _ "[]"] exI [of _ call] exI [of _ calls]) simp
  next
    case False
    with Cons.prems h Cons.IH [of "evs0 @ evs" "n + 1" g'] obtain pre c post where
      "calls = pre @ c # post"
      "EV_Forward fc \<in> set (fst (snd (handle dp (ios (n + 1 + length pre)) c (gateway_after dp ios (n + 1) pre g'))))"
      by (auto simp: gateway_route_def)
    with h show ?thesis
      by (intro exI [of _ "call # pre"] exI [of _ c] exI [of _ post]) simp
  qed
qed

subsection \<open>Properties\<close>

text \<open>
  the calls of an MCP session. What the lines of a session do to the router is exactly
  to make, in their order, the calls of the \<open>tools/call\<close> requests that have an id and a tool name;
  everything else makes none. Each call's kind is the trusted classification of its tool (\<open>Other\<close> for
  an unlisted tool, whatever its name), with no capability and no session of the client's choosing.
\<close>

theorem mcp_session_equals_calls:
  "snd (serve_stdio parse enc s route lines st) =
     fold (\<lambda>call st. snd (route call st)) (session_calls parse s lines) st
   \<and> list_all (\<lambda>call. tc_kind call = Some (trusted_kind s (tc_tool call))
        \<and> tc_capability call = None \<and> tc_session call = None) (session_calls parse s lines)"
  using session_call_trusted by (simp add: serve_stdio_state list_all_iff)

text \<open>
  one reply to every request. A message that parses is answered exactly if it has an id
  that is not null; the reply carries that id and either a result or an error, never both.
\<close>

theorem mcp_replies_once:
  assumes "parse line = Some request"
  shows "case fst (handle_line parse enc s route line st) of
     None \<Rightarrow> jget ''id'' request = None \<or> jget ''id'' request = Some JNull
   | Some reply \<Rightarrow> \<exists>msg i. reply = enc msg \<and> i \<noteq> JNull \<and> jget ''id'' request = Some i
        \<and> jget ''id'' msg = Some i \<and> (jget ''result'' msg = None \<longleftrightarrow> jget ''error'' msg \<noteq> None)"
proof (cases "jget ''id'' request = None \<or> jget ''id'' request = Some JNull")
  case True
  with assms show ?thesis by (auto simp: handle_line_def)
next
  case False
  then obtain i where i: "jget ''id'' request = Some i" "i \<noteq> JNull" by auto
  show ?thesis
    unfolding handle_line_reply [of parse line request i, OF assms i]
    using i by (auto simp: split_beta success_reply error_reply split: sum.split)
qed

theorem mcp_replies_once_witness:
  "\<exists>reply. fst (handle_line (\<lambda>_. Some (JObj [(''id'', JInt 7), (''method'', JStr ''ping'')])) (\<lambda>_. ''reply'')
       (mcp_new ''1'' []) (\<lambda>call st. (GO_Blocked [], st)) ''x'' ()) = Some reply"
  using mcp_replies_once [of "\<lambda>_. Some (JObj [(''id'', JInt 7), (''method'', JStr ''ping'')])" "''x''" _
      "\<lambda>_. ''reply''" "mcp_new ''1'' []" "\<lambda>call st. (GO_Blocked [], st)" "()"]
  by (auto split: option.splits)

text \<open>
  C9: the gateway behind the server. Over a whole MCP session, whatever is forwarded to the upstream
  is one of the calls of the session, and the gateway, in the state the calls before it left, cleared
  that very call: no hard override, and the policy allowed it or asked and the human approved. The
  policy, the self-protection and the environment are those the session began with; the call was
  judged with the trusted kind of its tool and the capability of that kind.
\<close>

theorem mcp_session_mediated:
  assumes "EV_Forward fc \<in>
     set (fst (snd (serve_stdio parse enc s (gateway_route dp ios) lines ([], n, g))))"
  shows "\<exists>pre call post. session_calls parse s lines = pre @ call # post
     \<and> (let g1 = gateway_after dp ios n pre g; io = ios (n + length pre)
        in gw_policy g1 = gw_policy g \<and> gw_self g1 = gw_self g \<and> gw_env g1 = gw_env g
           \<and> fc = restored_call io call g1 \<and> call_cleared dp io call g1
           \<and> act_kind (call_action io call g1) = trusted_kind s (tc_tool call)
           \<and> act_capability (call_action io call g1) = infer_capability (trusted_kind s (tc_tool call)))"
proof -
  obtain pre call post where c: "session_calls parse s lines = pre @ call # post"
    "EV_Forward fc \<in> set (fst (snd (handle dp (ios (n + length pre)) call (gateway_after dp ios n pre g))))"
    using gateway_route_fold [of fc dp ios "session_calls parse s lines" "[]" n g] assms
    by (auto simp: serve_stdio_state)
  have "call \<in> set (session_calls parse s lines)"
    using c(1) by simp
  from session_call_trusted [OF this] forward_event [OF c(2)] gateway_after_settings [of dp ios n pre g]
  show ?thesis
    by (intro exI [of _ pre] exI [of _ call] exI [of _ post] conjI c(1))
      (simp add: Let_def gateway_settings_def normalize_call_def build_action_def)
qed

text \<open>
  an upstream's answer is the answer to the request. What \<open>request\<close> returns as a result is
  the \<open>result\<close> of a line that carries the id of this very request and no error; noise, notifications
  and answers to earlier requests are skipped.
\<close>

theorem upstream_answers_own_request:
  assumes "up_request jl meth params u = (Inr v, u')"
  shows "\<exists>line msg pre. su_stdout u = pre @ Inr line # su_stdout u' \<and> jl_parse jl line = Some msg
     \<and> Option.bind (jget ''id'' msg) as_i64 = Some (su_counter u) \<and> jget ''error'' msg = None
     \<and> v = (case jget ''result'' msg of Some r \<Rightarrow> r | None \<Rightarrow> JNull)"
proof -
  have w: "su_stdout (snd (write_line line (u\<lparr>su_counter := k\<rparr>))) = su_stdout u" for line k
    by (simp add: write_line_def split: list.split sum.split)
  define line where "line = jl_show jl (jobj [(''jsonrpc'', JStr ''2.0''), (''id'', JInt (su_counter u)),
    (''method'', JStr meth), (''params'', params)])"
  define u1 where "u1 = snd (write_line line (u\<lparr>su_counter := i64_wrap (su_counter u + 1)\<rparr>))"
  have "read_response (jl_parse jl) (su_counter u) (su_stdout u1) = (Inr v, su_stdout u')"
    using assms by (auto simp: up_request_def Let_def u1_def line_def split: prod.splits sum.splits)
  from read_response_own [OF this] show ?thesis
    unfolding u1_def w by blast
qed

text \<open>
  a namespaced tool reaches its owner. For a registered label that cannot be confused
  with the separator, the advertised name \<open>label__tool\<close> routes to that label and that tool.
\<close>

theorem namespaced_tool_routes:
  assumes "known label" and "\<not> contains_sub (label @ ''_'') SEP" and "label \<noteq> []"
  shows "route_name (namespaced_name label tool) known = Some (label, tool)"
  using assms by (simp add: route_name_def namespaced_name_def split_once_label)

text \<open>A label with the separator inside misroutes: the tool of \<open>a__b\<close> goes to the server \<open>a\<close>.\<close>

lemma separator_in_label_misroutes:
  "route_name (namespaced_name ''a__b'' ''t'') (\<lambda>l. l \<in> {''a'', ''a__b''}) = Some (''a'', ''b__t'')"
  by (simp add: route_name_def namespaced_name_def SEP_def split_once_def)

subsection \<open>Witnesses\<close>

definition ex_request :: json where
  "ex_request = jobj [(''id'', JInt 1), (''method'', JStr ''tools/call''),
     (''params'', jobj [(''name'', JStr ''t''), (''arguments'', JObj [])])]"

definition ex_server :: mcp_server where
  "ex_server = with_classifier [(''t'', K_FileRead)] (mcp_new ''1'' [])"

lemma ex_session_calls:
  "session_calls (\<lambda>_. Some ex_request) ex_server [''x''] = [mcp_call ex_server ''t'' (jobj
     [(''name'', JStr ''t''), (''arguments'', JObj [])])]"
proof -
  have "trim ''x'' \<noteq> []" by code_simp
  then show ?thesis
    by (simp add: session_calls_def line_calls_def routed_call_def ex_request_def jget_jobj jget_str_def
          Let_def)
qed

theorem mcp_session_mediated_witness:
  "\<exists>fc. EV_Forward fc \<in> set (fst (snd (serve_stdio (\<lambda>_. Some ex_request) (\<lambda>_. ''reply'') ex_server
       (gateway_route ex_dp (\<lambda>_. ex_io)) [''x''] ([], 0, ex_gateway K_FileRead DK_Allow))))
     \<and> (\<exists>pre call post. session_calls (\<lambda>_. Some ex_request) ex_server [''x''] = pre @ call # post
          \<and> call_cleared ex_dp ex_io call (gateway_after ex_dp (\<lambda>_. ex_io) 0 pre (ex_gateway K_FileRead DK_Allow)))"
proof -
  let ?g = "ex_gateway K_FileRead DK_Allow"
    and ?c = "mcp_call ex_server ''t'' (jobj [(''name'', JStr ''t''), (''arguments'', JObj [])])"
  have "out_decision (call_verdict ex_dp ex_io ?c ?g) = Allow"
    by (simp add: ex_dp_def evaluate_def ex_gateway_def gateway_new_def rule_matches_ex
        normalize_call_def build_action_def mcp_call_def ex_server_def with_classifier_def mcp_new_def
        critical_floor_def action_is_critical_def rule_step_def rule_verdict_def apply_cap_def
        ex_rule_def ex_policy_def decision_from_kind_def)
  moreover have "call_override ex_io ?c ?g = None"
    by (rule ex_gateway_no_override) simp
  ultimately have "call_cleared ex_dp ex_io ?c ?g"
    by (simp only: call_cleared_def decision.case simp_thms)
  from ex_gateway_forwards [OF this]
  have "EV_Forward (restored_call ex_io ?c ?g) \<in> set (fst (snd (handle ex_dp ex_io ?c ?g)))"
    by simp
  then have f: "EV_Forward (restored_call ex_io ?c ?g) \<in> set (fst (snd (serve_stdio (\<lambda>_. Some ex_request)
      (\<lambda>_. ''reply'') ex_server (gateway_route ex_dp (\<lambda>_. ex_io)) [''x''] ([], 0, ?g))))"
    by (simp add: serve_stdio_state ex_session_calls gateway_route_def split_beta del: serve_stdio.simps)
  from mcp_session_mediated [OF f] f show ?thesis unfolding Let_def by blast
qed

definition ex_jl :: json_lib where
  "ex_jl = \<lparr>jl_parse = (\<lambda>l. if l = ''a'' then Some (JObj [(''id'', JInt 5), (''result'', JInt 3)])
      else if l = ''b'' then Some (JObj [(''id'', JInt 4)]) else None), jl_show = (\<lambda>_. [])\<rparr>"

definition ex_up :: stdio_upstream where
  "ex_up = \<lparr>su_stdout = [Inr ''noise'', Inr ''b'', Inr ''a''], su_writes = [], su_stdin = [], su_tools = [],
     su_counter = 5\<rparr>"

theorem upstream_answers_own_request_witness:
  "fst (up_request ex_jl ''m'' JNull ex_up) = Inr (JInt 3)
   \<and> (\<exists>line msg. jl_parse ex_jl line = Some msg \<and> Option.bind (jget ''id'' msg) as_i64 = Some 5)"
proof -
  have r: "fst (up_request ex_jl ''m'' JNull ex_up) = Inr (JInt 3)"
    by (simp add: ex_jl_def ex_up_def up_request_def write_line_def Let_def)
  then obtain u' where "up_request ex_jl ''m'' JNull ex_up = (Inr (JInt 3), u')"
    by (metis prod.collapse)
  from upstream_answers_own_request [OF this] have
    "\<exists>line msg. jl_parse ex_jl line = Some msg \<and> Option.bind (jget ''id'' msg) as_i64 = Some (su_counter ex_up)"
    by blast
  with r show ?thesis by (simp add: ex_up_def)
qed

theorem namespaced_tool_routes_witness:
  "route_name (namespaced_name ''files'' ''read__x'') (\<lambda>l. l = ''files'') = Some (''files'', ''read__x'')"
proof -
  have "\<not> contains_sub (''files'' @ ''_'') SEP" by code_simp
  from namespaced_tool_routes [of "\<lambda>l. l = ''files''", OF _ this] show ?thesis by simp
qed

end
