(* ===== verification/Sandbox.thy ===== *)
theory Sandbox
  imports Rust_Str
begin

text \<open>
  \<open>guardian-sandbox/src/lib.rs\<close>: the argument vectors that run a command inside the platform's
  sandbox tool, and the choice of the tool. A wrapped command is its argument vector, the program
  first. The operating system enters as the value of \<open>PATH\<close> and the test for a regular file.
\<close>

record sandbox_opts =
  so_allow_network :: bool
  so_writable_paths :: "string list"

datatype sandbox_runner = MacosSeatbelt | Bubblewrap

fun runner_name :: "sandbox_runner \<Rightarrow> string" where
  "runner_name MacosSeatbelt = ''sandbox-exec''"
| "runner_name Bubblewrap = ''bwrap''"

definition QUOTE :: char where
  "QUOTE = CHR 0x22"

definition quoted :: "string \<Rightarrow> string" where
  "quoted s = QUOTE # s @ [QUOTE]"

definition NL :: string where
  "NL = [CHR 0x0A]"

definition writable_rule :: "string \<Rightarrow> string" where
  "writable_rule path =
     ''(allow file-write* (subpath '' @ quoted (filter (\<lambda>c. c \<noteq> QUOTE) path) @ ''))'' @ NL"

definition seatbelt_profile :: "sandbox_opts \<Rightarrow> string" where
  "seatbelt_profile opts =
     ''(version 1)'' @ NL @ ''(allow default)'' @ NL
     @ (if so_allow_network opts then [] else ''(deny network*)'' @ NL)
     @ ''(deny file-write*)'' @ NL
     @ ''(allow file-write* (subpath '' @ quoted ''/tmp'' @ '') (subpath '' @ quoted ''/private/tmp''
     @ '') (subpath '' @ quoted ''/private/var/folders'' @ ''))'' @ NL
     @ concat (map writable_rule (so_writable_paths opts))"

definition seatbelt_wrap :: "string \<Rightarrow> string list \<Rightarrow> sandbox_opts \<Rightarrow> string list" where
  "seatbelt_wrap program args opts = [''sandbox-exec'', ''-p'', seatbelt_profile opts, program] @ args"

definition bwrap_wrap :: "string \<Rightarrow> string list \<Rightarrow> sandbox_opts \<Rightarrow> string list" where
  "bwrap_wrap program args opts =
     [''bwrap'', ''--ro-bind'', ''/'', ''/'', ''--dev'', ''/dev'', ''--proc'', ''/proc'', ''--tmpfs'', ''/tmp'',
      ''--die-with-parent'']
     @ (if so_allow_network opts then [] else [''--unshare-net''])
     @ concat (map (\<lambda>p. [''--bind'', p, p]) (so_writable_paths opts))
     @ [''--'', program] @ args"

fun sandbox_wrap :: "sandbox_runner \<Rightarrow> string \<Rightarrow> string list \<Rightarrow> sandbox_opts \<Rightarrow> string list" where
  "sandbox_wrap MacosSeatbelt program args opts = seatbelt_wrap program args opts"
| "sandbox_wrap Bubblewrap program args opts = bwrap_wrap program args opts"

datatype target_os = OS_Linux | OS_Macos | OS_Windows | OS_Other

text \<open>\<open>split_paths\<close> (Unix: at the colons) and \<open>dir.join(name).is_file()\<close>.\<close>

definition has_binary :: "string option \<Rightarrow> (string \<Rightarrow> string \<Rightarrow> bool) \<Rightarrow> string \<Rightarrow> bool" where
  "has_binary path is_file name =
     (case path of
        None \<Rightarrow> False
      | Some p \<Rightarrow> list_ex (\<lambda>dir. is_file dir name) (split_by (\<lambda>c. c = CHR '':'') p))"

definition sandbox_detect :: "target_os \<Rightarrow> (string \<Rightarrow> bool) \<Rightarrow> sandbox_runner option" where
  "sandbox_detect os installed =
     (if os = OS_Macos \<and> installed ''sandbox-exec'' then Some MacosSeatbelt
      else if os = OS_Linux \<and> installed ''bwrap'' then Some Bubblewrap
      else None)"

subsection \<open>String literals of a profile\<close>

text \<open>
  Whether a text in the profile language (a Scheme) ends inside a string literal: a quote opens and
  closes it, a backslash inside takes the next character along.
\<close>

datatype lit = Lit_Out | Lit_In | Lit_Esc

fun lit_step :: "char \<Rightarrow> lit \<Rightarrow> lit" where
  "lit_step c Lit_Out = (if c = QUOTE then Lit_In else Lit_Out)"
| "lit_step c Lit_In = (if c = QUOTE then Lit_Out else if c = CHR 0x5C then Lit_Esc else Lit_In)"
| "lit_step c Lit_Esc = Lit_In"

abbreviation lit_run :: "string \<Rightarrow> lit \<Rightarrow> lit" where
  "lit_run \<equiv> fold lit_step"

lemma lit_run_plain: "QUOTE \<notin> set s \<Longrightarrow> CHR 0x5C \<notin> set s \<Longrightarrow> b \<noteq> Lit_Esc \<Longrightarrow> lit_run s b = b"
  by (induction s; cases b) auto

lemma lit_run_quoted: "QUOTE \<notin> set s \<Longrightarrow> CHR 0x5C \<notin> set s \<Longrightarrow> lit_run (quoted s) Lit_Out = Lit_Out"
  by (simp add: quoted_def lit_run_plain)

lemma lit_run_writable_rule:
  assumes "CHR 0x5C \<notin> set path"
  shows "lit_run (writable_rule path) Lit_Out = Lit_Out"
proof -
  have "lit_run ''(allow file-write* (subpath '' Lit_Out = Lit_Out" "lit_run (''))'' @ NL) Lit_Out = Lit_Out"
    by (simp_all add: NL_def QUOTE_def)
  moreover have "lit_run (quoted (filter (\<lambda>c. c \<noteq> QUOTE) path)) Lit_Out = Lit_Out"
    using assms by (intro lit_run_quoted) auto
  ultimately show ?thesis
    by (simp only: writable_rule_def fold_append comp_apply append_assoc)
qed

text \<open>Without backslashes every literal of the profile is closed; one backslash opens the rest.\<close>

lemma profile_literals_closed:
  assumes "\<forall>p \<in> set (so_writable_paths opts). CHR 0x5C \<notin> set p"
  shows "lit_run (seatbelt_profile opts) Lit_Out = Lit_Out"
proof -
  have "lit_run (concat (map writable_rule ps)) Lit_Out = Lit_Out"
    if "\<forall>p \<in> set ps. CHR 0x5C \<notin> set p" for ps
    using that by (induction ps) (simp_all add: lit_run_writable_rule)
  from this [OF assms] show ?thesis
    by (simp add: seatbelt_profile_def NL_def quoted_def QUOTE_def)
qed

lemma backslash_path_opens_literal:
  "lit_run (seatbelt_profile \<lparr>so_allow_network = False, so_writable_paths = [''/w'' @ [CHR 0x5C]]\<rparr>)
     Lit_Out \<noteq> Lit_Out"
  by (simp add: seatbelt_profile_def writable_rule_def NL_def quoted_def QUOTE_def)

end
