(* ===== verification/Cli.thy ===== *)
theory Cli
  imports Upstream Broker Sandbox Pack Report Approval_Queue
begin

text \<open>
  The front ends of \<open>guardian-cli/src/main.rs\<close> that decide or forward: the Claude Code hook,
  \<open>decide\<close>, \<open>exec\<close>, the MCP proxy with the credential broker in front of its upstreams, the bridges
  to a daemon's cockpit, and the setup, audit and pack commands. Standard input, files,
  the environment and processes are arguments; what a command prints is its result.
\<close>

subsection \<open>Policy and environment\<close>

definition cli_load_policy ::
    "(string \<Rightarrow> (string, policy) result) \<Rightarrow> (string \<Rightarrow> (string, 'prog) result)
       \<Rightarrow> (string \<Rightarrow> (string, string) result) \<Rightarrow> string \<Rightarrow> string option
       \<Rightarrow> (string, 'prog compiled_policy) result" where
  "cli_load_policy toml cel_compile read_file demo_policy path =
     (case (case path of Some p \<Rightarrow> read_file p | None \<Rightarrow> Inr demo_policy) of
        Inl e \<Rightarrow> Inl e
      | Inr src \<Rightarrow>
          (case compiled_from_toml_str toml cel_compile src of
             Inl e \<Rightarrow> Inl (policy_error_message e) | Inr cp \<Rightarrow> Inr cp))"

definition cli_eval_env :: "string option \<Rightarrow> eval_env" where
  "cli_eval_env home =
     \<lparr>env_user_home = (case home of Some h \<Rightarrow> h | None \<Rightarrow> ''/tmp''), env_trusted_hosts = []\<rparr>"

subsection \<open>The Claude Code hook\<close>

definition BACKSLASH :: char where
  "BACKSLASH = CHR 0x5C"

text \<open>
  \<open>split(sep).nth(1)\<close> with a separator of more than one character: the text between the first and
  the second separator.
\<close>

definition second_part :: "string \<Rightarrow> string \<Rightarrow> string option" where
  "second_part sep s =
     map_option (\<lambda>(_, rest). case split_once sep rest of Some (x, _) \<Rightarrow> x | None \<Rightarrow> rest)
       (split_once sep s)"

definition host_from_url :: "string \<Rightarrow> string" where
  "host_from_url url0 =
     (let url = map (\<lambda>c. if c = BACKSLASH then CHR ''/'' else c) url0;
          after_scheme = (case second_part ''://'' url of Some x \<Rightarrow> x | None \<Rightarrow> url);
          authority = hd (split_by (\<lambda>c. c = CHR ''/'' \<or> c = CHR ''?'' \<or> c = CHR ''#'') after_scheme);
          host_port = last (split_by (\<lambda>c. c = CHR ''@'') authority)
      in hd (split_by (\<lambda>c. c = CHR '':'') host_port))"

definition str_or_empty :: "string option \<Rightarrow> json" where
  "str_or_empty s = JStr (case s of Some x \<Rightarrow> x | None \<Rightarrow> [])"

definition first_some :: "'a option \<Rightarrow> 'a option \<Rightarrow> 'a option" where
  "first_some a b = (case a of Some x \<Rightarrow> Some x | None \<Rightarrow> b)"

definition claude_tool_to_call :: "string \<Rightarrow> json \<Rightarrow> tool_call" where
  "claude_tool_to_call tool input =
     (let s = (\<lambda>key. jget_str key input);
          (kind, args) =
            (if tool \<in> {''Read'', ''Glob'', ''Grep'', ''LS'', ''NotebookRead''}
             then (K_FileRead, jobj [(''path'', str_or_empty (first_some (s ''file_path'') (s ''path'')))])
             else if tool = ''Write''
             then (K_FileWrite, jobj [(''path'', str_or_empty (s ''file_path''))])
             else if tool \<in> {''Edit'', ''MultiEdit'', ''NotebookEdit''}
             then (K_FileWrite,
                   jobj [(''path'', str_or_empty (first_some (s ''file_path'') (s ''notebook_path'')))])
             else if tool = ''Bash''
             then (K_Exec, jobj [(''cmd'', str_or_empty (s ''command''))])
             else if tool = ''WebFetch''
             then (K_HttpRequest,
                   jobj [(''method'', JStr ''GET''),
                         (''host'', JStr (host_from_url (case s ''url'' of Some u \<Rightarrow> u | None \<Rightarrow> [])))])
             else if tool = ''WebSearch''
             then (K_HttpRequest, jobj [(''method'', JStr ''GET'')])
             else (K_Other, input))
      in \<lparr>tc_tool = tool, tc_args = args, tc_kind = Some kind, tc_capability = None,
          tc_session = None\<rparr>)"

definition hook_action :: "string \<Rightarrow> json \<Rightarrow> action" where
  "hook_action tool input = build_action (claude_tool_to_call tool input) ''claude-code-hook'' ''hook'' 0"

definition decide_hook ::
    "'prog cel_exec \<Rightarrow> (string \<Rightarrow> (string, json) result) \<Rightarrow> string \<Rightarrow> 'prog compiled_policy \<Rightarrow> eval_env
       \<Rightarrow> string \<times> string" where
  "decide_hook exec parse input pol env =
     (case parse (trim input) of
        Inl e \<Rightarrow> (''ask'', ''Guardian could not parse the hook input ('' @ e @ ''); escalating to you.'')
      | Inr v \<Rightarrow>
          (case jget_str ''tool_name'' v of
             None \<Rightarrow> (''ask'', ''Guardian saw no tool_name; escalating to you.'')
           | Some tool \<Rightarrow>
               (let tool_input = (case jget ''tool_input'' v of Some x \<Rightarrow> x | None \<Rightarrow> JNull)
                in case out_decision (evaluate exec pol (hook_action tool tool_input) env) of
                     Allow \<Rightarrow> (''allow'', ''Allowed by Guardian policy.'')
                   | Ask reason \<Rightarrow> (''ask'', reason)
                   | Deny reason \<Rightarrow> (''deny'', reason))))"

text \<open>What the hook prints; an input that is not UTF-8 ends it with an error instead.\<close>

definition run_claude_hook ::
    "'prog cel_exec \<Rightarrow> (string \<Rightarrow> (string, json) result) \<Rightarrow> string \<Rightarrow> (string, 'prog compiled_policy) result
       \<Rightarrow> eval_env \<Rightarrow> (string, json) result" where
  "run_claude_hook exec parse stdin policy env =
     (if \<not> utf8_valid stdin then Inl ''stream did not contain valid UTF-8''
      else
        (let (decision, reason) =
           (case policy of
              Inr pol \<Rightarrow> decide_hook exec parse stdin pol env
            | Inl e \<Rightarrow> (''ask'', ''Guardian policy failed to load ('' @ e @ ''); escalating to you.''))
         in Inr (jobj [(''hookSpecificOutput'', jobj
              [(''hookEventName'', JStr ''PreToolUse''), (''permissionDecision'', JStr decision),
               (''permissionDecisionReason'', JStr reason)])])))"

subsection \<open>\<open>decide\<close>\<close>

definition decision_fields :: "decision \<Rightarrow> string \<times> json" where
  "decision_fields d =
     (case d of Allow \<Rightarrow> (''allow'', JNull) | Ask r \<Rightarrow> (''ask'', JStr r) | Deny r \<Rightarrow> (''deny'', JStr r))"

definition run_decide ::
    "'prog cel_exec \<Rightarrow> (string \<Rightarrow> (string, tool_call) result) \<Rightarrow> string
       \<Rightarrow> (string, 'prog compiled_policy) result \<Rightarrow> eval_env \<Rightarrow> (string, json) result" where
  "run_decide exec parse_call stdin policy env =
     (case parse_call (trim stdin) of
        Inl e \<Rightarrow> Inl (''invalid tool-call JSON on stdin: '' @ e)
      | Inr call \<Rightarrow>
          (case policy of
             Inl e \<Rightarrow> Inl e
           | Inr pol \<Rightarrow>
               (let out = evaluate exec pol (build_action call ''decide'' ''decide'' 0) env;
                    (decision, reason) = decision_fields (out_decision out)
                in Inr (jobj [(''decision'', JStr decision), (''reason'', reason),
                              (''critical'', JBool (out_critical out)),
                              (''matched_rule'',
                                 case out_matched_rule out of Some r \<Rightarrow> JStr r | None \<Rightarrow> JNull)]))))"

subsection \<open>\<open>exec\<close>\<close>

datatype exec_event =
    XE_Record audit_entry
  | XE_Spawn "string list"

datatype exec_end = XX_Exit int | XX_Error string | XX_Panic

text \<open>
  \<open>spawn\<close> is what running an argument vector gives: an error, or the exit code if there is one.
  \<open>audit_open\<close> says whether the log opens (its write is best effort, so only the attempt shows).
\<close>

definition run_exec ::
    "'prog cel_exec \<Rightarrow> (string, 'prog compiled_policy) result \<Rightarrow> eval_env \<Rightarrow> int \<Rightarrow> bool
       \<Rightarrow> sandbox_runner option \<Rightarrow> (string list \<Rightarrow> (string, int option) result) \<Rightarrow> sandbox_opts
       \<Rightarrow> string list \<Rightarrow> exec_event list \<times> exec_end" where
  "run_exec exec policy env now audit_open backend spawn opts cmd =
     (case cmd of
        [] \<Rightarrow> ([], XX_Panic)
      | program # args \<Rightarrow>
          (let call = \<lparr>tc_tool = program, tc_args = jobj [(''cmd'', JStr (join '' '' cmd))],
                       tc_kind = Some K_Exec, tc_capability = None, tc_session = None\<rparr>;
               a = build_action call ''exec'' ''exec'' now
           in case policy of
                Inl e \<Rightarrow> ([], XX_Error e)
              | Inr pol \<Rightarrow>
                  (let out = evaluate exec pol a env;
                       rec = (if audit_open
                              then [XE_Record (for_decision a (out_decision out) (out_matched_rule out)
                                      None None (out_critical out))] else []);
                       run = (\<lambda>argv. (rec @ [XE_Spawn argv],
                                case spawn argv of
                                  Inl e \<Rightarrow> XX_Exit 1
                                | Inr code \<Rightarrow> XX_Exit (case code of Some c \<Rightarrow> c | None \<Rightarrow> 1)))
                   in case out_decision out of
                        Deny _ \<Rightarrow> (rec, XX_Exit 126)
                      | Ask _ \<Rightarrow> (rec, XX_Exit 126)
                      | Allow \<Rightarrow>
                          (if out_sandbox out
                           then (case backend of
                                   Some r \<Rightarrow> run (sandbox_wrap r program args opts)
                                 | None \<Rightarrow> (rec, XX_Exit 126))
                           else run (program # args)))))"

definition resolve_audit_path :: "string option \<Rightarrow> string option \<Rightarrow> string \<Rightarrow> string" where
  "resolve_audit_path audit env guardian_dir =
     (case audit of Some p \<Rightarrow> p
      | None \<Rightarrow> (case env of Some p \<Rightarrow> p | None \<Rightarrow> path_join guardian_dir ''audit.db''))"

subsection \<open>The MCP proxy\<close>

definition parse_upstream :: "string \<Rightarrow> string option \<times> string \<times> string list" where
  "parse_upstream spec0 =
     (let spec = trim spec0;
          (label, cmd) =
            (case split_once ''='' spec of
               Some (l, c) \<Rightarrow>
                 if l \<noteq> [] \<and> \<not> list_ex is_whitespace (utf8_chars l) \<and> CHR ''/'' \<notin> set l
                 then (Some l, trim c) else (None, spec)
             | None \<Rightarrow> (None, spec));
          parts = split_whitespace cmd
      in (label, (case parts of p # _ \<Rightarrow> p | [] \<Rightarrow> []), tl parts))"

definition derive_label :: "string \<Rightarrow> string" where
  "derive_label program =
     hd (split_by (\<lambda>c. c = CHR ''.'') (last (split_by (\<lambda>c. c = CHR ''/'') program)))"

definition builtin_classifier :: "(string, action_kind) hashmap" where
  "builtin_classifier =
     [(''read_file'', K_FileRead), (''write_file'', K_FileWrite), (''http_request'', K_HttpRequest),
      (''run_shell'', K_Exec), (''send_email'', K_Email)]"

definition simple_tool_spec :: "string \<Rightarrow> string \<Rightarrow> tool_spec" where
  "simple_tool_spec name description =
     \<lparr>ts_name = name, ts_description = description,
      ts_input_schema = jobj [(''type'', JStr ''object'')]\<rparr>"

text \<open>The loop over the \<open>--upstream\<close> options: the servers and their labels.\<close>

fun add_upstreams ::
    "(string \<Rightarrow> string list \<Rightarrow> (string, stdio_upstream) result) \<Rightarrow> bool \<Rightarrow> string list
       \<Rightarrow> multi_upstream \<Rightarrow> string list \<Rightarrow> (string, multi_upstream \<times> string list) result" where
  "add_upstreams spawn single [] m labels = Inr (m, labels)"
| "add_upstreams spawn single (spec # specs) m labels =
     (case parse_upstream spec of
        (label_opt, program, args) \<Rightarrow>
          if program = [] then Inl ''--upstream command is empty''
          else
            (let label = (case label_opt of
                            Some l \<Rightarrow> l
                          | None \<Rightarrow> if single then [] else derive_label program)
             in case spawn program args of
                  Inl e \<Rightarrow> Inl (''upstream '' @ [CHR 0x27] @ program @ [CHR 0x27] @ '': '' @ e)
                | Inr server \<Rightarrow>
                    (case multi_add label server m of
                       (False, _) \<Rightarrow>
                         Inl (''duplicate upstream label '' @ [CHR 0x27] @ label @ [CHR 0x27] @ '' ''
                           @ [CHR 0xE2, CHR 0x80, CHR 0x94]
                           @ '' give each --upstream a unique label=...'')
                     | (True, m') \<Rightarrow> add_upstreams spawn single specs m' (label # labels))))"

record brokered_upstream =
  bu_broker :: broker
  bu_targets :: "string list"
  bu_inner :: multi_upstream

definition scrub_field :: "json \<Rightarrow> json" where
  "scrub_field args = (case args of JObj m \<Rightarrow> JObj (obj_remove DEFAULT_FIELD m) | v \<Rightarrow> v)"

definition credential_target :: "string \<Rightarrow> string" where
  "credential_target tool = (case split_once ''__'' tool of Some (label, _) \<Rightarrow> label | None \<Rightarrow> tool)"

definition brokered_call :: "broker \<Rightarrow> string list \<Rightarrow> tool_call \<Rightarrow> tool_call" where
  "brokered_call b targets call0 =
     (let call = call0\<lparr>tc_args := scrub_field (tc_args call0)\<rparr>; target = credential_target (tc_tool call)
      in if target \<in> set targets then call\<lparr>tc_args := snd (inject b target (tc_args call))\<rparr> else call)"

definition brokered_forward ::
    "json_lib \<Rightarrow> tool_call \<Rightarrow> brokered_upstream \<Rightarrow> (string, json) result \<times> brokered_upstream" where
  "brokered_forward jl call u =
     (case multi_forward jl (brokered_call (bu_broker u) (bu_targets u) call) (bu_inner u) of
        (r, m) \<Rightarrow> (r, u\<lparr>bu_inner := m\<rparr>))"

subsection \<open>Approvers\<close>

definition deny_asks_approver :: "action \<Rightarrow> explanation \<Rightarrow> approval_response" where
  "deny_asks_approver a e = Denied"

text \<open>\<open>approve\<close> is the daemon's answer to \<open>DaemonClient::approve\<close>.\<close>

definition daemon_approver ::
    "(string \<Rightarrow> string \<Rightarrow> string \<Rightarrow> nat \<Rightarrow> (string, bool) result) \<Rightarrow> action \<Rightarrow> explanation \<Rightarrow> approval_response"
where
  "daemon_approver approve a e =
     (case approve (act_id a) (act_tool a) (ex_plain_text e) (ex_risk e) of
        Inr True \<Rightarrow> Approved | _ \<Rightarrow> Denied)"

definition proxy_daemon_approver ::
    "(string \<Rightarrow> string \<Rightarrow> string \<Rightarrow> nat \<Rightarrow> (string, bool) result) \<Rightarrow> action \<Rightarrow> bool" where
  "proxy_daemon_approver approve a =
     (let host = (case ctx_host (act_context a) of Some h \<Rightarrow> h | None \<Rightarrow> ''?'');
          meth = (case jget_str ''method'' (act_args a) of Some m \<Rightarrow> m | None \<Rightarrow> ''?'');
          path = (case jget_str ''path'' (act_args a) of Some p \<Rightarrow> p | None \<Rightarrow> []);
          plain = ''Network request: '' @ meth @ '' '' @ host @ path
      in case approve (act_id a) (act_tool a) plain 6 of Inr b \<Rightarrow> b | Inl _ \<Rightarrow> False)"

subsection \<open>Setup, audit and pack commands\<close>

definition mcp_snippet :: "string \<Rightarrow> json" where
  "mcp_snippet sock = jobj [(''mcpServers'', jobj [(''guardian'', jobj
     [(''command'', JStr ''guardian''),
      (''args'', JArr [JStr ''mcp'', JStr ''--daemon'', JStr sock])])])]"

text \<open>\<open>cell\<close>: control characters to blanks, cut to \<open>mx\<close> characters.\<close>

definition cell :: "string \<Rightarrow> nat \<Rightarrow> string" where
  "cell s mx =
     (let flat = map (\<lambda>ch. if is_control ch then '' '' else ch) (utf8_chars s)
      in if length flat > mx then concat (take (mx - 1) flat) @ ellipsis else concat flat)"

definition run_redact :: "(nat \<Rightarrow> draw) \<Rightarrow> string list \<Rightarrow> string \<Rightarrow> (string, string) result" where
  "run_redact rng values stdin =
     (if \<not> utf8_valid stdin then Inl ''stream did not contain valid UTF-8''
      else Inr (fst (tokenize (fold (\<lambda>x v. learn v x) values (vault_new rng)) stdin)))"

definition trim_newlines :: "string \<Rightarrow> string" where
  "trim_newlines s = rev (dropWhile (\<lambda>c. c = CHR 0x0A \<or> c = CHR 0x0D) (rev s))"

definition broker_set_secret :: "string \<Rightarrow> string \<Rightarrow> (string, string) result" where
  "broker_set_secret target stdin =
     (let secret = trim_newlines stdin
      in if secret = []
         then Inl (''no secret on stdin; nothing stored (pipe it in, e.g. `printf %s '' @ quoted ''$TOKEN''
                   @ '' | guardian broker set '' @ target @ ''`)'')
         else Inr secret)"

text \<open>The integrity line of \<open>guardian log\<close>.\<close>

definition log_integrity :: "('sk, 'vk) crypto \<Rightarrow> 'sk audit_log \<Rightarrow> string option \<Rightarrow> bool \<times> string" where
  "log_integrity cr lg key =
     (case key of
        Some k \<Rightarrow> (is_ok (verify_with_pubkey cr lg k), ''signed+chain'')
      | None \<Rightarrow> (is_ok (audit_verify cr lg), ''chain''))"

text \<open>The entry \<open>guardian pack verify --audit\<close> appends.\<close>

definition provenance_action :: "signed_pack \<Rightarrow> int \<Rightarrow> action" where
  "provenance_action sp now =
     \<lparr>act_id = ''pack'', act_kind = K_Other, act_tool = ''policy-pack'',
      act_args = jobj [(''name'', JStr (mf_name (sp_manifest sp))),
                       (''version'', JStr (mf_version (sp_manifest sp))),
                       (''publisher'', JStr (sp_publisher sp))],
      act_capability = None,
      act_context =
        \<lparr>ctx_timestamp_ms = now, ctx_source = ''pack-verify'', ctx_session = None, ctx_host = None,
         ctx_principal = None, ctx_path = None, ctx_extra = []\<rparr>\<rparr>"

definition provenance_entry :: "signed_pack \<Rightarrow> int \<Rightarrow> audit_entry" where
  "provenance_entry sp now =
     for_decision (provenance_action sp now) Allow (Some ''pack-verified'') None None False"

definition record_pack_provenance ::
    "('sk, 'vk) crypto \<Rightarrow> (audit_entry \<Rightarrow> (string, string) result) \<Rightarrow> bool \<Rightarrow> signed_pack \<Rightarrow> int
       \<Rightarrow> 'sk audit_log \<Rightarrow> (audit_error, unit) result \<times> 'sk audit_log" where
  "record_pack_provenance cr ser io sp now lg =
     (case audit_append cr ser io lg (provenance_entry sp now) of
        (Inl e, lg') \<Rightarrow> (Inl e, lg')
      | (Inr _, lg') \<Rightarrow> (Inr (), lg'))"

end
