(* ===== verification/Cli_Laws.thy ===== *)
theory Cli_Laws
  imports Cli Mcp_Laws Audit_Laws
begin

text \<open>
  What the front ends guarantee: the hook allows only what the policy allows, \<open>exec\<close> runs only what
  is allowed and contained where the policy says so, a brokered credential reaches the server it
  belongs to; and three things they do not do.
\<close>

subsection \<open>Brokered upstreams\<close>

lemma add_upstreams_labels:
  assumes "add_upstreams spawn single specs m labels = Inr (m', labels')"
    and "set labels = fst ` set m"
  shows "set labels' = fst ` set m'"
  using assms
proof (induction specs arbitrary: m labels)
  case Nil
  then show ?case by simp
next
  case (Cons spec specs)
  obtain label_opt program args where p: "parse_upstream spec = (label_opt, program, args)"
    by (metis prod_cases3)
  define label where "label = (case label_opt of Some l \<Rightarrow> l | None \<Rightarrow> if single then [] else derive_label program)"
  from Cons.prems(1) p obtain server where
    "add_upstreams spawn single specs (AList.update label server m) (label # labels) = Inr (m', labels')"
    by (auto simp: label_def Let_def multi_add_def split: if_splits sum.splits)
  moreover have "set (label # labels) = fst ` set (AList.update label server m)"
    using Cons.prems(2) dom_update [of label server m]
    by (simp flip: dom_map_of_conv_image_fst)
  ultimately show ?case by (rule Cons.IH)
qed

lemma route_owner:
  assumes "route_name name (\<lambda>l. l \<in> set targets) = Some (label, tool)" and "[] \<notin> set targets"
  shows "label \<in> set targets \<and> credential_target name = label"
  using assms
  by (auto simp: route_name_def credential_target_def SEP_def split: option.splits if_splits)

subsection \<open>URLs\<close>

lemma hd_split_by_prefix:
  "\<forall>c \<in> set xs. \<not> P c \<Longrightarrow> ys = [] \<or> P (hd ys) \<Longrightarrow> hd (split_by P (xs @ ys)) = xs"
  by (cases ys) (auto simp: hd_split_by takeWhile_append2)

lemma length_split_by: "length (split_by P s) = Suc (length (filter P s))"
proof (induction s)
  case (Cons c s)
  then show ?case by (auto split: list.splits)
qed simp

lemma last_split_by_suffix:
  "\<forall>c \<in> set ys. \<not> P c \<Longrightarrow> xs = [] \<or> P (last xs) \<Longrightarrow> last (split_by P (xs @ ys)) = ys"
proof (induction xs)
  case Nil
  then show ?case by (simp add: split_by_no_match)
next
  case (Cons c xs)
  show ?case
  proof (cases "xs = []")
    case True
    with Cons.prems show ?thesis by (simp add: split_by_no_match)
  next
    case False
    with Cons have l: "last (split_by P (xs @ ys)) = ys" by simp
    have "last xs \<in> set xs" "P (last xs)"
      using False Cons.prems(2) by simp_all
    then have "filter P xs \<noteq> []"
      by (auto simp: filter_empty_conv)
    then have "length (split_by P (xs @ ys)) \<noteq> 1"
      by (simp add: length_split_by)
    with l show ?thesis
      by (auto split: list.splits)
  qed
qed

text \<open>Cutting an authority, with what follows it, at the next \<open>://\<close> loses nothing of the authority.\<close>

lemma split_once_in_rest:
  assumes "auth \<noteq> []" and "\<forall>c \<in> set auth. c \<noteq> CHR ''/''" and "last auth \<noteq> CHR '':''"
    and "split_once ''://'' (auth @ rest) = Some (x, y)"
  shows "\<exists>r. x = auth @ r \<and> prefix r rest"
proof -
  have s: "auth @ rest = x @ ''://'' @ y"
    using split_once_SomeD(1) [OF assms(4)] .
  have "length auth \<le> length x"
  proof (rule ccontr)
    assume "\<not> length auth \<le> length x"
    then obtain z where z: "auth = x @ z" "z \<noteq> []" "z @ rest = ''://'' @ y"
      using s by (auto simp: append_eq_append_conv2)
    then have "hd z = CHR '':''" by (cases z) auto
    show False
    proof (cases "tl z")
      case Nil
      with z \<open>hd z = CHR '':''\<close> have "z = '':''" by (cases z) auto
      with z(1) assms(3) show False by simp
    next
      case (Cons d ds)
      then have "z = hd z # d # ds" using z(2) by (cases z) auto
      with z(3) have "d = CHR ''/''" by (metis append_Cons list.inject)
      with z(1) \<open>z = hd z # d # ds\<close> assms(2) show False by (metis in_set_conv_decomp list.set_intros(2) set_append Un_iff list.set_intros(1))
    qed
  qed
  with s show ?thesis
    by (auto simp: append_eq_append_conv2 prefix_def)
qed

lemma split_once_scheme:
  assumes "CHR '':'' \<notin> set scheme"
  shows "split_once ''://'' (scheme @ ''://'' @ t) = Some (scheme, t)"
  using assms
proof (induction scheme)
  case (Cons c scheme)
  then show ?case
    by (auto simp: split_once_def split: option.splits)
qed (simp add: split_once_def)

lemma second_part_authority:
  assumes "CHR '':'' \<notin> set scheme" and "auth \<noteq> []" and "\<forall>c \<in> set auth. c \<noteq> CHR ''/''" and "last auth \<noteq> CHR '':''"
  shows "\<exists>r. second_part ''://'' (scheme @ ''://'' @ auth @ rest) = Some (auth @ r) \<and> prefix r rest"
proof (cases "split_once ''://'' (auth @ rest)")
  case None
  then show ?thesis
    unfolding second_part_def split_once_scheme [OF assms(1)] by simp
next
  case (Some xy)
  then obtain x y where "split_once ''://'' (auth @ rest) = Some (x, y)" by (cases xy) simp
  with split_once_in_rest [OF assms(2-4) this] show ?thesis
    unfolding second_part_def split_once_scheme [OF assms(1)] by auto
qed

subsection \<open>Properties\<close>

definition url_delim :: "char \<Rightarrow> bool" where
  "url_delim c \<longleftrightarrow> c = CHR ''/'' \<or> c = CHR ''?'' \<or> c = CHR ''#'' \<or> c = BACKSLASH"

text \<open>
  the host of a URL. For \<open>scheme://userinfo@host:port\<close> followed by a path, query or
  fragment (or nothing), where a backslash counts as a slash, the hook reads exactly the host.
\<close>

theorem host_from_url_authority:
  assumes "list_all (\<lambda>c. \<not> url_delim c) (scheme @ ui @ host @ port)"
    and "CHR '':'' \<notin> set scheme" and "host \<noteq> []" and "CHR '':'' \<notin> set host" and "CHR ''@'' \<notin> set (host @ port)"
    and "ui = [] \<or> last ui = CHR ''@''" and "port = [] \<or> hd port = CHR '':'' \<and> last port \<noteq> CHR '':''"
    and "rest = [] \<or> url_delim (hd rest)"
  shows "host_from_url (scheme @ ''://'' @ ui @ host @ port @ rest) = host"
proof -
  let ?f = "\<lambda>c. if c = BACKSLASH then CHR ''/'' else c"
  let ?P = "\<lambda>c. c = CHR ''/'' \<or> c = CHR ''?'' \<or> c = CHR ''#''"
  define auth where "auth = ui @ host @ port"
  have nd: "\<forall>c \<in> set (scheme @ auth). \<not> url_delim c"
    using assms(1) by (simp add: auth_def list_all_iff)
  have "map ?f xs = xs" if "\<forall>c \<in> set xs. \<not> url_delim c" for xs
    using that by (intro map_idI) (auto simp: url_delim_def)
  with nd have id: "map ?f scheme = scheme" "map ?f auth = auth" by simp_all
  have fb: "?f (CHR '':'') = CHR '':''" "?f (CHR ''/'') = CHR ''/''"
    by (simp_all add: BACKSLASH_def)
  have url: "map ?f (scheme @ ''://'' @ ui @ host @ port @ rest) = scheme @ ''://'' @ auth @ map ?f rest"
    using id fb by (simp add: auth_def)
  have rest: "rest' = [] \<or> ?P (hd rest')" if "prefix rest' (map ?f rest)" for rest'
    using assms(8) that by (cases rest; cases rest') (auto simp: url_delim_def)
  have "last host \<noteq> CHR '':''"
    using assms(3,4) by (metis last_in_set)
  then have la: "last auth \<noteq> CHR '':''" and ne: "auth \<noteq> []"
    using assms(3,7) by (auto simp: auth_def last_append)
  have sl: "\<forall>c \<in> set auth. c \<noteq> CHR ''/''"
    using nd by (auto simp: url_delim_def)
  obtain rest' where after: "second_part ''://'' (scheme @ ''://'' @ auth @ map ?f rest) = Some (auth @ rest')"
    and r': "prefix rest' (map ?f rest)"
    using second_part_authority [OF assms(2) ne sl la, of "map ?f rest"] by (elim exE conjE)
  have a: "hd (split_by ?P (auth @ rest')) = auth"
    using nd rest [OF r'] by (intro hd_split_by_prefix) (auto simp: url_delim_def)
  have h: "last (split_by (\<lambda>c. c = CHR ''@'') auth) = host @ port"
    unfolding auth_def using assms(5,6) by (intro last_split_by_suffix) auto
  have p: "hd (split_by (\<lambda>c. c = CHR '':'') (host @ port)) = host"
    using assms(4,7) by (intro hd_split_by_prefix) auto
  show ?thesis
    unfolding host_from_url_def url Let_def after option.case a h p ..
qed

theorem host_from_url_authority_witness:
  "host_from_url (''https'' @ ''://'' @ ''me:x@'' @ ''evil.net'' @ '':443'' @ [BACKSLASH] @ ''@trusted/'') = ''evil.net''"
proof -
  have h: "list_all (\<lambda>c. \<not> url_delim c) (''https'' @ ''me:x@'' @ ''evil.net'' @ '':443'')"
    by (simp add: url_delim_def BACKSLASH_def)
  have "[BACKSLASH] @ ''@trusted/'' = [] \<or> url_delim (hd ([BACKSLASH] @ ''@trusted/''))"
    by (simp add: url_delim_def)
  from host_from_url_authority [OF h _ _ _ _ _ _ this] show ?thesis
    by simp
qed

text \<open>
  A URL whose scheme is not followed by \<open>//\<close> is read at the first \<open>://\<close> anywhere: a browser takes
  \<open>https:evil.net/://trusted\<close> to the host \<open>evil.net\<close>.
\<close>

lemma host_after_later_separator: "host_from_url ''https:evil.net/://trusted'' = ''trusted''"
  by code_simp

text \<open>
  the hook allows only what the policy allows. It prints \<open>allow\<close> exactly if the input is
  text, the policy loaded, the payload names a tool, and the policy allows the action of that tool:
  its kind by the fixed table (\<open>Other\<close> for a tool not in it, whatever its name), the capability of
  that kind. In every other case with readable input it prints \<open>ask\<close> or \<open>deny\<close>.
\<close>

theorem hook_allows_iff:
  "(\<exists>out. run_claude_hook exec parse stdin policy env = Inr out
      \<and> Option.bind (jget ''hookSpecificOutput'' out) (jget_str ''permissionDecision'') = Some ''allow'')
   \<longleftrightarrow> utf8_valid stdin
     \<and> (\<exists>pol v tool. policy = Inr pol \<and> parse (trim stdin) = Inr v \<and> jget_str ''tool_name'' v = Some tool
          \<and> out_decision (evaluate exec pol
              (hook_action tool (case jget ''tool_input'' v of Some x \<Rightarrow> x | None \<Rightarrow> JNull)) env) = Allow)"
proof -
  have d: "fst (decide_hook exec parse stdin pol env) = ''allow'' \<longleftrightarrow>
      (\<exists>v tool. parse (trim stdin) = Inr v \<and> jget_str ''tool_name'' v = Some tool
        \<and> out_decision (evaluate exec pol
              (hook_action tool (case jget ''tool_input'' v of Some x \<Rightarrow> x | None \<Rightarrow> JNull)) env) = Allow)" for pol
    by (auto simp: decide_hook_def Let_def split: sum.split option.split decision.split)
  show ?thesis
  proof (cases policy)
    case (Inl e)
    then show ?thesis
      by (simp add: run_claude_hook_def jget_jobj jget_str_def)
  next
    case (Inr pol)
    then show ?thesis
      using d [of pol] by (simp add: run_claude_hook_def jget_jobj jget_str_def split_beta)
  qed
qed

lemma hook_action_unlisted:
  assumes "tool \<notin> {''Read'', ''Glob'', ''Grep'', ''LS'', ''NotebookRead'', ''Write'', ''Edit'', ''MultiEdit'',
    ''NotebookEdit'', ''Bash'', ''WebFetch'', ''WebSearch''}"
  shows "act_kind (hook_action tool input) = K_Other \<and> act_capability (hook_action tool input) = None"
  using assms by (simp add: hook_action_def claude_tool_to_call_def build_action_def Let_def)

text \<open>
  C22: \<open>exec\<close> runs only what is allowed, contained where the policy says so. If it starts a
  process at all, the policy allowed the action; if the matched rules ask for a sandbox, the process
  is the command wrapped by the platform's tool, and without such a tool nothing runs and the exit
  code is 126.
\<close>

theorem exec_contained:
  assumes "run_exec exec policy env now audit_open backend spawn opts (program # args) = (evs, e)"
  shows "(\<forall>argv. XE_Spawn argv \<in> set evs \<longrightarrow>
       (\<exists>pol out. policy = Inr pol \<and> out_decision out = Allow
          \<and> out = evaluate exec pol (build_action
              \<lparr>tc_tool = program, tc_args = jobj [(''cmd'', JStr (join '' '' (program # args)))],
               tc_kind = Some K_Exec, tc_capability = None, tc_session = None\<rparr> ''exec'' ''exec'' now) env
          \<and> (if out_sandbox out
              then \<exists>r. backend = Some r \<and> argv = sandbox_wrap r program args opts
              else argv = program # args)))
     \<and> ((\<forall>argv. XE_Spawn argv \<notin> set evs) \<longrightarrow> e = XX_Exit 126 \<or> (\<exists>msg. policy = Inl msg \<and> e = XX_Error msg))"
proof (cases policy)
  case (Inl msg)
  with assms show ?thesis by (simp add: run_exec_def)
next
  case (Inr pol)
  define a where "a = build_action
              \<lparr>tc_tool = program, tc_args = jobj [(''cmd'', JStr (join '' '' (program # args)))],
               tc_kind = Some K_Exec, tc_capability = None, tc_session = None\<rparr> ''exec'' ''exec'' now"
  show ?thesis
    using assms unfolding a_def [symmetric]
    by (cases "out_decision (evaluate exec pol a env)"; cases backend)
       (auto simp: run_exec_def Inr Let_def a_def [symmetric] split: if_splits)
qed

theorem exec_contained_witness:
  "\<exists>evs e. run_exec ex_exec (Inr \<lparr>cp_policy = ex_policy\<lparr>pol_rules := [(ex_rule ''r'' ''Exec'' DK_Allow None)
        \<lparr>rule_sandbox := True\<rparr>]\<rparr>, cp_programs = [''Exec'']\<rparr>) ex_env 0 True None
       (\<lambda>_. Inr (Some 0)) \<lparr>so_allow_network = False, so_writable_paths = []\<rparr> [''rm''] = (evs, e)
     \<and> e = XX_Exit 126 \<and> (\<forall>argv. XE_Spawn argv \<notin> set evs)"
proof -
  let ?r = "run_exec ex_exec (Inr \<lparr>cp_policy = ex_policy\<lparr>pol_rules := [(ex_rule ''r'' ''Exec'' DK_Allow None)
        \<lparr>rule_sandbox := True\<rparr>]\<rparr>, cp_programs = [''Exec'']\<rparr>) ex_env 0 True None
       (\<lambda>_. Inr (Some 0)) \<lparr>so_allow_network = False, so_writable_paths = []\<rparr>"
  obtain evs e where r: "?r [''rm''] = (evs, e)"
    by (metis prod.exhaust)
  have no: "\<forall>argv. XE_Spawn argv \<notin> set evs"
    using r
    by (auto simp: run_exec_def Let_def evaluate_def rule_matches_ex build_action_def critical_floor_def
          action_is_critical_def rule_step_def rule_verdict_def apply_cap_def ex_rule_def ex_policy_def
          decision_from_kind_def)
  from exec_contained [OF r] no have "e = XX_Exit 126" by auto
  with r no show ?thesis by blast
qed

text \<open>
  C23: a credential reaches its own server only. When every upstream has a label, the call a
  server receives carries in the credential field the broker's secret for that server's label, or
  nothing, never what the agent put there; the tool and the other fields are as they were.
\<close>

theorem credential_reaches_owner:
  assumes "route_name (tc_tool call) (\<lambda>l. l \<in> set targets) = Some (label, tool)" and "[] \<notin> set targets"
  shows "jget DEFAULT_FIELD (tc_args (brokered_call b targets call)) =
       (case tc_args call of
          JObj _ \<Rightarrow> map_option JStr (broker_token_for b label)
        | JNull \<Rightarrow> map_option JStr (broker_token_for b label)
        | _ \<Rightarrow> None)
     \<and> tc_tool (brokered_call b targets call) = tc_tool call
     \<and> (\<forall>k. k \<noteq> DEFAULT_FIELD \<longrightarrow> jget k (tc_args (brokered_call b targets call)) = jget k (tc_args call))"
  using route_owner [OF assms]
  by (auto simp: brokered_call_def Let_def scrub_field_def inject_def inject_as_def broker_token_for_def
        split: json.split option.split)

text \<open>
  With an unlabeled server beside the labeled ones the credential crosses over: a tool whose name is
  another server's label gets that label's secret, and goes to the unlabeled server. A program
  whose file name starts with a dot has the empty label.
\<close>

lemma unlabeled_server_gets_foreign_credential:
  "route_name ''bank'' (\<lambda>l. l \<in> set [[], ''bank'']) = Some ([], ''bank'')"
  "jget DEFAULT_FIELD (tc_args (brokered_call (broker_new [(''bank'', ''s3cret'')]) [[], ''bank'']
     \<lparr>tc_tool = ''bank'', tc_args = JNull, tc_kind = None, tc_capability = None, tc_session = None\<rparr>)) =
   Some (JStr ''s3cret'')"
  "derive_label ''/opt/.helper'' = []"
  by (simp_all add: route_name_def SEP_def split_once_def brokered_call_def credential_target_def scrub_field_def
        inject_def inject_as_def broker_new_def DEFAULT_FIELD_def derive_label_def)

theorem credential_reaches_owner_witness:
  "jget ''auth_token'' (tc_args (brokered_call (broker_new [(''bank'', ''s3cret'')]) [''bank'', ''files'']
     \<lparr>tc_tool = ''bank__pay'', tc_args = JObj [(''auth_token'', JStr ''mine'')], tc_kind = None,
      tc_capability = None, tc_session = None\<rparr>)) = Some (JStr ''s3cret'')"
proof -
  let ?c = "\<lparr>tc_tool = ''bank__pay'', tc_args = JObj [(''auth_token'', JStr ''mine'')], tc_kind = None,
      tc_capability = None, tc_session = None\<rparr> :: tool_call"
  have "route_name (tc_tool ?c) (\<lambda>l. l \<in> set [''bank'', ''files'']) = Some (''bank'', ''pay'')"
    by (simp add: route_name_def SEP_def split_once_def)
  from credential_reaches_owner [OF this] show ?thesis
    by (simp add: broker_token_for_def broker_new_def DEFAULT_FIELD_def)
qed

text \<open>
  the provenance of a pack is not in the log. The entry \<open>pack verify --audit\<close> writes is
  the same for any two packs, whoever published them: an audit entry has no field for the action's
  arguments, where the name, the version and the publisher are.
\<close>

theorem provenance_not_recorded:
  "record_pack_provenance cr ser io sp now lg = record_pack_provenance cr ser io sp' now lg"
  by (simp add: record_pack_provenance_def provenance_entry_def provenance_action_def for_decision_def)

text \<open>A gateway built without self-protection, as \<open>guardian mcp\<close> does, does not look at the kill switch.\<close>

lemma kill_switch_ignored:
  assumes "\<not> sf_kill_switch (gw_self g)"
  shows "handle dp (io\<lparr>io_kill_file := b\<rparr>) call g = handle dp io call g"
proof -
  have io: "io_forward (io\<lparr>io_kill_file := b\<rparr>) = io_forward io" "io_now_ms (io\<lparr>io_kill_file := b\<rparr>) = io_now_ms io"
    "io_detect (io\<lparr>io_kill_file := b\<rparr>) = io_detect io" "io_rng (io\<lparr>io_kill_file := b\<rparr>) = io_rng io"
    "io_explain (io\<lparr>io_kill_file := b\<rparr>) = io_explain io" "io_approve (io\<lparr>io_kill_file := b\<rparr>) = io_approve io"
    "io_cwd (io\<lparr>io_kill_file := b\<rparr>) = io_cwd io" "io_audit_ok (io\<lparr>io_kill_file := b\<rparr>) = io_audit_ok io"
    by simp_all
  obtain a where n: "normalize_call (io_now_ms io) call g = (a, g\<lparr>gw_counter := (gw_counter g + 1) mod 2 ^ 64\<rparr>)"
    by (metis normalize_call_state prod.collapse)
  have o: "override_deny (gw_self (g\<lparr>gw_counter := k\<rparr>)) kf (io_cwd io) a =
      override_deny (gw_self (g\<lparr>gw_counter := k\<rparr>)) kf' (io_cwd io) a" for k kf kf'
    using assms by (simp add: override_deny_def)
  show ?thesis
    unfolding handle_def forward_call_def resolve_decision_def io n Let_def prod.case
    by (subst o [of _ _ "io_kill_file io"]) (rule refl)
qed

end
