(* ===== verification/Daemon.thy ===== *)
theory Daemon
  imports Approval_Queue Upstream
begin

text \<open>
  The daemon of \<open>guardian-daemon/src/lib.rs\<close>: the local tools upstream, the messages of the control
  socket with their JSON forms, the server's side (\<open>dispatch\<close>) and the client's
  (\<open>DaemonClient\<close>, \<open>DaemonRouter\<close>). The JSON forms are those serde derives for the types: objects;
  the array form serde also reads, and an object with a repeated key, are not modelled.

  A request that waits for the human does not block the daemon: its connection is a task of its own
  while others are served. So a call is split at its only wait, \<open>call_begin\<close> before and
  \<open>call_finish\<close> after the human's answer, and \<open>daemon_step\<close> interleaves the requests of any number of
  connections, the futures of the approval queue and the clock.
\<close>

subsection \<open>The local tools\<close>

record local_files =
  lf_read :: "string \<Rightarrow> (string, string) result"
  lf_write :: "string \<Rightarrow> string \<Rightarrow> (string, unit) result"

definition local_tools_forward :: "local_files \<Rightarrow> tool_call \<Rightarrow> (string, json) result" where
  "local_tools_forward fs call =
     (if tc_tool call = ''read_file'' then
        (case jget_str ''path'' (tc_args call) of
           None \<Rightarrow> Inl (''read_file needs a string `path`'')
         | Some path \<Rightarrow>
             (case lf_read fs path of
                Inl e \<Rightarrow> Inl e
              | Inr content \<Rightarrow> Inr (jobj [(''path'', JStr path), (''content'', JStr content)])))
      else if tc_tool call = ''write_file'' then
        (case jget_str ''path'' (tc_args call) of
           None \<Rightarrow> Inl (''write_file needs a string `path`'')
         | Some path \<Rightarrow>
             (let content = (case jget_str ''content'' (tc_args call) of Some c \<Rightarrow> c | None \<Rightarrow> [])
              in case lf_write fs path content of
                   Inl e \<Rightarrow> Inl e
                 | Inr _ \<Rightarrow> Inr (jobj [(''path'', JStr path), (''bytes_written'', JInt (int (length content)))])))
      else Inl (''tool not implemented by the local upstream: '' @ tc_tool call))"

subsection \<open>Requests\<close>

datatype daemon_request =
    RQ_Call string json "action_kind option" "capability option"
  | RQ_Pending
  | RQ_Respond nat bool
  | RQ_Approve string string string nat
  | RQ_KillSwitch bool
  | RQ_VerifyAudit
  | RQ_History nat
  | RQ_Protect string
  | RQ_Unprotect
  | RQ_VaultStatus

definition default_history_limit :: nat where
  "default_history_limit = 50"

text \<open>A field of a message: its default if it is absent and has one, else decoded.\<close>

definition field :: "(json \<Rightarrow> 'a option) \<Rightarrow> 'a option \<Rightarrow> string \<Rightarrow> json \<Rightarrow> 'a option" where
  "field dec dflt k v = (case jget k v of None \<Rightarrow> dflt | Some x \<Rightarrow> dec x)"

definition dec_opt :: "(json \<Rightarrow> 'a option) \<Rightarrow> json \<Rightarrow> 'a option option" where
  "dec_opt dec v = (if v = JNull then Some None else map_option Some (dec v))"

definition dec_uint :: "nat \<Rightarrow> json \<Rightarrow> nat option" where
  "dec_uint bits v =
     (case as_u64 v of Some n \<Rightarrow> if n < 2 ^ bits then Some n else None | None \<Rightarrow> None)"

definition dec_kind :: "json \<Rightarrow> action_kind option" where
  "dec_kind v =
     Option.bind (as_str v) (\<lambda>s. find (\<lambda>k. kind_name k = s)
       [K_FileRead, K_FileWrite, K_Exec, K_HttpRequest, K_Email, K_Payment, K_Delete, K_Other])"

definition dec_capability :: "json \<Rightarrow> capability option" where
  "dec_capability v =
     Option.bind (as_str v) (\<lambda>s. find (\<lambda>c. capability_name c = s)
       [Cap_Payment, Cap_Credential, Cap_Exfiltration, Cap_IrreversibleDelete, Cap_Messaging,
        Cap_Filesystem, Cap_Network, Cap_Other])"

text \<open>\<open>Deserialize\<close> of a request: the tag \<open>cmd\<close> in snake case, then the fields of the variant.\<close>

definition decode_request :: "json \<Rightarrow> daemon_request option" where
  "decode_request v =
     (case jget_str ''cmd'' v of
        None \<Rightarrow> None
      | Some cmd \<Rightarrow>
          if cmd = ''call'' then
            (case (field as_str None ''tool'' v, field Some (Some JNull) ''args'' v,
                   field (dec_opt dec_kind) (Some None) ''kind'' v,
                   field (dec_opt dec_capability) (Some None) ''capability'' v) of
               (Some t, Some a, Some k, Some c) \<Rightarrow> Some (RQ_Call t a k c) | _ \<Rightarrow> None)
          else if cmd = ''pending'' then Some RQ_Pending
          else if cmd = ''respond'' then
            (case (field (dec_uint 64) None ''id'' v, field as_bool None ''approve'' v) of
               (Some i, Some b) \<Rightarrow> Some (RQ_Respond i b) | _ \<Rightarrow> None)
          else if cmd = ''approve'' then
            (case (field as_str (Some []) ''action_id'' v, field as_str None ''tool'' v,
                   field as_str (Some []) ''plain_text'' v, field (dec_uint 8) (Some 0) ''risk'' v) of
               (Some i, Some t, Some p, Some r) \<Rightarrow> Some (RQ_Approve i t p r) | _ \<Rightarrow> None)
          else if cmd = ''kill_switch'' then map_option RQ_KillSwitch (field as_bool None ''engage'' v)
          else if cmd = ''verify_audit'' then Some RQ_VerifyAudit
          else if cmd = ''history'' then
            map_option RQ_History (field (dec_uint 64) (Some default_history_limit) ''limit'' v)
          else if cmd = ''protect'' then map_option RQ_Protect (field as_str None ''value'' v)
          else if cmd = ''unprotect'' then Some RQ_Unprotect
          else if cmd = ''vault_status'' then Some RQ_VaultStatus
          else None)"

subsection \<open>Responses\<close>

record pending_view =
  pv_id :: nat
  pv_action_id :: string
  pv_tool :: string
  pv_plain_text :: string
  pv_risk :: nat

record history_view =
  hv_decision :: string
  hv_kind :: string
  hv_host :: "string option"
  hv_rule :: "string option"
  hv_reason :: "string option"
  hv_critical :: bool

datatype daemon_response =
    RS_Outcome string json
  | RS_Pending "pending_view list"
  | RS_Responded bool
  | RS_Approval bool
  | RS_KillSwitch bool
  | RS_Audit nat bool
  | RS_History "history_view list"
  | RS_Vault nat nat "string list"
  | RS_Error string

definition enc_opt :: "('a \<Rightarrow> json) \<Rightarrow> 'a option \<Rightarrow> json" where
  "enc_opt enc x = (case x of None \<Rightarrow> JNull | Some y \<Rightarrow> enc y)"

definition pending_view_json :: "pending_view \<Rightarrow> json" where
  "pending_view_json p = jobj
     [(''id'', JInt (int (pv_id p))), (''action_id'', JStr (pv_action_id p)), (''tool'', JStr (pv_tool p)),
      (''plain_text'', JStr (pv_plain_text p)), (''risk'', JInt (int (pv_risk p)))]"

definition history_view_json :: "history_view \<Rightarrow> json" where
  "history_view_json h = jobj
     [(''decision'', JStr (hv_decision h)), (''kind'', JStr (hv_kind h)),
      (''host'', enc_opt JStr (hv_host h)), (''rule'', enc_opt JStr (hv_rule h)),
      (''reason'', enc_opt JStr (hv_reason h)), (''critical'', JBool (hv_critical h))]"

fun response_json :: "daemon_response \<Rightarrow> json" where
  "response_json (RS_Outcome status detail) =
     jobj [(''result'', JStr ''outcome''), (''status'', JStr status), (''detail'', detail)]"
| "response_json (RS_Pending items) =
     jobj [(''result'', JStr ''pending''), (''items'', JArr (map pending_view_json items))]"
| "response_json (RS_Responded ok) = jobj [(''result'', JStr ''responded''), (''ok'', JBool ok)]"
| "response_json (RS_Approval b) = jobj [(''result'', JStr ''approval''), (''approved'', JBool b)]"
| "response_json (RS_KillSwitch b) = jobj [(''result'', JStr ''kill_switch''), (''engaged'', JBool b)]"
| "response_json (RS_Audit n b) =
     jobj [(''result'', JStr ''audit''), (''entries'', JInt (int n)), (''intact'', JBool b)]"
| "response_json (RS_History items) =
     jobj [(''result'', JStr ''history''), (''items'', JArr (map history_view_json items))]"
| "response_json (RS_Vault p t vs) =
     jobj [(''result'', JStr ''vault''), (''protected'', JInt (int p)), (''tokens'', JInt (int t)),
           (''values'', JArr (map JStr vs))]"
| "response_json (RS_Error m) = jobj [(''result'', JStr ''error''), (''message'', JStr m)]"

subsection \<open>The daemon's state and its immediate answers\<close>

text \<open>
  \<open>dm_kill\<close>: the sentinel file exists. A call in flight keeps what it needs after the human's
  answer, with the number of its request in the queue; an external \<open>Approve\<close> only that number.
\<close>

record call_in_flight =
  cf_call :: tool_call
  cf_action :: action
  cf_verdict :: eval_outcome
  cf_explanation :: explanation
  cf_request :: nat

record ('sk, 'prog) daemon =
  dm_gateway :: "('sk, 'prog) gateway"
  dm_queue :: approval_queue
  dm_kill :: bool
  dm_calls :: "call_in_flight list"
  dm_approves :: "nat list"

definition outcome_response :: "gateway_outcome \<Rightarrow> daemon_response" where
  "outcome_response out =
     (case out of
        GO_Allowed detail \<Rightarrow> RS_Outcome ''allowed'' detail
      | GO_Blocked reason \<Rightarrow> RS_Outcome ''blocked'' (jobj [(''reason'', JStr reason)])
      | GO_UpstreamError e \<Rightarrow> RS_Outcome ''upstream_error'' (jobj [(''error'', JStr e)]))"

definition pending_view_of :: "pending_approval \<Rightarrow> pending_view" where
  "pending_view_of p =
     \<lparr>pv_id = pa_id p, pv_action_id = pa_action_id p, pv_tool = pa_tool p,
      pv_plain_text = ex_plain_text (pa_explanation p), pv_risk = ex_risk (pa_explanation p)\<rparr>"

definition history_view_of :: "audit_entry \<Rightarrow> history_view" where
  "history_view_of e =
     \<lparr>hv_decision = ae_decision e, hv_kind = ae_action_kind e, hv_host = ae_host e,
      hv_rule = ae_matched_rule e,
      hv_reason = (case ae_decision_reason e of Some r \<Rightarrow> Some r | None \<Rightarrow> ae_checker_rationale e),
      hv_critical = ae_critical e\<rparr>"

definition vault_response :: "('sk, 'prog) gateway \<Rightarrow> daemon_response" where
  "vault_response g =
     (case vault_stats g of (p, t) \<Rightarrow> RS_Vault p t (protected_masked g))"

definition external_explanation :: "string \<Rightarrow> nat \<Rightarrow> explanation" where
  "external_explanation plain risk = \<lparr>ex_plain_text = plain, ex_risk = risk, ex_rationale = []\<rparr>"

definition kill_switch_set :: "bool \<Rightarrow> bool \<Rightarrow> bool \<Rightarrow> bool" where
  "kill_switch_set engage works exists = (if works then engage else exists)"

text \<open>
  The arms of \<open>dispatch\<close> that answer at once; \<open>works\<close> is whether writing or removing the sentinel
  succeeded, \<open>de\<close> how an entry's stored text decodes. The other two arms wait: None.
\<close>

fun dispatch_now ::
    "('sk, 'vk) crypto \<Rightarrow> (string \<Rightarrow> audit_entry option) \<Rightarrow> bool \<Rightarrow> daemon_request \<Rightarrow> ('sk, 'prog) daemon
       \<Rightarrow> (daemon_response \<times> ('sk, 'prog) daemon) option" where
  "dispatch_now cr de works (RQ_Call t a k c) d = None"
| "dispatch_now cr de works (RQ_Approve i t p r) d = None"
| "dispatch_now cr de works RQ_Pending d =
     Some (RS_Pending (map pending_view_of (queue_pending (dm_queue d))), d)"
| "dispatch_now cr de works (RQ_Respond i approve) d =
     (case queue_respond i (if approve then Approved else Denied) (dm_queue d) of
        (ok, q) \<Rightarrow> Some (RS_Responded ok, d\<lparr>dm_queue := q\<rparr>))"
| "dispatch_now cr de works (RQ_KillSwitch engage) d =
     (let k = kill_switch_set engage works (dm_kill d) in Some (RS_KillSwitch k, d\<lparr>dm_kill := k\<rparr>))"
| "dispatch_now cr de works RQ_VerifyAudit d =
     Some (RS_Audit (gateway_audit_len (dm_gateway d)) (is_ok (gateway_audit_verify cr (dm_gateway d))), d)"
| "dispatch_now cr de works (RQ_History limit) d =
     Some (RS_History (map history_view_of (gateway_audit_tail de (dm_gateway d) limit)), d)"
| "dispatch_now cr de works (RQ_Protect value) d =
     (let g = add_protected value (dm_gateway d) in Some (vault_response g, d\<lparr>dm_gateway := g\<rparr>))"
| "dispatch_now cr de works RQ_Unprotect d =
     (let g = snd (remove_last_protected (dm_gateway d)) in Some (vault_response g, d\<lparr>dm_gateway := g\<rparr>))"
| "dispatch_now cr de works RQ_VaultStatus d = Some (vault_response (dm_gateway d), d)"

subsection \<open>A call, split at its wait\<close>

datatype call_state =
    CS_Done gateway_outcome "port_event list"
  | CS_Ask action eval_outcome explanation

text \<open>The end of \<open>handle\<close>, from the record on.\<close>

definition call_finish ::
    "('sk, 'vk, 'prog) deps \<Rightarrow> gw_io \<Rightarrow> tool_call \<Rightarrow> action \<Rightarrow> eval_outcome
       \<Rightarrow> bool \<times> explanation option \<times> string option \<times> port_event list \<Rightarrow> ('sk, 'prog) gateway
       \<Rightarrow> gateway_outcome \<times> port_event list \<times> ('sk, 'prog) gateway" where
  "call_finish dp io call a out res g =
     (case res of (proceed, expl, resp, evs) \<Rightarrow>
        (case audit_record dp (io_audit_ok io) a (out_decision out) (out_matched_rule out)
                expl resp (out_critical out) g of
           (recorded, ev, g1) \<Rightarrow>
             if proceed \<and> \<not> recorded then (GO_Blocked audit_unavailable, evs @ [ev], g1)
             else if proceed
             then (case forward_call dp io call g1 of (out', fevs, g2) \<Rightarrow> (out', evs @ ev # fevs, g2))
             else (GO_Blocked (case out_decision out of Deny reason \<Rightarrow> reason | _ \<Rightarrow> ''Denied by the user.''),
                   evs @ [ev], g1)))"

text \<open>The start of \<open>handle\<close>, to its end or to the request put to the human.\<close>

definition call_begin ::
    "('sk, 'vk, 'prog) deps \<Rightarrow> gw_io \<Rightarrow> tool_call \<Rightarrow> ('sk, 'prog) gateway
       \<Rightarrow> call_state \<times> ('sk, 'prog) gateway" where
  "call_begin dp io call g0 =
     (let (a, g) = normalize_call (io_now_ms io) call g0 in
      case override_deny (gw_self g) (io_kill_file io) (io_cwd io) a of
        Some reason \<Rightarrow>
          (case audit_record dp (io_audit_ok io) a (Deny reason) (Some ''self-protection'') None None False g of
             (_, ev, g1) \<Rightarrow> (CS_Done (GO_Blocked reason) [ev], g1))
      | None \<Rightarrow>
          (let out = evaluate (dp_cel dp) (gw_policy g) a (gw_env g)
           in case out_decision out of
                Ask _ \<Rightarrow> (CS_Ask a out (io_explain io a), g)
              | Allow \<Rightarrow>
                  (case call_finish dp io call a out (True, None, None, []) g of
                     (o', evs, g') \<Rightarrow> (CS_Done o' evs, g'))
              | Deny _ \<Rightarrow>
                  (case call_finish dp io call a out (False, None, None, []) g of
                     (o', evs, g') \<Rightarrow> (CS_Done o' evs, g'))))"

definition answered_ask ::
    "action \<Rightarrow> explanation \<Rightarrow> approval_response \<Rightarrow> bool \<times> explanation option \<times> string option \<times> port_event list" where
  "answered_ask a expl r =
     (r = Approved, Some expl, Some (if r = Approved then ''approved'' else ''denied''),
      [EV_Explain a, EV_Approve a expl])"

definition call_resume ::
    "('sk, 'vk, 'prog) deps \<Rightarrow> gw_io \<Rightarrow> call_in_flight \<Rightarrow> approval_response \<Rightarrow> ('sk, 'prog) gateway
       \<Rightarrow> gateway_outcome \<times> port_event list \<times> ('sk, 'prog) gateway" where
  "call_resume dp io cf r g =
     call_finish dp io (cf_call cf) (cf_action cf) (cf_verdict cf)
       (answered_ask (cf_action cf) (cf_explanation cf) r) g"

subsection \<open>The daemon as a system of tasks\<close>

text \<open>
  What happens next: a request arrives on some connection, the queue polls one of its futures, a
  task whose answer is there goes on, time passes. \<open>io\<close> is what the ports answer meanwhile; whether
  the sentinel exists is the daemon's state.
\<close>

datatype daemon_op =
    DO_Request daemon_request bool gw_io
  | DO_Poll nat
  | DO_Resume nat gw_io
  | DO_Approved nat
  | DO_Tick nat

datatype daemon_event =
    DE_Reply daemon_request daemon_response
  | DE_Call tool_call gateway_outcome "port_event list"
  | DE_Ask tool_call action explanation
  | DE_Resumed call_in_flight gateway_outcome "port_event list"
  | DE_Approve string string explanation
  | DE_Approved nat bool
  | DE_Poll nat "approval_response option"
  | DE_Tick nat

definition request_call :: "string \<Rightarrow> json \<Rightarrow> action_kind option \<Rightarrow> capability option \<Rightarrow> tool_call" where
  "request_call t a k c =
     \<lparr>tc_tool = t, tc_args = a, tc_kind = k, tc_capability = c, tc_session = None\<rparr>"

definition dispatch_call ::
    "('sk, 'vk, 'prog) deps \<Rightarrow> gw_io \<Rightarrow> tool_call \<Rightarrow> ('sk, 'prog) daemon
       \<Rightarrow> daemon_event \<times> ('sk, 'prog) daemon" where
  "dispatch_call dp io call d =
     (case call_begin dp (io\<lparr>io_kill_file := dm_kill d\<rparr>) call (dm_gateway d) of
        (CS_Done out evs, g) \<Rightarrow> (DE_Call call out evs, d\<lparr>dm_gateway := g\<rparr>)
      | (CS_Ask a out expl, g) \<Rightarrow>
          (DE_Ask call a expl,
           d\<lparr>dm_gateway := g, dm_queue := snd (approver_begin a expl (dm_queue d)),
             dm_calls := dm_calls d @
               [\<lparr>cf_call = call, cf_action = a, cf_verdict = out, cf_explanation = expl,
                 cf_request = length (aq_requests (dm_queue d))\<rparr>]\<rparr>))"

definition dispatch_approve ::
    "string \<Rightarrow> string \<Rightarrow> string \<Rightarrow> nat \<Rightarrow> ('sk, 'prog) daemon \<Rightarrow> daemon_event \<times> ('sk, 'prog) daemon" where
  "dispatch_approve i t plain risk d =
     (let expl = external_explanation plain risk
      in (DE_Approve i t expl,
          d\<lparr>dm_queue := snd (request_begin i t expl (dm_queue d)),
            dm_approves := dm_approves d @ [length (aq_requests (dm_queue d))]\<rparr>))"

fun daemon_act ::
    "('sk, 'vk, 'prog) deps \<Rightarrow> (string \<Rightarrow> audit_entry option) \<Rightarrow> daemon_op \<Rightarrow> ('sk, 'prog) daemon
       \<Rightarrow> (daemon_event \<times> ('sk, 'prog) daemon) option" where
  "daemon_act dp de (DO_Request r works io) d =
     (case r of
        RQ_Call t a k c \<Rightarrow> Some (dispatch_call dp io (request_call t a k c) d)
      | RQ_Approve i t plain risk \<Rightarrow> Some (dispatch_approve i t plain risk d)
      | _ \<Rightarrow> map_option (\<lambda>(resp, d'). (DE_Reply r resp, d')) (dispatch_now (dp_crypto dp) de works r d))"
| "daemon_act dp de (DO_Poll n) d =
     (if n < length (aq_requests (dm_queue d))
      then (case request_poll n (dm_queue d) of (ret, q) \<Rightarrow> Some (DE_Poll n ret, d\<lparr>dm_queue := q\<rparr>))
      else None)"
| "daemon_act dp de (DO_Resume i io) d =
     (if i < length (dm_calls d)
      then (let cf = dm_calls d ! i
            in case qr_phase (aq_requests (dm_queue d) ! cf_request cf) of
                 PH_Done r \<Rightarrow>
                   (case call_resume dp io cf r (dm_gateway d) of
                      (out, evs, g) \<Rightarrow>
                        Some (DE_Resumed cf out evs,
                              d\<lparr>dm_gateway := g, dm_calls := take i (dm_calls d) @ drop (Suc i) (dm_calls d)\<rparr>))
               | _ \<Rightarrow> None)
      else None)"
| "daemon_act dp de (DO_Approved i) d =
     (if i < length (dm_approves d)
      then (case qr_phase (aq_requests (dm_queue d) ! (dm_approves d ! i)) of
              PH_Done r \<Rightarrow>
                Some (DE_Approved (dm_approves d ! i) (r = Approved),
                      d\<lparr>dm_approves := take i (dm_approves d) @ drop (Suc i) (dm_approves d)\<rparr>)
            | _ \<Rightarrow> None)
      else None)"
| "daemon_act dp de (DO_Tick t) d =
     Some (DE_Tick t, d\<lparr>dm_queue := (dm_queue d)\<lparr>aq_now := aq_now (dm_queue d) + t\<rparr>\<rparr>)"

inductive daemon_step ::
    "('sk, 'vk, 'prog) deps \<Rightarrow> (string \<Rightarrow> audit_entry option) \<Rightarrow> ('sk, 'prog) daemon \<Rightarrow> daemon_event
       \<Rightarrow> ('sk, 'prog) daemon \<Rightarrow> bool" for dp de where
  act: "daemon_act dp de op d = Some (ev, d') \<Longrightarrow> daemon_step dp de d ev d'"

inductive_cases daemon_stepE: "daemon_step dp de d ev d'"

definition daemon_new :: "('sk, 'prog) gateway \<Rightarrow> approval_queue \<Rightarrow> bool \<Rightarrow> ('sk, 'prog) daemon" where
  "daemon_new g q kill =
     \<lparr>dm_gateway = g, dm_queue = q, dm_kill = kill, dm_calls = [], dm_approves = []\<rparr>"

subsection \<open>A connection\<close>

text \<open>
  One line of a connection and its reply, given how a request is answered (\<open>dispatch\<close>); \<open>err\<close> is the
  text of a decoding error. Response values always encode.
\<close>

definition connection_reply ::
    "json_lib \<Rightarrow> (string \<Rightarrow> string) \<Rightarrow> (daemon_request \<Rightarrow> 's \<Rightarrow> daemon_response \<times> 's) \<Rightarrow> string \<Rightarrow> 's
       \<Rightarrow> string \<times> 's" where
  "connection_reply jl err dispatch line st =
     (case (case Option.bind (jl_parse jl line) decode_request of
              Some r \<Rightarrow> dispatch r st
            | None \<Rightarrow> (RS_Error (''invalid request: '' @ err line), st)) of
        (resp, st') \<Rightarrow> (jl_show jl (response_json resp), st'))"

fun handle_connection ::
    "json_lib \<Rightarrow> (string \<Rightarrow> string) \<Rightarrow> (daemon_request \<Rightarrow> 's \<Rightarrow> daemon_response \<times> 's) \<Rightarrow> string list \<Rightarrow> 's
       \<Rightarrow> string list \<times> 's" where
  "handle_connection jl err dispatch [] st = ([], st)"
| "handle_connection jl err dispatch (line # lines) st =
     (if trim line = [] then handle_connection jl err dispatch lines st
      else (case connection_reply jl err dispatch line st of
              (reply, st1) \<Rightarrow>
                (case handle_connection jl err dispatch lines st1 of
                   (replies, st2) \<Rightarrow> (reply # replies, st2))))"

subsection \<open>The client\<close>

text \<open>The socket: what one request line gives back, or why it failed.\<close>

type_synonym 's socket = "string \<Rightarrow> 's \<Rightarrow> (string, string) result \<times> 's"

definition client_rpc ::
    "json_lib \<Rightarrow> (string \<Rightarrow> string) \<Rightarrow> 's socket \<Rightarrow> string \<Rightarrow> 's \<Rightarrow> (string, json) result \<times> 's" where
  "client_rpc jl err socket request st =
     (case socket request st of
        (Inl e, st') \<Rightarrow> (Inl e, st')
      | (Inr line, st') \<Rightarrow>
          (case jl_parse jl line of None \<Rightarrow> (Inl (err line), st') | Some v \<Rightarrow> (Inr v, st')))"

definition jstr :: "string \<Rightarrow> string" where
  "jstr s = CHR 0x22 # s @ [CHR 0x22]"

definition bool_text :: "bool \<Rightarrow> string" where
  "bool_text b = (if b then ''true'' else ''false'')"

definition cmd_line :: "string \<Rightarrow> string \<Rightarrow> string" where
  "cmd_line cmd rest = ''{'' @ jstr ''cmd'' @ '':'' @ jstr cmd @ rest @ ''}''"

definition field_or :: "(json \<Rightarrow> 'a option) \<Rightarrow> 'a \<Rightarrow> string \<Rightarrow> json \<Rightarrow> 'a" where
  "field_or dec dflt k v = (case Option.bind (jget k v) dec of Some x \<Rightarrow> x | None \<Rightarrow> dflt)"

definition on_value :: "('a \<Rightarrow> 'b) \<Rightarrow> (string, 'a) result \<times> 's \<Rightarrow> (string, 'b) result \<times> 's" where
  "on_value f r = (case r of (Inl e, st) \<Rightarrow> (Inl e, st) | (Inr v, st) \<Rightarrow> (Inr (f v), st))"

definition vault_triple :: "json \<Rightarrow> nat \<times> nat \<times> string list" where
  "vault_triple v =
     (field_or as_u64 0 ''protected'' v, field_or as_u64 0 ''tokens'' v,
      case Option.bind (jget ''values'' v) as_array of
        Some a \<Rightarrow> List.map_filter as_str a | None \<Rightarrow> [])"

definition dec_pending_view :: "json \<Rightarrow> pending_view option" where
  "dec_pending_view v =
     (case (field (dec_uint 64) None ''id'' v, field as_str None ''action_id'' v, field as_str None ''tool'' v,
            field as_str None ''plain_text'' v, field (dec_uint 8) None ''risk'' v) of
        (Some i, Some a, Some t, Some p, Some r) \<Rightarrow>
          Some \<lparr>pv_id = i, pv_action_id = a, pv_tool = t, pv_plain_text = p, pv_risk = r\<rparr>
      | _ \<Rightarrow> None)"

definition dec_history_view :: "json \<Rightarrow> history_view option" where
  "dec_history_view v =
     (case (field as_str None ''decision'' v, field as_str None ''kind'' v,
            field (dec_opt as_str) (Some None) ''host'' v, field (dec_opt as_str) (Some None) ''rule'' v,
            field (dec_opt as_str) (Some None) ''reason'' v, field as_bool (Some False) ''critical'' v) of
        (Some d, Some k, Some h, Some r, Some s, Some c) \<Rightarrow>
          Some \<lparr>hv_decision = d, hv_kind = k, hv_host = h, hv_rule = r, hv_reason = s, hv_critical = c\<rparr>
      | _ \<Rightarrow> None)"

text \<open>\<open>from_value\<close> of a list; \<open>derr\<close> is the text of its error.\<close>

definition dec_items :: "(json \<Rightarrow> string) \<Rightarrow> (json \<Rightarrow> 'a option) \<Rightarrow> json \<Rightarrow> (string, 'a list) result" where
  "dec_items derr dec v =
     (case as_array v of
        None \<Rightarrow> Inl (derr v)
      | Some xs \<Rightarrow>
          (case those (map dec xs) of Some ys \<Rightarrow> Inr ys | None \<Rightarrow> Inl (derr v)))"

definition client_pending ::
    "json_lib \<Rightarrow> (string \<Rightarrow> string) \<Rightarrow> (json \<Rightarrow> string) \<Rightarrow> 's socket \<Rightarrow> 's
       \<Rightarrow> (string, pending_view list) result \<times> 's" where
  "client_pending jl err derr socket st =
     (case client_rpc jl err socket (cmd_line ''pending'' []) st of
        (Inl e, st') \<Rightarrow> (Inl e, st')
      | (Inr v, st') \<Rightarrow>
          (dec_items derr dec_pending_view (case jget ''items'' v of Some x \<Rightarrow> x | None \<Rightarrow> JArr []), st'))"

definition client_history ::
    "json_lib \<Rightarrow> (string \<Rightarrow> string) \<Rightarrow> (json \<Rightarrow> string) \<Rightarrow> 's socket \<Rightarrow> nat \<Rightarrow> 's
       \<Rightarrow> (string, history_view list) result \<times> 's" where
  "client_history jl err derr socket limit st =
     (case client_rpc jl err socket (cmd_line ''history'' ('','' @ jstr ''limit'' @ '':'' @ dec_nat limit)) st of
        (Inl e, st') \<Rightarrow> (Inl e, st')
      | (Inr v, st') \<Rightarrow>
          (dec_items derr dec_history_view (case jget ''items'' v of Some x \<Rightarrow> x | None \<Rightarrow> JNull), st'))"

definition client_respond ::
    "json_lib \<Rightarrow> (string \<Rightarrow> string) \<Rightarrow> 's socket \<Rightarrow> nat \<Rightarrow> bool \<Rightarrow> 's \<Rightarrow> (string, bool) result \<times> 's" where
  "client_respond jl err socket i approve st =
     on_value (field_or as_bool False ''ok'')
       (client_rpc jl err socket (cmd_line ''respond'' ('','' @ jstr ''id'' @ '':'' @ dec_nat i
          @ '','' @ jstr ''approve'' @ '':'' @ bool_text approve)) st)"

definition client_kill_switch ::
    "json_lib \<Rightarrow> (string \<Rightarrow> string) \<Rightarrow> 's socket \<Rightarrow> bool \<Rightarrow> 's \<Rightarrow> (string, bool) result \<times> 's" where
  "client_kill_switch jl err socket engage st =
     on_value (field_or as_bool False ''engaged'')
       (client_rpc jl err socket (cmd_line ''kill_switch'' ('','' @ jstr ''engage'' @ '':'' @ bool_text engage)) st)"

definition client_protect ::
    "json_lib \<Rightarrow> (string \<Rightarrow> string) \<Rightarrow> 's socket \<Rightarrow> string \<Rightarrow> 's
       \<Rightarrow> (string, nat \<times> nat \<times> string list) result \<times> 's" where
  "client_protect jl err socket value st =
     on_value vault_triple
       (client_rpc jl err socket
          (jl_show jl (jobj [(''cmd'', JStr ''protect''), (''value'', JStr value)])) st)"

definition client_unprotect ::
    "json_lib \<Rightarrow> (string \<Rightarrow> string) \<Rightarrow> 's socket \<Rightarrow> 's \<Rightarrow> (string, nat \<times> nat \<times> string list) result \<times> 's" where
  "client_unprotect jl err socket st =
     on_value vault_triple (client_rpc jl err socket (cmd_line ''unprotect'' []) st)"

definition client_vault_status ::
    "json_lib \<Rightarrow> (string \<Rightarrow> string) \<Rightarrow> 's socket \<Rightarrow> 's \<Rightarrow> (string, nat \<times> nat \<times> string list) result \<times> 's" where
  "client_vault_status jl err socket st =
     on_value vault_triple (client_rpc jl err socket (cmd_line ''vault_status'' []) st)"

definition approve_request :: "string \<Rightarrow> string \<Rightarrow> string \<Rightarrow> nat \<Rightarrow> json" where
  "approve_request i t plain risk = jobj
     [(''cmd'', JStr ''approve''), (''action_id'', JStr i), (''tool'', JStr t), (''plain_text'', JStr plain),
      (''risk'', JInt (int risk))]"

definition client_approve ::
    "json_lib \<Rightarrow> (string \<Rightarrow> string) \<Rightarrow> 's socket \<Rightarrow> string \<Rightarrow> string \<Rightarrow> string \<Rightarrow> nat \<Rightarrow> 's
       \<Rightarrow> (string, bool) result \<times> 's" where
  "client_approve jl err socket i t plain risk st =
     on_value (field_or as_bool False ''approved'')
       (client_rpc jl err socket (jl_show jl (approve_request i t plain risk)) st)"

text \<open>\<open>to_value\<close> of a call, and the request made of it.\<close>

definition tool_call_fields :: "tool_call \<Rightarrow> (string \<times> json) list" where
  "tool_call_fields call =
     [(''tool'', JStr (tc_tool call)), (''args'', tc_args call),
      (''kind'', enc_opt (\<lambda>k. JStr (kind_name k)) (tc_kind call)),
      (''capability'', enc_opt (\<lambda>c. JStr (capability_name c)) (tc_capability call)),
      (''session'', enc_opt JStr (tc_session call))]"

definition call_request :: "tool_call \<Rightarrow> json" where
  "call_request call = jobj (tool_call_fields call @ [(''cmd'', JStr ''call'')])"

definition decode_outcome :: "json \<Rightarrow> gateway_outcome" where
  "decode_outcome v =
     (let status = field_or as_str [] ''status'' v;
          detail = (case jget ''detail'' v of Some d \<Rightarrow> d | None \<Rightarrow> JNull)
      in if status = ''allowed'' then GO_Allowed detail
         else if status = ''blocked'' then GO_Blocked (field_or as_str ''blocked'' ''reason'' detail)
         else if status = ''upstream_error'' then GO_UpstreamError (field_or as_str ''error'' ''error'' detail)
         else GO_Blocked (''unexpected daemon response: '' @ status))"

definition client_call ::
    "json_lib \<Rightarrow> (string \<Rightarrow> string) \<Rightarrow> 's socket \<Rightarrow> tool_call \<Rightarrow> 's \<Rightarrow> (string, gateway_outcome) result \<times> 's" where
  "client_call jl err socket call st =
     on_value decode_outcome (client_rpc jl err socket (jl_show jl (call_request call)) st)"

text \<open>\<open>DaemonRouter::route\<close>: a router for the MCP server.\<close>

definition daemon_route :: "json_lib \<Rightarrow> (string \<Rightarrow> string) \<Rightarrow> 's socket \<Rightarrow> 's router" where
  "daemon_route jl err socket call st =
     (case client_call jl err socket call st of
        (Inr out, st') \<Rightarrow> (out, st')
      | (Inl e, st') \<Rightarrow> (GO_Blocked (''daemon unreachable: '' @ e), st'))"

end
