(* ===== verification/Daemon_Config.thy ===== *)
theory Daemon_Config
  imports Daemon Pack
begin

text \<open>
  The daemon's configuration (\<open>guardian-daemon/src/config.rs\<close>) and its start (\<open>main.rs\<close>). The
  environment is a map; a variable whose value is not UTF-8 counts as unset, as \<open>std::env::var\<close> has it.
  The TOML parser is a parameter, and so is what the file system answers. A panic is an error value
  with its message. Paths are Unix paths.
\<close>

subsection \<open>Paths\<close>

type_synonym environment = "string \<rightharpoonup> string"

text \<open>
  \<open>Path::parent\<close>: a trailing \<open>/\<close> or \<open>/.\<close> does not count; no parent of the root and of the empty path.
\<close>

fun rtrim_path :: "string \<Rightarrow> string" where
  "rtrim_path (c # d # cs) =
     (if c = CHR ''/'' then rtrim_path (d # cs)
      else if c = CHR ''.'' \<and> d = CHR ''/'' then (if cs = [] then [d] else rtrim_path cs)
      else c # d # cs)"
| "rtrim_path cs = cs"

definition path_parent :: "string \<Rightarrow> string option" where
  "path_parent p =
     (let r = rtrim_path (rev p)
      in if r = [] \<or> r = ''/'' then None
         else (let rest = dropWhile (\<lambda>c. c \<noteq> CHR ''/'') r in Some (rev (rtrim_path rest))))"

definition guardian_dir :: "environment \<Rightarrow> string" where
  "guardian_dir env = path_join (case env ''HOME'' of Some h \<Rightarrow> h | None \<Rightarrow> ''.'') ''.guardian''"

definition config_path :: "environment \<Rightarrow> string" where
  "config_path env =
     (case env ''GUARDIAN_CONFIG'' of Some p \<Rightarrow> p | None \<Rightarrow> path_join (guardian_dir env) ''config.toml'')"

definition kill_switch_path :: "environment \<Rightarrow> string" where
  "kill_switch_path env =
     (case path_parent (config_path env) of
        Some d \<Rightarrow> path_join d ''STOP'' | None \<Rightarrow> path_join (guardian_dir env) ''STOP'')"

text \<open>Read an environment variable as a non-empty path.\<close>

definition env_path :: "environment \<Rightarrow> string \<Rightarrow> string option" where
  "env_path env var = (case env var of Some v \<Rightarrow> if v \<noteq> [] then Some v else None | None \<Rightarrow> None)"

subsection \<open>The configuration\<close>

definition DEFAULT_TIMEOUT_SECS :: nat where
  "DEFAULT_TIMEOUT_SECS = 120"

record config =
  cfg_socket :: "string option"
  cfg_policy :: "string option"
  cfg_audit :: "string option"
  cfg_approval_timeout_secs :: "nat option"
  cfg_checker_endpoint :: "string option"
  cfg_trusted_hosts :: "string list"
  cfg_protect :: "string list"
  cfg_notifications :: "bool option"

definition config_default :: config where
  "config_default =
     \<lparr>cfg_socket = None, cfg_policy = None, cfg_audit = None, cfg_approval_timeout_secs = None,
      cfg_checker_endpoint = None, cfg_trusted_hosts = [], cfg_protect = [], cfg_notifications = None\<rparr>"

datatype config_error =
    CE_Io string string
  | CE_Toml string string

fun config_error_message :: "config_error \<Rightarrow> string" where
  "config_error_message (CE_Io path source) = ''reading config '' @ path @ '': '' @ source"
| "config_error_message (CE_Toml path source) = ''parsing config '' @ path @ '': '' @ source"

definition config_from_path ::
    "(string \<Rightarrow> (string, string) result) \<Rightarrow> (string \<Rightarrow> (string, config) result) \<Rightarrow> string
       \<Rightarrow> (config_error, config) result" where
  "config_from_path read_file toml path =
     (case read_file path of
        Inl e \<Rightarrow> Inl (CE_Io path e)
      | Inr src \<Rightarrow> (case toml src of Inl e \<Rightarrow> Inl (CE_Toml path e) | Inr c \<Rightarrow> Inr c))"

text \<open>
  \<open>load\<close>: on the first run (\<open>exists\<close> is false) the file it tries to write, with the template as its
  text, and the default; the write is best effort.
\<close>

definition config_load ::
    "environment \<Rightarrow> (string \<Rightarrow> bool) \<Rightarrow> (string \<Rightarrow> (string, string) result)
       \<Rightarrow> (string \<Rightarrow> (string, config) result) \<Rightarrow> string option \<times> (config_error, config) result" where
  "config_load env exists read_file toml =
     (let path = config_path env
      in if \<not> exists path then (Some path, Inr config_default)
         else (None, config_from_path read_file toml path))"

definition socket_path :: "environment \<Rightarrow> string \<Rightarrow> config \<Rightarrow> string" where
  "socket_path env temp_dir c =
     (case env_path env ''GUARDIAN_SOCK'' of
        Some p \<Rightarrow> p
      | None \<Rightarrow> (case cfg_socket c of Some p \<Rightarrow> p | None \<Rightarrow> path_join temp_dir ''guardian.sock''))"

definition policy_path :: "environment \<Rightarrow> config \<Rightarrow> string option" where
  "policy_path env c =
     (case env_path env ''GUARDIAN_POLICY'' of Some p \<Rightarrow> Some p | None \<Rightarrow> cfg_policy c)"

definition audit_path :: "environment \<Rightarrow> config \<Rightarrow> string" where
  "audit_path env c =
     (case env_path env ''GUARDIAN_AUDIT'' of
        Some p \<Rightarrow> p
      | None \<Rightarrow> (case cfg_audit c of Some p \<Rightarrow> p | None \<Rightarrow> path_join (guardian_dir env) ''audit.db''))"

definition approval_timeout :: "config \<Rightarrow> nat" where
  "approval_timeout c =
     (case cfg_approval_timeout_secs c of
        Some n \<Rightarrow> if n > 0 then n else DEFAULT_TIMEOUT_SECS | None \<Rightarrow> DEFAULT_TIMEOUT_SECS)"

definition checker_endpoint :: "environment \<Rightarrow> config \<Rightarrow> string option" where
  "checker_endpoint env c =
     (case env ''GUARDIAN_CHECKER'' of
        Some v \<Rightarrow> if v \<noteq> [] then Some v else cfg_checker_endpoint c
      | None \<Rightarrow> cfg_checker_endpoint c)"

definition notifications_enabled :: "config \<Rightarrow> bool" where
  "notifications_enabled c = (case cfg_notifications c of Some b \<Rightarrow> b | None \<Rightarrow> True)"

subsection \<open>The start of the daemon\<close>

definition quote_paren :: "string \<Rightarrow> string" where
  "quote_paren s = ''('' @ s @ '')''"

definition daemon_load_policy ::
    "(string \<Rightarrow> (string, policy) result) \<Rightarrow> (string \<Rightarrow> (string, 'prog) result)
       \<Rightarrow> (string \<Rightarrow> (string, string) result) \<Rightarrow> string \<Rightarrow> string option
       \<Rightarrow> (string, 'prog compiled_policy) result" where
  "daemon_load_policy toml cel_compile read_file default_policy path =
     (case path of
        Some p \<Rightarrow>
          (case read_file p of
             Inl e \<Rightarrow> Inl (''cannot read policy '' @ quote_paren p @ '': '' @ e)
           | Inr src \<Rightarrow>
               (case compiled_from_toml_str toml cel_compile src of
                  Inl e \<Rightarrow> Inl (''policy '' @ quote_paren p @ '' failed to compile: '' @ policy_error_message e)
                | Inr cp \<Rightarrow> Inr cp))
      | None \<Rightarrow>
          (case compiled_from_toml_str toml cel_compile default_policy of
             Inl e \<Rightarrow> Inl (''default policy must compile: '' @ policy_error_message e)
           | Inr cp \<Rightarrow> Inr cp))"

text \<open>\<open>opened\<close> is what opening the database gives; \<open>msg\<close> prints an error of the log.\<close>

definition open_audit ::
    "('sk, 'vk) crypto \<Rightarrow> (audit_error \<Rightarrow> string) \<Rightarrow> (string, unit) result \<Rightarrow> (string, 'sk audit_log) result
       \<Rightarrow> string \<Rightarrow> (string, 'sk audit_log) result" where
  "open_audit cr msg made_dir opened path =
     (case made_dir of
        Inl e \<Rightarrow> Inl (''cannot create '' @ (case path_parent path of Some d \<Rightarrow> d | None \<Rightarrow> []) @ '': '' @ e)
      | Inr _ \<Rightarrow>
          (case opened of
             Inl e \<Rightarrow> Inl (''cannot open audit log '' @ path @ '': '' @ e)
           | Inr lg \<Rightarrow>
               (case audit_verify cr lg of
                  Inl e \<Rightarrow> Inl (''audit log '' @ path @ '' failed its integrity check '' @ quote_paren (msg e)
                    @ ''; refusing to start'')
                | Inr _ \<Rightarrow> Inr lg)))"

definition protected_files :: "environment \<Rightarrow> string \<Rightarrow> config \<Rightarrow> string list" where
  "protected_files env temp_dir c =
     [guardian_dir env, config_path env, kill_switch_path env, audit_path env c, socket_path env temp_dir c]
     @ (case policy_path env c of Some p \<Rightarrow> [p] | None \<Rightarrow> [])"

text \<open>The surroundings of a start: the environment, the files, the parsers.\<close>

record ('sk, 'vk, 'prog) host =
  ho_env :: environment
  ho_temp_dir :: string
  ho_exists :: "string \<Rightarrow> bool"
  ho_read :: "string \<Rightarrow> (string, string) result"
  ho_config_toml :: "string \<Rightarrow> (string, config) result"
  ho_policy_toml :: "string \<Rightarrow> (string, policy) result"
  ho_cel_compile :: "string \<Rightarrow> (string, 'prog) result"
  ho_default_policy :: string
  ho_made_dir :: "(string, unit) result"
  ho_opened :: "string \<Rightarrow> (string, 'sk audit_log) result"
  ho_crypto :: "('sk, 'vk) crypto"
  ho_audit_message :: "audit_error \<Rightarrow> string"

text \<open>What is served: the daemon, where its Checker and its socket are.\<close>

record ('sk, 'prog) served =
  sv_daemon :: "('sk, 'prog) daemon"
  sv_checker :: "string option"
  sv_socket :: string

definition daemon_gateway ::
    "environment \<Rightarrow> string \<Rightarrow> config \<Rightarrow> 'prog compiled_policy \<Rightarrow> 'sk audit_log \<Rightarrow> ('sk, 'prog) gateway" where
  "daemon_gateway env temp_dir c pol lg =
     with_data_protection (cfg_protect c)
       (with_self_protection \<lparr>sf_protected = protected_files env temp_dir c, sf_kill_switch = True\<rparr>
          (gateway_new ''daemon'' pol lg
             \<lparr>env_user_home = (case env ''HOME'' of Some h \<Rightarrow> h | None \<Rightarrow> ''/tmp''),
              env_trusted_hosts = cfg_trusted_hosts c\<rparr>))"

definition daemon_main :: "('sk, 'vk, 'prog) host \<Rightarrow> (string, ('sk, 'prog) served) result" where
  "daemon_main ho =
     (case snd (config_load (ho_env ho) (ho_exists ho) (ho_read ho) (ho_config_toml ho)) of
        Inl e \<Rightarrow> Inl (''config: '' @ config_error_message e)
      | Inr c \<Rightarrow>
          (case daemon_load_policy (ho_policy_toml ho) (ho_cel_compile ho) (ho_read ho) (ho_default_policy ho)
                  (policy_path (ho_env ho) c) of
             Inl e \<Rightarrow> Inl e
           | Inr pol \<Rightarrow>
               (let path = audit_path (ho_env ho) c
                in case open_audit (ho_crypto ho) (ho_audit_message ho) (ho_made_dir ho) (ho_opened ho path) path of
                     Inl e \<Rightarrow> Inl e
                   | Inr lg \<Rightarrow>
                       Inr \<lparr>sv_daemon = daemon_new (daemon_gateway (ho_env ho) (ho_temp_dir ho) c pol lg)
                              (with_notifications (notifications_enabled c) (queue_new (approval_timeout c)))
                              (ho_exists ho (kill_switch_path (ho_env ho))),
                            sv_checker = checker_endpoint (ho_env ho) c,
                            sv_socket = socket_path (ho_env ho) (ho_temp_dir ho) c\<rparr>)))"

end
