(* ===== verification/Daemon_Laws.thy ===== *)
theory Daemon_Laws
  imports Daemon Approval_Laws Mcp_Laws
begin

text \<open>
  The daemon refines its parts: the tasks of \<open>Daemon\<close> drive the approval queue by its own steps, a
  call split at its wait is \<open>handle\<close>, and a call through the socket and the client is a call of the
  gateway. With the history of the queue this gives what a daemon forwards its human's approval for.
\<close>

subsection \<open>The messages\<close>

lemma dec_kind_name: "dec_kind (JStr (kind_name k)) = Some k"
  by (cases k) (simp_all add: dec_kind_def)

lemma dec_capability_name: "dec_capability (JStr (capability_name c)) = Some c"
  by (cases c) (simp_all add: dec_capability_def)

lemma dec_opt_enc: "dec (enc x) = Some x \<Longrightarrow> enc x \<noteq> JNull \<Longrightarrow> dec_opt dec (enc_opt enc (Some x)) = Some (Some x)"
  by (simp add: dec_opt_def enc_opt_def)

lemma dec_opt_None: "dec_opt dec (enc_opt enc None) = Some None"
  by (simp add: dec_opt_def enc_opt_def)

lemma dec_opt_kind [simp]:
  "dec_opt dec_kind (enc_opt (\<lambda>k. JStr (kind_name k)) k) = Some k"
  by (cases k) (simp_all add: dec_opt_None dec_opt_enc [where enc = "\<lambda>k. JStr (kind_name k)"] dec_kind_name)

lemma dec_opt_capability [simp]:
  "dec_opt dec_capability (enc_opt (\<lambda>c. JStr (capability_name c)) c) = Some c"
  by (cases c)
     (simp_all add: dec_opt_None dec_opt_enc [where enc = "\<lambda>c. JStr (capability_name c)"] dec_capability_name)

lemma decode_call_request:
  "decode_request (call_request call) =
     Some (RQ_Call (tc_tool call) (tc_args call) (tc_kind call) (tc_capability call))"
  by (simp add: decode_request_def call_request_def tool_call_fields_def field_def jget_str_def jget_jobj)

lemma decode_approve_request:
  "risk < 256 \<Longrightarrow> decode_request (approve_request i t plain risk) = Some (RQ_Approve i t plain risk)"
  by (simp add: decode_request_def approve_request_def field_def jget_str_def jget_jobj dec_uint_def)

lemma decode_outcome_response: "decode_outcome (response_json (outcome_response out)) = out"
  by (cases out) (simp_all add: outcome_response_def decode_outcome_def field_or_def jget_jobj Let_def)

subsection \<open>A split call\<close>

lemma handle_split:
  "handle dp io call g =
     (case call_begin dp io call g of
        (CS_Done out evs, g') \<Rightarrow> (out, evs, g')
      | (CS_Ask a out expl, g') \<Rightarrow>
          call_resume dp io \<lparr>cf_call = call, cf_action = a, cf_verdict = out, cf_explanation = expl,
            cf_request = n\<rparr> (io_approve io a expl) g')"
  unfolding handle_def call_begin_def
  by (cases "normalize_call (io_now_ms io) call g")
     (auto simp: call_resume_def call_finish_def answered_ask_def resolve_decision_def Let_def
       split: option.split decision.split prod.split)

lemma call_begin_done_events:
  assumes "call_begin dp io call g = (CS_Done out evs, g')" and "EV_Forward fc \<in> set evs"
  shows "fst (snd (handle dp io call g)) = evs"
  using assms handle_split [of dp io call g] by simp

subsection \<open>The queue inside the daemon\<close>

fun queue_events :: "daemon_event \<Rightarrow> queue_event list" where
  "queue_events (DE_Reply (RQ_Respond i b) (RS_Responded ok)) = [QE_Respond i (if b then Approved else Denied) ok]"
| "queue_events (DE_Reply r resp) = []"
| "queue_events (DE_Call call out evs) = []"
| "queue_events (DE_Ask call a expl) = [QE_Begin (act_id a) (act_tool a) expl]"
| "queue_events (DE_Resumed cf out evs) = []"
| "queue_events (DE_Approve i t expl) = [QE_Begin i t expl]"
| "queue_events (DE_Approved n b) = []"
| "queue_events (DE_Poll n ret) = [QE_Poll n ret]"
| "queue_events (DE_Tick t) = [QE_Tick t]"

definition queue_trace :: "daemon_event list \<Rightarrow> queue_event list" where
  "queue_trace evs = concat (map queue_events evs)"

lemma queue_trace_simps [simp]:
  "queue_trace [] = []" "queue_trace (xs @ ys) = queue_trace xs @ queue_trace ys"
  "queue_trace [e] = queue_events e" "queue_trace (e # es) = queue_events e @ queue_trace es"
  by (simp_all add: queue_trace_def)

lemma daemon_act_queue:
  assumes "daemon_act dp de op d = Some (ev, d')"
  shows "runs queue_step (dm_queue d) (queue_events ev) (dm_queue d')"
proof (cases op)
  case (DO_Request r works io)
  have b: "runs queue_step q [QE_Begin a t e] (snd (request_begin a t e q))" for q a t e
    by (simp add: step_begin)
  show ?thesis
  proof (cases r)
    case (RQ_Call t a k c)
    with assms b show ?thesis
      by (auto simp: DO_Request dispatch_call_def approver_begin_def split: prod.splits call_state.splits)
  next
    case (RQ_Respond i approve)
    with assms show ?thesis
      by (auto simp: DO_Request queue_step_respond split: prod.splits)
  next
    case (RQ_Approve i t plain risk)
    with assms b show ?thesis
      by (auto simp: DO_Request dispatch_approve_def Let_def)
  qed (use assms in \<open>auto simp: DO_Request Let_def\<close>)
next
  case (DO_Poll n)
  with assms show ?thesis
    by (auto simp: queue_step_poll split: if_splits prod.splits)
next
  case (DO_Resume i io)
  with assms show ?thesis
    by (auto simp: Let_def split: if_splits request_phase.splits prod.splits)
next
  case (DO_Approved i)
  with assms show ?thesis
    by (auto split: if_splits request_phase.splits)
next
  case (DO_Tick t)
  with assms show ?thesis
    by (auto simp: step_tick)
qed

lemma daemon_runs_queue:
  "runs (daemon_step dp de) d0 evs d \<Longrightarrow> runs queue_step (dm_queue d0) (queue_trace evs) (dm_queue d)"
  by (induction rule: runs.induct)
     (auto simp: runs_append elim!: daemon_stepE dest: daemon_act_queue)

text \<open>A response of the trace is a response on a connection.\<close>

lemma queue_events_cases:
  "queue_events ev = pre @ QE_Respond i resp ok # post \<Longrightarrow>
     pre = [] \<and> post = [] \<and> (\<exists>b. ev = DE_Reply (RQ_Respond i b) (RS_Responded ok)
       \<and> resp = (if b then Approved else Denied))"
  by (induction ev rule: queue_events.induct) (auto simp: Cons_eq_append_conv)

lemma queue_trace_respond:
  assumes "queue_trace evs = qpre @ QE_Respond i resp ok # qpost"
  shows "\<exists>pre post. evs = pre @ DE_Reply (RQ_Respond i (resp = Approved)) (RS_Responded ok) # post
     \<and> queue_trace pre = qpre"
  using assms
proof (induction evs arbitrary: qpre)
  case (Cons ev evs)
  from Cons.prems obtain us where
    "queue_events ev = qpre @ us \<and> us @ queue_trace evs = QE_Respond i resp ok # qpost
     \<or> queue_events ev @ us = qpre \<and> queue_trace evs = us @ QE_Respond i resp ok # qpost"
    by (auto simp: append_eq_append_conv2)
  then show ?case
  proof
    assume a: "queue_events ev = qpre @ us \<and> us @ queue_trace evs = QE_Respond i resp ok # qpost"
    show ?thesis
    proof (cases us)
      case Nil
      with a Cons.IH [of "[]"] obtain pre post where
        "evs = pre @ DE_Reply (RQ_Respond i (resp = Approved)) (RS_Responded ok) # post" "queue_trace pre = []"
        by auto
      with a Nil show ?thesis
        by (intro exI [of _ "ev # pre"] exI [of _ post]) simp
    next
      case (Cons u us')
      with a have "queue_events ev = qpre @ QE_Respond i resp ok # us'" by simp
      from queue_events_cases [OF this] show ?thesis
        by - (rule exI [of _ "[]"], rule exI [of _ evs], auto split: if_splits)
    qed
  next
    assume a: "queue_events ev @ us = qpre \<and> queue_trace evs = us @ QE_Respond i resp ok # qpost"
    with Cons.IH [of us] obtain pre post where
      "evs = pre @ DE_Reply (RQ_Respond i (resp = Approved)) (RS_Responded ok) # post" "queue_trace pre = us"
      by auto
    with a show ?thesis
      by (intro exI [of _ "ev # pre"] exI [of _ post]) simp
  qed
qed simp

text \<open>An event determines the queue it leads to.\<close>

lemma queue_step_det: "queue_step q ev q1 \<Longrightarrow> queue_step q ev q2 \<Longrightarrow> q1 = q2"
proof (induction q ev q1 rule: queue_step.induct)
  case (step_begin q a t e)
  then show ?case by (cases rule: queue_step.cases) (simp only: queue_event.inject)
next
  case (step_poll n q ret q')
  then show ?case unfolding queue_step_poll by (metis prod.inject)
next
  case (step_respond i resp q ok q')
  then show ?case unfolding queue_step_respond by (metis prod.inject)
next
  case (step_tick q t)
  then show ?case by (cases rule: queue_step.cases) (simp only: queue_event.inject)
qed

lemma queue_runs_det: "runs queue_step q evs q1 \<Longrightarrow> runs queue_step q evs q2 \<Longrightarrow> q1 = q2"
proof (induction arbitrary: q2 rule: runs.induct)
  case (runs_snoc q evs q1 e q1')
  from runs_snoc.prems obtain q3 where q3: "runs queue_step q evs q3" "queue_step q3 e q2"
    unfolding runs_snoc_iff by (elim exE conjE)
  have "q3 = q1"
    using runs_snoc.IH [OF q3(1)] by (rule sym)
  with q3(2) runs_snoc.hyps(2) show ?case
    by (simp only:) (rule queue_step_det)
qed simp

subsection \<open>What a daemon has done\<close>

text \<open>The ports during a call: whether the sentinel exists is the daemon's state.\<close>

abbreviation daemon_io :: "gw_io \<Rightarrow> ('sk, 'prog) daemon \<Rightarrow> gw_io" where
  "daemon_io io d \<equiv> io\<lparr>io_kill_file := dm_kill d\<rparr>"

lemma call_begin_ask:
  assumes "call_begin dp io call g = (CS_Ask a out expl, g')"
  shows "call_override io call g = None \<and> a = call_action io call g \<and> out = call_verdict dp io call g
    \<and> (\<exists>r. out_decision out = Ask r) \<and> expl = io_explain io a"
proof -
  obtain a where a: "normalize_call (io_now_ms io) call g =
      (a, g\<lparr>gw_counter := (gw_counter g + 1) mod 2 ^ 64\<rparr>)"
    by (metis normalize_call_state prod.collapse)
  show ?thesis
    using assms by (auto simp: call_begin_def a Let_def split: option.splits decision.splits prod.splits)
qed

lemma call_begin_forward:
  assumes b: "call_begin dp io call g = (CS_Done out evs, g')" and f: "EV_Forward fc \<in> set evs"
  shows "call_override io call g = None \<and> out_decision (call_verdict dp io call g) = Allow
    \<and> fc = restored_call io call g"
proof -
  have "fst (snd (handle dp io call g)) = evs"
    using handle_split [of dp io call g] b by simp
  with forward_event f have c: "fc = restored_call io call g" "call_cleared dp io call g"
    by blast+
  moreover obtain a where a: "normalize_call (io_now_ms io) call g =
      (a, g\<lparr>gw_counter := (gw_counter g + 1) mod 2 ^ 64\<rparr>)"
    by (metis normalize_call_state prod.collapse)
  have "out_decision (call_verdict dp io call g) \<noteq> Ask r" for r
    using b c(2)
    by (auto simp: call_begin_def call_cleared_def a Let_def split: option.splits decision.splits prod.splits)
  ultimately show ?thesis
    by (auto simp: call_cleared_def split: decision.splits)
qed

lemma restored_call_audit [simp]: "restored_call io call (g\<lparr>gw_audit := lg\<rparr>) = restored_call io call g"
  by (simp add: restored_call_def tokenization_on_def session_vault_def split: option.split)

lemma call_finish_forward:
  fixes dp :: "('sk, 'vk, 'prog) deps"
  assumes "EV_Forward fc \<in> set (fst (snd (call_finish dp io call a out (proceed, expl, resp, evs) g)))"
    and "EV_Forward fc \<notin> set evs"
  shows "proceed \<and> fc = restored_call io call g"
proof (cases "call_finish dp io call a out (proceed, expl, resp, evs) g")
  case (fields o' pevs g')
  have e: "fc = restored_call io call g1"
    if "forward_call dp io call g1 = (x, y, z)" "EV_Forward fc \<in> set y" for g1 :: "('sk, 'prog) gateway" and x y z
    using forward_call_events [of dp io call g1] that by (force simp: filter_empty_conv)
  show ?thesis
    using assms by (auto simp: call_finish_def audit_record_eq Let_def dest: e split: prod.splits if_splits)
qed

lemma call_resume_forward:
  fixes dp :: "('sk, 'vk, 'prog) deps"
  assumes "call_resume dp io cf r g = (out, evs, g')" and "EV_Forward fc \<in> set evs"
  shows "r = Approved \<and> fc = restored_call io (cf_call cf) g"
proof -
  have "EV_Forward fc \<in> set (fst (snd (call_resume dp io cf r g)))"
    using assms by simp
  from call_finish_forward [OF this [unfolded call_resume_def answered_ask_def]] show ?thesis
    by simp
qed

fun port_events :: "daemon_event \<Rightarrow> port_event list" where
  "port_events (DE_Call call out evs) = evs"
| "port_events (DE_Resumed cf out evs) = evs"
| "port_events _ = []"

text \<open>
  A call in flight put its \<open>ask\<close> to the human: in the state \<open>d1\<close> in which it arrived, no hard override
  applied and the policy asked; the run went on from there to the present state \<open>d\<close>.
\<close>

definition asked ::
    "('sk, 'vk, 'prog) deps \<Rightarrow> (string \<Rightarrow> audit_entry option) \<Rightarrow> ('sk, 'prog) daemon \<Rightarrow> daemon_event list
       \<Rightarrow> ('sk, 'prog) daemon \<Rightarrow> call_in_flight \<Rightarrow> bool" where
  "asked dp de d0 evs d cf \<longleftrightarrow>
     (\<exists>pre post d1 d2 t args k c works io.
        evs = pre @ DE_Ask (cf_call cf) (cf_action cf) (cf_explanation cf) # post
        \<and> runs (daemon_step dp de) d0 pre d1
        \<and> daemon_act dp de (DO_Request (RQ_Call t args k c) works io) d1 =
            Some (DE_Ask (cf_call cf) (cf_action cf) (cf_explanation cf), d2)
        \<and> runs (daemon_step dp de) d2 post d
        \<and> cf_call cf = request_call t args k c
        \<and> cf_request cf = length (aq_requests (dm_queue d1))
        \<and> call_override (daemon_io io d1) (cf_call cf) (dm_gateway d1) = None
        \<and> cf_action cf = call_action (daemon_io io d1) (cf_call cf) (dm_gateway d1)
        \<and> cf_verdict cf = call_verdict dp (daemon_io io d1) (cf_call cf) (dm_gateway d1)
        \<and> (\<exists>r. out_decision (cf_verdict cf) = Ask r))"

text \<open>What the cockpit shows for it.\<close>

definition call_shown :: "call_in_flight \<Rightarrow> pending_approval" where
  "call_shown cf =
     \<lparr>pa_id = cf_request cf mod 2 ^ 64, pa_action_id = act_id (cf_action cf), pa_tool = act_tool (cf_action cf),
      pa_explanation = cf_explanation cf\<rparr>"

text \<open>Somebody on the socket approved what was shown for it, while it was shown.\<close>

definition approved_on_socket ::
    "('sk, 'vk, 'prog) deps \<Rightarrow> (string \<Rightarrow> audit_entry option) \<Rightarrow> ('sk, 'prog) daemon \<Rightarrow> daemon_event list
       \<Rightarrow> call_in_flight \<Rightarrow> bool" where
  "approved_on_socket dp de d0 evs cf \<longleftrightarrow>
     (\<exists>pre post d1. evs = pre @ DE_Reply (RQ_Respond (cf_request cf mod 2 ^ 64) True) (RS_Responded True) # post
        \<and> runs (daemon_step dp de) d0 pre d1
        \<and> (\<forall>p. p \<in> set (queue_pending (dm_queue d1)) \<and> pa_id p = cf_request cf mod 2 ^ 64
             \<longleftrightarrow> p = call_shown cf))"

lemma asked_step:
  assumes "asked dp de d0 evs d cf" and "daemon_step dp de d ev d'"
  shows "asked dp de d0 (evs @ [ev]) d' cf"
proof -
  obtain pre post d1 d2 t args k c works io where
    "evs = pre @ DE_Ask (cf_call cf) (cf_action cf) (cf_explanation cf) # post"
    and post: "runs (daemon_step dp de) d2 post d"
    and rest: "runs (daemon_step dp de) d0 pre d1"
      "daemon_act dp de (DO_Request (RQ_Call t args k c) works io) d1 =
         Some (DE_Ask (cf_call cf) (cf_action cf) (cf_explanation cf), d2)"
      "cf_call cf = request_call t args k c" "cf_request cf = length (aq_requests (dm_queue d1))"
      "call_override (daemon_io io d1) (cf_call cf) (dm_gateway d1) = None"
      "cf_action cf = call_action (daemon_io io d1) (cf_call cf) (dm_gateway d1)"
      "cf_verdict cf = call_verdict dp (daemon_io io d1) (cf_call cf) (dm_gateway d1)"
      "\<exists>r. out_decision (cf_verdict cf) = Ask r"
    using assms(1) unfolding asked_def by blast
  then have "evs @ [ev] = pre @ DE_Ask (cf_call cf) (cf_action cf) (cf_explanation cf) # post @ [ev]" by simp
  moreover have "runs (daemon_step dp de) d2 (post @ [ev]) d'"
    using post assms(2) by (rule runs_snoc)
  ultimately show ?thesis
    unfolding asked_def using rest by blast
qed

definition daemon_start :: "('sk, 'prog) daemon \<Rightarrow> bool" where
  "daemon_start d \<longleftrightarrow> (\<exists>g q k. d = daemon_new g q k \<and> queue_start q)"

lemma daemon_start_queue: "daemon_start d \<Longrightarrow> queue_start (dm_queue d)"
  by (auto simp: daemon_start_def daemon_new_def)

lemma daemon_queue_hist:
  "runs (daemon_step dp de) d0 evs d \<Longrightarrow> daemon_start d0
     \<Longrightarrow> queue_hist (dm_queue d0) (queue_trace evs) (dm_queue d)"
  by (rule approvals.run_hist [OF daemon_runs_queue daemon_start_queue])

lemma asked_shown:
  assumes st: "daemon_start d0" and a: "asked dp de d0 evs d cf" and r: "runs (daemon_step dp de) d0 evs d"
  shows "cf_request cf < length (aq_requests (dm_queue d)) \<and> shown (queue_trace evs) (cf_request cf) = call_shown cf"
proof -
  obtain pre post d1 where evs: "evs = pre @ DE_Ask (cf_call cf) (cf_action cf) (cf_explanation cf) # post"
    and p: "runs (daemon_step dp de) d0 pre d1" and n: "cf_request cf = length (aq_requests (dm_queue d1))"
    using a unfolding asked_def by blast
  have "cf_request cf = length (begins (queue_trace pre))"
    using daemon_queue_hist [OF p st] n by (simp add: queue_hist_def)
  then have "cf_request cf < length (begins (queue_trace evs))"
    "begins (queue_trace evs) ! cf_request cf = (act_id (cf_action cf), act_tool (cf_action cf), cf_explanation cf)"
    by (simp_all add: evs nth_append)
  with daemon_queue_hist [OF r st] show ?thesis
    by (simp add: queue_hist_def shown_def call_shown_def)
qed

lemma approval_on_socket:
  assumes st: "daemon_start d0" and r: "runs (daemon_step dp de) d0 evs d" and a: "asked dp de d0 evs d cf"
    and ph: "qr_phase (req (dm_queue d) (cf_request cf)) = PH_Done Approved"
  shows "approved_on_socket dp de d0 evs cf"
proof -
  let ?n = "cf_request cf"
  note sh = asked_shown [OF st a r]
  obtain qpre qpost q1 where t: "queue_trace evs = qpre @ QE_Respond (?n mod 2 ^ 64) Approved True # qpost"
    and q1: "runs queue_step (dm_queue d0) qpre q1"
    and p: "\<forall>p. p \<in> set (queue_pending q1) \<and> pa_id p = ?n mod 2 ^ 64 \<longleftrightarrow> p = call_shown cf"
    using approval_given [OF daemon_start_queue [OF st] daemon_queue_hist [OF r st] _ ph] sh by auto
  obtain pre post where evs: "evs = pre @ DE_Reply (RQ_Respond (?n mod 2 ^ 64) True) (RS_Responded True) # post"
    and tp: "queue_trace pre = qpre"
    using queue_trace_respond [OF t] by auto
  obtain d1 where d1: "runs (daemon_step dp de) d0 pre d1"
    using r unfolding evs runs_append by blast
  have "runs queue_step (dm_queue d0) qpre (dm_queue d1)"
    using daemon_runs_queue [OF d1] tp by simp
  then have "dm_queue d1 = q1"
    using queue_runs_det q1 by blast
  with evs d1 p show ?thesis
    unfolding approved_on_socket_def by blast
qed

lemma dispatch_now_calls:
  "dispatch_now cr de works r d = Some (resp, d') \<Longrightarrow> dm_calls d' = dm_calls d"
  by (cases r) (auto simp: Let_def split: prod.splits)

lemma set_take_drop: "i < length xs \<Longrightarrow> xs ! i \<in> set xs \<and> set (take i xs @ drop (Suc i) xs) \<subseteq> set xs"
  by (auto dest: in_set_takeD in_set_dropD)

text \<open>The step kinds that touch the calls in flight.\<close>

lemma daemon_act_effect:
  assumes "daemon_act dp de op d = Some (ev, d')"
  shows "(\<exists>t args k c works io cf. op = DO_Request (RQ_Call t args k c) works io
       \<and> cf_call cf = request_call t args k c
       \<and> ev = DE_Ask (cf_call cf) (cf_action cf) (cf_explanation cf)
       \<and> dm_calls d' = dm_calls d @ [cf] \<and> cf_request cf = length (aq_requests (dm_queue d))
       \<and> call_begin dp (daemon_io io d) (cf_call cf) (dm_gateway d) =
           (CS_Ask (cf_action cf) (cf_verdict cf) (cf_explanation cf), dm_gateway d'))
   \<or> (\<exists>i io r out pevs. op = DO_Resume i io \<and> i < length (dm_calls d)
       \<and> ev = DE_Resumed (dm_calls d ! i) out pevs
       \<and> set (dm_calls d') \<subseteq> set (dm_calls d)
       \<and> qr_phase (req (dm_queue d) (cf_request (dm_calls d ! i))) = PH_Done r
       \<and> call_resume dp io (dm_calls d ! i) r (dm_gateway d) = (out, pevs, dm_gateway d'))
   \<or> (\<exists>t args k c works io out pevs. op = DO_Request (RQ_Call t args k c) works io
       \<and> ev = DE_Call (request_call t args k c) out pevs \<and> dm_calls d' = dm_calls d
       \<and> call_begin dp (daemon_io io d) (request_call t args k c) (dm_gateway d) =
           (CS_Done out pevs, dm_gateway d'))
   \<or> dm_calls d' = dm_calls d \<and> port_events ev = []"
proof (cases op)
  case (DO_Request r works io)
  show ?thesis
  proof (cases r)
    case (RQ_Call t a k c)
    show ?thesis
    proof (cases "call_begin dp (daemon_io io d) (request_call t a k c) (dm_gateway d)")
      case (Pair s g)
      show ?thesis
      proof (cases s)
        case (CS_Ask b out expl)
        have "dm_calls d' = dm_calls d @ [\<lparr>cf_call = request_call t a k c, cf_action = b, cf_verdict = out,
            cf_explanation = expl, cf_request = length (aq_requests (dm_queue d))\<rparr>]"
          and "ev = DE_Ask (request_call t a k c) b expl" and "dm_gateway d' = g"
          using assms by (auto simp: DO_Request RQ_Call dispatch_call_def Pair CS_Ask)
        with Pair CS_Ask DO_Request RQ_Call show ?thesis by force
      next
        case (CS_Done out evs)
        with assms Pair show ?thesis
          by (auto simp: DO_Request RQ_Call dispatch_call_def)
      qed
    qed
  qed (use assms in \<open>auto simp: DO_Request dispatch_approve_def Let_def split: prod.splits\<close>)
next
  case (DO_Resume i io)
  with assms set_take_drop [of i "dm_calls d"] show ?thesis
    by (auto simp: Let_def split: if_splits request_phase.splits prod.splits)
next
  case (DO_Poll n)
  with assms show ?thesis by (auto split: if_splits prod.splits)
next
  case (DO_Approved i)
  with assms show ?thesis by (auto split: if_splits request_phase.splits)
qed (use assms in auto)

text \<open>The history of a run: every call in flight put its \<open>ask\<close> to the human.\<close>

definition daemon_hist ::
    "('sk, 'vk, 'prog) deps \<Rightarrow> (string \<Rightarrow> audit_entry option) \<Rightarrow> ('sk, 'prog) daemon \<Rightarrow> daemon_event list
       \<Rightarrow> ('sk, 'prog) daemon \<Rightarrow> bool" where
  "daemon_hist dp de d0 evs d \<longleftrightarrow> (\<forall>cf \<in> set (dm_calls d). asked dp de d0 evs d cf)"

lemma daemon_hist_step:
  assumes r: "runs (daemon_step dp de) d0 evs d" and h: "daemon_hist dp de d0 evs d"
    and s: "daemon_step dp de d ev d'"
  shows "daemon_hist dp de d0 (evs @ [ev]) d'"
  unfolding daemon_hist_def
proof
  fix cf assume cf: "cf \<in> set (dm_calls d')"
  have keep: "asked dp de d0 (evs @ [ev]) d' cf" if "cf \<in> set (dm_calls d)"
    using h that asked_step [OF _ s] by (simp add: daemon_hist_def)
  obtain op where a: "daemon_act dp de op d = Some (ev, d')"
    using s by (rule daemon_stepE)
  from daemon_act_effect [OF this] show "asked dp de d0 (evs @ [ev]) d' cf"
  proof (elim disjE exE conjE)
    fix t args k c works io cf'
    assume op: "op = DO_Request (RQ_Call t args k c) works io" and call: "cf_call cf' = request_call t args k c"
      and ev: "ev = DE_Ask (cf_call cf') (cf_action cf') (cf_explanation cf')"
      and c: "dm_calls d' = dm_calls d @ [cf']" and n: "cf_request cf' = length (aq_requests (dm_queue d))"
      and b: "call_begin dp (daemon_io io d) (cf_call cf') (dm_gateway d) =
        (CS_Ask (cf_action cf') (cf_verdict cf') (cf_explanation cf'), dm_gateway d')"
    have "asked dp de d0 (evs @ [ev]) d' cf'"
      unfolding asked_def
      by (rule exI [of _ evs], rule exI [of _ "[]"], rule exI [of _ d], rule exI [of _ d'], rule exI [of _ t],
          rule exI [of _ args], rule exI [of _ k], rule exI [of _ c], rule exI [of _ works], rule exI [of _ io])
        (use call_begin_ask [OF b] r a n ev call op in auto)
    with c cf keep show ?thesis by auto
  qed (use cf keep in auto)
qed

interpretation daemons: hist_system "daemon_step dp de" daemon_start "daemon_hist dp de"
  for dp :: "('sk, 'vk, 'prog) deps" and de
proof unfold_locales
  fix d0 :: "('sk, 'prog) daemon"
  assume "daemon_start d0"
  then show "daemon_hist dp de d0 [] d0"
    unfolding daemon_start_def by (elim exE conjE) (simp add: daemon_new_def daemon_hist_def)
next
  fix d0 d d' :: "('sk, 'prog) daemon" and evs ev
  assume "runs (daemon_step dp de) d0 evs d" "daemon_hist dp de d0 evs d" "daemon_step dp de d ev d'"
  then show "daemon_hist dp de d0 (evs @ [ev]) d'"
    by (rule daemon_hist_step)
qed

subsection \<open>The client and the connection\<close>

text \<open>What is printed for this value parses to it.\<close>

definition carries :: "json_lib \<Rightarrow> json \<Rightarrow> bool" where
  "carries jl v \<longleftrightarrow> jl_parse jl (jl_show jl v) = Some v"

text \<open>A connection as the client's socket: always there, one reply for the line.\<close>

definition connected ::
    "json_lib \<Rightarrow> (string \<Rightarrow> string) \<Rightarrow> (daemon_request \<Rightarrow> 's \<Rightarrow> daemon_response \<times> 's) \<Rightarrow> 's socket" where
  "connected jl err dispatch line st =
     (case connection_reply jl err dispatch line st of (reply, st') \<Rightarrow> (Inr reply, st'))"

lemma client_rpc_connected:
  assumes "carries jl v" and "decode_request v = Some r" and "dispatch r st = (resp, st')"
    and "carries jl (response_json resp)"
  shows "client_rpc jl cerr (connected jl err dispatch) (jl_show jl v) st = (Inr (response_json resp), st')"
  using assms by (simp add: client_rpc_def connected_def connection_reply_def carries_def)

text \<open>
  How the connections of this daemon answer the requests that do not wait. \<open>dispatch\<close> is what they
  answer to a request in a state, with the state they leave.
\<close>

definition answers_now ::
    "('sk, 'vk, 'prog) deps \<Rightarrow> (string \<Rightarrow> audit_entry option) \<Rightarrow> bool
       \<Rightarrow> (daemon_request \<Rightarrow> ('sk, 'prog) daemon \<Rightarrow> daemon_response \<times> ('sk, 'prog) daemon) \<Rightarrow> bool" where
  "answers_now dp de works dispatch \<longleftrightarrow>
     (\<forall>r d x. dispatch_now (dp_crypto dp) de works r d = Some x \<longrightarrow> dispatch r d = x)"

text \<open>
  How the daemon answers a call that arrives over the socket in state \<open>d\<close>, with the outcome \<open>out\<close> and
  the port events \<open>pevs\<close>, in state \<open>d'\<close>: at once, or, after the steps \<open>mid\<close> of the other tasks, when its
  own task goes on with the answer \<open>r\<close> of the queue. \<open>io\<close> is what the ports answer at the arrival,
  \<open>io'\<close> when the call goes on.
\<close>

abbreviation socket_request :: "tool_call \<Rightarrow> daemon_request" where
  "socket_request call \<equiv> RQ_Call (tc_tool call) (tc_args call) (tc_kind call) (tc_capability call)"

definition call_answered ::
    "('sk, 'vk, 'prog) deps \<Rightarrow> (string \<Rightarrow> audit_entry option) \<Rightarrow> tool_call \<Rightarrow> gw_io \<Rightarrow> gw_io
       \<Rightarrow> ('sk, 'prog) daemon \<Rightarrow> daemon_event list \<Rightarrow> approval_response \<Rightarrow> gateway_outcome \<Rightarrow> port_event list
       \<Rightarrow> ('sk, 'prog) daemon \<Rightarrow> bool" where
  "call_answered dp de call io io' d mid r out pevs d' \<longleftrightarrow>
     (\<exists>works c. daemon_act dp de (DO_Request (socket_request call) works io) d = Some (DE_Call c out pevs, d')
        \<and> mid = [] \<and> io' = io)
   \<or> (\<exists>works c a expl d1 d2 i cf.
        daemon_act dp de (DO_Request (socket_request call) works io) d = Some (DE_Ask c a expl, d1)
        \<and> runs (daemon_step dp de) d1 mid d2
        \<and> i < length (dm_calls d2) \<and> dm_calls d2 ! i = last (dm_calls d1)
        \<and> qr_phase (req (dm_queue d2) (cf_request (dm_calls d2 ! i))) = PH_Done r
        \<and> daemon_act dp de (DO_Resume i io') d2 = Some (DE_Resumed cf out pevs, d'))"

text \<open>What the ports answer to the call as a whole.\<close>

definition served_io :: "gw_io \<Rightarrow> gw_io \<Rightarrow> ('sk, 'prog) daemon \<Rightarrow> approval_response \<Rightarrow> gw_io" where
  "served_io io io' d r =
     io'\<lparr>io_now_ms := io_now_ms io, io_kill_file := dm_kill d, io_cwd := io_cwd io,
         io_explain := io_explain io, io_approve := (\<lambda>_ _. r)\<rparr>"

text \<open>The steps that leave the gateway as it is.\<close>

fun leaves_gateway :: "daemon_event \<Rightarrow> bool" where
  "leaves_gateway (DE_Call _ _ _) = False"
| "leaves_gateway (DE_Ask _ _ _) = False"
| "leaves_gateway (DE_Resumed _ _ _) = False"
| "leaves_gateway (DE_Reply (RQ_Protect _) _) = False"
| "leaves_gateway (DE_Reply RQ_Unprotect _) = False"
| "leaves_gateway _ = True"

lemma daemon_act_gateway:
  assumes "daemon_act dp de op d = Some (ev, d')" and "leaves_gateway ev"
  shows "dm_gateway d' = dm_gateway d"
proof (cases op)
  case (DO_Request r works io)
  with assms show ?thesis
    by (cases r) (auto simp: dispatch_call_def dispatch_approve_def Let_def split: prod.splits call_state.splits)
qed (use assms in \<open>auto simp: Let_def split: if_splits prod.splits request_phase.splits\<close>)

lemma daemon_runs_gateway:
  "runs (daemon_step dp de) d evs d' \<Longrightarrow> \<forall>ev \<in> set evs. leaves_gateway ev \<Longrightarrow> dm_gateway d' = dm_gateway d"
  by (induction rule: runs.induct) (auto elim!: daemon_stepE dest: daemon_act_gateway)

lemma call_begin_asks_same:
  assumes "call_begin dp io call g = (CS_Ask a out expl, g')"
    and "io_now_ms jo = io_now_ms io" "io_kill_file jo = io_kill_file io" "io_cwd jo = io_cwd io"
    and "io_explain jo = io_explain io"
  shows "call_begin dp jo call g = (CS_Ask a out expl, g')"
  using assms by (auto simp: call_begin_def Let_def split: prod.splits option.splits decision.splits)

lemma forward_call_same:
  assumes "io_forward jo = io_forward io" "io_detect jo = io_detect io" "io_rng jo = io_rng io"
  shows "forward_call dp jo call g = forward_call dp io call g"
  unfolding forward_call_def assms ..

lemma call_resume_same:
  assumes "io_audit_ok jo = io_audit_ok io" "io_forward jo = io_forward io" "io_detect jo = io_detect io"
    and "io_rng jo = io_rng io"
  shows "call_resume dp jo cf r g = call_resume dp io cf r g"
  unfolding call_resume_def call_finish_def assms(1) forward_call_same [OF assms(2-)] ..

lemma call_begin_approve [simp]: "call_begin dp (io\<lparr>io_approve := h\<rparr>) call g = call_begin dp io call g"
proof -
  let ?io = "io\<lparr>io_approve := h\<rparr>"
  have io: "io_now_ms ?io = io_now_ms io" "io_kill_file ?io = io_kill_file io" "io_cwd ?io = io_cwd io"
    "io_explain ?io = io_explain io" "io_audit_ok ?io = io_audit_ok io" "io_forward ?io = io_forward io"
    "io_detect ?io = io_detect io" "io_rng ?io = io_rng io"
    by simp_all
  show ?thesis
    unfolding call_begin_def call_finish_def io(1-5) forward_call_same [OF io(6-8)] ..
qed

lemma answered_as_handled:
  assumes "call_answered dp de call io io' d mid r out pevs d'" and "\<forall>ev \<in> set mid. leaves_gateway ev"
  shows "handle dp (served_io io io' d r) (call\<lparr>tc_session := None\<rparr>) (dm_gateway d) = (out, pevs, dm_gateway d')"
proof -
  let ?call = "call\<lparr>tc_session := None\<rparr>" and ?g = "dm_gateway d" and ?io = "served_io io io' d r"
  have c: "request_call (tc_tool call) (tc_args call) (tc_kind call) (tc_capability call) = ?call"
    by (simp add: request_call_def)
  show ?thesis
    using assms(1) unfolding call_answered_def
  proof (elim disjE exE conjE)
    fix works x
    assume a: "daemon_act dp de (DO_Request (socket_request call) works io) d = Some (DE_Call x out pevs, d')"
      and io: "io' = io"
    have b: "call_begin dp (daemon_io io d) ?call ?g = (CS_Done out pevs, dm_gateway d')"
      using a by (auto simp: c dispatch_call_def split: prod.splits call_state.splits)
    have "call_begin dp ?io ?call ?g = (CS_Done out pevs, dm_gateway d')"
    proof -
      have "?io = (daemon_io io d)\<lparr>io_approve := \<lambda>_ _. r\<rparr>"
        by (simp add: served_io_def io)
      with b show ?thesis by simp
    qed
    then show ?thesis
      using handle_split [of dp ?io ?call ?g] by simp
  next
    fix works x a expl d1 d2 i cf
    assume q: "daemon_act dp de (DO_Request (socket_request call) works io) d = Some (DE_Ask x a expl, d1)"
      and mid: "runs (daemon_step dp de) d1 mid d2" and i: "i < length (dm_calls d2)"
      and l: "dm_calls d2 ! i = last (dm_calls d1)"
      and ph: "qr_phase (req (dm_queue d2) (cf_request (dm_calls d2 ! i))) = PH_Done r"
      and res: "daemon_act dp de (DO_Resume i io') d2 = Some (DE_Resumed cf out pevs, d')"
    obtain v where b: "call_begin dp (daemon_io io d) ?call ?g = (CS_Ask a v expl, dm_gateway d1)"
      and cf: "last (dm_calls d1) = \<lparr>cf_call = ?call, cf_action = a, cf_verdict = v, cf_explanation = expl,
        cf_request = length (aq_requests (dm_queue d))\<rparr>"
      using q by (auto simp: c dispatch_call_def split: prod.splits call_state.splits)
    have g: "dm_gateway d2 = dm_gateway d1"
      by (rule daemon_runs_gateway [OF mid assms(2)])
    have "call_resume dp io' (dm_calls d2 ! i) r (dm_gateway d1) = (out, pevs, dm_gateway d')"
      using res i ph g by (auto simp: Let_def split: prod.splits)
    moreover have "call_begin dp ?io ?call ?g = (CS_Ask a v expl, dm_gateway d1)"
      by (rule call_begin_asks_same [OF b]) (simp_all add: served_io_def)
    moreover have "call_resume dp ?io y r z = call_resume dp io' y r z" for y and z :: "('a, 'c) gateway"
      by (rule call_resume_same) (simp_all add: served_io_def)
    ultimately show ?thesis
      using handle_split [of dp ?io ?call ?g "length (aq_requests (dm_queue d))"]
      by (simp add: l cf served_io_def)
  qed
qed

subsection \<open>Properties\<close>

text \<open>
  C3: what the daemon forwards was cleared. In every run of the daemon, with any number of
  connections, a step forwards a call to the upstream in one of two ways only. Either it is the
  arrival of the call, and in the state in which it arrived (its kill switch, its gateway) no hard
  override applied and the policy allowed it. Or it is the end of the wait of a call that, in the
  state in which it had arrived, met no hard override and an \<open>ask\<close> of the policy; its request was put
  to the queue, and somebody on the socket approved, by its number, the pending request that showed
  the action id, the tool and the explanation of this very call and that alone was shown under that
  number. What is forwarded is that call, with the tokens of its session in the gateway's present
  vault restored.
\<close>

theorem daemon_forwards_cleared:
  assumes "daemon_start d0" and "runs (daemon_step dp de) d0 evs d"
    and "daemon_act dp de op d = Some (ev, d')" and "EV_Forward fc \<in> set (port_events ev)"
  shows "(\<exists>t args k c works io. op = DO_Request (RQ_Call t args k c) works io
       \<and> call_override (daemon_io io d) (request_call t args k c) (dm_gateway d) = None
       \<and> out_decision (call_verdict dp (daemon_io io d) (request_call t args k c) (dm_gateway d)) = Allow
       \<and> fc = restored_call (daemon_io io d) (request_call t args k c) (dm_gateway d))
    \<or> (\<exists>i io. op = DO_Resume i io \<and> i < length (dm_calls d)
       \<and> asked dp de d0 evs d (dm_calls d ! i) \<and> approved_on_socket dp de d0 evs (dm_calls d ! i)
       \<and> fc = restored_call io (cf_call (dm_calls d ! i)) (dm_gateway d))"
  using daemon_act_effect [OF assms(3)]
proof (elim disjE exE conjE)
  fix i io r out pevs
  assume op: "op = DO_Resume i io" "i < length (dm_calls d)" "ev = DE_Resumed (dm_calls d ! i) out pevs"
    and ph: "qr_phase (req (dm_queue d) (cf_request (dm_calls d ! i))) = PH_Done r"
    and res: "call_resume dp io (dm_calls d ! i) r (dm_gateway d) = (out, pevs, dm_gateway d')"
  have a: "asked dp de d0 evs d (dm_calls d ! i)"
    using daemons.run_hist [OF assms(2,1)] op(2) by (simp add: daemon_hist_def)
  have f: "r = Approved \<and> fc = restored_call io (cf_call (dm_calls d ! i)) (dm_gateway d)"
    using assms(4) op(3) by (intro call_resume_forward [OF res]) simp
  with approval_on_socket [OF assms(1,2) a] ph op a show ?thesis by auto
next
  fix t args k c works io out pevs
  assume "op = DO_Request (RQ_Call t args k c) works io" "ev = DE_Call (request_call t args k c) out pevs"
    and b: "call_begin dp (daemon_io io d) (request_call t args k c) (dm_gateway d) = (CS_Done out pevs, dm_gateway d')"
  with assms(4) call_begin_forward [OF b, of fc] show ?thesis by auto
qed (use assms(4) in auto)

text \<open>
  C8: the queue inside the daemon is the queue. Every run of the daemon drives its approval
  queue by a run of the queue's own steps: one \<open>request\<close> for each \<open>ask\<close> of a call and each external
  \<open>Approve\<close>, one \<open>respond\<close> for each \<open>Respond\<close>; every other request leaves it as it is.
\<close>

theorem daemon_refines_queue:
  assumes "runs (daemon_step dp de) d0 evs d"
  shows "runs queue_step (dm_queue d0) (queue_trace evs) (dm_queue d)"
  by (rule daemon_runs_queue [OF assms])

text \<open>
  C26: a call through the daemon is a call of its gateway. A client sends a call over a connection
  and the daemon answers it, at once or after a wait in which other connections were served but
  none touched the gateway. Then \<open>DaemonRouter\<close> returns the outcome, and outcome, port events and
  gateway are those of the gateway's own \<open>handle\<close> for the call without its session (which never
  reaches the daemon), with the queue's answer as the human's. The two messages are assumed to
  survive printing and parsing.
\<close>

theorem router_equals_gateway:
  assumes "call_answered dp de call io io' d mid r out pevs d'" and "\<forall>ev \<in> set mid. leaves_gateway ev"
    and "dispatch (socket_request call) d = (outcome_response out, d')"
    and "carries jl (call_request call)" and "carries jl (response_json (outcome_response out))"
  shows "daemon_route jl cerr (connected jl err dispatch) call d = (out, d')
    \<and> handle dp (served_io io io' d r) (call\<lparr>tc_session := None\<rparr>) (dm_gateway d) = (out, pevs, dm_gateway d')"
proof
  have "client_rpc jl cerr (connected jl err dispatch)
      (jl_show jl (call_request call)) d = (Inr (response_json (outcome_response out)), d')"
    by (rule client_rpc_connected [where dispatch = dispatch, OF assms(4) decode_call_request assms(3,5)])
  then show "daemon_route jl cerr (connected jl err dispatch) call d = (out, d')"
    by (simp add: daemon_route_def client_call_def on_value_def decode_outcome_response)
qed (rule answered_as_handled [OF assms(1,2)])

text \<open>An external approval through the socket is the answer of the daemon.\<close>

lemma client_approve_answer:
  assumes "risk < 256" and "carries jl (approve_request i t plain risk)"
    and "dispatch (RQ_Approve i t plain risk) d = (RS_Approval b, d')"
    and "carries jl (response_json (RS_Approval b))"
  shows "client_approve jl cerr (connected jl err dispatch) i t plain risk d = (Inr b, d')"
proof -
  have "client_rpc jl cerr (connected jl err dispatch)
      (jl_show jl (approve_request i t plain risk)) d = (Inr (response_json (RS_Approval b)), d')"
    by (rule client_rpc_connected [where dispatch = dispatch, OF assms(2) decode_approve_request [OF assms(1)] assms(3,4)])
  then show ?thesis
    by (simp add: client_approve_def on_value_def field_or_def jget_jobj)
qed

text \<open>
  the messages of a call lose nothing but the session. The request the client makes of a
  call decodes to its tool, arguments, kind and capability, and the outcome the client reads from
  the response is the outcome the gateway returned.
\<close>

theorem daemon_call_roundtrip:
  "decode_request (call_request call) =
     Some (RQ_Call (tc_tool call) (tc_args call) (tc_kind call) (tc_capability call))
   \<and> decode_outcome (response_json (outcome_response out)) = out"
  by (simp add: decode_call_request decode_outcome_response)

subsection \<open>An example run\<close>

lemma call_begin_asks:
  assumes "call_override io call g = None" and "out_decision (call_verdict dp io call g) = Ask r"
  shows "call_begin dp io call g =
    (CS_Ask (call_action io call g) (call_verdict dp io call g) (io_explain io (call_action io call g)),
     g\<lparr>gw_counter := (gw_counter g + 1) mod 2 ^ 64\<rparr>)"
proof -
  obtain a where a: "normalize_call (io_now_ms io) call g =
      (a, g\<lparr>gw_counter := (gw_counter g + 1) mod 2 ^ 64\<rparr>)"
    by (metis normalize_call_state prod.collapse)
  show ?thesis
    using assms by (simp add: call_begin_def a Let_def)
qed

definition ex_wire_call :: tool_call where
  "ex_wire_call = (ex_call K_Exec ''/x'')\<lparr>tc_session := None\<rparr>"

text \<open>A gateway that asks for \<open>exec\<close> and watches a kill switch, which is not engaged yet.\<close>

definition ex_watched :: "(bool, string) gateway" where
  "ex_watched = with_self_protection \<lparr>sf_protected = [], sf_kill_switch = True\<rparr> (ex_gateway K_Exec DK_Ask)"

definition ex_daemon :: "(bool, string) daemon" where
  "ex_daemon = daemon_new ex_watched (with_notifications False (queue_new 5)) False"

lemma ex_wire_call_verdict:
  "gw_policy g = gw_policy (ex_gateway k d) \<Longrightarrow> k = K_Exec \<Longrightarrow>
     out_decision (call_verdict ex_dp io ex_wire_call g) = decision_from_kind d None"
proof -
  assume p: "gw_policy g = gw_policy (ex_gateway k d)" and k: "k = K_Exec"
  have "call_action io ex_wire_call g = call_action io (ex_call K_Exec ''/x'') g"
    by (simp add: normalize_call_def build_action_def ex_wire_call_def ex_call_def)
  with ex_gateway_verdict [OF p, of io "''/x''"] k show ?thesis by simp
qed

lemma ex_resume_forwards:
  assumes "gw_audit g = open_log empty_db" and "io_audit_ok io"
  shows "\<exists>fc. EV_Forward fc \<in> set (fst (snd (call_resume ex_dp io cf Approved g)))"
proof -
  have i: "chain_intact ex_crypto (al_db (gw_audit g)) []"
    using assms(1) from_conn_empty [of ex_crypto None] by (simp add: open_log_def)
  have ok: "is_ok (fst (audit_append (dp_crypto ex_dp) (dp_ser_entry ex_dp) (io_audit_ok io) (gw_audit g) e))" for e
    using audit_append_intact [OF i, of ex_ser True] assms(2)
    by (simp add: ex_dp_def audit_room_def ex_ser_def Let_def)
  have f: "\<exists>post. fst (snd (forward_call ex_dp io (cf_call cf) g1)) = EV_Forward (restored_call io (cf_call cf) g1) # post"
    for g1 :: "(bool, string) gateway"
    using forward_call_events [of ex_dp io "cf_call cf" g1] by blast
  show ?thesis
    using f [of "g\<lparr>gw_audit := snd (audit_append (dp_crypto ex_dp) (dp_ser_entry ex_dp) (io_audit_ok io) (gw_audit g)
        (for_decision (cf_action cf) (out_decision (cf_verdict cf)) (out_matched_rule (cf_verdict cf))
          (Some (ex_rationale (cf_explanation cf))) (Some ''approved'') (out_critical (cf_verdict cf))))\<rparr>"]
    by (auto simp: call_resume_def call_finish_def answered_ask_def audit_record_eq ok Let_def split: prod.split)
qed

lemma ex_queue_steps:
  "\<exists>q2 q3 q4.
     (let q1 = snd (request_begin i t e (with_notifications False (queue_new 5)))
      in length (aq_requests q1) = 1 \<and> request_poll 0 q1 = (None, q2))
     \<and> length (aq_requests q2) = 1 \<and> queue_respond 0 Approved q2 = (True, q3)
     \<and> length (aq_requests q3) = 1 \<and> request_poll 0 q3 = (Some Approved, q4)
     \<and> qr_phase (req q4 0) = PH_Done Approved"
  by (simp add: queue_sim with_notifications_def)

text \<open>The daemon with one call that waits for the human.\<close>

definition ex_asked :: "call_in_flight \<Rightarrow> approval_queue \<Rightarrow> bool \<Rightarrow> (bool, string) daemon" where
  "ex_asked cf q k =
     \<lparr>dm_gateway = ex_watched\<lparr>gw_counter := (gw_counter ex_watched + 1) mod 2 ^ 64\<rparr>, dm_queue = q,
      dm_kill = k, dm_calls = [cf], dm_approves = []\<rparr>"

lemma ex_daemon_asks:
  "\<exists>cf. cf_request cf = 0
     \<and> daemon_act ex_dp (\<lambda>_. None) (DO_Request (socket_request ex_wire_call) True ex_io) ex_daemon =
         Some (DE_Ask ex_wire_call (cf_action cf) (cf_explanation cf),
           ex_asked cf (snd (request_begin (act_id (cf_action cf)) (act_tool (cf_action cf)) (cf_explanation cf)
             (with_notifications False (queue_new 5)))) False)"
proof -
  let ?g = ex_watched and ?io = "daemon_io ex_io ex_daemon"
  let ?a = "call_action ?io ex_wire_call ?g" and ?g1 = "?g\<lparr>gw_counter := (gw_counter ?g + 1) mod 2 ^ 64\<rparr>"
  let ?e = "io_explain ?io ?a"
  obtain r where "out_decision (call_verdict ex_dp ?io ex_wire_call ?g) = Ask r"
    using ex_wire_call_verdict [of ?g K_Exec DK_Ask ?io]
    by (auto simp: decision_from_kind_def ex_watched_def with_self_protection_def)
  have no: "call_override ?io ex_wire_call ?g = None"
    by (simp add: override_deny_def protects_def ex_watched_def with_self_protection_def ex_daemon_def
          daemon_new_def split: option.split)
  from call_begin_asks [OF no \<open>out_decision _ = Ask r\<close>] have b:
    "call_begin ex_dp ?io ex_wire_call ?g = (CS_Ask ?a (call_verdict ex_dp ?io ex_wire_call ?g) ?e, ?g1)"
    by simp
  let ?cf = "\<lparr>cf_call = ex_wire_call, cf_action = ?a, cf_verdict = call_verdict ex_dp ?io ex_wire_call ?g,
    cf_explanation = ?e, cf_request = 0\<rparr>"
  let ?q1 = "snd (request_begin (act_id ?a) (act_tool ?a) ?e (with_notifications False (queue_new 5)))"
  have w: "request_call (tc_tool ex_wire_call) (tc_args ex_wire_call) (tc_kind ex_wire_call)
      (tc_capability ex_wire_call) = ex_wire_call"
    by (simp add: request_call_def ex_wire_call_def)
  have d0: "dm_gateway ex_daemon = ?g" "dm_queue ex_daemon = with_notifications False (queue_new 5)"
    "dm_calls ex_daemon = []"
    by (simp_all add: ex_daemon_def daemon_new_def)
  have l0: "length (aq_requests (dm_queue ex_daemon)) = 0"
    by (simp add: d0(2) with_notifications_def queue_new_def)
  have "ex_daemon\<lparr>dm_gateway := ?g1, dm_queue := ?q1, dm_calls := [?cf]\<rparr> = ex_asked ?cf ?q1 False"
    by (simp add: ex_daemon_def daemon_new_def ex_asked_def)
  then have "daemon_act ex_dp (\<lambda>_. None) (DO_Request (socket_request ex_wire_call) True ex_io) ex_daemon =
      Some (DE_Ask ex_wire_call ?a ?e, ex_asked ?cf ?q1 False)"
    unfolding daemon_act.simps daemon_request.case w dispatch_call_def d0(1) b prod.case call_state.case
      approver_begin_def d0(2) [symmetric] l0 d0(3) append_Nil by (simp only: d0(2))
  then show ?thesis by (intro exI [of _ ?cf]) simp
qed

text \<open>
  The call waits, the kill switch is engaged, the human approves, and the task of the call can go on.
\<close>

lemma ex_daemon_run:
  "\<exists>cf d1 mid d out pevs fc d'.
     daemon_act ex_dp (\<lambda>_. None) (DO_Request (socket_request ex_wire_call) True ex_io) ex_daemon =
       Some (DE_Ask ex_wire_call (cf_action cf) (cf_explanation cf), d1)
     \<and> last (dm_calls d1) = cf \<and> runs (daemon_step ex_dp (\<lambda>_. None)) d1 mid d \<and> dm_calls d = [cf]
     \<and> qr_phase (req (dm_queue d) (cf_request cf)) = PH_Done Approved
     \<and> (\<forall>ev \<in> set mid. leaves_gateway ev)
     \<and> DE_Reply (RQ_KillSwitch True) (RS_KillSwitch True) \<in> set mid
     \<and> daemon_act ex_dp (\<lambda>_. None) (DO_Resume 0 ex_io) d = Some (DE_Resumed cf out pevs, d')
     \<and> EV_Forward fc \<in> set pevs"
proof -
  let ?step = "daemon_step ex_dp (\<lambda>_. None)"
  obtain cf where cf: "cf_request cf = 0" and s1:
    "daemon_act ex_dp (\<lambda>_. None) (DO_Request (socket_request ex_wire_call) True ex_io) ex_daemon =
      Some (DE_Ask ex_wire_call (cf_action cf) (cf_explanation cf), ex_asked cf
       (snd (request_begin (act_id (cf_action cf)) (act_tool (cf_action cf)) (cf_explanation cf)
          (with_notifications False (queue_new 5)))) False)"
    using ex_daemon_asks by blast
  let ?q1 = "snd (request_begin (act_id (cf_action cf)) (act_tool (cf_action cf)) (cf_explanation cf)
    (with_notifications False (queue_new 5)))"
  obtain q2 q3 q4 where q: "length (aq_requests ?q1) = 1" "request_poll 0 ?q1 = (None, q2)"
    "length (aq_requests q2) = 1" "queue_respond 0 Approved q2 = (True, q3)"
    "length (aq_requests q3) = 1" "request_poll 0 q3 = (Some Approved, q4)"
    "qr_phase (req q4 0) = PH_Done Approved"
    using ex_queue_steps [of "act_id (cf_action cf)" "act_tool (cf_action cf)" "cf_explanation cf"]
    unfolding Let_def by blast
  let ?g1 = "dm_gateway (ex_asked cf q4 True)"
  obtain out pevs g' where res: "call_resume ex_dp ex_io cf Approved ?g1 = (out, pevs, g')"
    by (metis prod.exhaust)
  have "gw_audit ?g1 = open_log empty_db"
    by (simp add: ex_asked_def ex_watched_def with_self_protection_def)
  from ex_resume_forwards [OF this, of ex_io cf] res obtain fc where f: "EV_Forward fc \<in> set pevs"
    by auto
  have s2: "?step (ex_asked cf ?q1 False) (DE_Poll 0 None) (ex_asked cf q2 False)"
    by (rule act [of _ _ "DO_Poll 0"]) (use q(1,2) in \<open>simp add: ex_asked_def\<close>)
  have sk: "?step (ex_asked cf q2 False) (DE_Reply (RQ_KillSwitch True) (RS_KillSwitch True)) (ex_asked cf q2 True)"
    by (rule act [of _ _ "DO_Request (RQ_KillSwitch True) True ex_io"]) (simp add: ex_asked_def kill_switch_set_def)
  have s3: "?step (ex_asked cf q2 True) (DE_Reply (RQ_Respond 0 True) (RS_Responded True)) (ex_asked cf q3 True)"
    by (rule act [of _ _ "DO_Request (RQ_Respond 0 True) True ex_io"]) (use q(4) in \<open>simp add: ex_asked_def\<close>)
  have s4: "?step (ex_asked cf q3 True) (DE_Poll 0 (Some Approved)) (ex_asked cf q4 True)"
    by (rule act [of _ _ "DO_Poll 0"]) (use q(5,6) in \<open>simp add: ex_asked_def\<close>)
  have s5: "daemon_act ex_dp (\<lambda>_. None) (DO_Resume 0 ex_io) (ex_asked cf q4 True) =
      Some (DE_Resumed cf out pevs, (ex_asked cf q4 True)\<lparr>dm_gateway := g', dm_calls := []\<rparr>)"
    using q(7) res cf by (simp add: ex_asked_def)
  let ?mid = "[DE_Poll 0 None, DE_Reply (RQ_KillSwitch True) (RS_KillSwitch True),
    DE_Reply (RQ_Respond 0 True) (RS_Responded True), DE_Poll 0 (Some Approved)]"
  have "runs ?step (ex_asked cf ?q1 False) ?mid (ex_asked cf q4 True)"
    unfolding runs_Cons_iff runs_Nil_iff using s2 sk s3 s4 by blast
  moreover have "dm_calls (ex_asked cf q True) = [cf]" "dm_queue (ex_asked cf q True) = q"
    "last (dm_calls (ex_asked cf q False)) = cf" for q
    by (simp_all add: ex_asked_def)
  ultimately show ?thesis
    using s1 s5 f q(7) cf by (intro exI [of _ cf] exI [of _ ?mid] exI conjI) auto
qed

lemma ex_daemon_start: "daemon_start ex_daemon"
  unfolding daemon_start_def ex_daemon_def queue_start_def by blast

text \<open>The same as one run from the start.\<close>

lemma ex_daemon_runs:
  "\<exists>evs d cf out pevs fc d'. runs (daemon_step ex_dp (\<lambda>_. None)) ex_daemon evs d \<and> dm_calls d = [cf]
     \<and> DE_Reply (RQ_KillSwitch True) (RS_KillSwitch True) \<in> set evs
     \<and> daemon_act ex_dp (\<lambda>_. None) (DO_Resume 0 ex_io) d = Some (DE_Resumed cf out pevs, d')
     \<and> EV_Forward fc \<in> set pevs"
proof -
  obtain cf d1 mid d out pevs fc d' where
    a: "daemon_act ex_dp (\<lambda>_. None) (DO_Request (socket_request ex_wire_call) True ex_io) ex_daemon =
       Some (DE_Ask ex_wire_call (cf_action cf) (cf_explanation cf), d1)"
    and m: "runs (daemon_step ex_dp (\<lambda>_. None)) d1 mid d" and c: "dm_calls d = [cf]"
    and k: "DE_Reply (RQ_KillSwitch True) (RS_KillSwitch True) \<in> set mid"
    and f: "daemon_act ex_dp (\<lambda>_. None) (DO_Resume 0 ex_io) d = Some (DE_Resumed cf out pevs, d')"
      "EV_Forward fc \<in> set pevs"
    using ex_daemon_run by blast
  have "runs (daemon_step ex_dp (\<lambda>_. None)) ex_daemon
      (DE_Ask ex_wire_call (cf_action cf) (cf_explanation cf) # mid) d"
    unfolding runs_Cons_iff using act [OF a] m by blast
  moreover have "DE_Reply (RQ_KillSwitch True) (RS_KillSwitch True)
      \<in> set (DE_Ask ex_wire_call (cf_action cf) (cf_explanation cf) # mid)"
    using k by simp
  ultimately show ?thesis using c f by blast
qed

theorem daemon_forwards_cleared_witness:
  "\<exists>evs d cf. runs (daemon_step ex_dp (\<lambda>_. None)) ex_daemon evs d
     \<and> asked ex_dp (\<lambda>_. None) ex_daemon evs d cf \<and> approved_on_socket ex_dp (\<lambda>_. None) ex_daemon evs cf"
proof -
  obtain evs d cf out pevs fc d' where r: "runs (daemon_step ex_dp (\<lambda>_. None)) ex_daemon evs d"
    and a: "daemon_act ex_dp (\<lambda>_. None) (DO_Resume 0 ex_io) d = Some (DE_Resumed cf out pevs, d')"
    and f: "EV_Forward fc \<in> set pevs"
    using ex_daemon_runs by blast
  from f have "EV_Forward fc \<in> set (port_events (DE_Resumed cf out pevs))" by simp
  from daemon_forwards_cleared [OF ex_daemon_start r a this] r show ?thesis by auto
qed

theorem daemon_refines_queue_witness:
  "\<exists>evs q. evs \<noteq> [] \<and> runs queue_step (dm_queue ex_daemon) (queue_trace evs) q"
proof -
  obtain evs d where r: "runs (daemon_step ex_dp (\<lambda>_. None)) ex_daemon evs d"
    and e: "DE_Reply (RQ_KillSwitch True) (RS_KillSwitch True) \<in> set evs"
    using ex_daemon_runs by blast
  from daemon_refines_queue [OF r] e show ?thesis by (intro exI conjI) auto
qed

text \<open>A link that carries two given values.\<close>

definition ex_link :: "json \<Rightarrow> json \<Rightarrow> json_lib" where
  "ex_link v w = \<lparr>jl_parse = (\<lambda>s. if s = ''q'' then Some v else Some w), jl_show = (\<lambda>x. if x = v then ''q'' else ''r'')\<rparr>"

lemma ex_link_carries: "carries (ex_link v w) v" "carries (ex_link v w) w"
  by (simp_all add: carries_def ex_link_def)

text \<open>A call that waits for the human while the kill switch is engaged, over such a link.\<close>

theorem router_equals_gateway_witness:
  "\<exists>jl dispatch out pevs d'. daemon_route jl (\<lambda>_. []) (connected jl (\<lambda>_. []) dispatch) ex_wire_call ex_daemon = (out, d')
     \<and> handle ex_dp (served_io ex_io ex_io ex_daemon Approved) (ex_wire_call\<lparr>tc_session := None\<rparr>)
         (dm_gateway ex_daemon) = (out, pevs, dm_gateway d')
     \<and> (\<exists>fc. EV_Forward fc \<in> set pevs)"
proof -
  obtain cf d1 mid d out pevs fc d' where
    a: "daemon_act ex_dp (\<lambda>_. None) (DO_Request (socket_request ex_wire_call) True ex_io) ex_daemon =
       Some (DE_Ask ex_wire_call (cf_action cf) (cf_explanation cf), d1)"
    and l: "last (dm_calls d1) = cf" and m: "runs (daemon_step ex_dp (\<lambda>_. None)) d1 mid d" and c: "dm_calls d = [cf]"
    and ph: "qr_phase (req (dm_queue d) (cf_request cf)) = PH_Done Approved"
    and g: "\<forall>ev \<in> set mid. leaves_gateway ev"
    and f: "daemon_act ex_dp (\<lambda>_. None) (DO_Resume 0 ex_io) d = Some (DE_Resumed cf out pevs, d')"
      "EV_Forward fc \<in> set pevs"
    using ex_daemon_run by blast
  have "0 < length (dm_calls d)" "dm_calls d ! 0 = last (dm_calls d1)"
    "qr_phase (req (dm_queue d) (cf_request (dm_calls d ! 0))) = PH_Done Approved"
    using c l ph by simp_all
  with a m f have "call_answered ex_dp (\<lambda>_. None) ex_wire_call ex_io ex_io ex_daemon mid Approved out pevs d'"
    unfolding call_answered_def by blast
  from router_equals_gateway [OF this g, of "\<lambda>_ _. (outcome_response out, d')", OF refl ex_link_carries, of "\<lambda>_. []" "\<lambda>_. []"]
  show ?thesis using f(2) by blast
qed

text \<open>
  A waiting call and the kill switch: the switch is read when a call arrives. Engaged while a call
  waits for the human, it does not stop the call, which is forwarded once approved.
\<close>

lemma kill_switch_misses_waiting_call:
  "\<exists>evs d i io cf out pevs fc d'. runs (daemon_step ex_dp (\<lambda>_. None)) ex_daemon evs d
     \<and> DE_Reply (RQ_KillSwitch True) (RS_KillSwitch True) \<in> set evs
     \<and> daemon_act ex_dp (\<lambda>_. None) (DO_Resume i io) d = Some (DE_Resumed cf out pevs, d')
     \<and> EV_Forward fc \<in> set pevs"
  using ex_daemon_runs by blast

end
