(* ===== verification/Daemon_Start.thy ===== *)
theory Daemon_Start
  imports Daemon_Config Daemon_Laws
begin

text \<open>
  What a daemon that started is: its settings follow the precedence, its policy and its log were
  checked, its own files are out of reach of the calls it mediates.
\<close>

lemma path_parent_examples:
  "path_parent ''/home/u/.guardian/config.toml'' = Some ''/home/u/.guardian''"
  "path_parent ''config.toml'' = Some []" "path_parent ''/config.toml'' = Some ''/''"
  "path_parent ''a//b/.'' = Some ''a''" "path_parent ''/'' = None" "path_parent [] = None"
  by (simp_all add: path_parent_def)

text \<open>Environment, then file, then default.\<close>

lemma setting_precedence:
  "env_path env ''GUARDIAN_SOCK'' = Some p \<Longrightarrow> socket_path env t c = p"
  "env_path env ''GUARDIAN_SOCK'' = None \<Longrightarrow> cfg_socket c = Some p \<Longrightarrow> socket_path env t c = p"
  "env_path env ''GUARDIAN_POLICY'' = Some p \<Longrightarrow> policy_path env c = Some p"
  "env_path env ''GUARDIAN_POLICY'' = None \<Longrightarrow> policy_path env c = cfg_policy c"
  "env_path env ''GUARDIAN_AUDIT'' = Some p \<Longrightarrow> audit_path env c = p"
  "env_path env ''GUARDIAN_AUDIT'' = None \<Longrightarrow> cfg_audit c = Some p \<Longrightarrow> audit_path env c = p"
  by (simp_all add: socket_path_def policy_path_def audit_path_def)

lemma approval_timeout_positive: "approval_timeout c > 0"
  by (simp add: approval_timeout_def DEFAULT_TIMEOUT_SECS_def split: option.split)

lemma daemon_main_Inr:
  assumes "daemon_main ho = Inr sv"
  obtains c pol lg where "snd (config_load (ho_env ho) (ho_exists ho) (ho_read ho) (ho_config_toml ho)) = Inr c"
    and "daemon_load_policy (ho_policy_toml ho) (ho_cel_compile ho) (ho_read ho) (ho_default_policy ho)
           (policy_path (ho_env ho) c) = Inr pol"
    and "open_audit (ho_crypto ho) (ho_audit_message ho) (ho_made_dir ho) (ho_opened ho (audit_path (ho_env ho) c))
           (audit_path (ho_env ho) c) = Inr lg"
    and "sv = \<lparr>sv_daemon = daemon_new (daemon_gateway (ho_env ho) (ho_temp_dir ho) c pol lg)
                 (with_notifications (notifications_enabled c) (queue_new (approval_timeout c)))
                 (ho_exists ho (kill_switch_path (ho_env ho))),
               sv_checker = checker_endpoint (ho_env ho) c,
               sv_socket = socket_path (ho_env ho) (ho_temp_dir ho) c\<rparr>"
  using assms by (auto simp: daemon_main_def Let_def split: sum.splits)

lemma daemon_gateway_state [simp]:
  "gw_policy (daemon_gateway env t c pol lg) = pol" "gw_audit (daemon_gateway env t c pol lg) = lg"
  "gw_self (daemon_gateway env t c pol lg) = \<lparr>sf_protected = protected_files env t c, sf_kill_switch = True\<rparr>"
  "gw_protected (daemon_gateway env t c pol lg) = cfg_protect c"
  "env_trusted_hosts (gw_env (daemon_gateway env t c pol lg)) = cfg_trusted_hosts c"
  by (simp_all add: daemon_gateway_def with_data_protection_def with_self_protection_def gateway_new_def)

lemma open_audit_Inr: "open_audit cr msg made opened path = Inr lg \<Longrightarrow> opened = Inr lg \<and> audit_verify cr lg = Inr ()"
  by (auto simp: open_audit_def split: sum.splits)

lemma daemon_load_policy_Inr:
  "daemon_load_policy toml cc read_file dp path = Inr pol \<Longrightarrow>
     (case path of Some p \<Rightarrow> \<exists>src. read_file p = Inr src \<and> compiled_from_toml_str toml cc src = Inr pol
      | None \<Rightarrow> compiled_from_toml_str toml cc dp = Inr pol)"
  by (auto simp: daemon_load_policy_def split: option.splits sum.splits)




lemma protection_settings [simp]:
  "gateway_settings (add_protected v g) = gateway_settings g"
  "gateway_settings (snd (remove_last_protected g)) = gateway_settings g"
  by (simp_all add: add_protected_def remove_last_protected_def gateway_settings_def)




subsection \<open>Properties\<close>

text \<open>
  C29: a daemon that runs was checked. If the daemon starts at all, there is a configuration (the
  file's, or the default when there is none) such that: the policy it enforces is the compiled text
  of the configured policy file, or of the built-in pack when none is configured, never a fallback
  for a file that fails; the audit log it appends to is the one opened at the configured path, and it
  verified; it judges with the configured trusted hosts, protects the configured values, listens at
  the configured socket, gives the human the configured time, which is positive, and starts with no
  request waiting.
\<close>

theorem daemon_starts_checked:
  assumes "daemon_main ho = Inr sv"
  shows "\<exists>c. (if ho_exists ho (config_path (ho_env ho))
              then config_from_path (ho_read ho) (ho_config_toml ho) (config_path (ho_env ho)) = Inr c
              else c = config_default)
     \<and> (case policy_path (ho_env ho) c of
          Some p \<Rightarrow> \<exists>src. ho_read ho p = Inr src
            \<and> compiled_from_toml_str (ho_policy_toml ho) (ho_cel_compile ho) src = Inr (gw_policy (dm_gateway (sv_daemon sv)))
        | None \<Rightarrow> compiled_from_toml_str (ho_policy_toml ho) (ho_cel_compile ho) (ho_default_policy ho) =
                   Inr (gw_policy (dm_gateway (sv_daemon sv))))
     \<and> ho_opened ho (audit_path (ho_env ho) c) = Inr (gw_audit (dm_gateway (sv_daemon sv)))
     \<and> audit_verify (ho_crypto ho) (gw_audit (dm_gateway (sv_daemon sv))) = Inr ()
     \<and> env_trusted_hosts (gw_env (dm_gateway (sv_daemon sv))) = cfg_trusted_hosts c
     \<and> gw_protected (dm_gateway (sv_daemon sv)) = cfg_protect c
     \<and> sv_socket sv = socket_path (ho_env ho) (ho_temp_dir ho) c
     \<and> aq_timeout (dm_queue (sv_daemon sv)) = approval_timeout c \<and> approval_timeout c > 0
     \<and> daemon_start (sv_daemon sv)"
proof -
  obtain c pol lg where c: "snd (config_load (ho_env ho) (ho_exists ho) (ho_read ho) (ho_config_toml ho)) = Inr c"
    and pol: "daemon_load_policy (ho_policy_toml ho) (ho_cel_compile ho) (ho_read ho) (ho_default_policy ho)
           (policy_path (ho_env ho) c) = Inr pol"
    and lg: "open_audit (ho_crypto ho) (ho_audit_message ho) (ho_made_dir ho) (ho_opened ho (audit_path (ho_env ho) c))
           (audit_path (ho_env ho) c) = Inr lg"
    and sv: "sv = \<lparr>sv_daemon = daemon_new (daemon_gateway (ho_env ho) (ho_temp_dir ho) c pol lg)
                 (with_notifications (notifications_enabled c) (queue_new (approval_timeout c)))
                 (ho_exists ho (kill_switch_path (ho_env ho))),
               sv_checker = checker_endpoint (ho_env ho) c,
               sv_socket = socket_path (ho_env ho) (ho_temp_dir ho) c\<rparr>"
    using assms by (rule daemon_main_Inr)
  have g: "dm_gateway (sv_daemon sv) = daemon_gateway (ho_env ho) (ho_temp_dir ho) c pol lg"
    "dm_queue (sv_daemon sv) = with_notifications (notifications_enabled c) (queue_new (approval_timeout c))"
    "sv_socket sv = socket_path (ho_env ho) (ho_temp_dir ho) c"
    by (simp_all add: sv daemon_new_def)
  have "daemon_start (sv_daemon sv)"
    unfolding sv daemon_start_def queue_start_def served.simps by blast
  moreover have "aq_timeout (dm_queue (sv_daemon sv)) = approval_timeout c"
    unfolding g by (simp add: with_notifications_def queue_new_def)
  moreover have "if ho_exists ho (config_path (ho_env ho))
      then config_from_path (ho_read ho) (ho_config_toml ho) (config_path (ho_env ho)) = Inr c else c = config_default"
    using c by (simp add: config_load_def Let_def split: if_splits)
  ultimately show ?thesis
    unfolding g daemon_gateway_state
    by (intro exI [of _ c] conjI daemon_load_policy_Inr [OF pol] conjunct1 [OF open_audit_Inr [OF lg]]
        conjunct2 [OF open_audit_Inr [OF lg]] approval_timeout_positive refl)
qed


subsection \<open>An example start\<close>

definition ex_host :: "(bool, bool, string) host" where
  "ex_host =
     \<lparr>ho_env = (\<lambda>_. None), ho_temp_dir = ''/tmp'', ho_exists = (\<lambda>_. False), ho_read = (\<lambda>_. Inl ''no such file''),
      ho_config_toml = (\<lambda>_. Inl []), ho_policy_toml = (\<lambda>_. Inr ex_policy), ho_cel_compile = Inr,
      ho_default_policy = ''policy.toml'', ho_made_dir = Inr (), ho_opened = (\<lambda>_. Inr (open_log empty_db)),
      ho_crypto = ex_crypto, ho_audit_message = (\<lambda>_. [])\<rparr>"

lemma ex_log_verifies: "audit_verify ex_crypto (open_log empty_db) = Inr ()"
proof -
  have "al_key (open_log empty_db :: bool audit_log) = None"
    by (simp add: open_log_def from_conn_def)
  then show ?thesis
    using verify_chain_intact [OF from_conn_empty [of ex_crypto "None :: bool option"]]
    by (simp add: audit_verify_def open_log_def)
qed

lemma ex_host_config:
  "snd (config_load (ho_env ex_host) (ho_exists ex_host) (ho_read ex_host) (ho_config_toml ex_host)) = Inr config_default"
  by (simp add: config_load_def ex_host_def Let_def)

lemma ex_host_starts: "\<exists>sv. daemon_main ex_host = Inr sv"
  by (simp add: daemon_main_def ex_host_config)
     (simp add: ex_host_def daemon_load_policy_def policy_path_def env_path_def config_default_def
       ex_compiled_loads open_audit_def ex_log_verifies Let_def)

theorem daemon_starts_checked_witness:
  "\<exists>sv. daemon_main ex_host = Inr sv \<and> gw_audit (dm_gateway (sv_daemon sv)) = open_log empty_db
     \<and> audit_verify ex_crypto (gw_audit (dm_gateway (sv_daemon sv))) = Inr () \<and> daemon_start (sv_daemon sv)"
proof -
  obtain sv where sv: "daemon_main ex_host = Inr sv"
    using ex_host_starts by blast
  have "ho_crypto ex_host = ex_crypto" "ho_opened ex_host p = Inr (open_log empty_db)" for p
    by (simp_all add: ex_host_def)
  with daemon_starts_checked [OF sv] sv show ?thesis by (metis sum.inject(2))
qed


end
