(* ===== verification/Tui.thy ===== *)
theory Tui
  imports Daemon
begin

text \<open>
  The terminal cockpit, \<open>guardian-cli/src/tui.rs\<close>: its state, what a key, a click or a tick does to it
  and to the daemon, and what it draws, as text without colours. The daemon is a client whose calls
  pass a state; so is the keychain. A typed character is its UTF-8 text. The layout of the frame and
  the widgets are the terminal library's; the body's rectangle is an argument. A coordinate is a
  natural number: the loop over the cards stops before \<open>u16\<close> could overflow.
\<close>

subsection \<open>State\<close>

definition SPINNER :: "char list" where
  "SPINNER = [CHR ''|'', CHR ''/'', CHR ''-'', CHR 0x5C]"

definition CARD_H :: nat where
  "CARD_H = 5"

record hit =
  hit_row :: nat
  hit_allow :: "nat \<times> nat"
  hit_deny :: "nat \<times> nat"
  hit_id :: nat

datatype view = V_Approvals | V_History | V_NewToken | V_Protect

datatype form_field = FF_Target | FF_Secret

record token_form =
  tf_target :: string
  tf_secret :: string
  tf_field :: form_field
  tf_message :: string

definition token_form_new :: token_form where
  "token_form_new = \<lparr>tf_target = [], tf_secret = [], tf_field = FF_Target, tf_message = []\<rparr>"

text \<open>\<open>active\<close>: the field being edited, changed by \<open>f\<close>.\<close>

definition form_edit :: "(string \<Rightarrow> string) \<Rightarrow> token_form \<Rightarrow> token_form" where
  "form_edit f t =
     (case tf_field t of
        FF_Target \<Rightarrow> t\<lparr>tf_target := f (tf_target t)\<rparr>
      | FF_Secret \<Rightarrow> t\<lparr>tf_secret := f (tf_secret t)\<rparr>)"

record app =
  ap_pending :: "pending_view list"
  ap_selected :: nat
  ap_spinner :: nat
  ap_status :: string
  ap_hits :: "hit list"
  ap_quit :: bool
  ap_demo :: bool
  ap_view :: view
  ap_history :: "history_view list"
  ap_history_offset :: nat
  ap_form :: token_form
  ap_protect_input :: string
  ap_protect_message :: string
  ap_vault :: "nat \<times> nat"
  ap_vault_values :: "string list"

record 's cockpit =
  ck_pending :: "'s \<Rightarrow> (string, pending_view list) result \<times> 's"
  ck_respond :: "nat \<Rightarrow> bool \<Rightarrow> 's \<Rightarrow> (string, bool) result \<times> 's"
  ck_history :: "nat \<Rightarrow> 's \<Rightarrow> (string, history_view list) result \<times> 's"
  ck_vault_status :: "'s \<Rightarrow> (string, nat \<times> nat \<times> string list) result \<times> 's"
  ck_protect :: "string \<Rightarrow> 's \<Rightarrow> (string, nat \<times> nat \<times> string list) result \<times> 's"
  ck_unprotect :: "'s \<Rightarrow> (string, nat \<times> nat \<times> string list) result \<times> 's"
  ck_store :: "string \<Rightarrow> string \<Rightarrow> 's \<Rightarrow> (string, unit) result \<times> 's"

subsection \<open>Sample data of the preview\<close>

definition demo_item :: "nat \<Rightarrow> string \<Rightarrow> string \<Rightarrow> nat \<Rightarrow> pending_view" where
  "demo_item i tool s risk =
     \<lparr>pv_id = i, pv_action_id = ''act-'' @ dec_nat i, pv_tool = tool, pv_plain_text = s, pv_risk = risk\<rparr>"

definition demo_pending :: "pending_view list" where
  "demo_pending =
     [demo_item 1 ''bank.transfer'' ''The agent wants to move money (EUR 4,000 to an unknown account).'' 92,
      demo_item 2 ''shell.run'' ''The agent wants to run a command: rm -rf ./build'' 74,
      demo_item 3 ''http.post''
        ''The agent wants to send a file to a site that is not on your trusted list.'' 88,
      demo_item 4 ''fs.read'' ''The agent wants to read a note in your home folder.'' 12]"

definition demo_row :: "string \<Rightarrow> string \<Rightarrow> string option \<Rightarrow> string \<Rightarrow> bool \<Rightarrow> history_view" where
  "demo_row d kind host rule critical =
     \<lparr>hv_decision = d, hv_kind = kind, hv_host = host, hv_rule = Some rule, hv_reason = None,
      hv_critical = critical\<rparr>"

definition demo_history :: "history_view list" where
  "demo_history =
     [demo_row ''allow'' ''HttpRequest'' (Some ''bank.example'') ''allow-reads'' False,
      demo_row ''deny'' ''HttpRequest'' (Some ''bank.example'') ''deny-writes'' True,
      demo_row ''allow'' ''FileRead'' None ''allow-home-reads'' False,
      demo_row ''ask'' ''Exec'' None ''-'' False]"

definition app_new :: "bool \<Rightarrow> app" where
  "app_new demo =
     \<lparr>ap_pending = (if demo then demo_pending else []), ap_selected = 0, ap_spinner = 0,
      ap_status = ''connecting...'', ap_hits = [], ap_quit = False, ap_demo = demo, ap_view = V_Approvals,
      ap_history = (if demo then demo_history else []), ap_history_offset = 0, ap_form = token_form_new,
      ap_protect_input = [], ap_protect_message = [], ap_vault = (0, 0), ap_vault_values = []\<rparr>"

subsection \<open>Operations\<close>

definition clamp_selected :: "app \<Rightarrow> app" where
  "clamp_selected a =
     (if ap_selected a \<ge> length (ap_pending a) then a\<lparr>ap_selected := length (ap_pending a) - 1\<rparr> else a)"

definition demo_status :: "app \<Rightarrow> app" where
  "demo_status a = a\<lparr>ap_status := ''demo - '' @ dec_nat (length (ap_pending a)) @ '' pending''\<rparr>"

definition set_vault :: "nat \<times> nat \<times> string list \<Rightarrow> app \<Rightarrow> app" where
  "set_vault v a = (case v of (p, t, values) \<Rightarrow> a\<lparr>ap_vault := (p, t), ap_vault_values := values\<rparr>)"

text \<open>The three requests of a refresh, in their order.\<close>

definition refresh_pending :: "'s cockpit \<Rightarrow> app \<times> 's \<Rightarrow> app \<times> 's" where
  "refresh_pending c x =
     (case x of (a, st) \<Rightarrow>
        (case ck_pending c st of
           (Inr pending, st') \<Rightarrow>
             (let a1 = clamp_selected (a\<lparr>ap_pending := pending\<rparr>)
              in (a1\<lparr>ap_status := dec_nat (length pending) @ '' pending''\<rparr>, st'))
         | (Inl e, st') \<Rightarrow> (a\<lparr>ap_status := ''daemon unreachable ('' @ e @ '')''\<rparr>, st')))"

definition refresh_history :: "'s cockpit \<Rightarrow> app \<times> 's \<Rightarrow> app \<times> 's" where
  "refresh_history c x =
     (case x of (a, st) \<Rightarrow>
        if ap_view a = V_History
        then (case ck_history c 50 st of
                (Inr h, st') \<Rightarrow> (a\<lparr>ap_history := h\<rparr>, st') | (Inl _, st') \<Rightarrow> (a, st'))
        else (a, st))"

definition refresh_vault :: "'s cockpit \<Rightarrow> app \<times> 's \<Rightarrow> app \<times> 's" where
  "refresh_vault c x =
     (case x of (a, st) \<Rightarrow>
        (case ck_vault_status c st of (Inr v, st') \<Rightarrow> (set_vault v a, st') | (Inl _, st') \<Rightarrow> (a, st')))"

definition refresh :: "'s cockpit \<Rightarrow> app \<times> 's \<Rightarrow> app \<times> 's" where
  "refresh c x =
     (case x of (a, st) \<Rightarrow>
        if ap_demo a then (demo_status (clamp_selected a), st)
        else refresh_vault c (refresh_history c (refresh_pending c (a, st))))"

definition scroll_history :: "int \<Rightarrow> app \<Rightarrow> app" where
  "scroll_history delta a =
     (let mx = length (ap_history a) - 1
      in a\<lparr>ap_history_offset := nat (max 0 (min (int mx) (int (ap_history_offset a) + delta)))\<rparr>)"

text \<open>The remainder of the machine truncates toward zero.\<close>

definition rem_trunc :: "int \<Rightarrow> int \<Rightarrow> int" where
  "rem_trunc x y = (if x < 0 then - ((- x) mod y) else x mod y)"

definition move_selection :: "int \<Rightarrow> app \<Rightarrow> app" where
  "move_selection delta a =
     (if ap_pending a = [] then a
      else (let len = int (length (ap_pending a))
            in a\<lparr>ap_selected := nat (rem_trunc (rem_trunc (int (ap_selected a) + delta) len + len) len)\<rparr>))"

definition act_on :: "'s cockpit \<Rightarrow> nat \<Rightarrow> bool \<Rightarrow> app \<times> 's \<Rightarrow> app \<times> 's" where
  "act_on c i allow x =
     (case x of (a, st) \<Rightarrow>
        if ap_demo a
        then (demo_status (clamp_selected (a\<lparr>ap_pending := filter (\<lambda>p. pv_id p \<noteq> i) (ap_pending a)\<rparr>)), st)
        else refresh c (a, snd (ck_respond c i allow st)))"

definition resolve_selected :: "'s cockpit \<Rightarrow> bool \<Rightarrow> app \<times> 's \<Rightarrow> app \<times> 's" where
  "resolve_selected c allow x =
     (if ap_selected (fst x) < length (ap_pending (fst x))
      then act_on c (pv_id (ap_pending (fst x) ! ap_selected (fst x))) allow x
      else x)"

definition panic_all :: "'s cockpit \<Rightarrow> app \<times> 's \<Rightarrow> app \<times> 's" where
  "panic_all c x =
     (let ids = map pv_id (ap_pending (fst x));
          (a, st) = fold (\<lambda>i y. act_on c i False y) ids x
      in (a\<lparr>ap_status := ''panic: denied '' @ dec_nat (length ids)\<rparr>, st))"

text \<open>\<open>String::pop\<close>: the last character goes.\<close>

definition pop_char :: "string \<Rightarrow> string" where
  "pop_char s = concat (butlast (utf8_chars s))"

definition submit_token :: "'s cockpit \<Rightarrow> app \<times> 's \<Rightarrow> app \<times> 's" where
  "submit_token c x =
     (case x of (a, st) \<Rightarrow>
        (let target = trim (tf_target (ap_form a)); message = (\<lambda>m. (ap_form a)\<lparr>tf_message := m\<rparr>)
         in if target = [] \<or> tf_secret (ap_form a) = []
            then (a\<lparr>ap_form := message ''enter both a site (host) and a secret''\<rparr>, st)
            else if ap_demo a
            then (a\<lparr>ap_form := token_form_new\<lparr>tf_message := ''(demo) would store a token for '' @ target\<rparr>\<rparr>, st)
            else (case ck_store c target (tf_secret (ap_form a)) st of
                    (Inr _, st') \<Rightarrow>
                      (a\<lparr>ap_form := token_form_new
                           \<lparr>tf_message := ''stored a token for '' @ target @ '' in the keychain''\<rparr>\<rparr>, st')
                  | (Inl e, st') \<Rightarrow> (a\<lparr>ap_form := message (''error: '' @ e)\<rparr>, st'))))"

subsection \<open>Events\<close>

datatype key_code =
    KC_Char string | KC_Esc | KC_Tab | KC_Enter | KC_Backspace | KC_Up | KC_Down | KC_Other

datatype mouse_kind = MK_DownLeft | MK_ScrollUp | MK_ScrollDown | MK_Other

text \<open>A key event says whether it is a press; a mouse event has its column and row.\<close>

datatype tui_event =
    TE_Key bool key_code
  | TE_Mouse mouse_kind nat nat
  | TE_Other

definition edit_form :: "(token_form \<Rightarrow> token_form) \<Rightarrow> app \<Rightarrow> app" where
  "edit_form f a = a\<lparr>ap_form := f ((ap_form a)\<lparr>tf_message := []\<rparr>)\<rparr>"

fun handle_form_key :: "'s cockpit \<Rightarrow> key_code \<Rightarrow> app \<times> 's \<Rightarrow> app \<times> 's" where
  "handle_form_key c KC_Esc (a, st) = (a\<lparr>ap_view := V_Approvals\<rparr>, st)"
| "handle_form_key c KC_Tab (a, st) =
     (a\<lparr>ap_form := (ap_form a)
          \<lparr>tf_field := (case tf_field (ap_form a) of FF_Target \<Rightarrow> FF_Secret | FF_Secret \<Rightarrow> FF_Target)\<rparr>\<rparr>, st)"
| "handle_form_key c KC_Backspace (a, st) = (edit_form (form_edit pop_char) a, st)"
| "handle_form_key c KC_Enter (a, st) = submit_token c (a, st)"
| "handle_form_key c (KC_Char ch) (a, st) = (edit_form (form_edit (\<lambda>s. s @ ch)) a, st)"
| "handle_form_key c _ (a, st) = (a, st)"

definition EM_DASH :: string where
  "EM_DASH = [CHR 0xE2, CHR 0x80, CHR 0x94]"

definition protect_backspace :: "'s cockpit \<Rightarrow> app \<times> 's \<Rightarrow> app \<times> 's" where
  "protect_backspace c x =
     (case x of (a, st) \<Rightarrow>
        if ap_protect_input a = []
        then (if ap_demo a
              then (a\<lparr>ap_vault := (fst (ap_vault a) - 1, snd (ap_vault a)),
                      ap_protect_message := ''(demo) removed last''\<rparr>, st)
              else (case ck_unprotect c st of
                      (Inr v, st') \<Rightarrow>
                        ((set_vault v a)\<lparr>ap_protect_message := ''removed last '' @ EM_DASH @ '' ''
                            @ dec_nat (fst v) @ '' value(s) protected''\<rparr>, st')
                    | (Inl _, st') \<Rightarrow> (a, st')))
        else (a\<lparr>ap_protect_input := pop_char (ap_protect_input a)\<rparr>, st))"

definition protect_enter :: "'s cockpit \<Rightarrow> app \<times> 's \<Rightarrow> app \<times> 's" where
  "protect_enter c x =
     (case x of (a, st) \<Rightarrow>
        (let val = trim (ap_protect_input a)
         in if val = [] then (a, st)
            else if ap_demo a
            then (a\<lparr>ap_vault := (fst (ap_vault a) + 1, snd (ap_vault a)),
                    ap_protect_message := ''(demo) would protect '' @ jstr val,
                    ap_protect_input := []\<rparr>, st)
            else (case ck_protect c val st of
                    (Inr v, st') \<Rightarrow>
                      ((set_vault v a)\<lparr>ap_protect_message := ''now protecting '' @ dec_nat (fst v)
                           @ '' value(s) '' @ EM_DASH @ '' the agent will see tokens'',
                         ap_protect_input := []\<rparr>, st')
                  | (Inl e, st') \<Rightarrow>
                      (a\<lparr>ap_protect_message := ''error: '' @ e, ap_protect_input := []\<rparr>, st'))))"

fun handle_protect_key :: "'s cockpit \<Rightarrow> key_code \<Rightarrow> app \<times> 's \<Rightarrow> app \<times> 's" where
  "handle_protect_key c KC_Esc (a, st) = (a\<lparr>ap_view := V_Approvals\<rparr>, st)"
| "handle_protect_key c KC_Backspace x = protect_backspace c x"
| "handle_protect_key c KC_Enter x = protect_enter c x"
| "handle_protect_key c (KC_Char ch) (a, st) = (a\<lparr>ap_protect_input := ap_protect_input a @ ch\<rparr>, st)"
| "handle_protect_key c _ x = x"

definition step_selection :: "int \<Rightarrow> app \<Rightarrow> app" where
  "step_selection delta a =
     (if ap_view a = V_History then scroll_history delta a else move_selection delta a)"

text \<open>The keys of the two lists.\<close>

definition handle_list_key :: "'s cockpit \<Rightarrow> key_code \<Rightarrow> app \<times> 's \<Rightarrow> app \<times> 's" where
  "handle_list_key c k x =
     (case x of (a, st) \<Rightarrow>
        if k = KC_Char ''q'' \<or> k = KC_Esc then (a\<lparr>ap_quit := True\<rparr>, st)
        else if k = KC_Char ''j'' \<or> k = KC_Down then (step_selection 1 a, st)
        else if k = KC_Char ''k'' \<or> k = KC_Up then (step_selection (- 1) a, st)
        else if k = KC_Char ''a'' then resolve_selected c True (a, st)
        else if k = KC_Char ''d'' then resolve_selected c False (a, st)
        else if k = KC_Char ''p'' then panic_all c (a, st)
        else if k = KC_Char ''r'' then refresh c (a, st)
        else if k = KC_Char ''n'' then (a\<lparr>ap_view := V_NewToken, ap_form := token_form_new\<rparr>, st)
        else if k = KC_Char ''v''
        then refresh c (a\<lparr>ap_view := V_Protect, ap_protect_input := [], ap_protect_message := []\<rparr>, st)
        else if k = KC_Tab
        then refresh c (a\<lparr>ap_view := (if ap_view a = V_History then V_Approvals else V_History)\<rparr>, st)
        else (a, st))"

definition in_range :: "nat \<times> nat \<Rightarrow> nat \<Rightarrow> bool" where
  "in_range r x \<longleftrightarrow> fst r \<le> x \<and> x < snd r"

text \<open>The first button under a click.\<close>

fun find_hit :: "hit list \<Rightarrow> nat \<Rightarrow> nat \<Rightarrow> (nat \<times> bool) option" where
  "find_hit [] column row = None"
| "find_hit (h # hs) column row =
     (if row = hit_row h \<and> in_range (hit_allow h) column then Some (hit_id h, True)
      else if row = hit_row h \<and> in_range (hit_deny h) column then Some (hit_id h, False)
      else find_hit hs column row)"

definition handle_event :: "'s cockpit \<Rightarrow> tui_event \<Rightarrow> app \<times> 's \<Rightarrow> app \<times> 's" where
  "handle_event c ev x =
     (case ev of
        TE_Key press k \<Rightarrow>
          if \<not> press then x
          else if ap_view (fst x) = V_NewToken then handle_form_key c k x
          else if ap_view (fst x) = V_Protect then handle_protect_key c k x
          else handle_list_key c k x
      | TE_Mouse kind column row \<Rightarrow>
          if kind = MK_DownLeft
          then (case find_hit (ap_hits (fst x)) column row of
                  Some (i, allow) \<Rightarrow> act_on c i allow x | None \<Rightarrow> x)
          else if ap_view (fst x) = V_History
          then (if kind = MK_ScrollDown then (scroll_history 1 (fst x), snd x)
                else if kind = MK_ScrollUp then (scroll_history (- 1) (fst x), snd x)
                else x)
          else x
      | TE_Other \<Rightarrow> x)"

subsection \<open>Drawing\<close>

record rect =
  rc_x :: nat
  rc_y :: nat
  rc_width :: nat
  rc_height :: nat

datatype colour = C_BrightGreen | C_BrightRed | C_DarkGreen | C_MidYellow

definition status_color :: "string \<Rightarrow> colour" where
  "status_color status =
     (if contains_sub status ''unreachable'' then C_BrightRed
      else if prefix ''0 '' status then C_BrightGreen else C_MidYellow)"

definition risk_color :: "nat \<Rightarrow> colour" where
  "risk_color risk = (if risk \<ge> 80 then C_BrightRed else if risk \<ge> 40 then C_MidYellow else C_BrightGreen)"

definition risk_bar :: "nat \<Rightarrow> string" where
  "risk_bar risk =
     (let filled = min ((risk + 5) div 10) 10
      in ''['' @ concat (replicate filled [CHR 0xE2, CHR 0x96, CHR 0x93])
         @ concat (replicate (10 - filled) [CHR 0xE2, CHR 0x96, CHR 0x91]) @ '']'')"

definition truncate_text :: "string \<Rightarrow> nat \<Rightarrow> string" where
  "truncate_text s width =
     (if width = 0 then []
      else if char_count s \<le> width then s
      else concat (take (width - 3) (utf8_chars s)) @ ''...'')"

definition humanize_kind :: "string \<Rightarrow> string" where
  "humanize_kind kind =
     (if kind = ''HttpRequest'' then ''web request''
      else if kind = ''FileRead'' then ''read file''
      else if kind = ''FileWrite'' then ''write file''
      else if kind = ''Exec'' then ''run command''
      else if kind = ''Email'' then ''send email''
      else if kind = ''Delete'' then ''delete''
      else kind)"

text \<open>A card: its title, its lines and its frame; the inside of a frame is one cell in.\<close>

record card =
  cd_title :: string
  cd_risk_line :: string
  cd_text_line :: string
  cd_selected :: bool
  cd_rect :: rect

definition inner_rect :: "rect \<Rightarrow> rect" where
  "inner_rect r =
     \<lparr>rc_x = rc_x r + 1, rc_y = rc_y r + 1, rc_width = rc_width r - 2, rc_height = rc_height r - 2\<rparr>"

definition pad_left :: "nat \<Rightarrow> string \<Rightarrow> string" where
  "pad_left n s = replicate (n - length s) CHR '' '' @ s"

definition card_rect :: "rect \<Rightarrow> nat \<Rightarrow> rect" where
  "card_rect area i =
     \<lparr>rc_x = rc_x area, rc_y = rc_y area + i * CARD_H, rc_width = rc_width area, rc_height = CARD_H\<rparr>"

definition card_of :: "rect \<Rightarrow> nat \<Rightarrow> nat \<Rightarrow> pending_view \<Rightarrow> card" where
  "card_of area selected i item =
     (let r = card_rect area i
      in \<lparr>cd_title = '' '' @ (if i = selected then ''>'' else '' '') @ '' #'' @ dec_nat (i + 1) @ '' ''
            @ pv_tool item @ '' '',
          cd_risk_line = ''risk '' @ risk_bar (pv_risk item) @ '' '' @ pad_left 3 (dec_nat (pv_risk item)),
          cd_text_line = truncate_text (pv_plain_text item) (rc_width (inner_rect r) - 1),
          cd_selected = (i = selected), cd_rect = r\<rparr>)"

definition allow_label :: string where
  "allow_label = ''[ A Allow ]''"

definition deny_label :: string where
  "deny_label = ''[ D Deny ]''"

definition hit_of :: "rect \<Rightarrow> nat \<Rightarrow> pending_view \<Rightarrow> hit" where
  "hit_of area i item =
     (let inner = inner_rect (card_rect area i); allow_x = rc_x inner + 1;
          deny_x = allow_x + length allow_label + 3
      in \<lparr>hit_row = rc_y inner + 2, hit_allow = (allow_x, allow_x + length allow_label),
          hit_deny = (deny_x, deny_x + length deny_label), hit_id = pv_id item\<rparr>)"

text \<open>The cards that fit, from the \<open>i\<close>-th, with their buttons; the rest is not drawn.\<close>

fun draw_cards :: "rect \<Rightarrow> nat \<Rightarrow> nat \<Rightarrow> pending_view list \<Rightarrow> (card \<times> hit) list" where
  "draw_cards area selected i [] = []"
| "draw_cards area selected i (item # items) =
     (if rc_y area + i * CARD_H + CARD_H > rc_y area + rc_height area then []
      else (card_of area selected i item, hit_of area i item) # draw_cards area selected (i + 1) items)"

text \<open>A body is cards, or lines in a frame with a title.\<close>

datatype screen = SC_Cards "card list" | SC_Lines string "string list"

definition draw_approvals :: "rect \<Rightarrow> app \<Rightarrow> screen \<times> app" where
  "draw_approvals area a =
     (if ap_pending a = []
      then (SC_Lines [] [[], ''   [ all clear ]'', ''   no actions are waiting for your review''], a)
      else (let drawn = draw_cards area (ap_selected a) 0 (ap_pending a)
            in (SC_Cards (map fst drawn), a\<lparr>ap_hits := map snd drawn\<rparr>)))"

text \<open>The lines of the new-token form.\<close>

definition pad_right :: "nat \<Rightarrow> string \<Rightarrow> string" where
  "pad_right n s = s @ replicate (n - char_count s) CHR '' ''"

definition field_line :: "string \<Rightarrow> string \<Rightarrow> bool \<Rightarrow> string" where
  "field_line label value active =
     ''  '' @ pad_right 10 label @ '' ['' @ (if value = [] then ''____________'' else value)
     @ (if active then ''_'' else []) @ '']''"

definition draw_new_token :: "app \<Rightarrow> string list" where
  "draw_new_token a =
     (let masked = replicate (char_count (tf_secret (ap_form a))) CHR ''*''
      in [[], ''  Create a token '' @ EM_DASH @ '' Guardian holds it; the agent never sees the value.'', [],
          field_line ''site/host'' (tf_target (ap_form a)) (tf_field (ap_form a) = FF_Target),
          field_line ''secret'' masked (tf_field (ap_form a) = FF_Secret), [],
          ''  Tab switch field   Enter save   Esc cancel'']
         @ (if tf_message (ap_form a) = [] then [] else [[], ''  '' @ tf_message (ap_form a)]))"

definition BULLET :: string where
  "BULLET = [CHR 0xE2, CHR 0x80, CHR 0xA2]"

definition MIDDLE_DOT :: string where
  "MIDDLE_DOT = [CHR 0xC2, CHR 0xB7]"

definition draw_protect :: "app \<Rightarrow> string list" where
  "draw_protect a =
     (let shown = (if ap_protect_input a = [] then ''____________________'' else ap_protect_input a)
      in [[], ''  Protect a value '' @ EM_DASH @ '' Guardian tokenizes it so the agent never sees it,'',
          ''  and restores it only into an authorized action (e.g. name, IBAN, account).'', [],
          ''  value      ['' @ shown @ ''_'' @ '']'', [],
          ''  vault: '' @ dec_nat (fst (ap_vault a)) @ '' value(s) protected '' @ MIDDLE_DOT @ '' ''
            @ dec_nat (snd (ap_vault a)) @ '' token(s) issued'']
         @ map (\<lambda>m. ''    '' @ BULLET @ '' '' @ m) (ap_vault_values a)
         @ (if ap_vault_values a = []
            then [''    (nothing protected yet '' @ EM_DASH @ '' also seedable from config: protect = [..])''] else [])
         @ (if ap_protect_message a = [] then [] else [[], ''  '' @ ap_protect_message a]))"

text \<open>The rows of the archive in a window of \<open>height\<close> rows and \<open>width\<close> columns, the most recent first.\<close>

definition history_row :: "nat \<Rightarrow> history_view \<Rightarrow> string" where
  "history_row width h =
     (let label = (if hv_decision h = ''allow'' then ''ALLOW'' else if hv_decision h = ''deny'' then ''DENY ''
                   else if hv_decision h = ''ask'' then ''ASK  '' else ''?????'');
          where_to = (case hv_host h of Some x \<Rightarrow> x | None \<Rightarrow> ''-'');
          rule = (case hv_rule h of Some r \<Rightarrow> r | None \<Rightarrow> ''-'');
          rest = pad_right 13 (humanize_kind (hv_kind h)) @ '' '' @ pad_right 20 where_to @ '' '' @ rule
            @ (case hv_reason h of Some r \<Rightarrow> '' '' @ EM_DASH @ '' '' @ r | None \<Rightarrow> [])
            @ (if hv_critical h then ''  [critical]'' else [])
      in '' '' @ label @ '' '' @ '' '' @ truncate_text rest (width - 9))"

definition history_title :: "app \<Rightarrow> string" where
  "history_title a =
     '' activity archive '' @ EM_DASH @ '' '' @ dec_nat (length (ap_history a))
     @ '' recent (j/k or wheel to scroll) ''"

definition draw_history :: "rect \<Rightarrow> app \<Rightarrow> string list" where
  "draw_history area a =
     (let total = length (ap_history a)
      in if total = 0 then [[], ''   no decisions recorded yet'']
         else (let visible = max (rc_height area - 2 - 1) 1;
                   offset = min (ap_history_offset a) (total - 1);
                   drawn = min visible (total - offset)
               in ('' '' @ pad_right 7 ''OUTCOME'' @ '' '' @ pad_right 13 ''ACTION'' @ '' ''
                     @ pad_right 20 ''HOST'' @ '' rule / reason'')
                  # map (history_row (rc_width area - 2)) (take drawn (drop offset (rev (ap_history a))))
                  @ (if offset + drawn < total
                     then [''   '' @ ellipsis @ '' '' @ dec_nat (total - (offset + drawn)) @ '' older below'']
                     else [])))"

text \<open>The body of a frame.\<close>

definition draw_body :: "rect \<Rightarrow> app \<Rightarrow> screen \<times> app" where
  "draw_body body a =
     (case ap_view a of
        V_Approvals \<Rightarrow> draw_approvals body a
      | V_History \<Rightarrow> (SC_Lines (history_title a) (draw_history body a), a)
      | V_NewToken \<Rightarrow> (SC_Lines '' new token '' (draw_new_token a), a)
      | V_Protect \<Rightarrow> (SC_Lines '' protect data '' (draw_protect a), a))"

definition footer_keys :: "view \<Rightarrow> (string \<times> string) list" where
  "footer_keys v =
     (if v = V_NewToken
      then [('' Tab '', '' field  ''), ('' Enter '', '' save  ''), ('' Esc '', '' cancel'')]
      else if v = V_Protect
      then [('' Enter '', '' protect value  ''), ('' Bksp '', '' remove last  ''), ('' Esc '', '' cancel'')]
      else [('' j/k '', '' move  ''), ('' a '', '' allow  ''), ('' d '', '' deny  ''), ('' p '', '' panic  ''),
            ('' n '', '' new token  ''), ('' v '', '' protect  ''), ('' Tab '', '' archive  ''),
            ('' r '', '' refresh  ''), ('' q '', '' quit'')])"

text \<open>Drawing a frame: the buttons of the last one are forgotten first.\<close>

record frame =
  fr_header :: string
  fr_status_color :: colour
  fr_body :: screen
  fr_footer :: "(string \<times> string) list"

definition draw :: "rect \<Rightarrow> app \<Rightarrow> frame \<times> app" where
  "draw body a0 =
     (let a = a0\<lparr>ap_hits := []\<rparr>; (scr, a') = draw_body body a
      in (\<lparr>fr_header = '' GUARDIAN '' @ ''  AI action firewall    '' @ [SPINNER ! ap_spinner a, CHR '' '']
              @ ap_status a,
           fr_status_color = status_color (ap_status a), fr_body = scr, fr_footer = footer_keys (ap_view a')\<rparr>,
          a'))"

subsection \<open>The loop\<close>

text \<open>What wakes the loop: the clock, an event of the terminal, or a failed read of one.\<close>

datatype wake = WK_Tick | WK_Event tui_event | WK_Lost

definition wake_step :: "'s cockpit \<Rightarrow> wake \<Rightarrow> app \<times> 's \<Rightarrow> app \<times> 's" where
  "wake_step c w x =
     (case w of
        WK_Tick \<Rightarrow> refresh c ((fst x)\<lparr>ap_spinner := (ap_spinner (fst x) + 1) mod length SPINNER\<rparr>, snd x)
      | WK_Event ev \<Rightarrow> handle_event c ev x
      | WK_Lost \<Rightarrow> x)"

text \<open>Draw, then wait; the frames and the last state. It ends when the user quits.\<close>

fun run_loop :: "'s cockpit \<Rightarrow> rect \<Rightarrow> wake list \<Rightarrow> app \<times> 's \<Rightarrow> frame list \<times> app \<times> 's" where
  "run_loop c body [] (a, st) = (case draw body a of (scr, a') \<Rightarrow> ([scr], a', st))"
| "run_loop c body (w # ws) (a, st) =
     (case draw body a of (scr, a') \<Rightarrow>
        if ap_quit a' then ([scr], a', st)
        else (case run_loop c body ws (wake_step c w (a', st)) of (scrs, x) \<Rightarrow> (scr # scrs, x)))"

definition tui_run :: "'s cockpit \<Rightarrow> rect \<Rightarrow> bool \<Rightarrow> wake list \<Rightarrow> 's \<Rightarrow> frame list \<times> app \<times> 's" where
  "tui_run c body demo ws st = run_loop c body ws (refresh c (app_new demo, st))"

end
