(* ===== verification/Tui_Laws.thy ===== *)
theory Tui_Laws
  imports Tui
begin

text \<open>
  What the cockpit may do. The selection always names a shown request; the decisions sent to the
  daemon in a run are exactly those the user asked for, in their order; a click decides the request
  of the card that was drawn under it; a secret is drawn only as its length.
\<close>

subsection \<open>The selection\<close>

definition app_ok :: "app \<Rightarrow> bool" where
  "app_ok a \<longleftrightarrow> ap_selected a < length (ap_pending a) \<or> (ap_pending a = [] \<and> ap_selected a = 0)"

named_theorems cockpit_ops

lemmas cockpit_defs = clamp_selected_def demo_status_def set_vault_def edit_form_def
  protect_backspace_def protect_enter_def submit_token_def Let_def

lemma clamp_selected_ok [simp]: "app_ok (clamp_selected a)"
  by (cases "ap_pending a") (auto simp: clamp_selected_def app_ok_def)

lemma app_ok_updates [simp]:
  "app_ok (a\<lparr>ap_status := s\<rparr>) = app_ok a" "app_ok (a\<lparr>ap_history := h\<rparr>) = app_ok a"
  "app_ok (a\<lparr>ap_view := v\<rparr>) = app_ok a" "app_ok (a\<lparr>ap_form := t\<rparr>) = app_ok a"
  "app_ok (a\<lparr>ap_quit := q\<rparr>) = app_ok a" "app_ok (a\<lparr>ap_hits := hs\<rparr>) = app_ok a"
  "app_ok (a\<lparr>ap_spinner := n\<rparr>) = app_ok a" "app_ok (a\<lparr>ap_vault := p\<rparr>) = app_ok a"
  "app_ok (a\<lparr>ap_vault_values := vs\<rparr>) = app_ok a" "app_ok (a\<lparr>ap_history_offset := o'\<rparr>) = app_ok a"
  "app_ok (a\<lparr>ap_protect_input := i\<rparr>) = app_ok a" "app_ok (a\<lparr>ap_protect_message := m\<rparr>) = app_ok a"
  by (simp_all add: app_ok_def)

lemma app_ok_small [simp]:
  "app_ok (demo_status a) = app_ok a" "app_ok (set_vault v a) = app_ok a"
  "app_ok (scroll_history d a) = app_ok a" "app_ok (edit_form f a) = app_ok a"
  by (simp_all add: demo_status_def set_vault_def scroll_history_def edit_form_def Let_def
      split: prod.split)

lemma refresh_ok:
  assumes "app_ok (fst x)"
  shows "app_ok (fst (refresh c x))"
proof -
  have pending: "app_ok (fst (refresh_pending c y))" if "app_ok (fst y)" for y
    using that by (auto simp: refresh_pending_def Let_def split: prod.split sum.split)
  have history: "app_ok (fst (refresh_history c y))" if "app_ok (fst y)" for y
    using that by (auto simp: refresh_history_def split: prod.split sum.split)
  have vault: "app_ok (fst (refresh_vault c y))" if "app_ok (fst y)" for y
    using that by (auto simp: refresh_vault_def split: prod.split sum.split)
  show ?thesis
    using assms by (auto simp: refresh_def intro!: pending history vault split: prod.split)
qed

lemma rem_trunc_range: "0 < m \<Longrightarrow> 0 \<le> x \<Longrightarrow> 0 \<le> rem_trunc x m \<and> rem_trunc x m < m"
  by (simp add: rem_trunc_def)

lemma rem_trunc_bound: "0 < m \<Longrightarrow> - m < rem_trunc x m \<and> rem_trunc x m < m"
  by (auto simp: rem_trunc_def)
    (smt (verit, best) pos_mod_bound pos_mod_sign)+

lemma move_selection_ok: "app_ok a \<Longrightarrow> app_ok (move_selection d a)"
proof (cases "ap_pending a = []")
  case False
  let ?m = "int (length (ap_pending a))"
  have m: "0 < ?m" using False by simp
  have "0 \<le> rem_trunc (int (ap_selected a) + d) ?m + ?m"
    using rem_trunc_bound [OF m, of "int (ap_selected a) + d"] by linarith
  from rem_trunc_range [OF m this]
  have "nat (rem_trunc (rem_trunc (int (ap_selected a) + d) ?m + ?m) ?m) < length (ap_pending a)"
    by linarith
  then show ?thesis using False by (simp add: move_selection_def app_ok_def Let_def)
qed (simp add: move_selection_def)

lemma step_selection_ok: "app_ok a \<Longrightarrow> app_ok (step_selection d a)"
  by (simp add: step_selection_def move_selection_ok)

lemma act_on_ok: "app_ok (fst x) \<Longrightarrow> app_ok (fst (act_on c i allow x))"
  by (auto simp: act_on_def refresh_ok split: prod.split)

lemma resolve_ok: "app_ok (fst x) \<Longrightarrow> app_ok (fst (resolve_selected c allow x))"
  by (simp add: resolve_selected_def act_on_ok)

lemma act_on_all_ok: "app_ok (fst x) \<Longrightarrow> app_ok (fst (fold (\<lambda>i. act_on c i allow) ids x))"
  by (induction ids arbitrary: x) (simp_all add: act_on_ok)

lemma panic_ok: "app_ok (fst x) \<Longrightarrow> app_ok (fst (panic_all c x))"
  using act_on_all_ok [of x c False]
  by (auto simp: panic_all_def Let_def split: prod.split) (metis fst_conv)

lemma submit_token_ok: "app_ok (fst x) \<Longrightarrow> app_ok (fst (submit_token c x))"
  by (auto simp: submit_token_def Let_def split: prod.split sum.split)

lemma form_key_ok: "app_ok (fst x) \<Longrightarrow> app_ok (fst (handle_form_key c k x))"
  by (cases x; cases k) (auto simp: submit_token_ok)

lemma protect_key_ok: "app_ok (fst x) \<Longrightarrow> app_ok (fst (handle_protect_key c k x))"
  by (cases x; cases k)
    (auto simp: protect_backspace_def protect_enter_def Let_def split: prod.split sum.split)

lemma list_key_ok: "app_ok (fst x) \<Longrightarrow> app_ok (fst (handle_list_key c k x))"
proof (cases x)
  case (Pair a st)
  assume "app_ok (fst x)"
  then have ok: "app_ok a" using Pair by simp
  show ?thesis
    unfolding handle_list_key_def Pair prod.case
    by (intro if_split [where P = "\<lambda>y. app_ok (fst y)", THEN iffD2] conjI impI refresh_ok resolve_ok
        panic_ok) (simp_all add: ok step_selection_ok)
qed

lemma handle_event_ok: "app_ok (fst x) \<Longrightarrow> app_ok (fst (handle_event c ev x))"
  by (auto simp: handle_event_def form_key_ok protect_key_ok list_key_ok act_on_ok
      split: tui_event.split option.split)

lemma wake_step_ok: "app_ok (fst x) \<Longrightarrow> app_ok (fst (wake_step c w x))"
  by (auto simp: wake_step_def refresh_ok handle_event_ok split: wake.split)

lemma draw_keeps:
  "ap_pending (snd (draw body a)) = ap_pending a" "ap_selected (snd (draw body a)) = ap_selected a"
  "ap_demo (snd (draw body a)) = ap_demo a" "ap_view (snd (draw body a)) = ap_view a"
  "ap_quit (snd (draw body a)) = ap_quit a"
  by (auto simp: draw_def draw_body_def draw_approvals_def Let_def split: view.split)

lemma draw_ok: "app_ok (snd (draw body a)) = app_ok a"
  by (simp add: app_ok_def draw_keeps)

lemma run_loop_ok: "app_ok (fst x) \<Longrightarrow> app_ok (fst (snd (run_loop c body ws x)))"
proof (induction c body ws x rule: run_loop.induct)
  case (1 c body a st)
  then show ?case using draw_ok [of body a] by (cases "draw body a") simp
next
  case (2 c body w ws a st)
  obtain scr a' where d: "draw body a = (scr, a')" by fastforce
  have ok: "app_ok a'" using 2 draw_ok [of body a] d by simp
  show ?case
  proof (cases "ap_quit a'")
    case False
    have "app_ok (fst (snd (run_loop c body ws (wake_step c w (a', st)))))"
      using 2(1) [OF d [symmetric] False] ok by (simp add: wake_step_ok)
    then show ?thesis using d False by (cases "run_loop c body ws (wake_step c w (a', st))") simp
  qed (simp add: d ok)
qed

lemma app_new_ok [simp]: "app_ok (app_new demo)"
  by (simp add: app_ok_def app_new_def demo_pending_def)

text \<open>Whatever the daemon answers and whatever the user types, clicks or waits for, the selection
  of the cockpit names one of the pending requests it holds, or none is held and it is the first.\<close>

theorem cockpit_selection_in_range:
  "let a = fst (snd (tui_run c body demo ws st))
   in (ap_pending a = [] \<and> ap_selected a = 0) \<or> ap_selected a < length (ap_pending a)"
proof -
  have "app_ok (fst (snd (tui_run c body demo ws st)))"
    unfolding tui_run_def by (intro run_loop_ok refresh_ok) simp
  then show ?thesis by (auto simp: app_ok_def Let_def)
qed

subsection \<open>What the cockpit sends\<close>

text \<open>The requests that change something outside the cockpit, kept beside the client's state.\<close>

datatype effect =
    E_Respond nat bool
  | E_Protect string
  | E_Unprotect
  | E_Store string string

definition quiet :: "('s \<Rightarrow> 'r \<times> 's) \<Rightarrow> 's \<times> effect list \<Rightarrow> 'r \<times> 's \<times> effect list" where
  "quiet f z = (case f (fst z) of (r, st) \<Rightarrow> (r, st, snd z))"

definition loud :: "effect \<Rightarrow> ('s \<Rightarrow> 'r \<times> 's) \<Rightarrow> 's \<times> effect list \<Rightarrow> 'r \<times> 's \<times> effect list" where
  "loud e f z = (case f (fst z) of (r, st) \<Rightarrow> (r, st, snd z @ [e]))"

definition logged :: "'s cockpit \<Rightarrow> ('s \<times> effect list) cockpit" where
  "logged c =
     \<lparr>ck_pending = quiet (ck_pending c),
      ck_respond = (\<lambda>i allow. loud (E_Respond i allow) (ck_respond c i allow)),
      ck_history = (\<lambda>n. quiet (ck_history c n)),
      ck_vault_status = quiet (ck_vault_status c),
      ck_protect = (\<lambda>v. loud (E_Protect v) (ck_protect c v)),
      ck_unprotect = loud E_Unprotect (ck_unprotect c),
      ck_store = (\<lambda>t s. loud (E_Store t s) (ck_store c t s))\<rparr>"

definition asked_by_key :: "key_code \<Rightarrow> app \<Rightarrow> effect list" where
  "asked_by_key k a =
     (case ap_view a of
        V_NewToken \<Rightarrow>
          if k = KC_Enter \<and> trim (tf_target (ap_form a)) \<noteq> [] \<and> tf_secret (ap_form a) \<noteq> []
          then [E_Store (trim (tf_target (ap_form a))) (tf_secret (ap_form a))] else []
      | V_Protect \<Rightarrow>
          if k = KC_Enter \<and> trim (ap_protect_input a) \<noteq> [] then [E_Protect (trim (ap_protect_input a))]
          else if k = KC_Backspace \<and> ap_protect_input a = [] then [E_Unprotect] else []
      | _ \<Rightarrow>
          if k = KC_Char ''a'' \<or> k = KC_Char ''d''
          then (if ap_selected a < length (ap_pending a)
                then [E_Respond (pv_id (ap_pending a ! ap_selected a)) (k = KC_Char ''a'')] else [])
          else if k = KC_Char ''p'' then map (\<lambda>p. E_Respond (pv_id p) False) (ap_pending a)
          else [])"

definition asked_by :: "wake \<Rightarrow> app \<Rightarrow> effect list" where
  "asked_by w a =
     (if ap_demo a then []
      else case w of
             WK_Event (TE_Key press k) \<Rightarrow> if press then asked_by_key k a else []
           | WK_Event (TE_Mouse kind column row) \<Rightarrow>
               if kind = MK_DownLeft
               then (case find_hit (ap_hits a) column row of
                       Some (i, allow) \<Rightarrow> [E_Respond i allow] | None \<Rightarrow> [])
               else []
           | _ \<Rightarrow> [])"

text \<open>The states in which the loop waited, each after its frame was drawn, with what woke it.\<close>

fun turns :: "'s cockpit \<Rightarrow> rect \<Rightarrow> wake list \<Rightarrow> app \<times> 's \<Rightarrow> (app \<times> wake) list" where
  "turns c body [] x = []"
| "turns c body (w # ws) (a, st) =
     (let a' = snd (draw body a)
      in if ap_quit a' then [] else (a', w) # turns c body ws (wake_step c w (a', st)))"

definition sent :: "app \<times> 's \<times> effect list \<Rightarrow> effect list" where
  "sent x = snd (snd x)"

lemma sent_pair [simp]: "sent (a, st, l) = l" "sent (a, z) = snd z"
  by (simp_all add: sent_def)

lemma quiet_snd [simp]: "snd (snd (quiet f z)) = snd z"
  by (simp add: quiet_def split: prod.split)

lemma loud_snd [simp]: "snd (snd (loud e f z)) = snd z @ [e]"
  by (simp add: loud_def split: prod.split)

lemma quiet_eq: "quiet f z = (r, z') \<Longrightarrow> snd z' = snd z"
  using quiet_snd [of f z] by simp

lemma loud_eq: "loud e f z = (r, z') \<Longrightarrow> snd z' = snd z @ [e]"
  using loud_snd [of e f z] by simp

lemma refresh_sends [simp]: "sent (refresh (logged c) x) = sent x"
proof -
  have pending: "sent (refresh_pending (logged c) y) = sent y" for y
    by (cases y) (auto simp: refresh_pending_def logged_def Let_def dest: quiet_eq split: prod.split sum.split)
  have history: "sent (refresh_history (logged c) y) = sent y" for y
    by (cases y) (auto simp: refresh_history_def logged_def dest: quiet_eq split: prod.split sum.split)
  have vault: "sent (refresh_vault (logged c) y) = sent y" for y
    by (cases y) (auto simp: refresh_vault_def logged_def dest: quiet_eq split: prod.split sum.split)
  show ?thesis
    by (cases x) (simp add: refresh_def pending history vault)
qed

lemma refresh_demo [simp]: "ap_demo (fst (refresh c x)) = ap_demo (fst x)"
proof -
  have pending: "ap_demo (fst (refresh_pending c y)) = ap_demo (fst y)" for y
    by (cases y) (auto simp: refresh_pending_def clamp_selected_def Let_def split: prod.split sum.split)
  have history: "ap_demo (fst (refresh_history c y)) = ap_demo (fst y)" for y
    by (cases y) (auto simp: refresh_history_def split: prod.split sum.split)
  have vault: "ap_demo (fst (refresh_vault c y)) = ap_demo (fst y)" for y
    by (cases y) (auto simp: refresh_vault_def set_vault_def split: prod.split sum.split)
  show ?thesis
    by (cases x) (simp add: refresh_def pending history vault demo_status_def clamp_selected_def)
qed

lemma act_on_sends:
  "sent (act_on (logged c) i allow x)
   = sent x @ (if ap_demo (fst x) then [] else [E_Respond i allow])"
  by (cases x) (auto simp: act_on_def, simp add: sent_def logged_def)

lemma act_on_demo [simp]: "ap_demo (fst (act_on c i allow x)) = ap_demo (fst x)"
  by (cases x) (simp add: act_on_def demo_status_def clamp_selected_def)

lemma act_on_all_sends:
  "sent (fold (\<lambda>i. act_on (logged c) i False) ids x)
   = sent x @ (if ap_demo (fst x) then [] else map (\<lambda>i. E_Respond i False) ids)"
  by (induction ids arbitrary: x) (simp_all add: act_on_sends)

lemma panic_sends:
  "sent (panic_all (logged c) x)
   = sent x @ (if ap_demo (fst x) then [] else map (\<lambda>p. E_Respond (pv_id p) False) (ap_pending (fst x)))"
proof -
  let ?f = "fold (\<lambda>i. act_on (logged c) i False) (map pv_id (ap_pending (fst x))) x"
  have "sent (panic_all (logged c) x) = sent ?f"
    by (cases ?f) (simp add: panic_all_def Let_def sent_def)
  then show ?thesis by (simp add: act_on_all_sends comp_def)
qed

lemma resolve_sends:
  "sent (resolve_selected (logged c) allow x)
   = sent x @ (if ap_demo (fst x) \<or> \<not> ap_selected (fst x) < length (ap_pending (fst x)) then []
               else [E_Respond (pv_id (ap_pending (fst x) ! ap_selected (fst x))) allow])"
  by (simp add: resolve_selected_def act_on_sends)

lemma form_key_sends:
  assumes "ap_view (fst x) = V_NewToken"
  shows "sent (handle_form_key (logged c) k x)
         = sent x @ (if ap_demo (fst x) then [] else asked_by_key k (fst x))"
proof -
  obtain a st l where x: "x = (a, st, l)" by (cases x) auto
  have "sent (submit_token (logged c) x)
        = sent x @ (if ap_demo (fst x) then [] else asked_by_key KC_Enter (fst x))"
    using assms x
    by (cases "ck_store c (trim (tf_target (ap_form a))) (tf_secret (ap_form a)) st")
      (auto simp: submit_token_def asked_by_key_def logged_def loud_def Let_def split: sum.split)
  then show ?thesis using assms x by (cases k) (simp_all add: asked_by_key_def)
qed

lemma protect_key_sends:
  assumes "ap_view (fst x) = V_Protect"
  shows "sent (handle_protect_key (logged c) k x)
         = sent x @ (if ap_demo (fst x) then [] else asked_by_key k (fst x))"
proof -
  obtain a st l where x: "x = (a, st, l)" by (cases x) auto
  have enter: "sent (protect_enter (logged c) x)
        = sent x @ (if ap_demo (fst x) then [] else asked_by_key KC_Enter (fst x))"
    using assms x
    by (cases "ck_protect c (trim (ap_protect_input a)) st")
      (auto simp: protect_enter_def asked_by_key_def logged_def loud_def Let_def split: sum.split)
  have erase: "sent (protect_backspace (logged c) x)
        = sent x @ (if ap_demo (fst x) then [] else asked_by_key KC_Backspace (fst x))"
    using assms x
    by (cases "ck_unprotect c st")
      (auto simp: protect_backspace_def asked_by_key_def logged_def loud_def split: sum.split)
  show ?thesis using assms x enter erase by (cases k) (simp_all add: asked_by_key_def)
qed

lemma list_key_sends:
  assumes "ap_view (fst x) \<noteq> V_NewToken" "ap_view (fst x) \<noteq> V_Protect"
  shows "sent (handle_list_key (logged c) k x)
         = sent x @ (if ap_demo (fst x) then [] else asked_by_key k (fst x))"
proof -
  obtain a st l where x: "x = (a, st, l)" by (cases x) auto
  have asked: "asked_by_key k a =
      (if k = KC_Char ''a'' \<or> k = KC_Char ''d''
       then (if ap_selected a < length (ap_pending a)
             then [E_Respond (pv_id (ap_pending a ! ap_selected a)) (k = KC_Char ''a'')] else [])
       else if k = KC_Char ''p'' then map (\<lambda>p. E_Respond (pv_id p) False) (ap_pending a)
       else [])" for k
    using assms x by (cases "ap_view a") (simp_all add: asked_by_key_def)
  consider "k = KC_Char ''a''" | "k = KC_Char ''d''" | "k = KC_Char ''p''"
    | "k \<noteq> KC_Char ''a''" "k \<noteq> KC_Char ''d''" "k \<noteq> KC_Char ''p''" by blast
  then show ?thesis
  proof cases
    case 4
    have "sent (handle_list_key (logged c) k x) = l"
      unfolding handle_list_key_def x prod.case using 4
      by (intro if_split [where P = "\<lambda>y. sent y = l", THEN iffD2] conjI impI) simp_all
    then show ?thesis using 4 x by (simp add: asked)
  qed (simp_all add: handle_list_key_def x asked resolve_sends panic_sends)
qed

lemma handle_event_sends:
  "sent (handle_event (logged c) ev x) = sent x @ asked_by (WK_Event ev) (fst x)"
proof (cases ev)
  case (TE_Key press k)
  show ?thesis
  proof (cases "ap_view (fst x) = V_NewToken \<or> ap_view (fst x) = V_Protect")
    case True
    then show ?thesis
      using TE_Key by (auto simp: handle_event_def asked_by_def form_key_sends protect_key_sends)
  next
    case False
    then show ?thesis using TE_Key by (auto simp: handle_event_def asked_by_def list_key_sends)
  qed
next
  case (TE_Mouse kind column row)
  then show ?thesis
    by (cases "kind = MK_DownLeft")
      (auto simp: handle_event_def asked_by_def act_on_sends split: option.split, auto simp: sent_def)
qed (simp add: handle_event_def asked_by_def)

lemma wake_step_sends: "sent (wake_step (logged c) w x) = sent x @ asked_by w (fst x)"
  by (cases w) (simp_all add: wake_step_def handle_event_sends, simp_all add: asked_by_def sent_def)

lemma run_loop_sends:
  "sent (snd (run_loop (logged c) body ws x))
   = sent x @ concat (map (\<lambda>(a, w). asked_by w a) (turns (logged c) body ws x))"
proof (induction "logged c" body ws x rule: run_loop.induct)
  case (1 body a st)
  then show ?case by (cases "draw body a") simp
next
  case (2 body w ws a st)
  obtain scr a' where d: "draw body a = (scr, a')" by fastforce
  show ?case
  proof (cases "ap_quit a'")
    case False
    show ?thesis
      using 2 [OF d [symmetric] False] d False
      by (cases "run_loop (logged c) body ws (wake_step (logged c) w (a', st))")
        (simp add: wake_step_sends Let_def)
  qed (simp add: d)
qed

text \<open>
  C27: What a run of the cockpit sends to the daemon and to the keychain is exactly what the user
  asked for, in order: a decision for the selected request at an \<open>a\<close> or a \<open>d\<close>, a denial of each
  request held at a \<open>p\<close>, a decision at a click on a button of the last frame, the value typed into
  the vault form, the token typed into the token form; nothing at a tick, and nothing in the preview.\<close>

theorem cockpit_sends_only_asked:
  "sent (snd (tui_run (logged c) body demo ws (st, [])))
   = concat (map (\<lambda>(a, w). asked_by w a)
       (turns (logged c) body ws (refresh (logged c) (app_new demo, st, []))))"
  by (simp add: tui_run_def run_loop_sends)

subsection \<open>What a click decides\<close>

lemma draw_cards_nth:
  "k < length (draw_cards area sel i ps) \<Longrightarrow>
     k < length ps
     \<and> draw_cards area sel i ps ! k = (card_of area sel (i + k) (ps ! k), hit_of area (i + k) (ps ! k))
     \<and> rc_y area + (i + k) * CARD_H + CARD_H \<le> rc_y area + rc_height area"
proof (induction ps arbitrary: i k)
  case (Cons p ps)
  show ?case
  proof (cases k)
    case 0
    then show ?thesis using Cons.prems by (auto split: if_splits)
  next
    case (Suc j)
    then show ?thesis using Cons.prems Cons.IH [of j "Suc i"] by (auto split: if_splits)
  qed
qed simp

lemma find_hit_Some:
  "find_hit hs column row = Some (i, allow) \<Longrightarrow>
     \<exists>h\<in>set hs. i = hit_id h \<and> row = hit_row h
       \<and> in_range (if allow then hit_allow h else hit_deny h) column"
  by (induction hs) (auto split: if_splits)

text \<open>Between the borders of a card; its buttons need a card of 27 columns.\<close>

definition on_rows :: "rect \<Rightarrow> nat \<Rightarrow> bool" where
  "on_rows r row \<longleftrightarrow> rc_y r < row \<and> row + 1 < rc_y r + rc_height r"

definition inside :: "rect \<Rightarrow> nat \<Rightarrow> nat \<Rightarrow> bool" where
  "inside r column row \<longleftrightarrow> on_rows r row \<and> rc_x r < column
     \<and> (column + 1 < rc_x r + rc_width r \<or> rc_width r < 27)"

lemma hit_row_inside: "on_rows (card_rect area k) (hit_row (hit_of area k p))"
  by (simp add: on_rows_def hit_of_def inner_rect_def card_rect_def CARD_H_def Let_def)

lemma inside_unique: "on_rows (card_rect area j) row \<Longrightarrow> on_rows (card_rect area k) row \<Longrightarrow> j = k"
  by (auto simp: on_rows_def card_rect_def CARD_H_def)

text \<open>
  C28: When a click on the last frame decides a request, the frame was the list of approvals and
  the click fell inside a card of it; that card alone, drawn whole, shows this very request, and what
  was clicked is its word: the columns 2 to 12 of the card allow, 16 to 25 deny.
\<close>

theorem click_decides_drawn_card:
  assumes "draw body a = (scr, a')" and "find_hit (ap_hits a') column row = Some (i, allow)"
  shows "\<exists>cards k. fr_body scr = SC_Cards cards \<and> k < length cards \<and> k < length (ap_pending a')
    \<and> pv_id (ap_pending a' ! k) = i
    \<and> cards ! k = card_of body (ap_selected a') k (ap_pending a' ! k)
    \<and> rc_y (cd_rect (cards ! k)) + rc_height (cd_rect (cards ! k)) \<le> rc_y body + rc_height body
    \<and> {j. j < length cards \<and> on_rows (cd_rect (cards ! j)) row} = {k}
    \<and> inside (cd_rect (cards ! k)) column row
    \<and> (let x = rc_x (cd_rect (cards ! k))
       in if allow then x + 2 \<le> column \<and> column \<le> x + 12 else x + 16 \<le> column \<and> column \<le> x + 25)"
proof -
  let ?drawn = "draw_cards body (ap_selected a) 0 (ap_pending a)"
  have v: "ap_view a = V_Approvals" "ap_pending a \<noteq> []"
    using assms by (auto simp: draw_def draw_body_def draw_approvals_def Let_def split: view.splits if_splits)
  then have scr: "fr_body scr = SC_Cards (map fst ?drawn)" and hits: "ap_hits a' = map snd ?drawn"
    and keep: "ap_pending a' = ap_pending a" "ap_selected a' = ap_selected a"
    using assms(1) by (auto simp: draw_def draw_body_def draw_approvals_def Let_def)
  obtain k where k: "k < length ?drawn" "i = hit_id (snd (?drawn ! k))" "row = hit_row (snd (?drawn ! k))"
    "in_range (if allow then hit_allow (snd (?drawn ! k)) else hit_deny (snd (?drawn ! k))) column"
  proof -
    from find_hit_Some [OF assms(2)] obtain h where h: "h \<in> snd ` set ?drawn" "i = hit_id h" "row = hit_row h"
      "in_range (if allow then hit_allow h else hit_deny h) column" unfolding hits set_map by blast
    then obtain k where "k < length ?drawn" "h = snd (?drawn ! k)" by (auto simp: in_set_conv_nth)
    with h show thesis by (auto intro: that)
  qed
  note nth = draw_cards_nth [of _ body "ap_selected a" 0 "ap_pending a"]
  have rect: "cd_rect (map fst ?drawn ! j) = card_rect body j" if "j < length ?drawn" for j
    using nth [OF that] that by (simp add: card_of_def Let_def)
  have row: "on_rows (card_rect body k) row"
    using nth [OF k(1)] k(3) by (simp add: hit_row_inside)
  have "{j. j < length (map fst ?drawn) \<and> on_rows (cd_rect (map fst ?drawn ! j)) row} = {k}"
    using rect row k(1) inside_unique by (auto simp del: nth_map)
  moreover have "cd_rect (map fst ?drawn ! k) = card_rect body k" by (rule rect [OF k(1)])
  moreover have x: "let x = rc_x (card_rect body k)
      in if allow then x + 2 \<le> column \<and> column \<le> x + 12 else x + 16 \<le> column \<and> column \<le> x + 25"
    using nth [OF k(1)] k(4)
    by (auto simp: hit_of_def inner_rect_def card_rect_def in_range_def allow_label_def deny_label_def Let_def)
  moreover have "inside (card_rect body k) column row"
    using row x by (auto simp: inside_def Let_def split: if_splits)
  moreover have "k < length (ap_pending a')" "pv_id (ap_pending a' ! k) = i"
    "map fst ?drawn ! k = card_of body (ap_selected a') k (ap_pending a' ! k)"
    "rc_y (card_rect body k) + rc_height (card_rect body k) \<le> rc_y body + rc_height body"
    using nth [OF k(1)] k keep by (auto simp: hit_of_def Let_def card_rect_def)
  ultimately show ?thesis
    using k(1) scr by (intro exI [of _ "map fst ?drawn"] exI [of _ k]) simp
qed

theorem click_decides_drawn_card_witness:
  "\<exists>cards k. fr_body (fst (draw \<lparr>rc_x = 0, rc_y = 5, rc_width = 80, rc_height = 12\<rparr> (app_new True))) = SC_Cards cards
     \<and> k < length cards \<and> k < 4 \<and> pv_id (demo_pending ! k) = 2
     \<and> cards ! k = card_of \<lparr>rc_x = 0, rc_y = 5, rc_width = 80, rc_height = 12\<rparr> 0 k (demo_pending ! k)"
proof -
  let ?body = "\<lparr>rc_x = 0, rc_y = 5, rc_width = 80, rc_height = 12\<rparr>"
  have d: "draw ?body (app_new True) = (fst (draw ?body (app_new True)), snd (draw ?body (app_new True)))"
    by simp
  have "find_hit (ap_hits (snd (draw ?body (app_new True)))) 17 13 = Some (2, False)"
    by code_simp
  from click_decides_drawn_card [OF d this]
  show ?thesis
    unfolding draw_keeps by (simp add: app_new_def) (auto simp: demo_pending_def)
qed

subsection \<open>What is drawn of a secret\<close>

text \<open>
  A frame depends on the secret of the token form only through its length: two secrets of the
  same number of characters draw the same frame.
\<close>

theorem secret_drawn_as_length:
  assumes "char_count s = char_count s'"
  shows "fst (draw body (a\<lparr>ap_form := t\<lparr>tf_secret := s\<rparr>\<rparr>))
       = fst (draw body (a\<lparr>ap_form := t\<lparr>tf_secret := s'\<rparr>\<rparr>))"
proof (cases "ap_view a")
  case V_Approvals
  then show ?thesis
    by (cases "ap_pending a = []") (simp_all add: draw_def draw_body_def draw_approvals_def Let_def)
next
  case V_History
  then show ?thesis by (simp add: draw_def draw_body_def history_title_def draw_history_def Let_def)
next
  case V_NewToken
  then show ?thesis using assms by (simp add: draw_def draw_body_def draw_new_token_def Let_def)
next
  case V_Protect
  then show ?thesis by (simp add: draw_def draw_body_def draw_protect_def Let_def)
qed

theorem secret_drawn_as_length_witness:
  "fst (draw \<lparr>rc_x = 0, rc_y = 0, rc_width = 80, rc_height = 20\<rparr>
          ((app_new False)\<lparr>ap_view := V_NewToken, ap_form := token_form_new\<lparr>tf_secret := ''hunter2''\<rparr>\<rparr>))
   = fst (draw \<lparr>rc_x = 0, rc_y = 0, rc_width = 80, rc_height = 20\<rparr>
          ((app_new False)\<lparr>ap_view := V_NewToken, ap_form := token_form_new\<lparr>tf_secret := ''abcdefg''\<rparr>\<rparr>))"
  by (rule secret_drawn_as_length) code_simp

subsection \<open>Where the cockpit can mislead\<close>

text \<open>A selected request whose card does not fit is not drawn, and \<open>a\<close> approves it.\<close>

lemma undrawn_selection_approved:
  "let body = \<lparr>rc_x = 0, rc_y = 0, rc_width = 80, rc_height = 12\<rparr>;
       a = (app_new True)\<lparr>ap_demo := False, ap_selected := 3\<rparr>
   in length (case fr_body (fst (draw body a)) of SC_Cards cs \<Rightarrow> cs | SC_Lines _ _ \<Rightarrow> []) = 2
      \<and> asked_by (WK_Event (TE_Key True (KC_Char ''a''))) (snd (draw body a)) = [E_Respond 4 True]"
  by code_simp

text \<open>In the archive no request is drawn, and \<open>a\<close> still approves the selected one.\<close>

lemma archive_key_approves:
  assumes "ap_view a = V_History" and "\<not> ap_demo a" and "ap_selected a < length (ap_pending a)"
  shows "asked_by (WK_Event (TE_Key True (KC_Char ''a''))) a
         = [E_Respond (pv_id (ap_pending a ! ap_selected a)) True]"
  using assms by (simp add: asked_by_def asked_by_key_def)

text \<open>The panic key reports its denials whether or not the daemon answered.\<close>

lemma panic_claims_denied:
  "ap_status (fst (panic_all c x)) = ''panic: denied '' @ dec_nat (length (ap_pending (fst x)))"
  by (simp add: panic_all_def Let_def split: prod.split)

end
