(* ===== verification/Cockpit.thy ===== *)
theory Cockpit
  imports Daemon_Laws Tui_Laws
begin

text \<open>
  The cockpit on the daemon: \<open>tui.rs\<close> over \<open>DaemonClient\<close> over the control socket. A decision made
  at a card is one response to the queue, and what is shown afterwards is the queue.
\<close>

text \<open>\<open>store\<close> is the keychain's.\<close>

definition daemon_cockpit ::
    "json_lib \<Rightarrow> (string \<Rightarrow> string) \<Rightarrow> (json \<Rightarrow> string) \<Rightarrow> 's socket
       \<Rightarrow> (string \<Rightarrow> string \<Rightarrow> 's \<Rightarrow> (string, unit) result \<times> 's) \<Rightarrow> 's cockpit" where
  "daemon_cockpit jl err derr socket store =
     \<lparr>ck_pending = client_pending jl err derr socket,
      ck_respond = client_respond jl err socket,
      ck_history = client_history jl err derr socket,
      ck_vault_status = client_vault_status jl err socket,
      ck_protect = client_protect jl err socket,
      ck_unprotect = client_unprotect jl err socket,
      ck_store = store\<rparr>"

subsection \<open>What the client reads back\<close>

lemma dec_pending_view_json:
  assumes "pv_id p < 2 ^ 64" and "pv_risk p < 256"
  shows "dec_pending_view (pending_view_json p) = Some p"
  using assms by (simp add: dec_pending_view_def pending_view_json_def field_def jget_jobj dec_uint_def)

lemma dec_pending_items:
  assumes "\<forall>p\<in>set ps. pv_id p < 2 ^ 64 \<and> pv_risk p < 256"
  shows "dec_items derr dec_pending_view (JArr (map pending_view_json ps)) = Inr ps"
proof -
  have "those (map (\<lambda>p. dec_pending_view (pending_view_json p)) ps) = Some ps"
    using assms by (induction ps) (simp_all add: dec_pending_view_json)
  then show ?thesis by (simp add: dec_items_def comp_def)
qed

text \<open>The lines the client writes by hand are the objects they look like.\<close>

definition plain_request :: "string \<Rightarrow> json" where
  "plain_request cmd = jobj [(''cmd'', JStr cmd)]"

definition respond_line :: "nat \<Rightarrow> bool \<Rightarrow> string" where
  "respond_line i approve =
     cmd_line ''respond'' ('','' @ jstr ''id'' @ '':'' @ dec_nat i @ '','' @ jstr ''approve'' @ '':''
       @ bool_text approve)"

definition respond_request :: "nat \<Rightarrow> bool \<Rightarrow> json" where
  "respond_request i approve =
     jobj [(''cmd'', JStr ''respond''), (''id'', JInt (int i)), (''approve'', JBool approve)]"

definition reads_commands :: "json_lib \<Rightarrow> nat \<Rightarrow> bool \<Rightarrow> bool" where
  "reads_commands jl i approve \<longleftrightarrow>
     jl_parse jl (respond_line i approve) = Some (respond_request i approve)
     \<and> jl_parse jl (cmd_line ''pending'' []) = Some (plain_request ''pending'')
     \<and> jl_parse jl (cmd_line ''vault_status'' []) = Some (plain_request ''vault_status'')"

lemma decode_commands:
  "decode_request (plain_request ''pending'') = Some RQ_Pending"
  "decode_request (plain_request ''vault_status'') = Some RQ_VaultStatus"
  "i < 2 ^ 64 \<Longrightarrow> decode_request (respond_request i approve) = Some (RQ_Respond i approve)"
  by (simp_all add: decode_request_def plain_request_def respond_request_def jget_str_def jget_jobj field_def
      dec_uint_def)

lemma client_rpc_line:
  assumes "jl_parse jl line = Some v" and "decode_request v = Some r" and "dispatch r st = (resp, st')"
    and "carries jl (response_json resp)"
  shows "client_rpc jl cerr (connected jl err dispatch) line st = (Inr (response_json resp), st')"
  using assms by (simp add: client_rpc_def connected_def connection_reply_def carries_def)

subsection \<open>The decision\<close>

definition shown_queue :: "approval_queue \<Rightarrow> pending_view list" where
  "shown_queue q = map pending_view_of (queue_pending q)"

text \<open>The counters and risks of the queue fit their types.\<close>

definition queue_fits :: "approval_queue \<Rightarrow> bool" where
  "queue_fits q \<longleftrightarrow> (\<forall>p\<in>set (queue_pending q). pa_id p < 2 ^ 64 \<and> ex_risk (pa_explanation p) < 256)"

lemma refresh_shows_queue:
  assumes now: "answers_now dp de works dispatch"
    and "reads_commands jl i allow" and "queue_fits (dm_queue d)"
    and "carries jl (response_json (RS_Pending (shown_queue (dm_queue d))))"
    and "carries jl (response_json (vault_response (dm_gateway d)))"
    and "\<not> ap_demo a" and "ap_view a \<noteq> V_History"
  shows "ap_pending (fst (refresh (daemon_cockpit jl cerr derr
           (connected jl err dispatch) store) (a, d))) = shown_queue (dm_queue d)
       \<and> snd (refresh (daemon_cockpit jl cerr derr
           (connected jl err dispatch) store) (a, d)) = d"
proof -
  let ?socket = "connected jl err dispatch"
  have pending: "client_pending jl cerr derr ?socket d = (Inr (shown_queue (dm_queue d)), d)"
  proof -
    have "client_rpc jl cerr ?socket (cmd_line ''pending'' []) d
        = (Inr (response_json (RS_Pending (shown_queue (dm_queue d)))), d)"
      using assms(2,4) now by (intro client_rpc_line [OF _ decode_commands(1)])
        (simp_all add: reads_commands_def answers_now_def shown_queue_def)
    moreover have "\<forall>p\<in>set (shown_queue (dm_queue d)). pv_id p < 2 ^ 64 \<and> pv_risk p < 256"
      using assms(3) by (simp add: shown_queue_def queue_fits_def pending_view_of_def)
    ultimately show ?thesis
      by (simp add: client_pending_def jget_jobj dec_pending_items)
  qed
  have "\<exists>v. client_vault_status jl cerr ?socket d = (Inr v, d)"
  proof -
    have "client_rpc jl cerr ?socket (cmd_line ''vault_status'' []) d
        = (Inr (response_json (vault_response (dm_gateway d))), d)"
      using assms(2,5) now by (intro client_rpc_line [OF _ decode_commands(2)])
        (simp_all add: reads_commands_def answers_now_def)
    then show ?thesis unfolding client_vault_status_def on_value_def by (intro exI) simp
  qed
  then obtain p t vs where vault: "client_vault_status jl cerr ?socket d = (Inr (p, t, vs), d)"
    by (metis prod_cases3)
  show ?thesis
    using assms(6,7)
    by (simp add: refresh_def refresh_pending_def refresh_history_def refresh_vault_def daemon_cockpit_def
        pending vault Let_def set_vault_def clamp_selected_def)
qed

lemma respond_reaches_queue:
  assumes now: "answers_now dp de works dispatch" and "reads_commands jl i allow" and "i < 2 ^ 64"
    and "queue_respond i (if allow then Approved else Denied) (dm_queue d) = (ok, q')"
    and "carries jl (response_json (RS_Responded ok))"
  shows "client_respond jl cerr (connected jl err dispatch) i allow d
       = (Inr ok, d\<lparr>dm_queue := q'\<rparr>)"
proof -
  have "client_rpc jl cerr (connected jl err dispatch) (respond_line i allow) d
      = (Inr (response_json (RS_Responded ok)), d\<lparr>dm_queue := q'\<rparr>)"
  proof (rule client_rpc_line [OF _ decode_commands(3) [OF assms(3)] _ assms(5)])
    show "jl_parse jl (respond_line i allow) = Some (respond_request i allow)"
      using assms(2) by (simp add: reads_commands_def)
    show "dispatch (RQ_Respond i allow) d = (RS_Responded ok, d\<lparr>dm_queue := q'\<rparr>)"
      using assms(4) now by (cases allow) (simp_all add: answers_now_def)
  qed
  then show ?thesis
    unfolding client_respond_def respond_line_def [symmetric]
    by (simp add: on_value_def field_or_def jget_jobj)
qed

subsection \<open>Properties\<close>

text \<open>
  C10: an \<open>a\<close> or a \<open>d\<close> in the list of approvals is, at the daemon, one answer to the queue for the
  selected request, and the list shown afterwards is that of the requests now pending there: the
  daemon's state changes in nothing else. The connection answers as \<open>dispatch_now\<close> does. Assumed are
  a connected socket, values that parse to what was printed, and the widths of the queue's numbers.
\<close>

theorem cockpit_decision_reaches_queue:
  assumes "ap_view a = V_Approvals" and "\<not> ap_demo a" and "ap_selected a < length (ap_pending a)"
    and "i = pv_id (ap_pending a ! ap_selected a)" and "i < 2 ^ 64" and "reads_commands jl i allow"
    and "answers_now dp de works dispatch"
    and "queue_respond i (if allow then Approved else Denied) (dm_queue d) = (ok, q')" and "queue_fits q'"
    and "carries jl (response_json (RS_Responded ok))"
    and "carries jl (response_json (RS_Pending (shown_queue q')))"
    and "carries jl (response_json (vault_response (dm_gateway d)))"
  shows "\<exists>a'. handle_event (daemon_cockpit jl cerr derr
             (connected jl err dispatch) store)
           (TE_Key True (KC_Char (if allow then ''a'' else ''d''))) (a, d) = (a', d\<lparr>dm_queue := q'\<rparr>)
         \<and> ap_pending a' = shown_queue q'"
proof -
  let ?c = "daemon_cockpit jl cerr derr (connected jl err dispatch) store"
  have "handle_event ?c (TE_Key True (KC_Char (if allow then ''a'' else ''d''))) (a, d)
      = refresh ?c (a, d\<lparr>dm_queue := q'\<rparr>)"
  proof -
    have "ck_respond ?c i allow d = (Inr ok, d\<lparr>dm_queue := q'\<rparr>)"
      using respond_reaches_queue [OF assms(7,6,5,8,10), of cerr err]
      by (simp add: daemon_cockpit_def)
    then show ?thesis
      using assms(1-4) by (cases allow) (simp_all add: handle_event_def handle_list_key_def resolve_selected_def act_on_def)
  qed
  moreover have "ap_pending (fst (refresh ?c (a, d\<lparr>dm_queue := q'\<rparr>))) = shown_queue q'
      \<and> snd (refresh ?c (a, d\<lparr>dm_queue := q'\<rparr>)) = d\<lparr>dm_queue := q'\<rparr>"
    using refresh_shows_queue [of dp de works dispatch jl i allow "d\<lparr>dm_queue := q'\<rparr>" a] assms by simp
  ultimately show ?thesis by (metis prod.collapse)
qed

subsection \<open>An example\<close>

text \<open>One request waits; the link knows the three lines and the three answers of this exchange.\<close>

definition ex_waiting :: approval_queue where
  "ex_waiting =
     (let info = \<lparr>pa_id = 7, pa_action_id = ''act'', pa_tool = ''run_shell'',
                  pa_explanation = external_explanation ''runs ls'' 40\<rparr>
      in (queue_new 120)
           \<lparr>aq_pending := [(7, \<lparr>en_info = info, en_responder = 0\<rparr>)], aq_counter := 8,
            aq_requests := [\<lparr>qr_info = info, qr_phase = PH_Waiting, qr_chan = CH_Empty, qr_deadline = 120\<rparr>]\<rparr>)"

definition ex_cockpit_app :: app where
  "ex_cockpit_app = (app_new False)\<lparr>ap_pending := shown_queue ex_waiting\<rparr>"

definition ex_wire :: "json \<Rightarrow> json \<Rightarrow> json \<Rightarrow> json_lib" where
  "ex_wire u v w =
     \<lparr>jl_parse = (\<lambda>s. if s = respond_line 7 True then Some (respond_request 7 True)
                     else if s = cmd_line ''pending'' [] then Some (plain_request ''pending'')
                     else if s = cmd_line ''vault_status'' [] then Some (plain_request ''vault_status'')
                     else if s = ''a'' then Some u else if s = ''b'' then Some v else Some w),
      jl_show = (\<lambda>x. if x = u then ''a'' else if x = v then ''b'' else ''c'')\<rparr>"

lemma ex_wire_reads: "reads_commands (ex_wire u v w) 7 True"
proof -
  have "respond_line 7 True \<noteq> cmd_line ''pending'' []" "respond_line 7 True \<noteq> cmd_line ''vault_status'' []"
    "cmd_line ''vault_status'' [] \<noteq> cmd_line ''pending'' []"
    by (simp_all add: respond_line_def cmd_line_def jstr_def)
  then show ?thesis
    unfolding reads_commands_def ex_wire_def json_lib.select_convs by (metis (no_types))
qed

lemma ex_wire_carries: "carries (ex_wire u v w) u" "carries (ex_wire u v w) v" "carries (ex_wire u v w) w"
proof -
  have "[c] \<noteq> respond_line 7 True" "[c] \<noteq> cmd_line x y" for c x y
    by (simp_all add: respond_line_def cmd_line_def)
  then show "carries (ex_wire u v w) u" "carries (ex_wire u v w) v" "carries (ex_wire u v w) w"
    by (simp_all add: carries_def ex_wire_def)
qed

definition ex_dispatch :: "daemon_request \<Rightarrow> (bool, string) daemon \<Rightarrow> daemon_response \<times> (bool, string) daemon" where
  "ex_dispatch r d =
     (case dispatch_now ex_crypto (\<lambda>_. None) True r d of Some x \<Rightarrow> x | None \<Rightarrow> (RS_Error [], d))"

lemma ex_dispatch_answers: "answers_now ex_dp (\<lambda>_. None) True ex_dispatch"
  by (simp add: answers_now_def ex_dispatch_def ex_dp_def)

theorem cockpit_decision_reaches_queue_witness:
  "\<exists>jl a'. handle_event (daemon_cockpit jl (\<lambda>_. []) (\<lambda>_. [])
        (connected jl (\<lambda>_. []) ex_dispatch)
        (\<lambda>_ _ d. (Inr (), d)))
      (TE_Key True (KC_Char ''a'')) (ex_cockpit_app, ex_daemon\<lparr>dm_queue := ex_waiting\<rparr>)
      = (a', ex_daemon\<lparr>dm_queue := snd (queue_respond 7 Approved ex_waiting)\<rparr>)
    \<and> ap_pending a' = [] \<and> ap_pending ex_cockpit_app \<noteq> []"
proof -
  let ?d = "ex_daemon\<lparr>dm_queue := ex_waiting\<rparr>" and ?q = "snd (queue_respond 7 Approved ex_waiting)"
  let ?jl = "ex_wire (response_json (RS_Responded True)) (response_json (RS_Pending []))
    (response_json (vault_response (dm_gateway ?d)))"
  have r: "queue_respond 7 (if True then Approved else Denied) (dm_queue ?d) = (True, ?q)"
    by (simp add: queue_respond_def ex_waiting_def Let_def)
  have none: "queue_pending ?q = []"
    by (simp add: queue_respond_def ex_waiting_def queue_pending_def upd_request_def Let_def)
  have app: "ap_view ex_cockpit_app = V_Approvals" "\<not> ap_demo ex_cockpit_app"
    "ap_selected ex_cockpit_app = 0" "length (ap_pending ex_cockpit_app) = 1"
    "pv_id (ap_pending ex_cockpit_app ! 0) = 7"
    by (simp_all add: ex_cockpit_app_def app_new_def shown_queue_def queue_pending_def ex_waiting_def
        pending_view_of_def Let_def)
  have fits: "queue_fits ?q" and shown: "shown_queue ?q = []"
    by (simp_all add: queue_fits_def shown_queue_def none)
  have c: "carries ?jl (response_json (RS_Responded True))"
    "carries ?jl (response_json (RS_Pending (shown_queue ?q)))"
    "carries ?jl (response_json (vault_response (dm_gateway ?d)))"
    unfolding shown by (rule ex_wire_carries)+
  have sel: "ap_selected ex_cockpit_app < length (ap_pending ex_cockpit_app)"
    "7 = pv_id (ap_pending ex_cockpit_app ! ap_selected ex_cockpit_app)" "(7::nat) < 2 ^ 64"
    unfolding app by simp_all
  from cockpit_decision_reaches_queue [OF app(1,2) sel ex_wire_reads ex_dispatch_answers r fits c]
  have "\<exists>a'. handle_event (daemon_cockpit ?jl (\<lambda>_. []) (\<lambda>_. [])
          (connected ?jl (\<lambda>_. []) ex_dispatch)
          (\<lambda>_ _ d. (Inr (), d)))
        (TE_Key True (KC_Char ''a'')) (ex_cockpit_app, ?d) = (a', ?d\<lparr>dm_queue := ?q\<rparr>)
      \<and> ap_pending a' = []"
    unfolding shown if_True .
  moreover have "ap_pending ex_cockpit_app \<noteq> []" using app(4) by auto
  moreover have "?d\<lparr>dm_queue := ?q\<rparr> = ex_daemon\<lparr>dm_queue := ?q\<rparr>" by simp
  ultimately show ?thesis by metis
qed

end
