(* ===== verification/Conditions.thy ===== *)
theory Conditions
  imports Engine_Laws
begin

text \<open>
  The conditions the repository's own policies are written in, with what the documentation of CEL
  says they mean. \<open>cond_text\<close> is the text a policy file holds, \<open>cond_value\<close> its value in a
  context (\<open>None\<close> is an evaluation error, as when a field is absent). The interpreter stays a
  parameter of the engine: \<open>cel_reads\<close> is the hypothesis that it reads given conditions as
  documented. The regular expressions of \<open>matches\<close> are third-party too, the parameter \<open>re\<close>.
\<close>

subsection \<open>Conditions and their texts\<close>

datatype cond =
    C_Lit bool
  | C_Is "string list" string
  | C_Set "string list"
  | C_Trusted
  | C_In_Home
  | C_Above "string list" nat
  | C_Matches "string list" string
  | C_Not cond
  | C_And cond cond

definition action_field :: "string list \<Rightarrow> string" where
  "action_field ks = ''action'' @ concat (map (\<lambda>k. ''.'' @ k) ks)"

definition cel_quoted :: "string \<Rightarrow> string" where
  "cel_quoted s =
     [CHR 0x22] @ concat (map (\<lambda>c. if c = CHR 0x5C then [CHR 0x5C, CHR 0x5C] else [c]) s) @ [CHR 0x22]"

fun cond_text :: "cond \<Rightarrow> string" where
  "cond_text (C_Lit b) = (if b then ''true'' else ''false'')"
| "cond_text (C_Is ks s) = action_field ks @ '' == '' @ cel_quoted s"
| "cond_text (C_Set ks) = action_field ks @ '' == true''"
| "cond_text C_Trusted = ''action.context.host in trusted_hosts''"
| "cond_text C_In_Home = ''action.context.path.startsWith(user.home)''"
| "cond_text (C_Above ks n) = action_field ks @ '' > '' @ dec_nat n"
| "cond_text (C_Matches ks r) = action_field ks @ ''.matches('' @ cel_quoted r @ '')''"
| "cond_text (C_Not c) = ''!('' @ cond_text c @ '')''"
| "cond_text (C_And c d) = cond_text c @ '' && '' @ cond_text d"

subsection \<open>Their documented meaning\<close>

fun json_at :: "string list \<Rightarrow> json \<Rightarrow> json option" where
  "json_at [] v = Some v"
| "json_at (k # ks) v = (case jget k v of None \<Rightarrow> None | Some w \<Rightarrow> json_at ks w)"

abbreviation field_at :: "string list \<Rightarrow> cel_ctx \<Rightarrow> json option" where
  "field_at ks ctx \<equiv> json_at ks (cel_action ctx)"

fun number_above :: "nat \<Rightarrow> json \<Rightarrow> bool option" where
  "number_above n (JInt i) = Some (int n < i)"
| "number_above n (JFloat x) = Some (f64_gt x (f64_of_int (int n)))"
| "number_above n _ = None"

fun cond_value :: "(string \<Rightarrow> string \<Rightarrow> bool) \<Rightarrow> cond \<Rightarrow> cel_ctx \<Rightarrow> bool option" where
  "cond_value re (C_Lit b) ctx = Some b"
| "cond_value re (C_Is ks s) ctx = map_option (\<lambda>v. v = JStr s) (field_at ks ctx)"
| "cond_value re (C_Set ks) ctx = map_option (\<lambda>v. v = JBool True) (field_at ks ctx)"
| "cond_value re C_Trusted ctx =
     (case field_at [''context'', ''host''] ctx of
        Some (JStr h) \<Rightarrow> Some (h \<in> set (cel_trusted_hosts ctx)) | _ \<Rightarrow> None)"
| "cond_value re C_In_Home ctx =
     (case (field_at [''context'', ''path''] ctx, json_at [''home''] (cel_user ctx)) of
        (Some (JStr p), Some (JStr h)) \<Rightarrow> Some (prefix h p) | _ \<Rightarrow> None)"
| "cond_value re (C_Above ks n) ctx = Option.bind (field_at ks ctx) (number_above n)"
| "cond_value re (C_Matches ks r) ctx =
     (case field_at ks ctx of Some (JStr s) \<Rightarrow> Some (re r s) | _ \<Rightarrow> None)"
| "cond_value re (C_Not c) ctx = map_option Not (cond_value re c ctx)"
| "cond_value re (C_And c d) ctx =
     (if cond_value re c ctx = Some True then cond_value re d ctx
      else if cond_value re c ctx = Some False \<or> cond_value re d ctx = Some False then Some False
      else None)"

definition cond_met :: "(string \<Rightarrow> string \<Rightarrow> bool) \<Rightarrow> cel_ctx \<Rightarrow> cond \<Rightarrow> bool" where
  "cond_met re ctx c \<longleftrightarrow> cond_value re c ctx = Some True"

definition cel_reads ::
    "(string \<Rightarrow> string \<Rightarrow> bool) \<Rightarrow> (string \<Rightarrow> (string, 'prog) result) \<Rightarrow> 'prog cel_exec
       \<Rightarrow> cond list \<Rightarrow> bool" where
  "cel_reads re cel_compile exec cs \<longleftrightarrow>
     (\<forall>c \<in> set cs. \<exists>prog. cel_compile (cond_text c) = Inr prog
        \<and> (\<forall>ctx. rule_matches exec prog ctx \<longleftrightarrow> cond_met re ctx c))"

text \<open>An interpreter that does: the program of a text is the text, run by its meaning.\<close>

definition reading_exec :: "(string \<Rightarrow> string \<Rightarrow> bool) \<Rightarrow> cond list \<Rightarrow> string cel_exec" where
  "reading_exec re cs prog ctx =
     (case map_of (map (\<lambda>c. (cond_text c, c)) cs) prog of
        Some c \<Rightarrow> Inr (Cel_Bool (cond_met re ctx c)) | None \<Rightarrow> Inl [])"

lemma reading_exec_reads:
  assumes "distinct (map cond_text cs)"
  shows "cel_reads re Inr (reading_exec re cs) cs"
proof -
  have "map_of (map (\<lambda>c. (cond_text c, c)) cs) (cond_text c) = Some c" if "c \<in> set cs" for c
    using assms that by (intro map_of_is_SomeI) (auto simp: comp_def)
  then show ?thesis
    by (simp add: cel_reads_def rule_matches_def reading_exec_def)
qed

lemma cel_reads_mono: "cel_reads re cc exec cs \<Longrightarrow> set ds \<subseteq> set cs \<Longrightarrow> cel_reads re cc exec ds"
  by (auto simp: cel_reads_def)

subsection \<open>Policies whose conditions are read as documented\<close>

text \<open>A policy as rules with their conditions, in the order of the file.\<close>

definition rule_on :: "string \<Rightarrow> cond \<Rightarrow> decision_kind \<Rightarrow> rule" where
  "rule_on i c d =
     \<lparr>rule_id = i, rule_when = cond_text c, rule_decision = d, rule_explain = None,
      rule_critical = False, rule_sandbox = False, rule_cap = None, rule_tags = []\<rparr>"

definition policy_of :: "string \<Rightarrow> (cond \<times> rule) list \<Rightarrow> policy" where
  "policy_of role crs =
     \<lparr>pol_version = 1, pol_role = role, pol_default = DK_Ask, pol_meta = None, pol_tools = [],
      pol_rules = map snd crs\<rparr>"

definition met_rules ::
    "(string \<Rightarrow> string \<Rightarrow> bool) \<Rightarrow> (cond \<times> rule) list \<Rightarrow> cel_ctx \<Rightarrow> rule list" where
  "met_rules re crs ctx = map snd (filter (\<lambda>(c, r). cond_met re ctx c) crs)"

definition meant_outcome ::
    "(string \<Rightarrow> string \<Rightarrow> bool) \<Rightarrow> policy \<Rightarrow> (cond \<times> rule) list \<Rightarrow> action \<Rightarrow> eval_env \<Rightarrow> eval_outcome"
where
  "meant_outcome re p crs a env =
     critical_floor a (evaluate_spec p a (met_rules re crs (build_context a env)))"

definition texts_agree :: "(cond \<times> rule) list \<Rightarrow> bool" where
  "texts_agree crs \<longleftrightarrow> list_all (\<lambda>(c, r). rule_when r = cond_text c) crs"

lemma programs_exist:
  assumes "texts_agree crs" and "cel_reads re cel_compile exec (map fst crs)"
  shows "\<exists>progs. collect_results
           (\<lambda>r. case cel_compile (rule_when r) of
                  Inl msg \<Rightarrow> Inl (PE_InvalidWhen (rule_id r) msg) | Inr prog \<Rightarrow> Inr prog)
           (map snd crs) = Inr progs"
  using assms
proof (induction crs)
  case (Cons cr crs)
  then obtain prog where "cel_compile (rule_when (snd cr)) = Inr prog"
    by (auto simp: texts_agree_def cel_reads_def split: prod.splits)
  with Cons show ?case
    by (auto simp: texts_agree_def cel_reads_def split: prod.splits)
qed simp

lemma programs_met:
  assumes "texts_agree crs" and "cel_reads re cel_compile exec (map fst crs)"
    and "list_all2 (\<lambda>r prog. cel_compile (rule_when r) = Inr prog) (map snd crs) progs"
  shows "map fst (filter (\<lambda>(r, prog). rule_matches exec prog ctx) (zip (map snd crs) progs))
       = met_rules re crs ctx"
  using assms
proof (induction crs arbitrary: progs)
  case (Cons cr crs)
  obtain c r where [simp]: "cr = (c, r)" by (cases cr)
  from Cons.prems obtain prog progs' where p: "progs = prog # progs'" "cel_compile (rule_when r) = Inr prog"
    and rest: "list_all2 (\<lambda>r prog. cel_compile (rule_when r) = Inr prog) (map snd crs) progs'"
    by (auto simp: list_all2_Cons1)
  have "rule_matches exec prog ctx \<longleftrightarrow> cond_met re ctx c"
    using Cons.prems(1,2) p(2) by (auto simp: texts_agree_def cel_reads_def)
  with Cons.IH [OF _ _ rest] Cons.prems(1,2) show ?case
    by (simp add: p(1) met_rules_def texts_agree_def cel_reads_def)
qed (simp add: met_rules_def)

lemma documented_policy:
  assumes "toml s = Inr p" and "policy_wf p" and "pol_rules p = map snd crs" and "texts_agree crs"
    and "cel_reads re cel_compile exec (map fst crs)"
  shows "\<exists>cp. compiled_from_toml_str toml cel_compile s = Inr cp \<and> cp_policy cp = p
     \<and> (\<forall>a env. evaluate exec cp a env = meant_outcome re p crs a env)"
proof -
  have valid: "validate_structure p = Inr ()"
    using assms(2) by (simp add: validate_structure_ok)
  from programs_exist [OF assms(4,5)] obtain cp
    where cp: "compiled_from_toml_str toml cel_compile s = Inr cp"
    by (auto simp: compiled_from_toml_str_def policy_from_toml_str_def assms(1) valid compile_def assms(3))
  have pol: "cp_policy cp = p"
    using compiled_from_toml_str_Inr(2) [OF cp] assms(1) by simp
  have "matched_rules exec cp a env = met_rules re crs (build_context a env)" for a env
    using programs_met [OF assms(4,5) compiled_from_toml_str_Inr(3) [OF cp, unfolded pol assms(3)]]
    by (simp add: matched_rules_def pol assms(3))
  then show ?thesis
    using cp by (auto simp: evaluate_refines_spec meant_outcome_def pol)
qed


subsection \<open>What such a policy decides\<close>

text \<open>The kind of the decision, for a policy that asks by default and caps no \<open>allow\<close> rule.\<close>

lemma uncapped_kind:
  "rule_cap r = None \<or> rule_decision r \<noteq> DK_Allow \<Longrightarrow> kind_of_decision (rule_verdict a r) = rule_decision r"
  by (cases "rule_decision r") (auto simp: rule_verdict_kind cap_holds_def max_def less_eq_decision_kind_def)

lemma evaluate_spec_kind:
  assumes "rs \<noteq> []" and "\<forall>r \<in> set rs. rule_cap r = None \<or> rule_decision r \<noteq> DK_Allow"
  shows "kind_of_decision (out_decision (evaluate_spec p a rs)) = Max (rule_decision ` set rs)"
proof -
  have k: "verdict_rank a r = severity (rule_decision r)" if "r \<in> set rs" for r
    using uncapped_kind [of r a] assms(2) that by (metis severity_kind_of_decision)
  let ?d = "out_decision (evaluate_spec p a rs)"
  have "severity (kind_of_decision ?d) = Max (severity ` rule_decision ` set rs)"
    using evaluate_spec_rank [OF assms(1), of p a] k by (simp add: image_image)
  also have "\<dots> = severity (Max (rule_decision ` set rs))"
    using assms(1) by (intro mono_Max_commute [symmetric]) (auto simp: mono_def less_eq_decision_kind_def)
  finally show ?thesis by (rule severity_inj)
qed

lemma meant_kind:
  assumes "pol_default p = DK_Ask" and "\<forall>(c, r) \<in> set crs. rule_cap r = None \<or> rule_decision r \<noteq> DK_Allow"
  shows "kind_of_decision (out_decision (meant_outcome re p crs a env)) =
     (let ks = rule_decision ` set (met_rules re crs (build_context a env))
      in if DK_Deny \<in> ks then DK_Deny
         else if ks = {DK_Allow} \<and> \<not> action_is_critical a then DK_Allow else DK_Ask)"
proof (cases "met_rules re crs (build_context a env) = []")
  case True
  with assms(1) show ?thesis
    by (simp add: meant_outcome_def evaluate_spec_def critical_floor_decision initial_outcome_def)
next
  case False
  let ?rs = "met_rules re crs (build_context a env)"
  let ?ks = "rule_decision ` set ?rs"
  have caps: "\<forall>r \<in> set ?rs. rule_cap r = None \<or> rule_decision r \<noteq> DK_Allow"
    using assms(2) by (auto simp: met_rules_def)
  have k: "kind_of_decision (out_decision (meant_outcome re p crs a env)) =
      (if action_is_critical a \<and> Max ?ks = DK_Allow then DK_Ask else Max ?ks)"
    using evaluate_spec_kind [OF False caps, of p a]
    by (auto simp: meant_outcome_def critical_floor_decision)
  have le: "x \<le> Max ?ks" if "x \<in> ?ks" for x
    using that by simp
  have m: "Max ?ks \<in> ?ks" using False by (intro Max_in) auto
  show ?thesis
  proof (cases "Max ?ks")
    case DK_Allow
    then have "?ks = {DK_Allow}"
      using le m by (force simp: less_eq_decision_kind_def intro: severity_inj)
    with k DK_Allow show ?thesis by (simp add: Let_def)
  next
    case DK_Ask
    then have "DK_Deny \<notin> ?ks" "DK_Ask \<in> ?ks"
      using le [of DK_Deny] m by (auto simp: less_eq_decision_kind_def)
    with k DK_Ask show ?thesis by (auto simp: Let_def)
  next
    case DK_Deny
    with k m show ?thesis by (simp add: Let_def)
  qed
qed

lemma met_kinds:
  "d \<in> rule_decision ` set (met_rules re crs ctx) \<longleftrightarrow> list_ex (\<lambda>(c, r). cond_met re ctx c \<and> rule_decision r = d) crs"
  by (force simp: met_rules_def list_ex_iff)

subsection \<open>The fields of an action\<close>

lemma action_fields:
  "field_at [''kind''] (build_context a env) = Some (JStr (kind_name (act_kind a)))"
  "field_at [''tool''] (build_context a env) = Some (JStr (act_tool a))"
  "field_at [''capability''] (build_context a env) = map_option (\<lambda>c. JStr (capability_name c)) (act_capability a)"
  "field_at [''args'', k] (build_context a env) = jget k (act_args a)"
  "field_at [''context'', ''host''] (build_context a env) = map_option JStr (ctx_host (act_context a))"
  "field_at [''context'', ''path''] (build_context a env) = map_option JStr (ctx_path (act_context a))"
  "field_at [''context'', ''extra'', k] (build_context a env) = map_of (ctx_extra (act_context a)) k"
  "json_at [''home''] (cel_user (build_context a env)) = Some (JStr (env_user_home env))"
  "cel_trusted_hosts (build_context a env) = env_trusted_hosts env"
  by (simp_all add: build_context_def action_to_json_fields action_to_json_def context_to_json_def jget_jobj
      opt_field_def split: option.split)

lemma kind_is_text: "kind_name k = kind_name k' \<longleftrightarrow> k = k'"
  by (auto dest: kind_name_inj)

definition trusted_host :: "eval_env \<Rightarrow> action \<Rightarrow> bool" where
  "trusted_host env a = (\<exists>h. ctx_host (act_context a) = Some h \<and> h \<in> set (env_trusted_hosts env))"

definition untrusted_host :: "eval_env \<Rightarrow> action \<Rightarrow> bool" where
  "untrusted_host env a = (\<exists>h. ctx_host (act_context a) = Some h \<and> h \<notin> set (env_trusted_hosts env))"

definition path_in_home :: "eval_env \<Rightarrow> action \<Rightarrow> bool" where
  "path_in_home env a = (\<exists>p. ctx_path (act_context a) = Some p \<and> prefix (env_user_home env) p)"

lemma cond_met_simps:
  "cond_met re (build_context a env) (C_Lit b) \<longleftrightarrow> b"
  "cond_met re (build_context a env) (C_Is [''kind''] s) \<longleftrightarrow> kind_name (act_kind a) = s"
  "cond_met re (build_context a env) (C_Is [''tool''] s) \<longleftrightarrow> act_tool a = s"
  "cond_met re (build_context a env) (C_Is [''capability''] s) \<longleftrightarrow>
     map_option capability_name (act_capability a) = Some s"
  "cond_met re (build_context a env) (C_Is [''args'', k] s) \<longleftrightarrow> jget k (act_args a) = Some (JStr s)"
  "cond_met re (build_context a env) (C_Is [''context'', ''host''] s) \<longleftrightarrow> ctx_host (act_context a) = Some s"
  "cond_met re (build_context a env) (C_Is [''context'', ''extra'', k] s) \<longleftrightarrow>
     map_of (ctx_extra (act_context a)) k = Some (JStr s)"
  "cond_met re (build_context a env) (C_Set [''context'', ''extra'', k]) \<longleftrightarrow>
     map_of (ctx_extra (act_context a)) k = Some (JBool True)"
  "cond_met re (build_context a env) C_Trusted \<longleftrightarrow> trusted_host env a"
  "cond_met re (build_context a env) (C_Not C_Trusted) \<longleftrightarrow> untrusted_host env a"
  "cond_met re (build_context a env) C_In_Home \<longleftrightarrow> path_in_home env a"
  "cond_met re (build_context a env) (C_Above [''args'', k] n) \<longleftrightarrow>
     Option.bind (jget k (act_args a)) (number_above n) = Some True"
  "cond_met re (build_context a env) (C_Matches [''args'', k] r) \<longleftrightarrow>
     (\<exists>s. jget k (act_args a) = Some (JStr s) \<and> re r s)"
  "cond_met re (build_context a env) (C_And c d) \<longleftrightarrow>
     cond_met re (build_context a env) c \<and> cond_met re (build_context a env) d"
  unfolding cond_met_def cond_value.simps action_fields trusted_host_def untrusted_host_def path_in_home_def
  by (auto split: option.splits json.splits)

end
