(* ===== verification/Disk.thy ===== *)
theory Disk
  imports Gateway "HOL-Library.Word"
begin

unbundle bit_operations_syntax

text \<open>
  Files as the commands use them: a file has a text and permission bits; every call of the operating
  system may fail, a failing write leaving a part of the text. \<open>std::fs::write\<close> and
  \<open>read_to_string\<close>, the owner-only writes of \<open>guardian-proxy/src/ca.rs\<close> and
  \<open>guardian-cli/src/main.rs\<close>, and who can read a file while they run.
\<close>

subsection \<open>Files\<close>

type_synonym file_mode = "12 word"

record disk_file =
  fi_text :: string
  fi_mode :: file_mode

type_synonym filesystem = "string \<rightharpoonup> disk_file"

datatype fs_op = FO_Mkdir | FO_Read | FO_Open | FO_Write | FO_Chmod

text \<open>What the system answers: an error for an operation on a path, how much of a text a failing
  write leaves, the bits the process's mask clears, and what a new plain file is created with.\<close>

record fs_io =
  fo_error :: "fs_op \<Rightarrow> string \<Rightarrow> string option"
  fo_short :: nat
  fo_umask :: file_mode

definition PRIVATE_MODE :: file_mode where
  "PRIVATE_MODE = 0x180"

definition PLAIN_MODE :: file_mode where
  "PLAIN_MODE = 0x1B6"

text \<open>Nobody but the owner has any access: the bits \<open>0o077\<close> are clear.\<close>

definition owner_only :: "file_mode \<Rightarrow> bool" where
  "owner_only m \<longleftrightarrow> m AND 0x3F = 0"

text \<open>Opening to write: created with the mode if it is new, emptied if it is not.\<close>

definition open_truncate :: "fs_io \<Rightarrow> file_mode \<Rightarrow> string \<Rightarrow> filesystem \<Rightarrow> filesystem" where
  "open_truncate io mode path fs =
     fs(path \<mapsto> \<lparr>fi_text = [],
                  fi_mode = (case fs path of Some f \<Rightarrow> fi_mode f | None \<Rightarrow> mode AND NOT (fo_umask io))\<rparr>)"

definition set_text :: "string \<Rightarrow> string \<Rightarrow> filesystem \<Rightarrow> filesystem" where
  "set_text path s fs =
     (case fs path of Some f \<Rightarrow> fs(path \<mapsto> f\<lparr>fi_text := s\<rparr>) | None \<Rightarrow> fs)"

definition set_mode :: "string \<Rightarrow> file_mode \<Rightarrow> filesystem \<Rightarrow> filesystem" where
  "set_mode path m fs =
     (case fs path of Some f \<Rightarrow> fs(path \<mapsto> f\<lparr>fi_mode := m\<rparr>) | None \<Rightarrow> fs)"

text \<open>\<open>fs::write\<close> and \<open>write_private\<close>, with every state of the files they pass through.\<close>

definition fs_write ::
    "fs_io \<Rightarrow> string \<Rightarrow> string \<Rightarrow> filesystem \<Rightarrow> (string, unit) result \<times> filesystem list" where
  "fs_write io path s fs =
     (case fo_error io FO_Open path of
        Some e \<Rightarrow> (Inl e, [fs])
      | None \<Rightarrow>
          (let fs1 = open_truncate io PLAIN_MODE path fs
           in case fo_error io FO_Write path of
                Some e \<Rightarrow> (Inl e, [fs, fs1, set_text path (take (fo_short io) s) fs1])
              | None \<Rightarrow> (Inr (), [fs, fs1, set_text path s fs1])))"

definition write_private ::
    "fs_io \<Rightarrow> string \<Rightarrow> string \<Rightarrow> filesystem \<Rightarrow> (string, unit) result \<times> filesystem list" where
  "write_private io path s fs =
     (case fo_error io FO_Open path of
        Some e \<Rightarrow> (Inl e, [fs])
      | None \<Rightarrow>
          (let fs1 = open_truncate io PRIVATE_MODE path fs
           in case fo_error io FO_Write path of
                Some e \<Rightarrow> (Inl e, [fs, fs1, set_text path (take (fo_short io) s) fs1])
              | None \<Rightarrow>
                  (let fs2 = set_text path s fs1
                   in case fo_error io FO_Chmod path of
                        Some e \<Rightarrow> (Inl e, [fs, fs1, fs2])
                      | None \<Rightarrow> (Inr (), [fs, fs1, fs2, set_mode path PRIVATE_MODE fs2]))))"

definition fs_read :: "fs_io \<Rightarrow> string \<Rightarrow> filesystem \<Rightarrow> (string, string) result" where
  "fs_read io path fs =
     (case fo_error io FO_Read path of
        Some e \<Rightarrow> Inl e
      | None \<Rightarrow>
          (case fs path of
             Some f \<Rightarrow> (if utf8_valid (fi_text f) then Inr (fi_text f)
                        else Inl ''stream did not contain valid UTF-8'')
           | None \<Rightarrow> Inl ''No such file or directory (os error 2)''))"

definition restrict_mode :: "fs_io \<Rightarrow> string \<Rightarrow> file_mode \<Rightarrow> filesystem \<Rightarrow> filesystem" where
  "restrict_mode io path m fs =
     (case fo_error io FO_Chmod path of Some _ \<Rightarrow> fs | None \<Rightarrow> set_mode path m fs)"

subsection \<open>Who can read a file\<close>

definition private_at :: "string \<Rightarrow> filesystem \<Rightarrow> bool" where
  "private_at path fs \<longleftrightarrow> (\<forall>f. fs path = Some f \<longrightarrow> owner_only (fi_mode f))"

lemma owner_only_created [simp]: "owner_only (PRIVATE_MODE AND NOT u)"
proof -
  have "(PRIVATE_MODE AND NOT u) AND 0x3F = (PRIVATE_MODE AND 0x3F) AND NOT u"
    by (simp add: and.assoc and.commute and.left_commute)
  also have "PRIVATE_MODE AND 0x3F = 0" by (simp add: PRIVATE_MODE_def)
  finally show ?thesis by (simp add: owner_only_def)
qed

lemma owner_only_private [simp]: "owner_only PRIVATE_MODE"
  by (simp add: owner_only_def PRIVATE_MODE_def)

lemma private_steps [simp]:
  "private_at path fs \<Longrightarrow> private_at path (open_truncate io PRIVATE_MODE path fs)"
  "private_at path fs \<Longrightarrow> private_at path (set_text q s fs)"
  "private_at path (set_mode path PRIVATE_MODE fs)"
  "q \<noteq> path \<Longrightarrow> private_at path fs \<Longrightarrow> private_at path (open_truncate io m q fs)"
  by (auto simp: private_at_def open_truncate_def set_text_def set_mode_def split: option.splits)

lemma write_private_trace:
  "private_at path fs \<Longrightarrow> \<forall>fs'\<in>set (snd (write_private io path s fs)). private_at path fs'"
  by (auto simp: write_private_def Let_def split: option.split)

lemma fs_write_trace:
  "q \<noteq> path \<Longrightarrow> private_at path fs \<Longrightarrow>
     snd (fs_write io q s fs) \<noteq> [] \<and> (\<forall>fs'\<in>set (snd (fs_write io q s fs)). private_at path fs')"
  by (auto simp: fs_write_def Let_def split: option.split)

lemma fs_write_ok:
  assumes "fs_write io path s fs = (Inr (), trace)"
  shows "\<exists>m. last trace = fs(path \<mapsto> \<lparr>fi_text = s, fi_mode = m\<rparr>)"
  using assms by (auto simp: fs_write_def Let_def open_truncate_def set_text_def split: option.splits)

lemma write_private_ok:
  assumes "write_private io path s fs = (Inr (), trace)"
  shows "last trace = fs(path \<mapsto> \<lparr>fi_text = s, fi_mode = PRIVATE_MODE\<rparr>)"
  using assms
  by (auto simp: write_private_def Let_def open_truncate_def set_text_def set_mode_def split: option.splits)

lemma write_private_not_Nil: "snd (write_private io path s fs) \<noteq> []"
  by (auto simp: write_private_def Let_def split: option.split)

end
