(* ===== verification/Local_Ca.thy ===== *)
theory Local_Ca
  imports Disk
begin

text \<open>
  The proxy's certificate authority on disk, \<open>guardian-proxy/src/ca.rs\<close>: where its two files live,
  how they are loaded or made, and that the private key stays the owner's. Making keys and certificates is rcgen's and enters as a pair of PEM texts or an error.
\<close>

subsection \<open>The authority\<close>

record local_ca =
  ca_cert_pem :: string
  ca_key_pem :: string

definition ca_debug :: "local_ca \<Rightarrow> (string \<times> string) list" where
  "ca_debug ca = [(''cert_pem'', ''<cert>''), (''key_pem'', ''<redacted>'')]"

datatype ca_error = CA_Rcgen string | CA_Io string

fun ca_error_message :: "ca_error \<Rightarrow> string" where
  "ca_error_message (CA_Rcgen m) = ''certificate generation failed: '' @ m"
| "ca_error_message (CA_Io m) = ''CA file I/O error: '' @ m"

definition ca_paths :: "string \<Rightarrow> string \<times> string" where
  "ca_paths dir = (path_join dir ''ca.crt'', path_join dir ''ca.key'')"

definition ca_persist ::
    "fs_io \<Rightarrow> string \<Rightarrow> local_ca \<Rightarrow> filesystem \<Rightarrow> (ca_error, unit) result \<times> filesystem list" where
  "ca_persist io dir ca fs =
     (case fo_error io FO_Mkdir dir of
        Some e \<Rightarrow> (Inl (CA_Io e), [fs])
      | None \<Rightarrow>
          (let (cert_path, key_path) = ca_paths dir
           in case fs_write io cert_path (ca_cert_pem ca) fs of
                (Inl e, trace) \<Rightarrow> (Inl (CA_Io e), trace)
              | (Inr _, trace) \<Rightarrow>
                  (case write_private io key_path (ca_key_pem ca) (last trace) of
                     (Inl e, trace') \<Rightarrow> (Inl (CA_Io e), trace @ trace')
                   | (Inr _, trace') \<Rightarrow> (Inr (), trace @ trace'))))"

text \<open>\<open>generated\<close>: what rcgen makes, should it be asked to.\<close>

definition ca_load_or_generate ::
    "fs_io \<Rightarrow> (string, local_ca) result \<Rightarrow> string \<Rightarrow> filesystem
       \<Rightarrow> (ca_error, local_ca) result \<times> filesystem list" where
  "ca_load_or_generate io generated dir fs =
     (let (cert_path, key_path) = ca_paths dir
      in if fs cert_path \<noteq> None \<and> fs key_path \<noteq> None
         then (case fs_read io cert_path fs of
                 Inl e \<Rightarrow> (Inl (CA_Io e), [fs])
               | Inr cert \<Rightarrow>
                   (case fs_read io key_path fs of
                      Inl e \<Rightarrow> (Inl (CA_Io e), [fs])
                    | Inr key \<Rightarrow> (Inr \<lparr>ca_cert_pem = cert, ca_key_pem = key\<rparr>, [fs])))
         else (case generated of
                 Inl e \<Rightarrow> (Inl (CA_Rcgen e), [fs])
               | Inr ca \<Rightarrow>
                   (case ca_persist io dir ca fs of
                      (Inl e, trace) \<Rightarrow> (Inl e, trace)
                    | (Inr _, trace) \<Rightarrow> (Inr ca, trace))))"

subsection \<open>Who can read the key\<close>

lemma ca_paths_distinct: "fst (ca_paths dir) \<noteq> snd (ca_paths dir)"
  by (simp add: ca_paths_def path_join_def is_absolute_def)

lemma ca_persist_trace:
  assumes "private_at (snd (ca_paths dir)) fs"
  shows "\<forall>fs'\<in>set (snd (ca_persist io dir ca fs)). private_at (snd (ca_paths dir)) fs'"
proof -
  obtain c k where p: "ca_paths dir = (c, k)" by fastforce
  then have ck: "c \<noteq> k" using ca_paths_distinct [of dir] by simp
  obtain r trace where w: "fs_write io c (ca_cert_pem ca) fs = (r, trace)" by fastforce
  have t: "trace \<noteq> []" "\<forall>fs'\<in>set trace. private_at k fs'"
    using fs_write_trace [OF ck, of fs io "ca_cert_pem ca"] assms w p by auto
  then have "private_at k (last trace)" by (simp add: last_in_set)
  then have "\<forall>fs'\<in>set (snd (write_private io k (ca_key_pem ca) (last trace))). private_at k fs'"
    by (rule write_private_trace)
  then show ?thesis
    using assms t p w by (auto simp: ca_persist_def split: option.split sum.split prod.split)
qed

lemma ca_persist_ok:
  assumes "ca_persist io dir ca fs = (Inr (), trace)"
  shows "\<exists>m. last trace = fs(fst (ca_paths dir) \<mapsto> \<lparr>fi_text = ca_cert_pem ca, fi_mode = m\<rparr>,
           snd (ca_paths dir) \<mapsto> \<lparr>fi_text = ca_key_pem ca, fi_mode = PRIVATE_MODE\<rparr>)"
proof -
  obtain c k where p: "ca_paths dir = (c, k)" by fastforce
  obtain t1 t2 where w: "fs_write io c (ca_cert_pem ca) fs = (Inr (), t1)"
    "write_private io k (ca_key_pem ca) (last t1) = (Inr (), t2)" and t: "trace = t1 @ t2"
    using assms p by (auto simp: ca_persist_def split: option.splits sum.splits prod.splits)
  have "t2 \<noteq> []" using write_private_not_Nil [of io k "ca_key_pem ca" "last t1"] w(2) by simp
  then show ?thesis
    using fs_write_ok [OF w(1)] write_private_ok [OF w(2)] t p by auto
qed

subsection \<open>Properties\<close>

text \<open>
  C32: loading or making the authority never leaves its private key readable by anyone but the owner,
  in no state in between and whatever call fails, if no looser file was in its place before.
\<close>

theorem ca_key_owner_only:
  assumes "private_at (snd (ca_paths dir)) fs"
    and "fs' \<in> set (snd (ca_load_or_generate io generated dir fs))"
  shows "private_at (snd (ca_paths dir)) fs'"
proof (cases "fs (fst (ca_paths dir)) \<noteq> None \<and> fs (snd (ca_paths dir)) \<noteq> None")
  case True
  then have "fs' = fs"
    using assms(2) by (auto simp: ca_load_or_generate_def split: sum.splits prod.splits)
  then show ?thesis using assms(1) by simp
next
  case False
  show ?thesis
  proof (cases generated)
    case (Inl e)
    then show ?thesis using assms False
      by (auto simp: ca_load_or_generate_def split: prod.splits)
  next
    case (Inr ca)
    then have "snd (ca_load_or_generate io generated dir fs) = snd (ca_persist io dir ca fs)"
      using False by (auto simp: ca_load_or_generate_def split: sum.split prod.split)
    then show ?thesis using assms ca_persist_trace [of dir fs io ca] by simp
  qed
qed

text \<open>
  the authority is made once. After a successful start, any later start on the files it left
  that can read them finds the very same certificate and key and writes nothing.
\<close>

theorem ca_reloaded:
  assumes "ca_load_or_generate io generated dir fs = (Inr ca, trace)"
    and "\<And>made. generated = Inr made \<Longrightarrow> utf8_valid (ca_cert_pem made) \<and> utf8_valid (ca_key_pem made)"
    and "\<And>path. fo_error io' FO_Read path = None"
  shows "ca_load_or_generate io' generated' dir (last trace) = (Inr ca, [last trace])"
proof -
  obtain c k where p: "ca_paths dir = (c, k)" by fastforce
  then have ck: "c \<noteq> k" using ca_paths_distinct [of dir] by simp
  have "\<exists>fc fk. last trace c = Some fc \<and> last trace k = Some fk
      \<and> fi_text fc = ca_cert_pem ca \<and> fi_text fk = ca_key_pem ca
      \<and> utf8_valid (ca_cert_pem ca) \<and> utf8_valid (ca_key_pem ca)"
  proof (cases "fs c \<noteq> None \<and> fs k \<noteq> None")
    case True
    then show ?thesis
      using assms(1) p
      by (auto simp: ca_load_or_generate_def fs_read_def split: option.splits sum.splits if_splits)
  next
    case False
    then have g: "generated = Inr ca" and w: "ca_persist io dir ca fs = (Inr (), trace)"
      using assms(1) p by (auto simp: ca_load_or_generate_def split: sum.splits prod.splits)
    from ca_persist_ok [OF w] assms(2) [OF g] ck p show ?thesis by auto
  qed
  then show ?thesis
    using assms(3) p by (auto simp: ca_load_or_generate_def fs_read_def)
qed

subsection \<open>Examples\<close>

definition ex_ca :: local_ca where
  "ex_ca = \<lparr>ca_cert_pem = ''CERT'', ca_key_pem = ''KEY''\<rparr>"

definition ex_fs_io :: fs_io where
  "ex_fs_io = \<lparr>fo_error = (\<lambda>_ _. None), fo_short = 0, fo_umask = 0x12\<rparr>"

theorem ca_key_owner_only_witness:
  "\<exists>fs' \<in> set (snd (ca_load_or_generate ex_fs_io (Inr ex_ca) ''d'' (\<lambda>_. None))).
     private_at ''d/ca.key'' fs' \<and> map_option fi_text (fs' ''d/ca.key'') = Some ''KEY''"
proof -
  have p: "ca_paths ''d'' = (''d/ca.crt'', ''d/ca.key'')" by code_simp
  let ?r = "ca_load_or_generate ex_fs_io (Inr ex_ca) ''d'' (\<lambda>_. None)"
  have r: "fst ?r = Inr ex_ca" "snd ?r \<noteq> []"
    by (simp_all add: ca_load_or_generate_def p ca_persist_def ex_fs_io_def fs_write_def write_private_def Let_def)
  then obtain trace where t: "?r = (Inr ex_ca, trace)" "trace \<noteq> []" by (cases ?r) auto
  have "ca_persist ex_fs_io ''d'' ex_ca (\<lambda>_. None) = (Inr (), trace)"
    using t by (auto simp: ca_load_or_generate_def p split: sum.splits prod.splits)
  from ca_persist_ok [OF this] have "map_option fi_text (last trace ''d/ca.key'') = Some ''KEY''"
    by (auto simp: p ex_ca_def)
  moreover have "last trace \<in> set (snd ?r)" using t by simp
  moreover have "private_at ''d/ca.key'' (last trace)"
    using ca_key_owner_only [of "''d''" "\<lambda>_. None" "last trace" ex_fs_io "Inr ex_ca"] calculation(2)
    by (simp add: p private_at_def)
  ultimately show ?thesis by blast
qed

theorem ca_reloaded_witness:
  "\<exists>fs. fs \<noteq> (\<lambda>_. None)
     \<and> ca_load_or_generate ex_fs_io (Inl ''never asked'') ''d'' fs = (Inr ex_ca, [fs])"
proof -
  have p: "ca_paths ''d'' = (''d/ca.crt'', ''d/ca.key'')" by code_simp
  let ?r = "ca_load_or_generate ex_fs_io (Inr ex_ca) ''d'' (\<lambda>_. None)"
  have "fst ?r = Inr ex_ca"
    by (simp add: ca_load_or_generate_def p ca_persist_def ex_fs_io_def fs_write_def write_private_def Let_def)
  then obtain trace where t: "?r = (Inr ex_ca, trace)" by (cases ?r) auto
  have "ca_persist ex_fs_io ''d'' ex_ca (\<lambda>_. None) = (Inr (), trace)"
    using t by (auto simp: ca_load_or_generate_def p split: sum.splits prod.splits)
  from ca_persist_ok [OF this] have "last trace ''d/ca.key'' \<noteq> None" by (auto simp: p)
  then have "last trace \<noteq> (\<lambda>_. None)" by auto
  moreover have "utf8_valid (ca_cert_pem ex_ca) \<and> utf8_valid (ca_key_pem ex_ca)"
    by code_simp
  then have "ca_load_or_generate ex_fs_io (Inl ''never asked'') ''d'' (last trace) = (Inr ex_ca, [last trace])"
    by (intro ca_reloaded [OF t]) (auto simp: ex_fs_io_def)
  ultimately show ?thesis by blast
qed

text \<open>
  A key file that is there with looser permissions, when the certificate is missing: the new key is
  written to it before its permissions are tightened.
\<close>

lemma loose_key_file_exposed:
  "\<exists>fs'\<in>set (snd (write_private ex_fs_io ''k'' ''KEY''
       [''k'' \<mapsto> \<lparr>fi_text = ''OLD'', fi_mode = 0x1A4\<rparr>])).
     fs' ''k'' = Some \<lparr>fi_text = ''KEY'', fi_mode = 0x1A4\<rparr> \<and> \<not> owner_only 0x1A4"
  by (simp add: write_private_def ex_fs_io_def Let_def open_truncate_def set_text_def owner_only_def)

end
