(* ===== verification/Cli_Run.thy ===== *)
theory Cli_Run
  imports Cli Daemon_Config Mcp Proxy Eval Local_Ca
begin

text \<open>
  The commands of \<open>guardian-cli/src/main.rs\<close> as what they print and how they end: \<open>init\<close>,
  \<open>policy-validate\<close>, \<open>broker\<close>, \<open>pack\<close>, \<open>report\<close>, \<open>log\<close>, \<open>demo\<close>, and how \<open>mcp\<close> and \<open>proxy\<close> put
  their servers together. Files, the keychain and child processes are arguments.
\<close>

subsection \<open>Output\<close>

datatype cli_line = LN_Out string | LN_Err string | LN_Run "string list"

text \<open>
  What was printed and started, and how the process ends; an error of \<open>main\<close> is printed by
  the runtime.
\<close>

type_synonym cli_end = "cli_line list \<times> exec_end"

definition squoted :: "string \<Rightarrow> string" where
  "squoted s = [CHR 0x27] @ s @ [CHR 0x27]"

definition LONG_DASH :: string where
  "LONG_DASH = [CHR 0xE2, CHR 0x80, CHR 0x94]"

text \<open>\<open>{:>n}\<close> and \<open>{:<n}\<close>, counted in characters.\<close>

definition fmt_right :: "nat \<Rightarrow> string \<Rightarrow> string" where
  "fmt_right n s = replicate (n - char_count s) CHR '' '' @ s"

definition fmt_left :: "nat \<Rightarrow> string \<Rightarrow> string" where
  "fmt_left n s = s @ replicate (n - char_count s) CHR '' ''"

subsection \<open>\<open>policy-validate\<close>\<close>

definition validate_policy ::
    "(string \<Rightarrow> (string, policy) result) \<Rightarrow> (string \<Rightarrow> (string, 'prog) result)
       \<Rightarrow> (string \<Rightarrow> (string, string) result) \<Rightarrow> string \<Rightarrow> cli_end" where
  "validate_policy toml cel_compile read_file path =
     (case read_file path of
        Inl e \<Rightarrow> ([], XX_Error e)
      | Inr src \<Rightarrow>
          (case compiled_from_toml_str toml cel_compile src of
             Inr p \<Rightarrow>
               ([LN_Out (''OK: role `'' @ pol_role (cp_policy p) @ ''`, ''
                   @ dec_nat (length (pol_rules (cp_policy p))) @ '' rule(s) compiled.'')], XX_Exit 0)
           | Inl e \<Rightarrow> ([LN_Err (''INVALID: '' @ policy_error_message e)], XX_Exit 1)))"

subsection \<open>\<open>init\<close>\<close>

definition init_mark :: "bool \<Rightarrow> string" where
  "init_mark written = (if written then ''created'' else ''kept (exists)'')"

definition write_if_absent ::
    "fs_io \<Rightarrow> string \<Rightarrow> string \<Rightarrow> bool \<Rightarrow> filesystem \<Rightarrow> (string, bool) result \<times> filesystem" where
  "write_if_absent io path contents force fs =
     (if fs path \<noteq> None \<and> \<not> force then (Inr False, fs)
      else (case fs_write io path contents fs of
              (Inl e, trace) \<Rightarrow> (Inl e, last trace)
            | (Inr _, trace) \<Rightarrow> (Inr True, last trace)))"

text \<open>
  The embedded starter packs, the default configuration and \<open>debug_str\<close>, the \<open>{:?}\<close> form of a
  string. Only files have permissions here, so \<open>restrict\<close> of the directory has no effect.
\<close>

definition init_config :: "string \<Rightarrow> (string \<Rightarrow> string) \<Rightarrow> string \<Rightarrow> string" where
  "init_config template debug_str policy_file =
     template @ ''policy = '' @ debug_str policy_file @ [CHR 0x0A]"

definition init_files ::
    "fs_io \<Rightarrow> string \<Rightarrow> string \<Rightarrow> string \<Rightarrow> (string \<Rightarrow> string) \<Rightarrow> string \<Rightarrow> string \<Rightarrow> bool \<Rightarrow> filesystem
       \<Rightarrow> (string, bool \<times> bool) result \<times> filesystem" where
  "init_files io coding_agent personal_assistant template debug_str dir role force fs =
     (case (if role = ''coding-agent'' then Some coding_agent
            else if role = ''personal-assistant'' then Some personal_assistant else None) of
        None \<Rightarrow> (Inl (''unknown role '' @ squoted role @ '' (expected '' @ squoted ''coding-agent''
            @ '' or '' @ squoted ''personal-assistant'' @ '')''), fs)
      | Some pack \<Rightarrow>
          (case fo_error io FO_Mkdir dir of
             Some e \<Rightarrow> (Inl e, fs)
           | None \<Rightarrow>
               (let policy_file = path_join dir ''policy.toml''; config_file = path_join dir ''config.toml''
                in case write_if_absent io policy_file pack force fs of
                     (Inl e, fs1) \<Rightarrow> (Inl e, fs1)
                   | (Inr policy_written, fs1) \<Rightarrow>
                       (case write_if_absent io config_file (init_config template debug_str policy_file) force
                               (restrict_mode io policy_file PRIVATE_MODE fs1) of
                          (Inl e, fs2) \<Rightarrow> (Inl e, fs2)
                        | (Inr config_written, fs2) \<Rightarrow>
                            (Inr (config_written, policy_written),
                             restrict_mode io config_file PRIVATE_MODE fs2)))))"

text \<open>\<open>pretty\<close> is the pretty printer of serde_json.\<close>

definition run_init ::
    "fs_io \<Rightarrow> (json \<Rightarrow> string) \<Rightarrow> string \<Rightarrow> string \<Rightarrow> string \<Rightarrow> (string \<Rightarrow> string) \<Rightarrow> environment \<Rightarrow> string
       \<Rightarrow> string \<Rightarrow> bool \<Rightarrow> filesystem \<Rightarrow> cli_end \<times> filesystem" where
  "run_init io pretty coding_agent personal_assistant template debug_str env temp_dir role force fs =
     (let dir = guardian_dir env
      in case init_files io coding_agent personal_assistant template debug_str dir role force fs of
           (Inl e, fs') \<Rightarrow> (([], XX_Error e), fs')
         | (Inr (config_written, policy_written), fs') \<Rightarrow>
             ((map LN_Out
                [''Guardian setup in '' @ dir,
                 ''  policy.toml   '' @ init_mark policy_written @ ''  (role: '' @ role @ '')'',
                 ''  config.toml   '' @ init_mark config_written,
                 [], ''Next steps '' @ LONG_DASH @ '' run these in separate terminals/panes:'',
                 ''  1) guardian-daemon                 # the service (reads ~/.guardian/config.toml)'',
                 ''  2) guardian ui                     # the approval cockpit (TUI)'',
                 ''  3) point your agent'' @ [CHR 0x27] @ ''s MCP client at Guardian, then talk to it as usual.'',
                 [], ''MCP client snippet (Claude Code / Cursor / any MCP client '' @ LONG_DASH
                   @ '' paste into its config):'',
                 pretty (mcp_snippet (path_join temp_dir ''guardian.sock'')),
                 ''Tip: if `guardian` is not on your PATH, replace it with the absolute path to the binary.''],
               XX_Exit 0), fs'))"

subsection \<open>\<open>broker\<close>: the keychain\<close>

datatype broker_action = BA_Set string | BA_Delete string | BA_Has string

text \<open>The credential store of the platform under the service \<open>guardian\<close>.\<close>

record 's keyring =
  kr_set :: "string \<Rightarrow> string \<Rightarrow> 's \<Rightarrow> (string, unit) result \<times> 's"
  kr_get :: "string \<Rightarrow> 's \<Rightarrow> (keyring_error, string) result \<times> 's"
  kr_delete :: "string \<Rightarrow> 's \<Rightarrow> (keyring_error, unit) result \<times> 's"

definition keychain_error :: "string \<Rightarrow> string" where
  "keychain_error e = ''keychain error: '' @ e"

definition keychain_store :: "'s keyring \<Rightarrow> string \<Rightarrow> string \<Rightarrow> 's \<Rightarrow> (string, unit) result \<times> 's" where
  "keychain_store kr target secret st =
     (case kr_set kr target secret st of
        (Inl e, st') \<Rightarrow> (Inl (keychain_error e), st') | (Inr _, st') \<Rightarrow> (Inr (), st'))"

definition keychain_present :: "'s keyring \<Rightarrow> string \<Rightarrow> 's \<Rightarrow> (string, string option) result \<times> 's" where
  "keychain_present kr target st =
     (case kr_get kr target st of
        (Inr secret, st') \<Rightarrow> (Inr (Some secret), st')
      | (Inl KR_NoEntry, st') \<Rightarrow> (Inr None, st')
      | (Inl (KR_Other e), st') \<Rightarrow> (Inl (keychain_error e), st'))"

definition keychain_delete :: "'s keyring \<Rightarrow> string \<Rightarrow> 's \<Rightarrow> (string, unit) result \<times> 's" where
  "keychain_delete kr target st =
     (case kr_delete kr target st of
        (Inr _, st') \<Rightarrow> (Inr (), st')
      | (Inl KR_NoEntry, st') \<Rightarrow> (Inr (), st')
      | (Inl (KR_Other e), st') \<Rightarrow> (Inl (keychain_error e), st'))"

definition run_broker :: "'s keyring \<Rightarrow> (string, string) result \<Rightarrow> broker_action \<Rightarrow> 's \<Rightarrow> cli_end \<times> 's" where
  "run_broker kr stdin act st =
     (case act of
        BA_Set target \<Rightarrow>
          (case stdin of
             Inl e \<Rightarrow> (([], XX_Error e), st)
           | Inr input \<Rightarrow>
               (case broker_set_secret target input of
                  Inl e \<Rightarrow> (([], XX_Error e), st)
                | Inr secret \<Rightarrow>
                    (case keychain_store kr target secret st of
                       (Inl e, st') \<Rightarrow> (([], XX_Error e), st')
                     | (Inr _, st') \<Rightarrow>
                         (([LN_Out (''Stored a secret for '' @ target @ '' in the OS keychain.'')], XX_Exit 0),
                          st'))))
      | BA_Delete target \<Rightarrow>
          (case keychain_delete kr target st of
             (Inl e, st') \<Rightarrow> (([], XX_Error e), st')
           | (Inr _, st') \<Rightarrow> (([LN_Out (''Removed any secret for '' @ target @ ''.'')], XX_Exit 0), st'))
      | BA_Has target \<Rightarrow>
          (case keychain_present kr target st of
             (Inl e, st') \<Rightarrow> (([], XX_Error e), st')
           | (Inr secret, st') \<Rightarrow>
               (([LN_Out (if secret \<noteq> None then ''present'' else ''absent'')], XX_Exit 0), st')))"

subsection \<open>\<open>pack\<close>\<close>

fun pack_error_message :: "pack_error \<Rightarrow> string" where
  "pack_error_message (PK_Io m) = ''pack I/O error: '' @ m"
| "pack_error_message (PK_NotSigned f) = ''pack is not signed (no '' @ f @ '')''"
| "pack_error_message (PK_Malformed m) = ''malformed pack manifest: '' @ m"
| "pack_error_message PK_BadEncoding = ''bad publisher key or signature encoding''"
| "pack_error_message PK_SignatureInvalid = ''signature does not verify against the publisher key''"
| "pack_error_message PK_UntrustedPublisher = ''pack publisher is not the trusted key''"
| "pack_error_message (PK_FileAltered f) =
     ''file '' @ squoted f @ '' does not match the signed hash (tampered)''"
| "pack_error_message (PK_FileSetMismatch d) =
     ''pack files do not match the manifest (added/removed: '' @ d @ '')''"
| "pack_error_message (PK_CriticalWidening r) =
     ''pack widens critical categories without opt-in: rules '' @ r"
| "pack_error_message (PK_Policy m) = ''invalid policy in pack: '' @ m"

text \<open>\<open>random\<close>: the 32 bytes of the operating system.\<close>

definition generate_seed_hex ::
    "('sk, 'vk) crypto \<Rightarrow> (string, string) result \<Rightarrow> (pack_error, string) result" where
  "generate_seed_hex cr random =
     (case random of Inl e \<Rightarrow> Inl (PK_Io e) | Inr seed \<Rightarrow> Inr (cr_hex_encode cr seed))"

definition write_private_file ::
    "fs_io \<Rightarrow> string \<Rightarrow> string \<Rightarrow> filesystem \<Rightarrow> (string, unit) result \<times> filesystem list" where
  "write_private_file = write_private"

text \<open>The publisher's seed: that of the key file, or a new one saved there.\<close>

definition signing_seed ::
    "('sk, 'vk) crypto \<Rightarrow> (string, string) result \<Rightarrow> fs_io \<Rightarrow> string \<Rightarrow> filesystem
       \<Rightarrow> (string, string \<times> cli_line list) result \<times> filesystem" where
  "signing_seed cr random io key_file fs =
     (if fs key_file \<noteq> None
      then (case fs_read io key_file fs of
              Inl e \<Rightarrow> (Inl e, fs) | Inr s \<Rightarrow> (Inr (trim s, []), fs))
      else (case generate_seed_hex cr random of
              Inl e \<Rightarrow> (Inl (pack_error_message e), fs)
            | Inr seed \<Rightarrow>
                (case write_private_file io key_file seed fs of
                   (Inl e, trace) \<Rightarrow> (Inl e, last trace)
                 | (Inr _, trace) \<Rightarrow>
                     (Inr (seed, [LN_Err (''guardian: generated a new signing key at '' @ key_file)]),
                      last trace))))"

text \<open>\<open>d\<close> are the policy files of the directory, \<open>show_pack\<close> the pretty printer of serde_json.\<close>

definition pack_sign_command ::
    "('sk, 'vk) crypto \<Rightarrow> (string \<Rightarrow> 'sk) \<Rightarrow> (manifest \<Rightarrow> string) \<Rightarrow> (signed_pack \<Rightarrow> string)
       \<Rightarrow> (string, string) result \<Rightarrow> fs_io \<Rightarrow> pack_dir \<Rightarrow> string \<Rightarrow> string \<Rightarrow> string \<Rightarrow> string \<Rightarrow> filesystem
       \<Rightarrow> cli_end \<times> filesystem" where
  "pack_sign_command cr key_of_seed canon show_pack random io d dir name version key_file fs =
     (case signing_seed cr random io key_file fs of
        (Inl e, fs1) \<Rightarrow> (([], XX_Error e), fs1)
      | (Inr (seed_hex, made), fs1) \<Rightarrow>
          (case sign_with_seed_hex cr key_of_seed canon d name version seed_hex of
             Inl e \<Rightarrow> ((made, XX_Error (pack_error_message e)), fs1)
           | Inr sp \<Rightarrow>
               (case fs_write io (path_join dir MANIFEST_FILE) (show_pack sp) fs1 of
                  (Inl e, trace) \<Rightarrow> ((made, XX_Error e), last trace)
                | (Inr _, trace) \<Rightarrow>
                    ((made @
                      [LN_Out (''Signed pack '' @ squoted name @ '' v'' @ version @ '' (''
                         @ dec_nat (length (mf_files (sp_manifest sp))) @ '' file(s)).''),
                       LN_Out (''  publisher (share this to let others pin you): '' @ sp_publisher sp)],
                      XX_Exit 0), last trace))))"

text \<open>\<open>audit\<close>: the log to record in, with its path, as opening it gave; \<open>msg\<close> prints its errors.\<close>

definition pack_verify_command ::
    "('sk, 'vk) crypto \<Rightarrow> (audit_error \<Rightarrow> string) \<Rightarrow> (audit_entry \<Rightarrow> (string, string) result)
       \<Rightarrow> (manifest \<Rightarrow> string) \<Rightarrow> (string \<Rightarrow> (string, signed_pack) result)
       \<Rightarrow> (string \<Rightarrow> (string, policy) result) \<Rightarrow> pack_dir \<Rightarrow> string option
       \<Rightarrow> (string \<times> bool \<times> (string, 'sk audit_log) result) option \<Rightarrow> int
       \<Rightarrow> cli_end \<times> 'sk audit_log option" where
  "pack_verify_command cr msg ser canon de toml d pubkey audit now =
     (case load_signed de d of
        Inl e \<Rightarrow> (([], XX_Error (pack_error_message e)), None)
      | Inr sp \<Rightarrow>
          (case pack_verify cr canon d sp pubkey of
             Inl e \<Rightarrow> (([], XX_Error (''pack verification FAILED: '' @ pack_error_message e)), None)
           | Inr _ \<Rightarrow>
               (let ok = [LN_Out (''OK: pack '' @ squoted (mf_name (sp_manifest sp)) @ '' v''
                       @ mf_version (sp_manifest sp) @ '' verified (''
                       @ dec_nat (length (mf_files (sp_manifest sp))) @ '' file(s)); publisher ''
                       @ sp_publisher sp)]
                in case critical_widening_rules toml d of
                     Inl e \<Rightarrow> ((ok, XX_Error (pack_error_message e)), None)
                   | Inr widening \<Rightarrow>
                       (let out = ok @ [LN_Out (if widening = [] then ''  no critical-category widening.''
                              else ''  WARNING: this pack widens critical categories (needs opt-in to load): ''
                                @ join '', '' widening)]
                        in case audit of
                             None \<Rightarrow> ((out, XX_Exit 0), None)
                           | Some (path, io, Inl e) \<Rightarrow> ((out, XX_Error e), None)
                           | Some (path, io, Inr lg) \<Rightarrow>
                               (case record_pack_provenance cr ser io sp now lg of
                                  (Inl e, lg') \<Rightarrow> ((out, XX_Error (msg e)), Some lg')
                                | (Inr _, lg') \<Rightarrow>
                                    ((out @ [LN_Out (''  provenance recorded in '' @ path)], XX_Exit 0),
                                     Some lg'))))))"

subsection \<open>\<open>report\<close> and \<open>log\<close>\<close>

definition no_log_yet :: "string \<Rightarrow> cli_end" where
  "no_log_yet path = ([LN_Out (''No audit log at '' @ path @ '' yet.'')], XX_Exit 0)"

definition report_lines :: "string \<Rightarrow> report \<Rightarrow> string list" where
  "report_lines path r =
     [''Guardian report '' @ LONG_DASH @ '' last '' @ dec_nat (rep_total r) @ '' decision(s) of '' @ path,
      ''  allow '' @ dec_nat (rep_allows r) @ ''   ask '' @ dec_nat (rep_asks r) @ ''   deny ''
        @ dec_nat (rep_denies r)]
     @ (if rep_blocked r = [] then []
        else [[], ''Top blocked:'']
             @ map (\<lambda>b. ''  '' @ fmt_right 4 (dec_nat (lc_count b)) @ ''x  '' @ cell (lc_label b) 60)
                 (rep_blocked r))
     @ (if rep_suggestions r = []
        then [[], ''No suggestions '' @ LONG_DASH
                @ '' nothing safe to relax. (Critical categories are never suggested.)'']
        else [[], ''Suggestions to confirm (advisory '' @ LONG_DASH @ '' Guardian never edits your policy):'']
             @ map (\<lambda>s. ''  - '' @ cell (sug_text s) 110) (rep_suggestions r))"

definition run_report ::
    "(string \<Rightarrow> audit_entry option) \<Rightarrow> string \<Rightarrow> bool \<Rightarrow> (string, 'sk audit_log) result \<Rightarrow> nat \<Rightarrow> cli_end" where
  "run_report de path exists opened window =
     (if \<not> exists then no_log_yet path
      else (case opened of
              Inl e \<Rightarrow> ([], XX_Error e)
            | Inr lg \<Rightarrow>
                (map LN_Out (report_lines path (build_report (map snd (audit_tail de lg window)))), XX_Exit 0)))"

text \<open>\<open>upper\<close> is \<open>str::to_uppercase\<close>.\<close>

definition log_row :: "(string \<Rightarrow> string) \<Rightarrow> nat \<times> audit_entry \<Rightarrow> string" where
  "log_row upper row =
     (case row of (seq, e) \<Rightarrow>
        let rule = cell (case ae_matched_rule e of Some r \<Rightarrow> r | None \<Rightarrow> ''-'') 22;
            reason = cell (case ae_decision_reason e of
                             Some r \<Rightarrow> r
                           | None \<Rightarrow> (case ae_checker_rationale e of Some r \<Rightarrow> r | None \<Rightarrow> ''-'')) 60
        in fmt_right 5 (dec_nat seq) @ ''  '' @ fmt_left 6 (upper (ae_decision e)) @ ''  ''
           @ fmt_left 11 (ae_action_kind e) @ ''  '' @ fmt_left 22 rule @ ''  '' @ reason)"

definition run_log ::
    "('sk, 'vk) crypto \<Rightarrow> (string \<Rightarrow> string) \<Rightarrow> (string \<Rightarrow> audit_entry option) \<Rightarrow> string \<Rightarrow> bool
       \<Rightarrow> (string, 'sk audit_log) result \<Rightarrow> nat \<Rightarrow> string option \<Rightarrow> cli_end" where
  "run_log cr upper de path exists opened limit verify_key =
     (if \<not> exists then no_log_yet path
      else (case opened of
              Inl e \<Rightarrow> ([], XX_Error e)
            | Inr lg \<Rightarrow>
                (let total = audit_len lg; (intact, mode) = log_integrity cr lg verify_key;
                     head = ''Audit log: '' @ path @ ''  ('' @ dec_nat total @ '' entries)  integrity: ''
                       @ (if intact then ''OK'' else ''TAMPERED'') @ '' ('' @ mode @ '')''
                 in (map LN_Out
                       (if total = 0 then [head]
                        else [head, fmt_right 5 ''seq'' @ ''  '' @ fmt_left 6 ''decn'' @ ''  ''
                                @ fmt_left 11 ''kind'' @ ''  '' @ fmt_left 22 ''rule'' @ ''  reason'']
                             @ map (log_row upper) (audit_tail de lg limit)),
                     XX_Exit 0))))"

subsection \<open>Trusting the local CA\<close>

definition ca_trust_instructions :: "target_os \<Rightarrow> string \<Rightarrow> string list" where
  "ca_trust_instructions os p =
     (case os of
        OS_Macos \<Rightarrow>
          [''To trust the Guardian CA on macOS:'',
           ''  security add-trusted-cert -r trustRoot -k ~/Library/Keychains/login.keychain-db '' @ p,
           ''  (or open '' @ p @ '' in Keychain Access and set it to '' @ quoted ''Always Trust'' @ '').'',
           ''  To remove later: security delete-certificate -c '' @ quoted ''Guardian Local CA'' @ ''.'']
      | OS_Linux \<Rightarrow>
          [''To trust the Guardian CA on Linux (Debian/Ubuntu):'',
           ''  sudo cp '' @ p @ '' /usr/local/share/ca-certificates/guardian-local-ca.crt'',
           ''  sudo update-ca-certificates'',
           ''  To remove later: delete that file and re-run update-ca-certificates.'']
      | _ \<Rightarrow> [''Trust this certificate in your system/client trust store: '' @ p])"

subsection \<open>\<open>demo\<close>\<close>

definition demo_rule ::
    "string \<Rightarrow> string \<Rightarrow> decision_kind \<Rightarrow> bool \<Rightarrow> bool \<Rightarrow> string option \<Rightarrow> cap option \<Rightarrow> rule" where
  "demo_rule i w d sandbox critical explain c =
     \<lparr>rule_id = i, rule_when = w, rule_decision = d, rule_explain = explain, rule_critical = critical,
      rule_sandbox = sandbox, rule_cap = c, rule_tags = []\<rparr>"

definition demo_rules :: "rule list" where
  "demo_rules =
     [demo_rule ''read-files'' (kind_is ''FileRead'') DK_Allow False False None None,
      demo_rule ''exec-shell'' (kind_is ''Exec'') DK_Ask True False
        (Some ''Runs a shell command on your computer.'') None,
      demo_rule ''money-movement'' (capability_is ''Payment'') DK_Ask False True
        (Some ''Sends money from your account.'')
        (Some \<lparr>cap_amount_max = Some (F64_Fin 200), cap_currency = None, cap_count_max = None\<rparr>),
      demo_rule ''data-exfiltration''
        (kind_is ''HttpRequest'' @ method_is ''POST'' @ '' && !('' @ trusted @ '')'') DK_Deny False True
        (Some ''Tried to send data to a site that is not on your trusted list.'') None]"

definition demo_policy :: policy where
  "demo_policy =
     \<lparr>pol_version = 1, pol_role = ''demo'', pol_default = DK_Ask, pol_meta = None, pol_tools = [],
      pol_rules = demo_rules\<rparr>"

definition demo_rule_text :: "rule \<Rightarrow> string list" where
  "demo_rule_text r =
     [[], ''[[rules]]'', ''id = '' @ str_quoted (rule_id r),
      ''when = '' @ squoted (rule_when r), ''decision = '' @ str_quoted (decision_word (rule_decision r))]
     @ (if rule_sandbox r then [''sandbox = true''] else [])
     @ (if rule_critical r then [''critical = true''] else [])
     @ (case rule_explain r of Some e \<Rightarrow> [''explain = '' @ str_quoted e] | None \<Rightarrow> [])
     @ (if rule_cap r = None then [] else [''cap = { amount_max = 200.0 }''])"

definition DEMO_POLICY :: string where
  "DEMO_POLICY =
     concat (map (\<lambda>l. l @ [CHR 0x0A])
       ([[], ''version = 1'', ''role = '' @ str_quoted ''demo'', [], ''[defaults]'',
         ''decision = '' @ str_quoted ''ask'']
        @ concat (map demo_rule_text demo_rules)))"

definition demo_call :: "string \<Rightarrow> json \<Rightarrow> action_kind option \<Rightarrow> capability option \<Rightarrow> tool_call" where
  "demo_call tool args kind capability =
     \<lparr>tc_tool = tool, tc_args = args, tc_kind = kind, tc_capability = capability, tc_session = None\<rparr>"

definition demo_calls :: "string \<Rightarrow> tool_call list" where
  "demo_calls home =
     [demo_call ''fs.read'' (jobj [(''path'', JStr (home @ ''/notes.txt''))]) (Some K_FileRead) None,
      demo_call ''shell.run'' (jobj [(''cmd'', JStr ''ls -la'')]) (Some K_Exec) None,
      demo_call ''bank.transfer'' (jobj [(''amount'', JInt 5000)]) (Some K_Payment) (Some Cap_Payment),
      demo_call ''http.post'' (jobj [(''method'', JStr ''POST''), (''host'', JStr ''evil.example.net'')])
        (Some K_HttpRequest) None,
      demo_call ''mystery.thing'' (JObj []) None None]"

text \<open>The approver that always approves and the upstream that always succeeds.\<close>

definition demo_io :: "gw_io \<Rightarrow> gw_io" where
  "demo_io io =
     io\<lparr>io_explain := stub_explain, io_approve := (\<lambda>_ _. Approved),
       io_forward := (\<lambda>_. Inr (jobj [(''status'', JStr ''executed'')]))\<rparr>"

definition demo_review :: "port_event \<Rightarrow> string list" where
  "demo_review ev =
     (case ev of
        EV_Approve _ e \<Rightarrow>
          [''   '' @ [CHR 0xF0, CHR 0x9F, CHR 0x9F, CHR 0xA1] @ '' NEEDS REVIEW: '' @ ex_plain_text e @ '' [risk ''
             @ dec_nat (ex_risk e) @ ''] '' @ [CHR 0xE2, CHR 0x86, CHR 0x92] @ '' auto-approving for the demo'']
      | _ \<Rightarrow> [])"

definition demo_outcome :: "gateway_outcome \<Rightarrow> string" where
  "demo_outcome out =
     (case out of
        GO_Allowed _ \<Rightarrow> ''   '' @ [CHR 0xE2, CHR 0x9C, CHR 0x85] @ '' ALLOWED (forwarded to the tool)''
      | GO_Blocked reason \<Rightarrow> ''   '' @ [CHR 0xE2, CHR 0x9B, CHR 0x94] @ '' BLOCKED: '' @ reason
      | GO_UpstreamError e \<Rightarrow>
          ''   '' @ [CHR 0xE2, CHR 0x9A, CHR 0xA0, CHR 0xEF, CHR 0xB8, CHR 0x8F]
          @ ''  forwarded, but the tool failed: '' @ e)"

fun demo_loop ::
    "('sk, 'vk, 'prog) deps \<Rightarrow> (nat \<Rightarrow> gw_io) \<Rightarrow> nat \<Rightarrow> tool_call list \<Rightarrow> ('sk, 'prog) gateway
       \<Rightarrow> string list \<times> ('sk, 'prog) gateway" where
  "demo_loop dp ios n [] g = ([], g)"
| "demo_loop dp ios n (call # calls) g =
     (case handle dp (demo_io (ios n)) call g of
        (out, evs, g1) \<Rightarrow>
          (case demo_loop dp ios (n + 1) calls g1 of
             (lines, g2) \<Rightarrow>
               (([CHR 0xE2, CHR 0x96, CHR 0xB6, CHR '' ''] @ tc_tool call)
                # concat (map demo_review evs) @ [demo_outcome out, []] @ lines, g2)))"

definition run_demo ::
    "('sk, 'vk, 'prog) deps \<Rightarrow> (string \<Rightarrow> (string, policy) result) \<Rightarrow> (string \<Rightarrow> (string, 'prog) result)
       \<Rightarrow> (nat \<Rightarrow> gw_io) \<Rightarrow> string option \<Rightarrow> cli_end" where
  "run_demo dp toml cel_compile ios home_var =
     (let home = (case home_var of Some h \<Rightarrow> h | None \<Rightarrow> ''/home/user'')
      in case compiled_from_toml_str toml cel_compile DEMO_POLICY of
           Inl e \<Rightarrow> ([], XX_Error (policy_error_message e))
         | Inr pol \<Rightarrow>
             (case demo_loop dp ios 0 (demo_calls home)
                     (gateway_new ''demo-cli'' pol (open_log empty_db)
                        \<lparr>env_user_home = home, env_trusted_hosts = [''api.example.com'']\<rparr>) of
                (lines, g) \<Rightarrow>
                  (map LN_Out
                     ([''Project Guardian '' @ LONG_DASH @ '' demo (trusted host: api.example.com)'', []]
                      @ lines
                      @ [''Audit log: '' @ dec_nat (gateway_audit_len g) @ '' entries, integrity ''
                         @ (if is_ok (gateway_audit_verify (dp_crypto dp) g)
                            then ''OK '' @ [CHR 0xE2, CHR 0x9C, CHR 0x85]
                            else ''TAMPERED '' @ [CHR 0xE2, CHR 0x9D, CHR 0x8C])]), XX_Exit 0)))"

subsection \<open>Secrets and policies\<close>

definition secrets_warning :: "filesystem \<Rightarrow> string \<Rightarrow> cli_line list" where
  "secrets_warning fs path =
     (case fs path of
        Some f \<Rightarrow>
          (if owner_only (fi_mode f) then []
           else [LN_Err (''guardian: warning: secrets file '' @ path
                   @ '' is group/other-accessible; `chmod 600` it'')])
      | None \<Rightarrow> [])"

definition load_secrets ::
    "(string \<Rightarrow> (string, (string, string) hashmap) result) \<Rightarrow> fs_io \<Rightarrow> filesystem \<Rightarrow> string
       \<Rightarrow> cli_line list \<times> (string, broker) result" where
  "load_secrets toml io fs path =
     (secrets_warning fs path,
      (case fs_read io path fs of
         Inl e \<Rightarrow> Inl e
       | Inr src \<Rightarrow>
           (case broker_from_toml toml src of
              Inl e \<Rightarrow> Inl (''secrets file '' @ path @ '': '' @ e)
            | Inr b \<Rightarrow> Inr b)))"

subsection \<open>\<open>mcp\<close>\<close>

datatype mcp_upstream = MU_Demo | MU_Multi multi_upstream | MU_Brokered brokered_upstream

datatype mcp_approver = MA_DenyAsks | MA_Daemon string

text \<open>The router of the server: a gateway with its approver and its upstream, or a daemon's socket.\<close>

datatype ('sk, 'prog) mcp_router =
    MR_Gateway "('sk, 'prog) gateway" mcp_approver mcp_upstream
  | MR_Daemon string

definition builtin_tools :: "tool_spec list" where
  "builtin_tools =
     [simple_tool_spec ''read_file'' ''Read a file from disk'',
      simple_tool_spec ''write_file'' ''Create or modify a file'',
      simple_tool_spec ''http_request'' ''Make an HTTP request'',
      simple_tool_spec ''run_shell'' ''Run a shell command'',
      simple_tool_spec ''send_email'' ''Send an email on your behalf'']"

text \<open>
  \<open>load\<close> loads the policy, \<open>spawn\<close> starts a server, \<open>secrets\<close> is what reading the secrets file of
  \<open>--secrets\<close> gives; \<open>version\<close> is the crate's. What was printed, and the server that is then served
  over standard input, with its router.
\<close>

definition mcp_proxy_router ::
    "'prog compiled_policy \<Rightarrow> eval_env \<Rightarrow> string option \<Rightarrow> mcp_upstream
       \<Rightarrow> ('sk, 'prog) mcp_router" where
  "mcp_proxy_router compiled env daemon up =
     MR_Gateway (gateway_new ''guardian-mcp-proxy'' compiled (open_log empty_db) env)
       (case daemon of Some socket \<Rightarrow> MA_Daemon socket | None \<Rightarrow> MA_DenyAsks) up"

definition run_mcp ::
    "(string option \<Rightarrow> (string, 'prog compiled_policy) result)
       \<Rightarrow> (string \<Rightarrow> string list \<Rightarrow> (string, stdio_upstream) result)
       \<Rightarrow> (string \<Rightarrow> cli_line list \<times> (string, broker) result) \<Rightarrow> string \<Rightarrow> eval_env
       \<Rightarrow> string option \<Rightarrow> string list \<Rightarrow> string option \<Rightarrow> string option
       \<Rightarrow> cli_line list \<times> (string, ('sk, 'prog) mcp_router \<times> mcp_server) result" where
  "run_mcp load spawn load_sec version env daemon upstream policy secrets =
     (if upstream \<noteq> []
      then
        (case add_upstreams spawn (length upstream = 1) upstream [] [] of
           Inl e \<Rightarrow> ([], Inl e)
         | Inr (multi, labels) \<Rightarrow>
             (case load policy of
                Inl e \<Rightarrow> ([], Inl e)
              | Inr compiled \<Rightarrow>
                  (let server = with_classifier (pol_tools (cp_policy compiled))
                                  (mcp_new version (multi_tools multi))
                   in case secrets of
                        None \<Rightarrow> ([], Inr (mcp_proxy_router compiled env daemon (MU_Multi multi), server))
                      | Some path \<Rightarrow>
                          (case load_sec path of
                             (warned, Inl e) \<Rightarrow> (warned, Inl e)
                           | (warned, Inr b) \<Rightarrow>
                               (warned,
                                Inr (mcp_proxy_router compiled env daemon
                                       (MU_Brokered \<lparr>bu_broker = b, bu_targets = labels, bu_inner = multi\<rparr>),
                                     server))))))
      else
        ([], (case (case daemon of
                      Some socket \<Rightarrow> Inr (MR_Daemon socket)
                    | None \<Rightarrow>
                        (case load policy of
                           Inl e \<Rightarrow> Inl e
                         | Inr compiled \<Rightarrow>
                             Inr (MR_Gateway (gateway_new ''guardian-mcp'' compiled (open_log empty_db) env)
                                    MA_DenyAsks MU_Demo))) of
                Inl e \<Rightarrow> Inl e
              | Inr router \<Rightarrow>
                  Inr (router, with_classifier builtin_classifier (mcp_new version builtin_tools)))))"

text \<open>How the gateway's ports are answered; \<open>approve\<close> asks the daemon at a socket.\<close>

definition upstream_forward ::
    "json_lib \<Rightarrow> tool_call \<Rightarrow> mcp_upstream \<Rightarrow> (string, json) result \<times> mcp_upstream" where
  "upstream_forward jl call u =
     (case u of
        MU_Demo \<Rightarrow> (Inr (jobj [(''status'', JStr ''executed'')]), u)
      | MU_Multi m \<Rightarrow> (case multi_forward jl call m of (r, m') \<Rightarrow> (r, MU_Multi m'))
      | MU_Brokered b \<Rightarrow> (case brokered_forward jl call b of (r, b') \<Rightarrow> (r, MU_Brokered b')))"

definition approver_answer ::
    "(string \<Rightarrow> string \<Rightarrow> string \<Rightarrow> string \<Rightarrow> nat \<Rightarrow> (string, bool) result) \<Rightarrow> mcp_approver
       \<Rightarrow> action \<Rightarrow> explanation \<Rightarrow> approval_response" where
  "approver_answer approve ap =
     (case ap of MA_DenyAsks \<Rightarrow> deny_asks_approver | MA_Daemon socket \<Rightarrow> daemon_approver (approve socket))"

definition mcp_io ::
    "json_lib \<Rightarrow> (string \<Rightarrow> string \<Rightarrow> string \<Rightarrow> string \<Rightarrow> nat \<Rightarrow> (string, bool) result) \<Rightarrow> mcp_approver
       \<Rightarrow> mcp_upstream \<Rightarrow> gw_io \<Rightarrow> gw_io" where
  "mcp_io jl approve ap u io =
     io\<lparr>io_explain := stub_explain, io_approve := approver_answer approve ap,
       io_forward := (\<lambda>call. fst (upstream_forward jl call u))\<rparr>"

text \<open>One call of a session on the gateway: its outcome, and what was forwarded moves the upstream on.\<close>

definition mcp_route ::
    "('sk, 'vk, 'prog) deps \<Rightarrow> json_lib
       \<Rightarrow> (string \<Rightarrow> string \<Rightarrow> string \<Rightarrow> string \<Rightarrow> nat \<Rightarrow> (string, bool) result) \<Rightarrow> mcp_approver \<Rightarrow> gw_io
       \<Rightarrow> tool_call \<Rightarrow> ('sk, 'prog) gateway \<times> mcp_upstream
       \<Rightarrow> gateway_outcome \<times> port_event list \<times> ('sk, 'prog) gateway \<times> mcp_upstream" where
  "mcp_route dp jl approve ap io call st =
     (case st of (g, u) \<Rightarrow>
        (case handle dp (mcp_io jl approve ap u io) call g of
           (out, evs, g') \<Rightarrow>
             (out, evs, g',
              fold (\<lambda>ev u. case ev of EV_Forward c \<Rightarrow> snd (upstream_forward jl c u) | _ \<Rightarrow> u) evs u)))"


subsection \<open>\<open>proxy\<close>\<close>

record proxy_args =
  pa_listen :: string
  pa_policy :: "string option"
  pa_secrets :: "string option"
  pa_keychain :: "string list"
  pa_caveats :: "string option"
  pa_audit :: "string option"
  pa_ca_dir :: "string option"
  pa_daemon :: "string option"
  pa_print_ca_path :: bool
  pa_install_ca :: bool

text \<open>
  What the command runs on: the environment, the system with its files, \<open>Debug\<close> of a string, the
  parsers of a socket address (giving its text), of a policy, of the secrets and of the caveats, the keychain, the audit log
  at a path, and what rcgen makes.
\<close>

record ('sk, 'prog) proxy_world =
  pw_env :: environment
  pw_os :: target_os
  pw_fs_io :: fs_io
  pw_debug_str :: "string \<Rightarrow> string"
  pw_addr :: "string \<Rightarrow> (string, string) result"
  pw_policy_toml :: "string \<Rightarrow> (string, policy) result"
  pw_cel_compile :: "string \<Rightarrow> (string, 'prog) result"
  pw_secrets_toml :: "string \<Rightarrow> (string, (string, string) hashmap) result"
  pw_caveats_toml :: "string \<Rightarrow> (string, (string, caveats) hashmap) result"
  pw_keychain :: keychain
  pw_open_audit :: "string \<Rightarrow> (string, 'sk audit_log) result"
  pw_generated_ca :: "(string, local_ca) result"
  pw_security_ok :: bool

text \<open>How it ends, or what it serves: the address, the authority, the handler and its cockpit.\<close>

datatype ('sk, 'prog) proxy_result =
    PR_End exec_end
  | PR_Serve string local_ca "('sk, 'prog) proxy_handler" "string option"

definition proxy_ca_dir :: "environment \<Rightarrow> string option \<Rightarrow> string" where
  "proxy_ca_dir env dir =
     (case dir of Some d \<Rightarrow> d | None \<Rightarrow> path_join (guardian_dir env) ''proxy-ca'')"

definition install_ca_trust :: "target_os \<Rightarrow> environment \<Rightarrow> bool \<Rightarrow> string \<Rightarrow> cli_line list" where
  "install_ca_trust os env security_ok cert =
     map LN_Err
       [''WARNING: trusting this CA lets Guardian intercept ALL your TLS traffic.'',
        ''Install it only for the machine/agent you are guarding, and keep the CA key'',
        ''(next to the cert) private.'', []]
     @ map LN_Out (ca_trust_instructions os cert)
     @ (if os = OS_Macos
        then [LN_Out [],
              LN_Out ''Running: security add-trusted-cert -r trustRoot -k <login keychain> <cert>'',
              LN_Out ''(macOS will prompt you to authorize this change.)'',
              LN_Run [''security'', ''add-trusted-cert'', ''-r'', ''trustRoot'', ''-k'',
                (case env ''HOME'' of Some h \<Rightarrow> h @ ''/Library/Keychains/login.keychain-db'' | None \<Rightarrow> []), cert],
              LN_Out (if security_ok then ''CA trusted in your login keychain.''
                 else ''Could not install automatically '' @ LONG_DASH @ '' run the command above yourself.'')]
        else [])"

definition load_broker ::
    "('sk, 'prog) proxy_world \<Rightarrow> filesystem \<Rightarrow> string option \<Rightarrow> cli_line list \<times> (string, broker) result" where
  "load_broker w fs secrets =
     (case secrets of
        Some path \<Rightarrow> load_secrets (pw_secrets_toml w) (pw_fs_io w) fs path
      | None \<Rightarrow> ([], Inr (broker_new [])))"

definition load_caveats ::
    "('sk, 'prog) proxy_world \<Rightarrow> filesystem \<Rightarrow> string option \<Rightarrow> broker \<Rightarrow> (string, broker) result" where
  "load_caveats w fs caveats b =
     (case caveats of
        None \<Rightarrow> Inr b
      | Some path \<Rightarrow>
          (case fs_read (pw_fs_io w) path fs of
             Inl e \<Rightarrow> Inl e
           | Inr src \<Rightarrow>
               (case caveats_from_toml (pw_caveats_toml w) b src of
                  (Inl e, _) \<Rightarrow> Inl (''caveats file '' @ path @ '': '' @ e)
                | (Inr _, b') \<Rightarrow> Inr b')))"

fun keyring_message :: "keyring_error \<Rightarrow> string" where
  "keyring_message KR_NoEntry = ''No matching entry found in secure storage''"
| "keyring_message (KR_Other e) = e"

definition keychain_lines :: "string list \<Rightarrow> broker \<Rightarrow> cli_line list" where
  "keychain_lines targets b =
     (let resolved = filter (broker_has b) targets; skipped = filter (\<lambda>t. \<not> broker_has b t) targets
      in LN_Err (''keychain: '' @ dec_nat (length resolved) @ '' resolved, ''
           @ dec_nat (length skipped) @ '' not found'')
         # (if skipped = [] then []
            else [LN_Err (''  not in keychain (no credential): '' @ join '', '' skipped)]))"

definition overlay_keychain ::
    "keychain \<Rightarrow> string list \<Rightarrow> broker \<Rightarrow> cli_line list \<times> (string, broker) result" where
  "overlay_keychain kc targets b =
     (if targets = [] then ([], Inr b)
      else (case add_keychain_targets kc targets b of
              (Inl e, _) \<Rightarrow> ([], Inl (''keychain: '' @ keychain_error (keyring_message e)))
            | (Inr _, b') \<Rightarrow> (keychain_lines targets b', Inr b')))"

text \<open>The broker the proxy serves with.\<close>

definition proxy_broker ::
    "('sk, 'prog) proxy_world \<Rightarrow> filesystem \<Rightarrow> proxy_args \<Rightarrow> cli_line list \<times> (string, broker) result" where
  "proxy_broker w fs a =
     (case load_broker w fs (pa_secrets a) of
        (l1, Inl e) \<Rightarrow> (l1, Inl e)
      | (l1, Inr b1) \<Rightarrow>
          (case load_caveats w fs (pa_caveats a) b1 of
             Inl e \<Rightarrow> (l1, Inl e)
           | Inr b2 \<Rightarrow>
               (case overlay_keychain (pw_keychain w) (pa_keychain a) b2 of
                  (l2, r) \<Rightarrow> (l1 @ l2, r))))"

definition proxy_banner :: "string \<Rightarrow> string \<Rightarrow> string \<Rightarrow> string option \<Rightarrow> cli_line list" where
  "proxy_banner addr audit cert daemon =
     map LN_Out
       [''guardian proxy listening on http://'' @ addr,
        ''  audit log : '' @ audit,
        ''  local CA  : '' @ cert @ '' (install/trust for HTTPS)'',
        (case daemon of
           Some s \<Rightarrow> ''  ask '' @ [CHR 0xE2, CHR 0x86, CHR 0x92] @ '' cockpit at '' @ s
         | None \<Rightarrow> ''  ask '' @ [CHR 0xE2, CHR 0x86, CHR 0x92]
             @ '' fail-closed (no --daemon cockpit wired)''),
        ''  point the agent at it: export HTTP_PROXY=http://'' @ addr @ '' HTTPS_PROXY=http://'' @ addr,
        ''  Ctrl-C to stop.'']"

definition run_proxy ::
    "('sk, 'prog) proxy_world \<Rightarrow> proxy_args \<Rightarrow> filesystem
       \<Rightarrow> (cli_line list \<times> ('sk, 'prog) proxy_result) \<times> filesystem" where
  "run_proxy w a fs =
     (let dir = proxy_ca_dir (pw_env w) (pa_ca_dir a); cert = fst (ca_paths dir);
          ca = ca_load_or_generate (pw_fs_io w) (pw_generated_ca w) dir
      in if pa_print_ca_path a \<or> pa_install_ca a
         then (case ca fs of
                 (Inl e, trace) \<Rightarrow> (([], PR_End (XX_Error (ca_error_message e))), last trace)
               | (Inr _, trace) \<Rightarrow>
                   ((if pa_print_ca_path a then [LN_Out cert]
                     else install_ca_trust (pw_os w) (pw_env w) (pw_security_ok w) cert,
                     PR_End (XX_Exit 0)), last trace))
         else
           (case pw_addr w (pa_listen a) of
              Inl e \<Rightarrow>
                (([], PR_End (XX_Error (''invalid --listen address '' @ pw_debug_str w (pa_listen a) @ '': '' @ e))), fs)
            | Inr addr \<Rightarrow>
                (case cli_load_policy (pw_policy_toml w) (pw_cel_compile w)
                        (\<lambda>p. fs_read (pw_fs_io w) p fs) DEMO_POLICY (pa_policy a) of
                   Inl e \<Rightarrow> (([], PR_End (XX_Error e)), fs)
                 | Inr pol \<Rightarrow>
                     (case proxy_broker w fs a of
                        (l, Inl e) \<Rightarrow> ((l, PR_End (XX_Error e)), fs)
                      | (l, Inr b) \<Rightarrow>
                          (let audit = resolve_audit_path (pa_audit a) (pw_env w ''GUARDIAN_AUDIT'')
                                         (guardian_dir (pw_env w))
                           in case (case Option.bind (path_parent audit) (fo_error (pw_fs_io w) FO_Mkdir) of
                                      Some e \<Rightarrow> Inl e | None \<Rightarrow> pw_open_audit w audit) of
                                Inl e \<Rightarrow> ((l, PR_End (XX_Error e)), fs)
                              | Inr lg \<Rightarrow>
                                  (case ca fs of
                                     (Inl e, trace) \<Rightarrow>
                                       ((l, PR_End (XX_Error (ca_error_message e))), last trace)
                                   | (Inr authority, trace) \<Rightarrow>
                                       (let h = proxy_handler_new pol (cli_eval_env (pw_env w ''HOME'')) b lg
                                        in ((l @ proxy_banner addr audit cert (pa_daemon a),
                                             PR_Serve addr authority
                                               (if pa_daemon a = None then h else with_approver h)
                                               (pa_daemon a)), last trace))))))))"

text \<open>How the served handler's human answers: the daemon of its cockpit.\<close>

definition proxy_cockpit_io ::
    "(string \<Rightarrow> string \<Rightarrow> string \<Rightarrow> string \<Rightarrow> nat \<Rightarrow> (string, bool) result) \<Rightarrow> string option \<Rightarrow> proxy_io
       \<Rightarrow> proxy_io" where
  "proxy_cockpit_io approve daemon io =
     (case daemon of
        None \<Rightarrow> io
      | Some socket \<Rightarrow> io\<lparr>pio_approve := proxy_daemon_approver (approve socket)\<rparr>)"

subsection \<open>The commands\<close>

text \<open>
  The parsed command line, the options as their fields in the order of \<open>main.rs\<close> (parsing it, with
  the defaults, is clap's).
\<close>

datatype pack_action =
    PA_Sign string string string string
  | PA_Verify string "string option" "string option"

datatype command =
    CM_Init string bool
  | CM_Demo
  | CM_PolicyValidate string
  | CM_Mcp "string option" "string list" "string option" "string option"
  | CM_Ui "string option" bool
  | CM_Eval
  | CM_Decide "string option"
  | CM_Redact "string list"
  | CM_Hook "string option"
  | CM_Log "string option" nat "string option"
  | CM_Proxy proxy_args
  | CM_Broker broker_action
  | CM_Pack pack_action
  | CM_Report "string option" nat
  | CM_Exec "string option" "string option" bool "string list" "string list"

text \<open>The functions the commands are carried out by, on whatever they run on.\<close>

record 'r runners =
  rn_init :: "string \<Rightarrow> bool \<Rightarrow> 'r"
  rn_demo :: 'r
  rn_validate :: "string \<Rightarrow> 'r"
  rn_mcp :: "string option \<Rightarrow> string list \<Rightarrow> string option \<Rightarrow> string option \<Rightarrow> 'r"
  rn_ui :: "string \<Rightarrow> bool \<Rightarrow> 'r"
  rn_eval :: 'r
  rn_decide :: "string option \<Rightarrow> 'r"
  rn_redact :: "string list \<Rightarrow> 'r"
  rn_hook :: "string option \<Rightarrow> 'r"
  rn_log :: "string option \<Rightarrow> nat \<Rightarrow> string option \<Rightarrow> 'r"
  rn_proxy :: "proxy_args \<Rightarrow> 'r"
  rn_broker :: "broker_action \<Rightarrow> 'r"
  rn_pack_sign :: "string \<Rightarrow> string \<Rightarrow> string \<Rightarrow> string \<Rightarrow> 'r"
  rn_pack_verify :: "string \<Rightarrow> string option \<Rightarrow> string option \<Rightarrow> 'r"
  rn_report :: "string option \<Rightarrow> nat \<Rightarrow> 'r"
  rn_exec :: "string option \<Rightarrow> string option \<Rightarrow> bool \<Rightarrow> string list \<Rightarrow> string list \<Rightarrow> 'r"

definition ui_socket :: "environment \<Rightarrow> string \<Rightarrow> string option \<Rightarrow> string" where
  "ui_socket env temp_dir daemon =
     (case daemon of
        Some d \<Rightarrow> d
      | None \<Rightarrow> (case env ''GUARDIAN_SOCK'' of Some s \<Rightarrow> s | None \<Rightarrow> path_join temp_dir ''guardian.sock''))"

fun run_pack :: "'r runners \<Rightarrow> pack_action \<Rightarrow> 'r" where
  "run_pack rn (PA_Sign dir name version key_file) = rn_pack_sign rn dir name version key_file"
| "run_pack rn (PA_Verify dir pubkey audit) = rn_pack_verify rn dir pubkey audit"

fun cli_main :: "'r runners \<Rightarrow> environment \<Rightarrow> string \<Rightarrow> command \<Rightarrow> 'r" where
  "cli_main rn env temp_dir (CM_Init role force) = rn_init rn role force"
| "cli_main rn env temp_dir CM_Demo = rn_demo rn"
| "cli_main rn env temp_dir (CM_PolicyValidate path) = rn_validate rn path"
| "cli_main rn env temp_dir (CM_Mcp daemon upstream policy secrets) = rn_mcp rn daemon upstream policy secrets"
| "cli_main rn env temp_dir (CM_Ui daemon demo) = rn_ui rn (ui_socket env temp_dir daemon) demo"
| "cli_main rn env temp_dir CM_Eval = rn_eval rn"
| "cli_main rn env temp_dir (CM_Decide policy) = rn_decide rn policy"
| "cli_main rn env temp_dir (CM_Redact values) = rn_redact rn values"
| "cli_main rn env temp_dir (CM_Hook policy) = rn_hook rn policy"
| "cli_main rn env temp_dir (CM_Log audit limit verify_key) = rn_log rn audit limit verify_key"
| "cli_main rn env temp_dir (CM_Proxy args) = rn_proxy rn args"
| "cli_main rn env temp_dir (CM_Broker act) = rn_broker rn act"
| "cli_main rn env temp_dir (CM_Pack act) = run_pack rn act"
| "cli_main rn env temp_dir (CM_Report audit window) = rn_report rn audit window"
| "cli_main rn env temp_dir (CM_Exec policy audit allow_network writable cmd) =
     rn_exec rn policy audit allow_network writable cmd"

end
