(* ===== verification/Cli_Run_Laws.thy ===== *)
theory Cli_Run_Laws
  imports Cli_Run Proxy_Laws Gateway_Laws
begin

text \<open>
  What the commands guarantee once they are put together: the proxy and the MCP server that are
  served forward only what their policy or the cockpit they were started with lets through, no
  command prints a secret of the broker, and \<open>init\<close> keeps what is there.
\<close>

subsection \<open>The broker the proxy is given\<close>

text \<open>Two stores that hold secrets for the same targets.\<close>

definition same_targets :: "broker \<Rightarrow> broker \<Rightarrow> bool" where
  "same_targets b b' \<longleftrightarrow> map fst (br_secrets b) = map fst (br_secrets b')
     \<and> br_caveats b = br_caveats b'"

definition keychains_alike :: "keychain \<Rightarrow> keychain \<Rightarrow> bool" where
  "keychains_alike kc kc' \<longleftrightarrow>
     (\<forall>t. (\<exists>s s'. kc t = Inr s \<and> kc' t = Inr s') \<or> (\<exists>e. kc t = Inl e \<and> kc' t = Inl e))"

text \<open>
  The files of a machine before and after every credential in its secrets file was exchanged: the
  file at \<open>path\<close> has another text, which holds another value for each of the same targets.
\<close>

definition secrets_exchanged ::
    "(string \<Rightarrow> (string, (string, string) hashmap) result) \<Rightarrow> string \<Rightarrow> filesystem \<Rightarrow> filesystem \<Rightarrow> bool" where
  "secrets_exchanged toml path fs fs' \<longleftrightarrow>
     (\<exists>f s m m'. fs path = Some f \<and> fs' = fs(path \<mapsto> f\<lparr>fi_text := s\<rparr>) \<and> utf8_valid (fi_text f) \<and> utf8_valid s
        \<and> toml (fi_text f) = Inr m \<and> toml s = Inr m' \<and> map fst m = map fst m')"

definition other_proxy_files :: "('sk, 'prog) proxy_world \<Rightarrow> proxy_args \<Rightarrow> string set" where
  "other_proxy_files w a =
     set_option (pa_policy a) \<union> set_option (pa_caveats a)
     \<union> (let (cert, key) = ca_paths (proxy_ca_dir (pw_env w) (pa_ca_dir a)) in {cert, key})"

lemma same_targets_has: "same_targets b b' \<Longrightarrow> broker_has b = broker_has b'"
  by (rule ext) (metis broker_has_def hm_contains_iff same_targets_def set_map)

lemma same_targets_update:
  "same_targets b b' \<Longrightarrow>
     same_targets (b\<lparr>br_secrets := AList.update t s (br_secrets b)\<rparr>)
       (b'\<lparr>br_secrets := AList.update t s' (br_secrets b')\<rparr>)"
  by (simp add: same_targets_def AList.update_keys)

lemma add_keychain_targets_alike:
  "keychains_alike kc kc' \<Longrightarrow> same_targets b b' \<Longrightarrow>
     fst (add_keychain_targets kc ts b) = fst (add_keychain_targets kc' ts b')
     \<and> same_targets (snd (add_keychain_targets kc ts b)) (snd (add_keychain_targets kc' ts b'))"
proof (induction kc ts b arbitrary: b' rule: add_keychain_targets.induct)
  case (1 kc b)
  then show ?case by simp
next
  case (2 kc t ts b)
  consider s s' where "kc t = Inr s" "kc' t = Inr s'" | e where "kc t = Inl e" "kc' t = Inl e"
    using "2.prems"(1) unfolding keychains_alike_def by blast
  then show ?case
  proof cases
    case 1
    then have "keychain_load kc t = Inr (Some s)" "keychain_load kc' t = Inr (Some s')"
      by (simp_all add: keychain_load_def)
    with "2.IH"(2) [OF _ refl "2.prems"(1) same_targets_update [OF "2.prems"(2)]] show ?thesis
      by simp
  next
    case 2
    then show ?thesis
      using "2.IH"(1) [OF _ refl "2.prems"] "2.prems"(2)
      by (cases e) (simp_all add: keychain_load_def)
  qed
qed

lemma load_secrets_exchanged:
  assumes "secrets_exchanged toml path fs fs'"
  shows "fst (load_secrets toml io fs' path) = fst (load_secrets toml io fs path)"
    and "rel_sum (=) same_targets (snd (load_secrets toml io fs path)) (snd (load_secrets toml io fs' path))"
  using assms
  by (auto simp: secrets_exchanged_def load_secrets_def secrets_warning_def fs_read_def broker_from_toml_def
      broker_new_def same_targets_def split: option.split)

lemma overlay_keychain_alike:
  assumes "keychains_alike kc kc'" and "same_targets b b'"
  shows "fst (overlay_keychain kc ts b) = fst (overlay_keychain kc' ts b')"
    and "rel_sum (=) same_targets (snd (overlay_keychain kc ts b)) (snd (overlay_keychain kc' ts b'))"
  using add_keychain_targets_alike [OF assms, of ts] assms(2)
  by (auto simp: overlay_keychain_def keychain_lines_def same_targets_has split: sum.split prod.split)

lemma load_caveats_alike:
  assumes "same_targets b b'" and "\<And>p. caveats = Some p \<Longrightarrow> fs' p = fs p"
  shows "rel_sum (=) same_targets (load_caveats w fs caveats b) (load_caveats (w\<lparr>pw_keychain := kc\<rparr>) fs' caveats b')"
  using assms
  by (auto simp: load_caveats_def caveats_from_toml_def same_targets_def fs_read_def
      split: option.split sum.split)

lemma load_broker_alike:
  assumes "\<And>p. pa_secrets a = Some p \<Longrightarrow> secrets_exchanged (pw_secrets_toml w) p fs fs'"
    and "pa_secrets a = None \<Longrightarrow> fs' = fs"
  shows "fst (load_broker (w\<lparr>pw_keychain := kc\<rparr>) fs' (pa_secrets a)) = fst (load_broker w fs (pa_secrets a))
    \<and> rel_sum (=) same_targets (snd (load_broker w fs (pa_secrets a)))
         (snd (load_broker (w\<lparr>pw_keychain := kc\<rparr>) fs' (pa_secrets a)))"
  using load_secrets_exchanged [OF assms(1)]
  by (cases "pa_secrets a") (auto simp: load_broker_def same_targets_def)

lemma proxy_broker_alike:
  assumes "\<And>p. pa_secrets a = Some p \<Longrightarrow> secrets_exchanged (pw_secrets_toml w) p fs fs'"
    and "pa_secrets a = None \<Longrightarrow> fs' = fs"
    and "\<And>p. pa_caveats a = Some p \<Longrightarrow> fs' p = fs p" and "keychains_alike (pw_keychain w) kc"
  defines "w' \<equiv> w\<lparr>pw_keychain := kc\<rparr>"
  shows "fst (proxy_broker w fs a) = fst (proxy_broker w' fs' a)
    \<and> rel_sum (=) same_targets (snd (proxy_broker w fs a)) (snd (proxy_broker w' fs' a))"
proof -
  obtain l1 r1 r1' where l: "load_broker w fs (pa_secrets a) = (l1, r1)"
    "load_broker w' fs' (pa_secrets a) = (l1, r1')" and s: "rel_sum (=) same_targets r1 r1'"
    using load_broker_alike [OF assms(1,2), where kc = kc] unfolding w'_def
    by (metis fst_conv snd_conv surj_pair)
  show ?thesis
  proof (cases r1)
    case (Inl e)
    with s l show ?thesis by (auto simp: proxy_broker_def elim: rel_sum.cases)
  next
    case (Inr b)
    with s obtain b' where b: "r1' = Inr b'" "same_targets b b'" by (auto elim: rel_sum.cases)
    from load_caveats_alike [of b b' "pa_caveats a" fs' fs w kc, OF b(2) assms(3)]
    consider e where "load_caveats w fs (pa_caveats a) b = Inl e" "load_caveats w' fs' (pa_caveats a) b' = Inl e"
      | c c' where "load_caveats w fs (pa_caveats a) b = Inr c" "load_caveats w' fs' (pa_caveats a) b' = Inr c'"
          "same_targets c c'"
      unfolding w'_def by (auto elim: rel_sum.cases)
    then show ?thesis
    proof cases
      case 1
      with Inr b s l show ?thesis by (simp add: proxy_broker_def)
    next
      case 2
      with Inr b s l overlay_keychain_alike [OF assms(4) 2(3), of "pa_keychain a"] show ?thesis
        by (auto simp: proxy_broker_def w'_def split: prod.split)
    qed
  qed
qed

subsection \<open>Files a command does not touch\<close>

lemma ca_load_frame:
  assumes "q \<notin> {fst (ca_paths dir), snd (ca_paths dir)}"
  shows "ca_load_or_generate io generated dir (fs(q := x)) =
     apsnd (map (\<lambda>g. g(q := x))) (ca_load_or_generate io generated dir fs)"
proof -
  have o: "open_truncate io m p (g(q := x)) = (open_truncate io m p g)(q := x)"
    "set_text p s (g(q := x)) = (set_text p s g)(q := x)"
    "set_mode p m (g(q := x)) = (set_mode p m g)(q := x)" if "p \<noteq> q" for p m s g
    using that by (auto simp: open_truncate_def set_text_def set_mode_def fun_upd_twist split: option.split)
  have w: "fs_write io p s (g(q := x)) = apsnd (map (\<lambda>h. h(q := x))) (fs_write io p s g)"
    "write_private io p s (g(q := x)) = apsnd (map (\<lambda>h. h(q := x))) (write_private io p s g)"
    "fs_read io p (g(q := x)) = fs_read io p g" if "p \<noteq> q" for p s g
    using that by (simp_all add: fs_write_def write_private_def fs_read_def Let_def o split: option.split)
  have n: "(r, trace) = fs_write io p s g \<Longrightarrow> trace \<noteq> []" for r trace p s g
    by (auto simp: fs_write_def Let_def split: option.splits)
  obtain c k where p: "ca_paths dir = (c, k)" by fastforce
  with assms have q: "c \<noteq> q" "k \<noteq> q" by auto
  have "ca_persist io dir ca (fs(q := x)) = apsnd (map (\<lambda>g. g(q := x))) (ca_persist io dir ca fs)" for ca
    using q n [of _ _ c "ca_cert_pem ca" fs]
    by (auto simp: ca_persist_def p w last_map split: option.split sum.split prod.split)
  then show ?thesis
    using q by (auto simp: ca_load_or_generate_def p w split: option.split sum.split prod.split)
qed

lemma ca_load_trace_not_Nil: "snd (ca_load_or_generate io generated dir fs) \<noteq> []"
  by (auto simp: ca_load_or_generate_def ca_persist_def fs_write_def Let_def split: option.splits sum.splits prod.splits)

lemma exchanged_files:
  assumes "case pa_secrets a of
      None \<Rightarrow> fs' = fs
    | Some p \<Rightarrow> p \<notin> other_proxy_files w a \<and> secrets_exchanged (pw_secrets_toml w) p fs fs'"
  defines "ca \<equiv> ca_load_or_generate (pw_fs_io w) (pw_generated_ca w) (proxy_ca_dir (pw_env w) (pa_ca_dir a))"
  shows "\<And>p. pa_secrets a = Some p \<Longrightarrow> secrets_exchanged (pw_secrets_toml w) p fs fs'"
    and "pa_secrets a = None \<Longrightarrow> fs' = fs"
    and "cli_load_policy toml cel (\<lambda>p. fs_read (pw_fs_io w) p fs') demo (pa_policy a) =
           cli_load_policy toml cel (\<lambda>p. fs_read (pw_fs_io w) p fs) demo (pa_policy a)"
    and "\<And>p. pa_caveats a = Some p \<Longrightarrow> fs' p = fs p"
    and "\<exists>c t t'. ca fs = (c, t) \<and> ca fs' = (c, t') \<and> (\<forall>q. pa_secrets a \<noteq> Some q \<longrightarrow> last t' q = last t q)"
    and "\<And>q. pa_secrets a \<noteq> Some q \<Longrightarrow> fs' q = fs q"
proof -
  show "\<And>p. pa_secrets a = Some p \<Longrightarrow> secrets_exchanged (pw_secrets_toml w) p fs fs'"
    and n: "pa_secrets a = None \<Longrightarrow> fs' = fs"
    using assms(1) by auto
  show o: "fs' q = fs q" if "pa_secrets a \<noteq> Some q" for q
    using assms(1) that by (auto simp: secrets_exchanged_def split: option.splits)
  have s: "pa_secrets a \<noteq> Some q" if "q \<in> other_proxy_files w a" for q
    using assms(1) that by auto
  show "\<And>p. pa_caveats a = Some p \<Longrightarrow> fs' p = fs p"
    using o s by (auto simp: other_proxy_files_def)
  have "fs' p = fs p" if "pa_policy a = Some p" for p
    using o s that by (auto simp: other_proxy_files_def)
  then show "cli_load_policy toml cel (\<lambda>p. fs_read (pw_fs_io w) p fs') demo (pa_policy a) =
      cli_load_policy toml cel (\<lambda>p. fs_read (pw_fs_io w) p fs) demo (pa_policy a)"
    by (auto simp: cli_load_policy_def fs_read_def split: option.split)
  show "\<exists>c t t'. ca fs = (c, t) \<and> ca fs' = (c, t') \<and> (\<forall>q. pa_secrets a \<noteq> Some q \<longrightarrow> last t' q = last t q)"
  proof (cases "pa_secrets a")
    case None
    with n show ?thesis by (metis surj_pair)
  next
    case (Some p)
    with assms(1) obtain x where x: "fs' = fs(p := x)" by (auto simp: secrets_exchanged_def)
    obtain c t where c: "ca fs = (c, t)" by fastforce
    have "p \<notin> {fst (ca_paths (proxy_ca_dir (pw_env w) (pa_ca_dir a))), snd (ca_paths (proxy_ca_dir (pw_env w) (pa_ca_dir a)))}"
      using s [of p] Some by (auto simp: other_proxy_files_def split_beta)
    from ca_load_frame [OF this, of "pw_fs_io w" "pw_generated_ca w" fs x]
    have "ca fs' = (c, map (\<lambda>g. g(p := x)) t)" using c by (simp add: ca_def x)
    moreover have "t \<noteq> []" using ca_load_trace_not_Nil [of "pw_fs_io w" "pw_generated_ca w"] c by (metis ca_def snd_conv)
    ultimately show ?thesis using c Some by (auto simp: last_map)
  qed
qed

subsection \<open>What is served\<close>

lemma run_proxy_serves:
  assumes "run_proxy w a fs = ((l, PR_Serve addr ca h daemon), fs')"
  shows "daemon = pa_daemon a
    \<and> cli_load_policy (pw_policy_toml w) (pw_cel_compile w) (\<lambda>p. fs_read (pw_fs_io w) p fs) DEMO_POLICY
        (pa_policy a) = Inr (ph_policy h)
    \<and> ph_env h = cli_eval_env (pw_env w ''HOME'')
    \<and> snd (proxy_broker w fs a) = Inr (ph_broker h)
    \<and> (ph_approver h \<longleftrightarrow> daemon \<noteq> None)"
  using assms
  by (auto simp: run_proxy_def Let_def proxy_handler_new_def with_approver_def
      split: if_splits sum.splits prod.splits option.splits)

lemma proxied_action_audit:
  "proxied_action dp now (h\<lparr>ph_audit := lg\<rparr>) rq = proxied_action dp now h rq"
  by (simp add: proxied_action_def prepare_def Let_def)

lemma handle_request_answered:
  assumes "handle_request dp show_f64 io rq h = (RR_Request rq', evs, h')"
  shows "out_decision (proxied_verdict dp (pio_now_ms io) h rq) = Allow
    \<or> (\<exists>r. out_decision (proxied_verdict dp (pio_now_ms io) h rq) = Ask r) \<and> ph_approver h
       \<and> pio_approve io (proxied_action dp (pio_now_ms io) h rq)"
proof -
  let ?a = "proxied_action dp (pio_now_ms io) h rq" and ?out = "proxied_verdict dp (pio_now_ms io) h rq"
  obtain out' fresh aevs where r: "resolve_ask io (ph_approver h) ?a ?out = (out', fresh, aevs)"
    by (metis prod_cases3)
  have "respond (pd_http dp) show_f64 (ph_broker h) (seen_request dp h rq) ?a out' fresh = RR_Request rq'"
    using assms r by (auto simp: handle_request_eq Let_def split: if_splits)
  from respond_forward [OF this proxied_host] have "out_decision out' = Allow" by simp
  from resolve_ask_allow [OF r this] show ?thesis by auto
qed


lemma mcp_server_router:
  assumes "run_mcp load spawn load_sec version env daemon upstream policy secrets
             = (l, Inr (MR_Gateway g ap u, srv))"
  shows "load policy = Inr (gw_policy g) \<and> gw_env g = env
    \<and> (ap = MA_DenyAsks \<and> (upstream \<noteq> [] \<longrightarrow> daemon = None)
       \<or> (\<exists>socket. ap = MA_Daemon socket \<and> daemon = Some socket))"
  using assms
  by (auto simp: run_mcp_def mcp_proxy_router_def gateway_new_def Let_def
      split: if_splits sum.splits prod.splits option.splits)

lemma approver_approves:
  "approver_answer approve ap a e = Approved \<Longrightarrow>
     \<exists>socket. ap = MA_Daemon socket \<and> approve socket (act_id a) (act_tool a) (ex_plain_text e) (ex_risk e) = Inr True"
  by (cases ap) (auto simp: approver_answer_def deny_asks_approver_def daemon_approver_def
      split: sum.splits if_splits bool.splits)

subsection \<open>\<open>init\<close> keeps what is there\<close>

definition keeps_texts :: "filesystem \<Rightarrow> filesystem \<Rightarrow> bool" where
  "keeps_texts fs fs' \<longleftrightarrow>
     (\<forall>p f. fs p = Some f \<longrightarrow> (\<exists>f'. fs' p = Some f' \<and> fi_text f' = fi_text f))"

lemma keeps_texts_trans: "keeps_texts fs fs' \<Longrightarrow> keeps_texts fs' fs'' \<Longrightarrow> keeps_texts fs fs''"
  unfolding keeps_texts_def by metis

lemma keeps_texts_restrict: "keeps_texts fs fs1 \<Longrightarrow> keeps_texts fs (restrict_mode io p m fs1)"
  by (rule keeps_texts_trans)
    (auto simp: keeps_texts_def restrict_mode_def set_mode_def split: option.split)

lemma keeps_texts_write: "keeps_texts fs fs1 \<Longrightarrow> keeps_texts fs (snd (write_if_absent io p s False fs1))"
  by (rule keeps_texts_trans)
    (auto simp: keeps_texts_def write_if_absent_def fs_write_def open_truncate_def set_text_def Let_def
      split: option.split)

lemma keeps_texts_refl: "keeps_texts fs fs"
  by (simp add: keeps_texts_def)

lemmas keeps_texts_rules = keeps_texts_refl keeps_texts_write keeps_texts_restrict

lemma write_if_absent_there:
  "write_if_absent io p s force fs = (Inr w, fs') \<Longrightarrow> fs' p \<noteq> None"
  by (auto simp: write_if_absent_def fs_write_def open_truncate_def set_text_def Let_def
      split: if_splits option.splits)

lemma restrict_mode_there:
  "restrict_mode io p m fs q = None \<longleftrightarrow> fs q = None"
  by (auto simp: restrict_mode_def set_mode_def split: option.split)

lemma init_files_keeps:
  "keeps_texts fs (snd (init_files io ca pas template ds dir role False fs))"
proof -
  let ?p = "path_join dir ''policy.toml''" and ?c = "path_join dir ''config.toml''"
  have *: "keeps_texts fs fs1" if "write_if_absent io ?p s False fs = (r, fs1)" for r s fs1
    using keeps_texts_write [OF keeps_texts_refl, of fs io ?p s] that by simp
  have **: "keeps_texts fs fs2 \<and> keeps_texts fs (restrict_mode io ?c PRIVATE_MODE fs2)"
    if "write_if_absent io ?c s False (restrict_mode io ?p PRIVATE_MODE fs1) = (r, fs2)"
      "keeps_texts fs fs1" for r s fs1 fs2
    using keeps_texts_write [OF keeps_texts_restrict [OF that(2)], of io ?c s io ?p PRIVATE_MODE] that(1)
    by (simp add: keeps_texts_restrict)
  show ?thesis
    by (auto simp: init_files_def Let_def keeps_texts_refl * ** split: prod.split sum.split option.split)
qed

definition private_file :: "filesystem \<Rightarrow> string \<Rightarrow> bool" where
  "private_file fs p \<longleftrightarrow> (\<exists>f. fs p = Some f \<and> fi_mode f = PRIVATE_MODE)"

lemma restrict_private:
  "fo_error io FO_Chmod p = None \<Longrightarrow> fs p \<noteq> None \<Longrightarrow> private_file (restrict_mode io p PRIVATE_MODE fs) p"
  "private_file fs q \<Longrightarrow> private_file (restrict_mode io p PRIVATE_MODE fs) q"
  "private_file fs p \<Longrightarrow> restrict_mode io p PRIVATE_MODE fs = fs"
  by (auto simp: private_file_def restrict_mode_def set_mode_def split: option.splits)

lemma write_private_kept:
  "p \<noteq> q \<Longrightarrow> private_file fs q \<Longrightarrow> write_if_absent io p s force fs = (r, fs') \<Longrightarrow> private_file fs' q"
  by (auto simp: private_file_def write_if_absent_def fs_write_def open_truncate_def set_text_def Let_def
      split: if_splits option.splits)

lemma init_paths_distinct: "path_join dir ''policy.toml'' \<noteq> path_join dir ''config.toml''"
  by (simp add: path_join_def is_absolute_def)

lemma init_files_private:
  assumes "init_files io ca pas template ds dir role force fs = (Inr w, fs')"
    and "\<And>p. fo_error io FO_Chmod p = None"
  shows "private_file fs' (path_join dir ''policy.toml'') \<and> private_file fs' (path_join dir ''config.toml'')"
proof -
  let ?p = "path_join dir ''policy.toml''" and ?c = "path_join dir ''config.toml''"
  from assms(1) obtain pw cw s s' fs1 fs2 where
    w: "write_if_absent io ?p s force fs = (Inr pw, fs1)"
      "write_if_absent io ?c s' force (restrict_mode io ?p PRIVATE_MODE fs1) = (Inr cw, fs2)"
    and f: "fs' = restrict_mode io ?c PRIVATE_MODE fs2"
    by (auto simp: init_files_def Let_def split: option.splits sum.splits prod.splits if_splits)
  have "private_file (restrict_mode io ?p PRIVATE_MODE fs1) ?p"
    using restrict_private(1) assms(2) write_if_absent_there [OF w(1)] by blast
  from write_private_kept [OF init_paths_distinct [symmetric] this w(2)] have "private_file fs' ?p"
    unfolding f by (rule restrict_private(2))
  moreover have "private_file fs' ?c"
    unfolding f using restrict_private(1) assms(2) write_if_absent_there [OF w(2)] by blast
  ultimately show ?thesis by simp
qed

lemma init_files_again:
  assumes "private_file fs (path_join dir ''policy.toml'')" "private_file fs (path_join dir ''config.toml'')"
    and "init_files io ca pas template ds dir role force fs0 = (Inr w, fs')"
  shows "init_files io ca pas template ds dir role False fs = (Inr (False, False), fs)"
proof -
  have "fs (path_join dir ''policy.toml'') \<noteq> None" "fs (path_join dir ''config.toml'') \<noteq> None"
    using assms(1,2) by (auto simp: private_file_def)
  moreover have "fo_error io FO_Mkdir dir = None" "role = ''coding-agent'' \<or> role = ''personal-assistant''"
    using assms(3) by (auto simp: init_files_def Let_def split: option.splits if_splits)
  ultimately show ?thesis
    using restrict_private(3) [OF assms(1)] restrict_private(3) [OF assms(2)]
    by (auto simp: init_files_def write_if_absent_def Let_def)
qed

subsection \<open>Properties\<close>

text \<open>
  C11: the served proxy keeps to the policy it was started with. Whatever its log holds by then, a
  request that the handler of a started \<open>guardian proxy\<close> sends on was allowed by the policy of
  \<open>--policy\<close> (the demo policy without one), or that policy asked, a cockpit was given with
  \<open>--daemon\<close>, and the daemon on that very socket answered yes to the request as it was shown.
\<close>

theorem served_proxy_forwards_cleared:
  assumes "run_proxy w a fs = ((lines, PR_Serve addr ca h daemon), fs')"
    and "handle_request dp show_f64 (proxy_cockpit_io approve daemon io) rq (h\<lparr>ph_audit := lg\<rparr>)
           = (RR_Request rq', evs, h')"
  shows "\<exists>pol. cli_load_policy (pw_policy_toml w) (pw_cel_compile w) (\<lambda>p. fs_read (pw_fs_io w) p fs)
             DEMO_POLICY (pa_policy a) = Inr pol
     \<and> (let act = proxied_action dp (pio_now_ms io) h rq;
            out = evaluate (pd_cel dp) pol act (cli_eval_env (pw_env w ''HOME''))
        in out_decision out = Allow
           \<or> (\<exists>r socket. out_decision out = Ask r \<and> pa_daemon a = Some socket
                \<and> proxy_daemon_approver (approve socket) act))"
proof -
  note s = run_proxy_serves [OF assms(1)]
  have now: "pio_now_ms (proxy_cockpit_io approve daemon io) = pio_now_ms io"
    by (simp add: proxy_cockpit_io_def split: option.split)
  from handle_request_answered [OF assms(2)] s show ?thesis
    by (auto simp: now proxied_verdict_eq proxied_action_audit Let_def proxy_cockpit_io_def)
qed

text \<open>
  C31: starting the proxy prints no secret. Exchange every value in the secrets file, its text with
  them, and every value in the keychain for others, the targets staying the same: \<open>guardian proxy\<close>
  prints the same lines, ends the same way if it ends, and leaves the same text in every other file.
  (A secrets file that does not parse is another matter: the parser's message quotes its line.)
\<close>

theorem proxy_prints_no_secret:
  assumes "case pa_secrets a of
      None \<Rightarrow> fs' = fs
    | Some p \<Rightarrow> p \<notin> other_proxy_files w a \<and> secrets_exchanged (pw_secrets_toml w) p fs fs'"
    and "keychains_alike (pw_keychain w) kc"
    and "run_proxy w a fs = ((lines, r), fs1)" and "run_proxy (w\<lparr>pw_keychain := kc\<rparr>) a fs' = ((lines', r'), fs1')"
  shows "lines' = lines \<and> (r' = PR_End e \<longleftrightarrow> r = PR_End e)
     \<and> (\<forall>q. pa_secrets a \<noteq> Some q \<longrightarrow> fs1' q = fs1 q)"
proof -
  let ?w = "w\<lparr>pw_keychain := kc\<rparr>" and ?dir = "proxy_ca_dir (pw_env w) (pa_ca_dir a)"
  note f = exchanged_files [OF assms(1)]
  obtain l b b' where b: "proxy_broker w fs a = (l, b)" "proxy_broker ?w fs' a = (l, b')"
    and r: "rel_sum (=) same_targets b b'"
    using proxy_broker_alike [OF f(1,2,4) assms(2)] by (metis fst_conv snd_conv surj_pair)
  obtain c t t' where c: "ca_load_or_generate (pw_fs_io w) (pw_generated_ca w) ?dir fs = (c, t)"
    "ca_load_or_generate (pw_fs_io w) (pw_generated_ca w) ?dir fs' = (c, t')"
    and t: "\<And>q. pa_secrets a \<noteq> Some q \<Longrightarrow> last t' q = last t q"
    using f(5) by blast
  note p = f(3)
  from r consider m where "b = Inl m" "b' = Inl m" | k k' where "b = Inr k" "b' = Inr k'"
    by (auto elim: rel_sum.cases)
  then show ?thesis
    using assms(3,4) t f(6)
    by cases (auto simp: run_proxy_def Let_def b c p split: if_splits sum.splits option.splits)
qed

text \<open>
  the MCP server of \<open>guardian mcp\<close> keeps to the policy it was started with. From any state its
  gateway can be in, a call is forwarded only if the policy of \<open>--policy\<close> allows it, or asks and the
  daemon of \<open>--daemon\<close> answers yes to it; without a daemon, every \<open>ask\<close> is refused.
\<close>

theorem mcp_server_forwards_cleared:
  assumes "run_mcp load spawn load_sec version env daemon upstream policy secrets
             = (lines, Inr (MR_Gateway g ap u, srv))"
    and "gw_policy g' = gw_policy g" and "gw_env g' = gw_env g"
    and "mcp_route dp jl approve ap io call (g', u') = (out, evs, st)" and "EV_Forward c \<in> set evs"
  shows "\<exists>pol. load policy = Inr pol
     \<and> (let act = call_action io call g'; verdict = evaluate (dp_cel dp) pol act env
        in out_decision verdict = Allow
           \<or> (\<exists>r socket. out_decision verdict = Ask r \<and> daemon = Some socket
                \<and> (let e = stub_explain act
                   in approve socket (act_id act) (act_tool act) (ex_plain_text e) (ex_risk e) = Inr True)))"
proof -
  note s = mcp_server_router [OF assms(1)]
  let ?io = "mcp_io jl approve ap u' io"
  have now: "call_action ?io call g' = call_action io call g'" by (simp add: mcp_io_def)
  have "EV_Forward c \<in> set (fst (snd (handle dp ?io call g')))"
    using assms(4,5) by (auto simp: mcp_route_def split: prod.splits)
  from forward_event [OF this] have "call_cleared dp ?io call g'" by simp
  with s assms(2,3) show ?thesis
    by (auto simp: call_cleared_def now Let_def mcp_io_def dest: approver_approves split: decision.splits)
qed

text \<open>
  \<open>guardian init\<close> is idempotent. After it succeeded (and permissions could be set), both files
  are their owner's alone, without \<open>--force\<close> every file there was still has its text, and running it
  once more succeeds and changes nothing.
\<close>

theorem init_idempotent:
  assumes "run_init io pretty ca pas template ds env tmp role force fs = ((lines, XX_Exit 0), fs')"
    and "\<And>p. fo_error io FO_Chmod p = None"
  shows "private_file fs' (path_join (guardian_dir env) ''policy.toml'')
     \<and> private_file fs' (path_join (guardian_dir env) ''config.toml'')
     \<and> (\<not> force \<longrightarrow> keeps_texts fs fs')
     \<and> (\<exists>lines'. run_init io pretty ca pas template ds env tmp role False fs' = ((lines', XX_Exit 0), fs'))"
proof -
  from assms(1) obtain w where i: "init_files io ca pas template ds (guardian_dir env) role force fs = (Inr w, fs')"
    by (auto simp: run_init_def Let_def split: sum.splits prod.splits)
  note p = init_files_private [OF i assms(2)]
  have "keeps_texts fs fs'" if "\<not> force"
    using init_files_keeps [of fs io ca pas template ds "guardian_dir env" role] i that by simp
  with p init_files_again [OF conjunct1 [OF p] conjunct2 [OF p] i] show ?thesis
    by (simp add: run_init_def Let_def)
qed


subsection \<open>Examples\<close>

text \<open>A machine with an empty disk whose keychain holds a token for one bank.\<close>

definition ex_keychain :: "string \<Rightarrow> keychain" where
  "ex_keychain secret t = (if t = ''bank.local'' then Inr secret else Inl KR_NoEntry)"

definition ex_env_vars :: environment where
  "ex_env_vars v = (if v = ''HOME'' then Some ''/h'' else None)"

definition ex_rules :: "decision_kind \<Rightarrow> policy" where
  "ex_rules d = ex_policy\<lparr>pol_rules := [ex_rule ''r'' ''HttpRequest'' d None]\<rparr>"

definition ex_world :: "decision_kind \<Rightarrow> string \<Rightarrow> (bool, string) proxy_world" where
  "ex_world d secret =
     \<lparr>pw_env = ex_env_vars, pw_os = OS_Linux, pw_fs_io = ex_fs_io, pw_debug_str = str_quoted,
      pw_addr = Inr, pw_policy_toml = (\<lambda>_. Inr (ex_rules d)), pw_cel_compile = Inr,
      pw_secrets_toml = (\<lambda>_. Inl ''no file''), pw_caveats_toml = (\<lambda>_. Inl ''no file''),
      pw_keychain = ex_keychain secret, pw_open_audit = (\<lambda>_. Inr (open_log empty_db)),
      pw_generated_ca = Inr ex_ca, pw_security_ok = False\<rparr>"

definition ex_args :: proxy_args where
  "ex_args =
     \<lparr>pa_listen = ''127.0.0.1:8080'', pa_policy = None, pa_secrets = None,
      pa_keychain = [''bank.local'', ''typo.local''], pa_caveats = None, pa_audit = None,
      pa_ca_dir = None, pa_daemon = Some ''/s'', pa_print_ca_path = False, pa_install_ca = False\<rparr>"

lemma ex_compiled:
  "compiled_from_toml_str (\<lambda>_. Inr (ex_rules d)) Inr src =
     Inr \<lparr>cp_policy = ex_rules d, cp_programs = [''HttpRequest'']\<rparr>"
proof -
  have "policy_from_toml_str (\<lambda>_. Inr (ex_rules d)) src = Inr (ex_rules d)"
    by (cases d; code_simp)
  then show ?thesis
    by (simp add: compiled_from_toml_str_def compile_def ex_rules_def ex_policy_def ex_rule_def)
qed


definition ex_served :: "decision_kind \<Rightarrow> string \<Rightarrow> (bool, string) proxy_handler" where
  "ex_served d secret = with_approver (proxy_handler_new
     \<lparr>cp_policy = ex_rules d, cp_programs = [''HttpRequest'']\<rparr> (cli_eval_env (Some ''/h''))
     (broker_new [(''bank.local'', secret)]) (open_log empty_db))"

lemma ex_run_proxy:
  "\<exists>lines fs'. run_proxy (ex_world d secret) ex_args (\<lambda>_. None) =
     ((lines, PR_Serve ''127.0.0.1:8080'' ex_ca (ex_served d secret) (Some ''/s'')), fs')"
proof -
  have "fst (ca_load_or_generate ex_fs_io (Inr ex_ca) dir (\<lambda>_. None)) = Inr ex_ca" for dir
    by (simp add: ca_load_or_generate_def split_beta ca_persist_def ex_fs_io_def fs_write_def write_private_def Let_def)
  then obtain trace where "ca_load_or_generate ex_fs_io (Inr ex_ca) (proxy_ca_dir ex_env_vars None) (\<lambda>_. None)
      = (Inr ex_ca, trace)"
    by (metis prod.collapse)
  moreover have "add_keychain_targets (ex_keychain secret) [''bank.local'', ''typo.local''] (broker_new []) =
      (Inr (), broker_new [(''bank.local'', secret)])"
    by (simp add: keychain_load_def ex_keychain_def broker_new_def)
  moreover have "Option.bind p (fo_error ex_fs_io FO_Mkdir) = None" for p
    by (cases p) (simp_all add: ex_fs_io_def)
  ultimately show ?thesis
    by (simp add: run_proxy_def Let_def ex_world_def ex_args_def cli_load_policy_def ex_compiled
        proxy_broker_def load_broker_def load_caveats_def overlay_keychain_def ex_served_def)
      (simp add: ex_env_vars_def)
qed

theorem served_proxy_forwards_cleared_witness:
  "\<exists>rq' evs h'. handle_request ex_pd (\<lambda>_. []) (proxy_cockpit_io (\<lambda>socket _ _ _ _. Inr (socket = ''/s'')) (Some ''/s'') ex_pio)
       (ex_post ''Bank.local'' ''hello'') (ex_served DK_Ask ''s3cret-token'') = (RR_Request rq', evs, h')
     \<and> proxy_daemon_approver (\<lambda>_ _ _ _. Inr True)
         (proxied_action ex_pd 0 (ex_served DK_Ask ''s3cret-token'') (ex_post ''Bank.local'' ''hello''))"
proof -
  let ?approve = "\<lambda>socket _ _ _ _. Inr (socket = ''/s'') :: (string, bool) result"
  let ?h = "ex_served DK_Ask ''s3cret-token''" and ?rq = "ex_post ''Bank.local'' ''hello''"
  obtain l fs' where r: "run_proxy (ex_world DK_Ask ''s3cret-token'') ex_args (\<lambda>_. None) =
     ((l, PR_Serve ''127.0.0.1:8080'' ex_ca ?h (Some ''/s'')), fs')"
    using ex_run_proxy by blast
  have h: "?h\<lparr>ph_audit := open_log empty_db\<rparr> = ?h"
    by (simp add: ex_served_def with_approver_def proxy_handler_new_def)
  have "\<exists>rq' evs h'. handle_request ex_pd (\<lambda>_. []) (proxy_cockpit_io ?approve (Some ''/s'') ex_pio) ?rq ?h
      = (RR_Request rq', evs, h')"
    by (rule ex_handler_forwards [of _ DK_Ask])
      (simp_all add: ex_served_def ex_rules_def with_approver_def proxy_handler_new_def broker_new_def
        proxy_cockpit_io_def ex_pio_def proxy_daemon_approver_def)
  then obtain rq' evs h' where f:
    "handle_request ex_pd (\<lambda>_. []) (proxy_cockpit_io ?approve (Some ''/s'') ex_pio) ?rq ?h = (RR_Request rq', evs, h')"
    by blast
  have "out_decision (evaluate (pd_cel ex_pd) pol act env) \<noteq> Allow"
    if "pol = \<lparr>cp_policy = ex_rules DK_Ask, cp_programs = [''HttpRequest'']\<rparr>" "act_kind act = K_HttpRequest"
    for pol act env
    using that
    by (simp add: evaluate_def ex_pd_def rule_matches_ex critical_floor_decision rule_step_def
        rule_verdict_def apply_cap_def ex_rule_def ex_rules_def ex_policy_def decision_from_kind_def)
  moreover have "act_kind (proxied_action ex_pd now ?h ?rq) = K_HttpRequest" for now
    by (simp add: proxied_action_def prepare_def Let_def tag_exfiltration_def to_action_def)
  ultimately have "proxy_daemon_approver (?approve ''/s'') (proxied_action ex_pd 0 ?h ?rq)"
    using served_proxy_forwards_cleared [OF r, of ex_pd "\<lambda>_. []" ?approve ex_pio ?rq "open_log empty_db"] f
    by (auto simp: h Let_def ex_world_def ex_args_def cli_load_policy_def ex_compiled ex_pio_def)
  with f show ?thesis by (auto simp: proxy_daemon_approver_def)
qed

text \<open>A secrets file that holds the bank's token on its only line.\<close>

definition ex_secrets_world :: "(bool, string) proxy_world" where
  "ex_secrets_world = (ex_world DK_Ask ''kc-old'')\<lparr>pw_secrets_toml := (\<lambda>s. Inr [(''bank.local'', s)])\<rparr>"

definition ex_secrets_file :: "string \<Rightarrow> filesystem" where
  "ex_secrets_file token = [''/s.toml'' \<mapsto> \<lparr>fi_text = token, fi_mode = 0x1A4\<rparr>]"

lemma ex_secrets_utf8: "utf8_valid ''old''" "utf8_valid ''new''"
  by code_simp+

lemma ex_run_secrets:
  "\<exists>m lines r fs1. run_proxy ex_secrets_world (ex_args\<lparr>pa_secrets := Some ''/s.toml''\<rparr>) (ex_secrets_file ''old'')
     = ((m # lines, r), fs1)"
proof -
  let ?a = "ex_args\<lparr>pa_secrets := Some ''/s.toml''\<rparr>"
  have "\<not> owner_only 0x1A4" by (simp add: owner_only_def)
  moreover obtain l2 r2 where "overlay_keychain (ex_keychain ''kc-old'') [''bank.local'', ''typo.local'']
      (broker_new [(''bank.local'', ''old'')]) = (l2, r2)" by fastforce
  ultimately obtain m l r where b: "proxy_broker ex_secrets_world (ex_secrets_file ''old'') ?a = (m # l, r)"
    by (simp add: proxy_broker_def load_broker_def load_secrets_def secrets_warning_def ex_args_def
        ex_secrets_world_def ex_world_def ex_secrets_file_def fs_read_def ex_fs_io_def ex_secrets_utf8
        broker_from_toml_def load_caveats_def split: prod.split)
  have "\<exists>m' l'. fst (fst (run_proxy ex_secrets_world ?a (ex_secrets_file ''old''))) = m' # l'"
    using b by (auto simp: run_proxy_def Let_def ex_secrets_world_def ex_world_def ex_args_def
        cli_load_policy_def ex_compiled split: sum.split prod.split option.split)
  then show ?thesis by (metis prod.collapse)
qed

theorem proxy_prints_no_secret_witness:
  "\<exists>lines r r' fs1 fs1'. lines \<noteq> []
     \<and> run_proxy ex_secrets_world (ex_args\<lparr>pa_secrets := Some ''/s.toml''\<rparr>) (ex_secrets_file ''old'') = ((lines, r), fs1)
     \<and> run_proxy (ex_secrets_world\<lparr>pw_keychain := ex_keychain ''kc-new''\<rparr>)
         (ex_args\<lparr>pa_secrets := Some ''/s.toml''\<rparr>) (ex_secrets_file ''new'') = ((lines, r'), fs1')"
proof -
  let ?a = "ex_args\<lparr>pa_secrets := Some ''/s.toml''\<rparr>"
  have f: "case pa_secrets ?a of None \<Rightarrow> ex_secrets_file ''new'' = ex_secrets_file ''old''
     | Some p \<Rightarrow> p \<notin> other_proxy_files ex_secrets_world ?a
         \<and> secrets_exchanged (pw_secrets_toml ex_secrets_world) p (ex_secrets_file ''old'') (ex_secrets_file ''new'')"
    using ex_secrets_utf8
    by (auto simp: ex_args_def ex_secrets_world_def ex_world_def other_proxy_files_def ex_env_vars_def
        proxy_ca_dir_def guardian_dir_def ca_paths_def path_join_def is_absolute_def ex_secrets_file_def
        secrets_exchanged_def ex_secrets_utf8)
  have k: "keychains_alike (pw_keychain ex_secrets_world) (ex_keychain ''kc-new'')"
    by (auto simp: keychains_alike_def ex_secrets_world_def ex_world_def ex_keychain_def)
  obtain lines' r' fs1' where n: "run_proxy (ex_secrets_world\<lparr>pw_keychain := ex_keychain ''kc-new''\<rparr>) ?a
      (ex_secrets_file ''new'') = ((lines', r'), fs1')" by (metis surj_pair)
  from ex_run_secrets obtain m lines r fs1 where
    o: "run_proxy ex_secrets_world ?a (ex_secrets_file ''old'') = ((m # lines, r), fs1)" by blast
  from proxy_prints_no_secret [OF f k o n, THEN conjunct1] n o show ?thesis by blast
qed

definition ex_child :: stdio_upstream where
  "ex_child = \<lparr>su_stdout = [], su_writes = [], su_stdin = [], su_tools = [], su_counter = 1\<rparr>"

lemma ex_run_mcp:
  "\<exists>l u srv. run_mcp (\<lambda>_. Inr pol) (\<lambda>_ _. Inr ex_child) load_sec version env (Some ''/s'') [''u''] policy None
     = (l, Inr (MR_Gateway (gateway_new ''guardian-mcp-proxy'' pol (open_log empty_db) env)
         (MA_Daemon ''/s'') (MU_Multi u), srv))"
proof -
  have "add_upstreams (\<lambda>_ _. Inr ex_child) True [''u''] [] [] = Inr ([([], ex_child)], [[]])"
    by code_simp
  then show ?thesis by (simp add: run_mcp_def mcp_proxy_router_def Let_def)
qed

theorem mcp_server_forwards_cleared_witness:
  "\<exists>c evs. EV_Forward c \<in> set evs
     \<and> (\<exists>jl u out st. mcp_route ex_dp jl (\<lambda>socket _ _ _ _. Inr (socket = ''/s'')) (MA_Daemon ''/s'') ex_io
          (ex_call K_Exec ''/x'') (gateway_new ''guardian-mcp-proxy'' (gw_policy (ex_gateway K_Exec DK_Ask))
             (open_log empty_db) ex_env, MU_Multi u) = (out, evs, st))"
proof -
  let ?approve = "\<lambda>socket _ _ _ _. Inr (socket = ''/s'') :: (string, bool) result"
  let ?pol = "gw_policy (ex_gateway K_Exec DK_Ask)" and ?c = "ex_call K_Exec ''/x''"
  let ?g = "gateway_new ''guardian-mcp-proxy'' ?pol (open_log empty_db) ex_env :: (bool, string) gateway"
  obtain l u srv where r: "run_mcp (\<lambda>_. Inr ?pol) (\<lambda>_ _. Inr ex_child) (\<lambda>_. ([], Inl [])) ''0'' ex_env
      (Some ''/s'') [''u''] None None = (l, Inr (MR_Gateway ?g (MA_Daemon ''/s'') (MU_Multi u), srv))"
    using ex_run_mcp by blast
  obtain jl :: json_lib where "jl = jl" by blast
  let ?io = "mcp_io jl ?approve (MA_Daemon ''/s'') (MU_Multi u) ex_io"
  have d: "out_decision (call_verdict ex_dp ?io ?c ?g) = decision_from_kind DK_Ask None"
    by (rule ex_gateway_verdict) (simp add: gateway_new_def)
  have n: "call_override ?io ?c ?g = None"
    by (rule ex_gateway_no_override) (simp add: gateway_new_def)
  have "io_approve ?io a e = Approved" for a e
    by (simp add: mcp_io_def approver_answer_def daemon_approver_def)
  with d n have "call_cleared ex_dp ?io ?c ?g"
    by (simp only: call_cleared_def decision_from_kind_def decision_kind.case decision.case option.simps simp_thms)
  from ex_gateway_forwards [OF this]
  have f: "EV_Forward (restored_call ?io ?c ?g) \<in> set (fst (snd (handle ex_dp ?io ?c ?g)))"
    by (simp add: gateway_new_def mcp_io_def)
  obtain out evs st where m: "mcp_route ex_dp jl ?approve (MA_Daemon ''/s'') ex_io ?c (?g, MU_Multi u) = (out, evs, st)"
    by (metis prod_cases3)
  then have f': "EV_Forward (restored_call ?io ?c ?g) \<in> set evs"
    using f by (auto simp: mcp_route_def split: prod.splits)
  from mcp_server_forwards_cleared [OF r refl refl m f'] m f' show ?thesis by blast
qed

theorem init_idempotent_witness:
  "\<exists>lines fs'. run_init ex_fs_io (\<lambda>_. []) ''C'' ''P'' ''T'' str_quoted ex_env_vars ''/tmp'' ''coding-agent'' False
       [''/h/.guardian/policy.toml'' \<mapsto> \<lparr>fi_text = ''mine'', fi_mode = 0x1A4\<rparr>] = ((lines, XX_Exit 0), fs')
     \<and> map_option fi_text (fs' ''/h/.guardian/policy.toml'') = Some ''mine''
     \<and> private_file fs' ''/h/.guardian/policy.toml''"
proof -
  let ?fs = "[''/h/.guardian/policy.toml'' \<mapsto> \<lparr>fi_text = ''mine'', fi_mode = 0x1A4\<rparr>] :: filesystem"
  let ?r = "run_init ex_fs_io (\<lambda>_. []) ''C'' ''P'' ''T'' str_quoted ex_env_vars ''/tmp'' ''coding-agent'' False ?fs"
  have p: "guardian_dir ex_env_vars = ''/h/.guardian''"
    "path_join ''/h/.guardian'' ''policy.toml'' = ''/h/.guardian/policy.toml''" by code_simp+
  have "snd (fst ?r) = XX_Exit 0"
    by (auto simp: run_init_def init_files_def write_if_absent_def fs_write_def ex_fs_io_def Let_def
        split: prod.split)
  then obtain lines fs' where r: "?r = ((lines, XX_Exit 0), fs')" by (metis prod.collapse)
  from init_idempotent [OF this] have "private_file fs' ''/h/.guardian/policy.toml''" "keeps_texts ?fs fs'"
    by (simp_all add: ex_fs_io_def p)
  moreover from this(2) have "map_option fi_text (fs' ''/h/.guardian/policy.toml'') = Some ''mine''"
    unfolding keeps_texts_def
    by (drule_tac x = "''/h/.guardian/policy.toml''" in spec) auto
  ultimately show ?thesis using r by blast
qed

end
