(* ===== verification/Notify.thy ===== *)
theory Notify
  imports Approval_Queue Sandbox
begin

text \<open>
  The desktop notifications of \<open>guardian-daemon/src/notify.rs\<close>: the command each platform's
  notifier is started with (what is shown, and when, belongs to the approval queue). Two of the
  notifiers take a script, in which a text an agent wrote has to stay a string literal; the second
  half reads these scripts the way the two languages do.
\<close>

subsection \<open>The commands\<close>

definition applescript_char :: "string \<Rightarrow> string list" where
  "applescript_char ch =
     (if ch = [CHR 0x5C] then [[CHR 0x5C], [CHR 0x5C]]
      else if ch = [QUOTE] then [[CHR 0x5C], [QUOTE]]
      else if is_control ch then ['' ''] else [ch])"

definition applescript_escape :: "string \<Rightarrow> string" where
  "applescript_escape s = concat (concat (map applescript_char (utf8_chars s)))"

definition one_line :: "string \<Rightarrow> string list" where
  "one_line s = map (\<lambda>ch. if is_control ch then '' '' else ch) (utf8_chars s)"

definition powershell_char :: "string \<Rightarrow> string list" where
  "powershell_char ch = (if ch = [CHR 0x27] then [ch, ch] else [ch])"

definition powershell_escape :: "string \<Rightarrow> string" where
  "powershell_escape s = concat (concat (map powershell_char (one_line s)))"

definition applescript_notification :: "string \<Rightarrow> string \<Rightarrow> string" where
  "applescript_notification title body_text =
     ''display notification '' @ quoted (applescript_escape body_text)
     @ '' with title '' @ quoted (applescript_escape title)"

definition ps_quoted :: "string \<Rightarrow> string" where
  "ps_quoted s = [CHR 0x27] @ s @ [CHR 0x27]"

definition toast_code :: "nat \<Rightarrow> string" where
  "toast_code i =
     [''[Windows.UI.Notifications.ToastNotificationManager,Windows.UI.Notifications,ContentType=WindowsRuntime]|Out-Null;''
        @ ''$t=[Windows.UI.Notifications.ToastNotificationManager]::GetTemplateContent([Windows.UI.Notifications.ToastTemplateType]::ToastText02);''
        @ ''$n=$t.GetElementsByTagName('',
      '');$n.Item(0).AppendChild($t.CreateTextNode('',
      ''))|Out-Null;$n.Item(1).AppendChild($t.CreateTextNode('',
      ''))|Out-Null;[Windows.UI.Notifications.ToastNotificationManager]::CreateToastNotifier('',
      '').Show([Windows.UI.Notifications.ToastNotification]::new($t))''] ! i"

definition powershell_toast :: "string \<Rightarrow> string \<Rightarrow> string" where
  "powershell_toast title body_text =
     toast_code 0 @ ps_quoted ''text'' @ toast_code 1 @ ps_quoted (powershell_escape title)
     @ toast_code 2 @ ps_quoted (powershell_escape body_text)
     @ toast_code 3 @ ps_quoted ''Guardian'' @ toast_code 4"

text \<open>The process that is started, if any; whether that works is ignored.\<close>

definition notify_send :: "target_os \<Rightarrow> string \<Rightarrow> string \<Rightarrow> string list option" where
  "notify_send os title body_text =
     (case os of
        OS_Macos \<Rightarrow> Some [''osascript'', ''-e'', applescript_notification title body_text]
      | OS_Linux \<Rightarrow> Some [''notify-send'', ''--app-name=Guardian'', title, body_text]
      | OS_Windows \<Rightarrow>
          Some [''powershell'', ''-NoProfile'', ''-WindowStyle'', ''Hidden'', ''-Command'',
                powershell_toast title body_text]
      | OS_Other \<Rightarrow> None)"

definition notification_command :: "target_os \<Rightarrow> string \<Rightarrow> string \<Rightarrow> string list option" where
  "notification_command os tool summary =
     (case approval_needed tool summary of (title, body_text) \<Rightarrow> notify_send os title body_text)"

subsection \<open>Characters of a concatenation\<close>

text \<open>No \<open>str\<close> starts inside a character.\<close>

definition starts_char :: "string \<Rightarrow> bool" where
  "starts_char s \<longleftrightarrow> s = [] \<or> \<not> is_cont (hd s)"

definition is_char :: "string \<Rightarrow> bool" where
  "is_char ch \<longleftrightarrow> ch \<noteq> [] \<and> \<not> is_cont (hd ch) \<and> list_all is_cont (tl ch)"

lemma is_char_single [simp]: "is_char [c] \<longleftrightarrow> \<not> is_cont c"
  by (simp add: is_char_def)

lemma starts_char_dropWhile: "starts_char (dropWhile is_cont s)"
  by (induction s) (auto simp: starts_char_def)

lemma while_append:
  "list_all P t \<Longrightarrow> r = [] \<or> \<not> P (hd r) \<Longrightarrow> takeWhile P (t @ r) = t \<and> dropWhile P (t @ r) = r"
  by (induction t) (cases r; auto)+

lemma utf8_chars_are_chars: "starts_char s \<Longrightarrow> ch \<in> set (utf8_chars s) \<Longrightarrow> is_char ch"
proof (induction s rule: utf8_chars.induct)
  case (2 c s)
  have "is_char (c # takeWhile is_cont s)"
    using "2.prems"(1) by (simp add: is_char_def starts_char_def list_all_iff) (meson set_takeWhileD)
  moreover from "2.prems"(2) have "ch = c # takeWhile is_cont s \<or> ch \<in> set (utf8_chars (dropWhile is_cont s))"
    by simp
  ultimately show ?case using "2.IH" [OF starts_char_dropWhile] by blast
qed simp

lemma utf8_chars_concat: "list_all is_char chs \<Longrightarrow> utf8_chars (concat chs) = chs"
proof (induction chs)
  case (Cons ch chs)
  then obtain c t where ch: "ch = c # t" "\<not> is_cont c" "list_all is_cont t"
    by (cases ch) (auto simp: is_char_def)
  have "concat chs = [] \<or> \<not> is_cont (hd (concat chs))"
    using Cons.prems by (cases chs) (auto simp: is_char_def)
  from while_append [OF ch(3) this]
  have "takeWhile is_cont (t @ concat chs) = t" "dropWhile is_cont (t @ concat chs) = concat chs"
    by simp_all
  with Cons ch show ?case by simp
qed simp

subsection \<open>How the scripts are read\<close>

text \<open>
  A reader of one script: what it has seen of the code, the finished string literals, the literal it
  is in. \<open>LX_Mark\<close> is the state after a backslash (AppleScript) or after a quote that either closes
  the literal or, doubled, stands for itself (PowerShell).
\<close>

datatype lex_mode = LX_Code | LX_Text | LX_Mark

record lexer =
  lx_mode :: lex_mode
  lx_code :: string
  lx_done :: "string list"
  lx_text :: string

definition lex_start :: lexer where
  "lex_start = \<lparr>lx_mode = LX_Code, lx_code = [], lx_done = [], lx_text = []\<rparr>"

definition lex_code :: "string \<Rightarrow> bool \<Rightarrow> lexer \<Rightarrow> lexer" where
  "lex_code ch quote l =
     (if quote then l\<lparr>lx_mode := LX_Text, lx_text := []\<rparr> else l\<lparr>lx_mode := LX_Code, lx_code := lx_code l @ ch\<rparr>)"

definition lex_close :: "lexer \<Rightarrow> lexer" where
  "lex_close l = l\<lparr>lx_mode := LX_Code, lx_done := lx_done l @ [lx_text l], lx_text := []\<rparr>"

definition as_step :: "string \<Rightarrow> lexer \<Rightarrow> lexer" where
  "as_step ch l =
     (case lx_mode l of
        LX_Code \<Rightarrow> lex_code ch (ch = [QUOTE]) l
      | LX_Text \<Rightarrow>
          if ch = [QUOTE] then lex_close l
          else if ch = [CHR 0x5C] then l\<lparr>lx_mode := LX_Mark\<rparr>
          else l\<lparr>lx_text := lx_text l @ ch\<rparr>
      | LX_Mark \<Rightarrow> l\<lparr>lx_mode := LX_Text, lx_text := lx_text l @ ch\<rparr>)"

text \<open>PowerShell takes the four typographic single quotes for a quote as well.\<close>

definition ps_quote :: "string \<Rightarrow> bool" where
  "ps_quote ch \<longleftrightarrow> ch = [CHR 0x27] \<or> ch \<in> set (map (\<lambda>b. [CHR 0xE2, CHR 0x80, b])
     [CHR 0x98, CHR 0x99, CHR 0x9A, CHR 0x9B])"

definition ps_step :: "string \<Rightarrow> lexer \<Rightarrow> lexer" where
  "ps_step ch l =
     (case lx_mode l of
        LX_Code \<Rightarrow> lex_code ch (ps_quote ch) l
      | LX_Text \<Rightarrow> if ps_quote ch then l\<lparr>lx_mode := LX_Mark\<rparr> else l\<lparr>lx_text := lx_text l @ ch\<rparr>
      | LX_Mark \<Rightarrow>
          if ps_quote ch then l\<lparr>lx_mode := LX_Text, lx_text := lx_text l @ ch\<rparr>
          else lex_code ch False (lex_close l))"

definition read_applescript :: "string \<Rightarrow> lexer" where
  "read_applescript script = fold as_step (utf8_chars script) lex_start"

definition read_powershell :: "string \<Rightarrow> lexer" where
  "read_powershell script = fold ps_step (utf8_chars script) lex_start"

text \<open>Code without quotes is only code, whichever of the two reads it.\<close>

definition plain_code :: "string \<Rightarrow> bool" where
  "plain_code s \<longleftrightarrow> list_all (\<lambda>c. c \<noteq> QUOTE \<and> c \<noteq> CHR 0x27 \<and> \<not> is_cont c) s"

lemma as_read_code:
  "plain_code s \<Longrightarrow> lx_mode l = LX_Code \<Longrightarrow>
     fold as_step (map (\<lambda>c. [c]) s) l = l\<lparr>lx_code := lx_code l @ s\<rparr>"
  by (induction s arbitrary: l) (simp_all add: plain_code_def as_step_def lex_code_def)

lemma ps_quote_single: "ps_quote [c] \<longleftrightarrow> c = CHR 0x27"
  by (simp add: ps_quote_def)

lemma ps_read_code:
  "plain_code s \<Longrightarrow> lx_mode l = LX_Code \<Longrightarrow>
     fold ps_step (map (\<lambda>c. [c]) s) l = l\<lparr>lx_code := lx_code l @ s\<rparr>"
  by (induction s arbitrary: l) (simp_all add: plain_code_def ps_step_def lex_code_def ps_quote_single)

lemma as_read_escaped:
  "lx_mode l = LX_Text \<Longrightarrow> list_all is_char chs \<Longrightarrow>
     fold as_step (concat (map applescript_char chs)) l =
       l\<lparr>lx_text := lx_text l @ concat (map (\<lambda>ch. if is_control ch then '' '' else ch) chs)\<rparr>"
proof (induction chs arbitrary: l)
  case (Cons ch chs)
  have "fold as_step (applescript_char ch) l =
      l\<lparr>lx_text := lx_text l @ (if is_control ch then '' '' else ch)\<rparr>"
    using Cons.prems(1)
    by (auto simp: applescript_char_def as_step_def is_control_def QUOTE_def)
  with Cons show ?case by simp
qed simp

lemma as_read_literal:
  assumes "lx_mode l = LX_Code" and "list_all is_char chs"
  shows "fold as_step ([QUOTE] # concat (map applescript_char chs) @ [[QUOTE]]) l =
    l\<lparr>lx_done := lx_done l @ [concat (map (\<lambda>ch. if is_control ch then '' '' else ch) chs)], lx_text := []\<rparr>"
proof -
  let ?l = "l\<lparr>lx_mode := LX_Text, lx_text := []\<rparr>"
  have "as_step [QUOTE] l = ?l" using assms(1) by (simp add: as_step_def lex_code_def)
  moreover have "lx_mode ?l = LX_Text" by simp
  ultimately show ?thesis
    using assms by (cases l) (simp add: as_read_escaped as_step_def lex_close_def)
qed

lemma is_char_applescript: "is_char ch \<Longrightarrow> list_all is_char (applescript_char ch)"
  by (simp add: applescript_char_def QUOTE_def is_cont_def)

lemma is_char_code: "plain_code s \<Longrightarrow> list_all is_char (map (\<lambda>c. [c]) s)"
  by (induction s) (auto simp: plain_code_def)

lemma is_char_powershell: "is_char ch \<Longrightarrow> list_all is_char (powershell_char ch)"
  by (simp add: powershell_char_def is_cont_def)

lemma is_char_one_line: "starts_char s \<Longrightarrow> list_all is_char (one_line s)"
  using utf8_chars_are_chars [of s] by (auto simp: one_line_def list_all_iff is_cont_def)

lemma list_all_concat_map: "list_all P xs \<Longrightarrow> (\<And>x. P x \<Longrightarrow> list_all P (f x)) \<Longrightarrow> list_all P (concat (map f xs))"
  by (induction xs) auto

lemma ps_read_escaped:
  "lx_mode l = LX_Text \<Longrightarrow> list_all (\<lambda>ch. ps_quote ch \<longrightarrow> ch = [CHR 0x27]) chs \<Longrightarrow>
     fold ps_step (concat (map powershell_char chs)) l = l\<lparr>lx_text := lx_text l @ concat chs\<rparr>"
proof (induction chs arbitrary: l)
  case (Cons ch chs)
  have "fold ps_step (powershell_char ch) l = l\<lparr>lx_text := lx_text l @ ch\<rparr>"
  proof (cases "ch = [CHR 0x27]")
    case True
    with Cons.prems(1) show ?thesis
      by (cases l) (simp add: powershell_char_def ps_step_def ps_quote_single)
  next
    case False
    with Cons.prems have "\<not> ps_quote ch" by simp
    with False Cons.prems(1) show ?thesis by (simp add: powershell_char_def ps_step_def)
  qed
  with Cons show ?case by simp
qed simp

text \<open>A script as the list of its characters.\<close>

lemma concat_chars: "concat (map (\<lambda>c. [c]) s) = s"
  by (induction s) auto

lemma applescript_notification_chars:
  assumes "starts_char title" and "starts_char body_text"
  shows "utf8_chars (applescript_notification title body_text) =
     map (\<lambda>c. [c]) ''display notification ''
     @ ([QUOTE] # concat (map applescript_char (utf8_chars body_text)) @ [[QUOTE]])
     @ map (\<lambda>c. [c]) '' with title ''
     @ ([QUOTE] # concat (map applescript_char (utf8_chars title)) @ [[QUOTE]])"
    (is "_ = ?chs")
proof -
  have "list_all is_char (utf8_chars s)" if "starts_char s" for s
    using utf8_chars_are_chars [OF that] by (simp add: list_all_iff)
  then have "list_all is_char ?chs"
    using assms
    by (simp add: list_all_concat_map is_char_applescript) (simp add: QUOTE_def is_cont_def)
  from utf8_chars_concat [OF this] show ?thesis
    by (simp add: applescript_notification_def applescript_escape_def quoted_def)
qed

definition ps_literal :: "string list \<Rightarrow> string list" where
  "ps_literal chs = [[CHR 0x27]] @ concat (map powershell_char chs) @ [[CHR 0x27]]"

definition harmless :: "string list \<Rightarrow> bool" where
  "harmless chs \<longleftrightarrow> list_all (\<lambda>ch. ps_quote ch \<longrightarrow> ch = [CHR 0x27]) chs"

lemma ps_read_marked:
  assumes "lx_mode l = LX_Code" and "harmless chs"
  shows "fold ps_step ([[CHR 0x27]] @ concat (map powershell_char chs)) l = l\<lparr>lx_mode := LX_Text, lx_text := concat chs\<rparr>"
    and "fold ps_step (ps_literal chs) l = l\<lparr>lx_mode := LX_Mark, lx_text := concat chs\<rparr>"
proof -
  have "ps_step [CHR 0x27] l = l\<lparr>lx_mode := LX_Text, lx_text := []\<rparr>"
    using assms(1) by (simp add: ps_step_def lex_code_def ps_quote_single)
  with ps_read_escaped [of "l\<lparr>lx_mode := LX_Text, lx_text := []\<rparr>" chs] assms(2)
  show *: "fold ps_step ([[CHR 0x27]] @ concat (map powershell_char chs)) l = l\<lparr>lx_mode := LX_Text, lx_text := concat chs\<rparr>"
    by (simp add: harmless_def)
  show "fold ps_step (ps_literal chs) l = l\<lparr>lx_mode := LX_Mark, lx_text := concat chs\<rparr>"
    using * unfolding ps_literal_def append_assoc [symmetric] fold_append
    by (cases l) (simp add: ps_step_def ps_quote_single)
qed

lemma ps_read_after_mark:
  assumes "lx_mode l = LX_Mark" and "plain_code s" and "s \<noteq> []"
  shows "fold ps_step (map (\<lambda>c. [c]) s) l =
    l\<lparr>lx_mode := LX_Code, lx_code := lx_code l @ s, lx_done := lx_done l @ [lx_text l], lx_text := []\<rparr>"
proof -
  obtain c t where s: "s = c # t" "c \<noteq> CHR 0x27" "plain_code t"
    using assms(2,3) by (cases s) (auto simp: plain_code_def)
  let ?l = "l\<lparr>lx_mode := LX_Code, lx_code := lx_code l @ [c], lx_done := lx_done l @ [lx_text l], lx_text := []\<rparr>"
  have "ps_step [c] l = ?l"
    using assms(1) s(2) by (cases l) (simp add: ps_step_def ps_quote_single lex_code_def lex_close_def)
  with ps_read_code [OF s(3), of ?l] show ?thesis by (cases l) (simp add: s(1))
qed

lemma ps_read_literal:
  assumes "lx_mode l = LX_Code" and "harmless chs" and "plain_code s" and "s \<noteq> []"
  shows "fold ps_step (ps_literal chs @ map (\<lambda>c. [c]) s) l =
    l\<lparr>lx_code := lx_code l @ s, lx_done := lx_done l @ [concat chs], lx_text := []\<rparr>"
  using assms by (cases l) (simp add: ps_read_marked ps_read_after_mark)

text \<open>After a typographic quote in a text, what follows it is code.\<close>

lemma ps_read_breakout:
  assumes "lx_mode l = LX_Code" and "ps_quote q" and "plain_code s" and "s \<noteq> []"
  shows "fold ps_step ([[CHR 0x27]] @ [q] @ map (\<lambda>c. [c]) s) l =
    l\<lparr>lx_code := lx_code l @ s, lx_done := lx_done l @ [[]], lx_text := []\<rparr>"
proof -
  have "fold ps_step ([[CHR 0x27]] @ [q]) l = l\<lparr>lx_mode := LX_Mark, lx_text := []\<rparr>"
    using assms(1,2) by (cases l) (simp add: ps_step_def lex_code_def ps_quote_single)
  with ps_read_after_mark [OF _ assms(3,4), of "l\<lparr>lx_mode := LX_Mark, lx_text := []\<rparr>"] assms(1)
  show ?thesis by (cases l) simp
qed

lemma ps_code_grows: "prefix (lx_code l) (lx_code (fold ps_step chs l))"
proof (induction chs arbitrary: l)
  case (Cons ch chs)
  have "prefix (lx_code l) (lx_code (ps_step ch l))"
    by (simp add: ps_step_def lex_code_def lex_close_def split: lex_mode.split)
  with Cons [of "ps_step ch l"] show ?case by (simp add: prefix_order.trans)
qed simp

lemma toast_code_plain:
  "plain_code (toast_code 0)" "plain_code (toast_code (Suc 0))" "plain_code (toast_code 2)"
  "plain_code (toast_code 3)" "plain_code (toast_code 4)"
  "toast_code 0 \<noteq> []" "toast_code (Suc 0) \<noteq> []" "toast_code 2 \<noteq> []" "toast_code 3 \<noteq> []" "toast_code 4 \<noteq> []"
  by code_simp+

lemma powershell_char_plain: "plain_code s \<Longrightarrow> concat (map powershell_char (map (\<lambda>c. [c]) s)) = map (\<lambda>c. [c]) s"
  by (induction s) (simp_all add: plain_code_def powershell_char_def)

lemma powershell_toast_chars:
  assumes "starts_char title" and "starts_char body_text"
  shows "utf8_chars (powershell_toast title body_text) =
     map (\<lambda>c. [c]) (toast_code 0) @ ps_literal (map (\<lambda>c. [c]) ''text'') @ map (\<lambda>c. [c]) (toast_code (Suc 0))
     @ ps_literal (one_line title) @ map (\<lambda>c. [c]) (toast_code 2)
     @ ps_literal (one_line body_text) @ map (\<lambda>c. [c]) (toast_code 3)
     @ ps_literal (map (\<lambda>c. [c]) ''Guardian'') @ map (\<lambda>c. [c]) (toast_code 4)"
    (is "_ = ?chs")
proof -
  have g: "plain_code ''text''" "plain_code ''Guardian''" by code_simp+
  have l: "list_all is_char (ps_literal chs)" if "list_all is_char chs" for chs
    using that by (simp add: ps_literal_def list_all_concat_map is_char_powershell is_cont_def)
  have "list_all is_char ?chs"
    using is_char_one_line assms toast_code_plain g by (simp add: is_char_code l del: list.map)
  from utf8_chars_concat [OF this]
  show ?thesis
    by (simp only: concat_append concat_chars ps_literal_def powershell_char_plain [OF g(1)]
        powershell_char_plain [OF g(2)])
      (simp add: powershell_toast_def powershell_escape_def ps_quoted_def)
qed

text \<open>Texts without a typographic quote stay literals.\<close>

lemma powershell_stays_text:
  assumes "starts_char title" "starts_char body_text" "harmless (one_line title)" "harmless (one_line body_text)"
  shows "lx_done (read_powershell (powershell_toast title body_text)) =
      [''text'', concat (one_line title), concat (one_line body_text), ''Guardian'']
    \<and> lx_code (read_powershell (powershell_toast title body_text)) =
      toast_code 0 @ toast_code (Suc 0) @ toast_code 2 @ toast_code 3 @ toast_code 4"
proof -
  have g: "harmless (map (\<lambda>c. [c]) ''text'')" "harmless (map (\<lambda>c. [c]) ''Guardian'')" by code_simp+
  have "fold ps_step (utf8_chars (powershell_toast title body_text)) lex_start =
      \<lparr>lx_mode = LX_Code, lx_code = toast_code 0 @ toast_code (Suc 0) @ toast_code 2 @ toast_code 3 @ toast_code 4,
       lx_done = [''text'', concat (one_line title), concat (one_line body_text), ''Guardian''], lx_text = []\<rparr>"
    using ps_read_literal [OF _ g(1) toast_code_plain(2,7)] ps_read_literal [OF _ assms(3) toast_code_plain(3,8)]
      ps_read_literal [OF _ assms(4) toast_code_plain(4,9)] ps_read_literal [OF _ g(2) toast_code_plain(5,10)]
    by (simp add: powershell_toast_chars assms fold_append ps_read_code toast_code_plain(1) lex_start_def
        concat_chars del: list.map)
  then show ?thesis by (simp add: read_powershell_def)
qed

text \<open>With a typographic quote in front, a summary is run.\<close>

lemma typographic_quote_runs:
  assumes "starts_char title" "harmless (one_line title)" "ps_quote q" "q \<noteq> [CHR 0x27]"
    and "plain_code s" "s \<noteq> []" "list_all (\<lambda>c. \<not> is_control [c]) s"
  shows "\<exists>pre post. lx_code (read_powershell (powershell_toast title (q @ s))) = pre @ s @ post"
proof -
  have g: "harmless (map (\<lambda>c. [c]) ''text'')" by code_simp
  have q: "is_char q" "\<not> is_control q"
    using assms(3,4) by (auto simp: ps_quote_def is_char_def is_cont_def is_control_def)
  then have "list_all is_char (q # map (\<lambda>c. [c]) s)" using assms(5) by (simp add: is_char_code)
  from utf8_chars_concat [OF this] have "utf8_chars (q @ s) = q # map (\<lambda>c. [c]) s" by (simp add: concat_chars)
  then have o: "one_line (q @ s) = q # map (\<lambda>c. [c]) s"
    using q(2) assms(7) by (induction s) (auto simp: one_line_def list_all_iff)
  have pl: "ps_literal (q # map (\<lambda>c. [c]) s) = [[CHR 0x27]] @ [q] @ map (\<lambda>c. [c]) s @ [[CHR 0x27]]"
    using assms(4) powershell_char_plain [OF assms(5)]
    by (simp add: ps_literal_def powershell_char_def [of q] del: map_map)
  have b: "starts_char (q @ s)" using q(1) by (auto simp: starts_char_def is_char_def)
  let ?l = "\<lparr>lx_mode = LX_Code, lx_code = toast_code 0 @ toast_code (Suc 0) @ toast_code 2,
       lx_done = [''text'', concat (one_line title)], lx_text = []\<rparr>"
  obtain rest where "fold ps_step (utf8_chars (powershell_toast title (q @ s))) lex_start =
      fold ps_step rest (fold ps_step ([[CHR 0x27]] @ [q] @ map (\<lambda>c. [c]) s) ?l)"
  proof
    show "fold ps_step (utf8_chars (powershell_toast title (q @ s))) lex_start =
      fold ps_step ([[CHR 0x27]] @ map (\<lambda>c. [c]) (toast_code 3) @ ps_literal (map (\<lambda>c. [c]) ''Guardian'')
          @ map (\<lambda>c. [c]) (toast_code 4))
        (fold ps_step ([[CHR 0x27]] @ [q] @ map (\<lambda>c. [c]) s) ?l)"
      using ps_read_literal [OF _ g toast_code_plain(2,7)] ps_read_literal [OF _ assms(2) toast_code_plain(3,8)]
      by (simp add: powershell_toast_chars assms b o pl fold_append ps_read_code toast_code_plain(1) lex_start_def
          concat_chars del: list.map)
  qed
  then have "prefix (lx_code (fold ps_step ([[CHR 0x27]] @ [q] @ map (\<lambda>c. [c]) s) ?l))
      (lx_code (read_powershell (powershell_toast title (q @ s))))"
    by (simp only: read_powershell_def ps_code_grows)
  then show ?thesis
    using ps_read_breakout [OF _ assms(3,5,6), of ?l] by (auto simp: prefix_def) (metis append_assoc)
qed

subsection \<open>Properties\<close>

text \<open>
  on macOS a notification stays text. Whatever the tool and the summary an agent caused, the
  script that is run has exactly two string literals, the texts with their control characters
  blanked, and nothing of them is code.
\<close>

theorem notification_stays_text:
  assumes "starts_char title" and "starts_char body_text"
  shows "notify_send OS_Macos title body_text = Some [''osascript'', ''-e'', script] \<Longrightarrow>
     read_applescript script =
       \<lparr>lx_mode = LX_Code, lx_code = ''display notification  with title '',
        lx_done = [concat (one_line body_text), concat (one_line title)], lx_text = []\<rparr>"
proof -
  assume "notify_send OS_Macos title body_text = Some [''osascript'', ''-e'', script]"
  then have s: "script = applescript_notification title body_text" by (simp add: notify_send_def)
  have c: "list_all is_char (utf8_chars title)" "list_all is_char (utf8_chars body_text)"
    using assms utf8_chars_are_chars by (auto simp: list_all_iff)
  have p: "plain_code ''display notification ''" "plain_code '' with title ''" by code_simp+
  show ?thesis
    unfolding s read_applescript_def applescript_notification_chars [OF assms] fold_append o_apply
    by (simp only: as_read_code [OF p(1)] as_read_code [OF p(2)] as_read_literal [OF _ c(1)]
        as_read_literal [OF _ c(2)] lex_start_def lexer.simps one_line_def append_Nil append_Cons)
qed


theorem notification_stays_text_witness:
  "lx_done (read_applescript (applescript_notification ''Guardian'' (''a'' @ [QUOTE] @ '' & do evil & '' @ [QUOTE])))
     = [''a'' @ [QUOTE] @ '' & do evil & '' @ [QUOTE], ''Guardian'']"
proof -
  let ?body = "''a'' @ [QUOTE] @ '' & do evil & '' @ [QUOTE]"
  have o: "concat (one_line ?body) = ?body" "concat (one_line ''Guardian'') = ''Guardian''" by code_simp+
  have "starts_char ''Guardian''" "starts_char ?body" by code_simp+
  from notification_stays_text [OF this] show ?thesis
    unfolding o by (simp add: notify_send_def)
qed

end
