(* ===== verification/Desktop.thy ===== *)
theory Desktop
  imports Cockpit Cli_Run
begin

text \<open>
  The desktop application's backend, \<open>ui/src-tauri/src/lib.rs\<close>: its two commands over the daemon's
  client. \<open>connect\<close> gives the stream of a socket path.
\<close>

definition desktop_client :: "(string \<Rightarrow> 's socket) \<Rightarrow> environment \<Rightarrow> string \<Rightarrow> 's socket" where
  "desktop_client connect env temp_dir = connect (ui_socket env temp_dir None)"

definition desktop_pending ::
    "json_lib \<Rightarrow> (string \<Rightarrow> string) \<Rightarrow> (json \<Rightarrow> string) \<Rightarrow> (string \<Rightarrow> 's socket) \<Rightarrow> environment \<Rightarrow> string
       \<Rightarrow> 's \<Rightarrow> (string, pending_view list) result \<times> 's" where
  "desktop_pending jl err derr connect env temp_dir st =
     client_pending jl err derr (desktop_client connect env temp_dir) st"

definition desktop_respond ::
    "json_lib \<Rightarrow> (string \<Rightarrow> string) \<Rightarrow> (string \<Rightarrow> 's socket) \<Rightarrow> environment \<Rightarrow> string
       \<Rightarrow> nat \<Rightarrow> bool \<Rightarrow> 's \<Rightarrow> (string, bool) result \<times> 's" where
  "desktop_respond jl err connect env temp_dir i approve st =
     client_respond jl err (desktop_client connect env temp_dir) i approve st"

text \<open>A decision in the window is the same one answer to the queue as in the cockpit.\<close>

lemma desktop_respond_reaches_queue:
  assumes "connect (ui_socket env temp_dir None) = connected jl err dispatch"
    and "answers_now dp de works dispatch"
    and "reads_commands jl i allow" and "i < 2 ^ 64"
    and "queue_respond i (if allow then Approved else Denied) (dm_queue d) = (ok, q')"
    and "carries jl (response_json (RS_Responded ok))"
  shows "desktop_respond jl cerr connect env temp_dir i allow d = (Inr ok, d\<lparr>dm_queue := q'\<rparr>)"
  using respond_reaches_queue [OF assms(2-6), of cerr err]
  by (simp add: desktop_respond_def desktop_client_def assms(1))

end
