(* ===== verification/Policy_Toml.thy ===== *)
theory Policy_Toml
  imports Schema "HOL-Library.Monad_Syntax"
begin

text \<open>
  How a policy file becomes a policy: the \<open>Deserialize\<close> implementations that the attributes of
  \<open>guardian-policy/src/schema.rs\<close> ask for, on the tree of values that the TOML parser gives. A struct
  is read from a table; every key must be one of its fields (\<open>deny_unknown_fields\<close>), a field with
  \<open>default\<close> may be missing, any other may not. What the theorems show: a policy file that loads has
  no key anywhere that the schema does not know, and everything a file can say about a policy is read
  back as it was written.

  The \<open>toml\<close> crate is a parameter: its parser, its messages, and which values it reads as the name of
  a variant (a string names itself).
\<close>

subsection \<open>TOML values\<close>

datatype toml_value =
    TV_Str string | TV_Int int | TV_Float f64 | TV_Bool bool | TV_Datetime string
  | TV_Array "toml_value list" | TV_Table "(string \<times> toml_value) list"

type_synonym toml_entries = "(string \<times> toml_value) list"

record toml_lib =
  tl_parse :: "string \<Rightarrow> (string, toml_entries) result"
  tl_variant :: "toml_value \<Rightarrow> string option"
  tl_text :: "toml_value \<Rightarrow> string"
  tl_mismatch :: "toml_entries \<Rightarrow> string"

text \<open>
  The fields of a struct: by name from a table without other keys, by position from an array (serde
  derives both; a sequence that is longer than the struct is cut).
\<close>

definition struct_entries :: "string list \<Rightarrow> toml_value \<Rightarrow> toml_entries option" where
  "struct_entries names v =
     (case v of
        TV_Table es \<Rightarrow> (if set (map fst es) \<subseteq> set names then Some es else None)
      | TV_Array vs \<Rightarrow> Some (zip names vs)
      | _ \<Rightarrow> None)"

definition required :: "(toml_value \<Rightarrow> 'a option) \<Rightarrow> string \<Rightarrow> toml_entries \<Rightarrow> 'a option" where
  "required read key es = map_of es key \<bind> read"

definition defaulted :: "(toml_value \<Rightarrow> 'a option) \<Rightarrow> 'a \<Rightarrow> string \<Rightarrow> toml_entries \<Rightarrow> 'a option" where
  "defaulted read d key es = (case map_of es key of None \<Rightarrow> Some d | Some v \<Rightarrow> read v)"

definition optional :: "(toml_value \<Rightarrow> 'a option) \<Rightarrow> string \<Rightarrow> toml_entries \<Rightarrow> 'a option option" where
  "optional read = defaulted (\<lambda>v. map_option Some (read v)) None"

subsection \<open>The types of the fields\<close>

fun string_from_toml :: "toml_value \<Rightarrow> string option" where
  "string_from_toml (TV_Str s) = Some s"
| "string_from_toml _ = None"

fun bool_from_toml :: "toml_value \<Rightarrow> bool option" where
  "bool_from_toml (TV_Bool b) = Some b"
| "bool_from_toml _ = None"

fun i64_from_toml :: "toml_value \<Rightarrow> int option" where
  "i64_from_toml (TV_Int i) = Some i"
| "i64_from_toml _ = None"

fun u32_from_toml :: "toml_value \<Rightarrow> nat option" where
  "u32_from_toml (TV_Int i) = (if 0 \<le> i \<and> i < 2 ^ 32 then Some (nat i) else None)"
| "u32_from_toml _ = None"

fun f64_from_toml :: "toml_value \<Rightarrow> f64 option" where
  "f64_from_toml (TV_Float x) = Some x"
| "f64_from_toml (TV_Int i) = Some (f64_of_int i)"
| "f64_from_toml _ = None"

fun vec_from_toml :: "(toml_value \<Rightarrow> 'a option) \<Rightarrow> toml_value \<Rightarrow> 'a list option" where
  "vec_from_toml read (TV_Array vs) = those (map read vs)"
| "vec_from_toml _ _ = None"

fun map_from_toml :: "(toml_value \<Rightarrow> 'a option) \<Rightarrow> toml_value \<Rightarrow> (string, 'a) hashmap option" where
  "map_from_toml read (TV_Table es) = those (map (\<lambda>(k, v). map_option (Pair k) (read v)) es)"
| "map_from_toml _ _ = None"

definition decision_kind_from_toml :: "toml_lib \<Rightarrow> toml_value \<Rightarrow> decision_kind option" where
  "decision_kind_from_toml L v =
     do { name \<leftarrow> tl_variant L v;
          map_of [(''allow'', DK_Allow), (''ask'', DK_Ask), (''deny'', DK_Deny)] name }"

definition all_kinds :: "action_kind list" where
  "all_kinds = [K_FileRead, K_FileWrite, K_Exec, K_HttpRequest, K_Email, K_Payment, K_Delete, K_Other]"

definition action_kind_from_toml :: "toml_lib \<Rightarrow> toml_value \<Rightarrow> action_kind option" where
  "action_kind_from_toml L v =
     do { name \<leftarrow> tl_variant L v; map_of (map (\<lambda>k. (kind_name k, k)) all_kinds) name }"

subsection \<open>The structs of the schema\<close>

definition cap_fields :: "string list" where
  "cap_fields = [''amount_max'', ''currency'', ''count_max'']"

definition cap_from_toml :: "toml_value \<Rightarrow> cap option" where
  "cap_from_toml v =
     do { es \<leftarrow> struct_entries cap_fields v;
          amount_max \<leftarrow> optional f64_from_toml ''amount_max'' es;
          currency \<leftarrow> optional string_from_toml ''currency'' es;
          count_max \<leftarrow> optional i64_from_toml ''count_max'' es;
          Some \<lparr>cap_amount_max = amount_max, cap_currency = currency, cap_count_max = count_max\<rparr> }"

definition rule_fields :: "string list" where
  "rule_fields = [''id'', ''when'', ''decision'', ''explain'', ''critical'', ''sandbox'', ''cap'', ''tags'']"

definition rule_from_toml :: "toml_lib \<Rightarrow> toml_value \<Rightarrow> rule option" where
  "rule_from_toml L v =
     do { es \<leftarrow> struct_entries rule_fields v;
          id \<leftarrow> required string_from_toml ''id'' es;
          when \<leftarrow> required string_from_toml ''when'' es;
          decision \<leftarrow> required (decision_kind_from_toml L) ''decision'' es;
          explain \<leftarrow> optional string_from_toml ''explain'' es;
          critical \<leftarrow> defaulted bool_from_toml False ''critical'' es;
          sandbox \<leftarrow> defaulted bool_from_toml False ''sandbox'' es;
          cap \<leftarrow> optional cap_from_toml ''cap'' es;
          tags \<leftarrow> defaulted (vec_from_toml string_from_toml) [] ''tags'' es;
          Some \<lparr>rule_id = id, rule_when = when, rule_decision = decision, rule_explain = explain,
                rule_critical = critical, rule_sandbox = sandbox, rule_cap = cap, rule_tags = tags\<rparr> }"

definition defaults_fields :: "string list" where
  "defaults_fields = [''decision'']"

definition defaults_from_toml :: "toml_lib \<Rightarrow> toml_value \<Rightarrow> decision_kind option" where
  "defaults_from_toml L v =
     do { es \<leftarrow> struct_entries defaults_fields v; required (decision_kind_from_toml L) ''decision'' es }"

definition policy_fields :: "string list" where
  "policy_fields = [''version'', ''role'', ''defaults'', ''meta'', ''tools'', ''rules'']"

definition policy_from_toml :: "toml_lib \<Rightarrow> toml_value \<Rightarrow> policy option" where
  "policy_from_toml L v =
     do { es \<leftarrow> struct_entries policy_fields v;
          version \<leftarrow> required u32_from_toml ''version'' es;
          role \<leftarrow> required string_from_toml ''role'' es;
          default \<leftarrow> required (defaults_from_toml L) ''defaults'' es;
          meta \<leftarrow> optional (\<lambda>m. Some (tl_text L m)) ''meta'' es;
          tools \<leftarrow> defaulted (map_from_toml (action_kind_from_toml L)) [] ''tools'' es;
          rules \<leftarrow> defaulted (vec_from_toml (rule_from_toml L)) [] ''rules'' es;
          Some \<lparr>pol_version = version, pol_role = role, pol_default = default, pol_meta = meta,
                pol_tools = tools, pol_rules = rules\<rparr> }"

text \<open>\<open>toml::from_str\<close> at \<open>Policy\<close>: what \<open>policy_from_toml_str\<close> and everything above it is given.\<close>

definition read_policy :: "toml_lib \<Rightarrow> string \<Rightarrow> (string, policy) result" where
  "read_policy L s =
     (case tl_parse L s of
        Inl e \<Rightarrow> Inl e
      | Inr es \<Rightarrow>
          (case policy_from_toml L (TV_Table es) of None \<Rightarrow> Inl (tl_mismatch L es) | Some p \<Rightarrow> Inr p))"

subsection \<open>Writing a policy down\<close>

text \<open>
  A policy as a file would say it, what is at its default left out; \<open>version\<close>, \<open>role\<close>, \<open>[defaults]\<close>,
  \<open>[meta]\<close>, \<open>[tools]\<close> and one \<open>[[rules]]\<close> for each rule.
\<close>

definition entry_if :: "bool \<Rightarrow> string \<Rightarrow> toml_value \<Rightarrow> toml_entries" where
  "entry_if c key v = (if c then [(key, v)] else [])"

definition entry_of :: "('a \<Rightarrow> toml_value) \<Rightarrow> string \<Rightarrow> 'a option \<Rightarrow> toml_entries" where
  "entry_of show key x = (case x of None \<Rightarrow> [] | Some y \<Rightarrow> [(key, show y)])"

definition decision_toml :: "decision_kind \<Rightarrow> toml_value" where
  "decision_toml d = TV_Str (case d of DK_Allow \<Rightarrow> ''allow'' | DK_Ask \<Rightarrow> ''ask'' | DK_Deny \<Rightarrow> ''deny'')"

definition cap_toml :: "cap \<Rightarrow> toml_value" where
  "cap_toml c = TV_Table
     (entry_of TV_Float ''amount_max'' (cap_amount_max c) @ entry_of TV_Str ''currency'' (cap_currency c)
      @ entry_of TV_Int ''count_max'' (cap_count_max c))"

definition rule_toml :: "rule \<Rightarrow> toml_value" where
  "rule_toml r = TV_Table
     ([(''id'', TV_Str (rule_id r)), (''when'', TV_Str (rule_when r)), (''decision'', decision_toml (rule_decision r))]
      @ entry_of TV_Str ''explain'' (rule_explain r) @ entry_if (rule_critical r) ''critical'' (TV_Bool True)
      @ entry_if (rule_sandbox r) ''sandbox'' (TV_Bool True) @ entry_of cap_toml ''cap'' (rule_cap r)
      @ entry_if (rule_tags r \<noteq> []) ''tags'' (TV_Array (map TV_Str (rule_tags r))))"

definition policy_toml :: "toml_value option \<Rightarrow> policy \<Rightarrow> toml_entries" where
  "policy_toml meta p =
     [(''version'', TV_Int (int (pol_version p))), (''role'', TV_Str (pol_role p)),
      (''defaults'', TV_Table [(''decision'', decision_toml (pol_default p))])]
     @ entry_of id ''meta'' meta
     @ entry_if (pol_tools p \<noteq> []) ''tools'' (TV_Table (map (\<lambda>(t, k). (t, TV_Str (kind_name k))) (pol_tools p)))
     @ entry_if (pol_rules p \<noteq> []) ''rules'' (TV_Array (map rule_toml (pol_rules p)))"

subsection \<open>Reading back\<close>

lemma those_map_inverse: "(\<And>x. x \<in> set xs \<Longrightarrow> f (g x) = Some x) \<Longrightarrow> those (map (f \<circ> g) xs) = Some xs"
  by (induction xs) auto

lemma variant_readers [simp]:
  assumes "\<And>s. tl_variant L (TV_Str s) = Some s"
  shows "decision_kind_from_toml L (decision_toml d) = Some d"
    and "action_kind_from_toml L (TV_Str (kind_name k)) = Some k"
  by (cases d; simp add: decision_kind_from_toml_def decision_toml_def assms)
    (cases k; simp add: action_kind_from_toml_def all_kinds_def assms)

lemma cap_roundtrip [simp]: "cap_from_toml (cap_toml c) = Some c"
  by (cases c; rename_tac a u n; case_tac a; case_tac u; case_tac n)
    (simp_all add: cap_from_toml_def cap_toml_def struct_entries_def cap_fields_def optional_def
      defaulted_def entry_of_def)

lemma map_of_entries [simp]:
  "map_of (entry_of show k x @ es) key = (if key = k \<and> x \<noteq> None then map_option show x else map_of es key)"
  "map_of (entry_if c k v @ es) key = (if key = k \<and> c then Some v else map_of es key)"
  "map_of (entry_of show k x) key = (if key = k then map_option show x else None)"
  "map_of (entry_if c k v) key = (if key = k \<and> c then Some v else None)"
  by (auto simp: entry_of_def entry_if_def split: option.split)

lemma in_entries [simp]:
  "(a, b) \<in> set (entry_of show k x) \<longleftrightarrow> a = k \<and> (\<exists>y. x = Some y \<and> b = show y)"
  "(a, b) \<in> set (entry_if c k v) \<longleftrightarrow> a = k \<and> b = v \<and> c"
  by (auto simp: entry_of_def entry_if_def split: option.split)

lemma read_optional [simp]:
  assumes "\<And>y. x = Some y \<Longrightarrow> read (show y) = Some y"
  shows "(case map_option show x of None \<Rightarrow> Some None | Some v \<Rightarrow> map_option Some (read v)) = Some x"
  using assms by (cases x) auto

lemma rule_roundtrip [simp]:
  assumes "\<And>s. tl_variant L (TV_Str s) = Some s"
  shows "rule_from_toml L (rule_toml r) = Some r"
proof -
  have tags: "vec_from_toml string_from_toml (TV_Array (map TV_Str ts)) = Some ts" for ts
    using those_map_inverse [of ts string_from_toml TV_Str] by simp
  obtain es where es: "rule_toml r = TV_Table es" by (simp add: rule_toml_def)
  have k: "set (map fst es) \<subseteq> set rule_fields"
    using es by (auto simp: rule_toml_def rule_fields_def)
  have "required string_from_toml ''id'' es = Some (rule_id r)"
    "required string_from_toml ''when'' es = Some (rule_when r)"
    "required (decision_kind_from_toml L) ''decision'' es = Some (rule_decision r)"
    "optional string_from_toml ''explain'' es = Some (rule_explain r)"
    "defaulted bool_from_toml False ''critical'' es = Some (rule_critical r)"
    "defaulted bool_from_toml False ''sandbox'' es = Some (rule_sandbox r)"
    "optional cap_from_toml ''cap'' es = Some (rule_cap r)"
    "defaulted (vec_from_toml string_from_toml) [] ''tags'' es = Some (rule_tags r)"
    using es assms tags
    by (auto simp: rule_toml_def required_def optional_def defaulted_def
        simp del: vec_from_toml.simps split: option.split if_splits)
  with k es show ?thesis by (simp add: rule_from_toml_def struct_entries_def)
qed

lemma policy_from_toml_written:
  assumes "\<And>s. tl_variant L (TV_Str s) = Some s" and "pol_version p < 2 ^ 32"
    and "pol_meta p = map_option (tl_text L) meta"
  shows "policy_from_toml L (TV_Table (policy_toml meta p)) = Some p"
proof -
  have rls: "vec_from_toml (rule_from_toml L) (TV_Array (map rule_toml rs)) = Some rs" for rs
    using those_map_inverse [of rs "rule_from_toml L" rule_toml] rule_roundtrip [of L, OF assms(1)] by simp
  have tls: "map_from_toml (action_kind_from_toml L) (TV_Table (map (\<lambda>(t, k). (t, TV_Str (kind_name k))) ts)) = Some ts"
    for ts
    using those_map_inverse [of ts "\<lambda>(k, v). map_option (Pair k) (action_kind_from_toml L v)"
        "\<lambda>(t, k). (t, TV_Str (kind_name k))"] variant_readers(2) [of L, OF assms(1)]
    by (auto simp: comp_def split_beta)
  let ?es = "policy_toml meta p"
  have "set (map fst ?es) \<subseteq> set policy_fields"
    by (auto simp: policy_toml_def policy_fields_def)
  moreover have "defaults_from_toml L (TV_Table [(''decision'', decision_toml d)]) = Some d" for d
    by (simp add: defaults_from_toml_def struct_entries_def defaults_fields_def required_def
        variant_readers(1) [of L, OF assms(1)])
  then have "required u32_from_toml ''version'' ?es = Some (pol_version p)"
    "required string_from_toml ''role'' ?es = Some (pol_role p)"
    "required (defaults_from_toml L) ''defaults'' ?es = Some (pol_default p)"
    "optional (\<lambda>m. Some (tl_text L m)) ''meta'' ?es = Some (pol_meta p)"
    "defaulted (map_from_toml (action_kind_from_toml L)) [] ''tools'' ?es = Some (pol_tools p)"
    "defaulted (vec_from_toml (rule_from_toml L)) [] ''rules'' ?es = Some (pol_rules p)"
    using assms(2,3) rls tls
    by (auto simp: policy_toml_def required_def optional_def defaulted_def
        simp del: vec_from_toml.simps map_from_toml.simps split: option.split if_splits)
  ultimately show ?thesis
    by (simp add: policy_from_toml_def struct_entries_def)
qed

text \<open>
  C33: nothing a policy file says is lost or changed. Write any policy down as a TOML document, with
  its rules in order, its tools, caps and flags, and the deserializer reads exactly that policy; the
  metadata is the only part it keeps as a text.
\<close>

theorem policy_file_roundtrip:
  assumes "\<And>s. tl_variant L (TV_Str s) = Some s" and "pol_version p < 2 ^ 32"
    and "tl_parse L text = Inr (policy_toml meta p)" and "pol_meta p = map_option (tl_text L) meta"
  shows "read_policy L text = Inr p"
  using policy_from_toml_written [of L, OF assms(1,2,4)] by (simp add: read_policy_def assms(3))

subsection \<open>What a policy file may say\<close>

text \<open>The value at a path of keys and indices, and the keys of the table there.\<close>

datatype toml_step = Key string | Ix nat

fun toml_at :: "toml_value \<Rightarrow> toml_step list \<Rightarrow> toml_value option" where
  "toml_at v [] = Some v"
| "toml_at (TV_Table es) (Key k # path) = (case map_of es k of None \<Rightarrow> None | Some v \<Rightarrow> toml_at v path)"
| "toml_at (TV_Array vs) (Ix i # path) = (if i < length vs then toml_at (vs ! i) path else None)"
| "toml_at _ _ = None"

definition keys_at :: "toml_entries \<Rightarrow> toml_step list \<Rightarrow> string set" where
  "keys_at es path = (case toml_at (TV_Table es) path of Some (TV_Table fs) \<Rightarrow> fst ` set fs | _ \<Rightarrow> {})"

lemma toml_at_step:
  "toml_at v (Ix i # path) = (case v of TV_Array vs \<Rightarrow> if i < length vs then toml_at (vs ! i) path else None | _ \<Rightarrow> None)"
  "toml_at v (Key k # path) = (case v of TV_Table es \<Rightarrow> map_of es k \<bind> (\<lambda>x. toml_at x path) | _ \<Rightarrow> None)"
  by (cases v; auto split: option.split)+

lemma those_nth: "those (map f xs) = Some ys \<Longrightarrow> i < length xs \<Longrightarrow> f (xs ! i) = Some (ys ! i)"
  by (induction xs arbitrary: ys i) (auto simp: nth_Cons split: option.splits nat.split)

lemma struct_keys: "struct_entries names (TV_Table es) = Some fs \<Longrightarrow> fs = es \<and> fst ` set es \<subseteq> set names"
  by (auto simp: struct_entries_def split: if_splits)

lemma cap_keys: "cap_from_toml (TV_Table es) = Some c \<Longrightarrow> fst ` set es \<subseteq> set cap_fields"
  by (auto simp: cap_from_toml_def bind_eq_Some_conv dest: struct_keys)

lemma rule_keys:
  assumes "rule_from_toml L (TV_Table es) = Some r"
  shows "fst ` set es \<subseteq> set rule_fields \<and> {''id'', ''when'', ''decision''} \<subseteq> fst ` set es
     \<and> (\<forall>cs. map_of es ''cap'' = Some (TV_Table cs) \<longrightarrow> fst ` set cs \<subseteq> set cap_fields)"
proof -
  from assms obtain fs i w d c where f: "struct_entries rule_fields (TV_Table es) = Some fs"
    "required string_from_toml ''id'' fs = Some i" "required string_from_toml ''when'' fs = Some w"
    "required (decision_kind_from_toml L) ''decision'' fs = Some d" "optional cap_from_toml ''cap'' fs = Some c"
    by (auto simp: rule_from_toml_def bind_eq_Some_conv)
  note k = struct_keys [OF f(1)]
  have "{''id'', ''when'', ''decision''} \<subseteq> fst ` set es"
    using f(2-4) k by (auto simp: required_def bind_eq_Some_conv dest!: map_of_SomeD intro: rev_image_eqI)
  moreover have "fst ` set cs \<subseteq> set cap_fields" if "map_of es ''cap'' = Some (TV_Table cs)" for cs
  proof -
    from f(5) k that obtain z where "cap_from_toml (TV_Table cs) = Some z"
      by (auto simp: optional_def defaulted_def)
    then show ?thesis by (rule cap_keys)
  qed
  ultimately show ?thesis using k by blast
qed

lemma decision_words:
  assumes "\<And>s. tl_variant L (TV_Str s) = Some s" and "decision_kind_from_toml L (TV_Str s) = Some d"
  shows "s = (case d of DK_Allow \<Rightarrow> ''allow'' | DK_Ask \<Rightarrow> ''ask'' | DK_Deny \<Rightarrow> ''deny'')"
  using assms(2) by (auto simp: decision_kind_from_toml_def assms(1) split: if_splits)

text \<open>
  The four tables of the schema in a document that was read: the document, its defaults, each of its
  rules and each rule's cap.
\<close>

lemma policy_tables:
  assumes "policy_from_toml L (TV_Table es) = Some p"
  shows "fst ` set es \<subseteq> set policy_fields" and "{''version'', ''role'', ''defaults''} \<subseteq> fst ` set es"
    and "map_of es ''version'' = Some (TV_Int (int (pol_version p)))"
    and "map_of es ''defaults'' \<bind> defaults_from_toml L = Some (pol_default p)"
    and "map_of es ''rules'' = Some (TV_Array vs) \<Longrightarrow> i < length vs \<Longrightarrow> \<exists>r. rule_from_toml L (vs ! i) = Some r"
proof -
  from assms obtain fs rl t rs where f: "struct_entries policy_fields (TV_Table es) = Some fs"
    "required u32_from_toml ''version'' fs = Some (pol_version p)" "required string_from_toml ''role'' fs = Some rl"
    "required (defaults_from_toml L) ''defaults'' fs = Some (pol_default p)"
    "defaulted (vec_from_toml (rule_from_toml L)) [] ''rules'' fs = Some rs"
    by (auto simp: policy_from_toml_def bind_eq_Some_conv)
  note k = struct_keys [OF f(1)]
  then show "fst ` set es \<subseteq> set policy_fields" by blast
  show "{''version'', ''role'', ''defaults''} \<subseteq> fst ` set es"
    using f(2-4) k by (auto simp: required_def bind_eq_Some_conv dest!: map_of_SomeD intro: rev_image_eqI)
  show "map_of es ''version'' = Some (TV_Int (int (pol_version p)))"
    using f(2) k by (auto simp: required_def bind_eq_Some_conv elim!: u32_from_toml.elims split: if_splits)
  show "map_of es ''defaults'' \<bind> defaults_from_toml L = Some (pol_default p)"
    using f(4) k by (simp add: required_def)
  show "\<exists>r. rule_from_toml L (vs ! i) = Some r" if "map_of es ''rules'' = Some (TV_Array vs)" "i < length vs"
    using f(5) k that by (auto simp: defaulted_def dest: those_nth)
qed

lemma defaults_keys:
  assumes "defaults_from_toml L (TV_Table ds) = Some d"
  shows "fst ` set ds \<subseteq> {''decision''} \<and> map_of ds ''decision'' \<bind> decision_kind_from_toml L = Some d"
proof -
  from assms obtain fs where "struct_entries defaults_fields (TV_Table ds) = Some fs"
    "required (decision_kind_from_toml L) ''decision'' fs = Some d"
    by (auto simp: defaults_from_toml_def bind_eq_Some_conv)
  with struct_keys [OF this(1)] show ?thesis by (simp add: defaults_fields_def required_def)
qed

lemma default_word:
  assumes "policy_from_toml L (TV_Table es) = Some p" and "\<And>s. tl_variant L (TV_Str s) = Some s"
    and "toml_at (TV_Table es) [Key ''defaults'', Key ''decision''] = Some (TV_Str s)"
  shows "s = (case pol_default p of DK_Allow \<Rightarrow> ''allow'' | DK_Ask \<Rightarrow> ''ask'' | DK_Deny \<Rightarrow> ''deny'')"
proof -
  from policy_tables(4) [OF assms(1)] obtain v where v: "map_of es ''defaults'' = Some v" "defaults_from_toml L v = Some (pol_default p)"
    by (auto simp: bind_eq_Some_conv)
  with assms(3) obtain ds where "v = TV_Table ds" "map_of ds ''decision'' = Some (TV_Str s)"
    by (cases v) (auto split: option.splits)
  with v(2) have "decision_kind_from_toml L (TV_Str s) = Some (pol_default p)" using defaults_keys by fastforce
  from decision_words [OF assms(2) this] show ?thesis .
qed

lemma rule_tables:
  assumes "policy_from_toml L (TV_Table es) = Some p"
  shows "keys_at es [Key ''rules'', Ix i] \<subseteq> set rule_fields
     \<and> (keys_at es [Key ''rules'', Ix i] \<noteq> {} \<longrightarrow> {''id'', ''when'', ''decision''} \<subseteq> keys_at es [Key ''rules'', Ix i])
     \<and> keys_at es [Key ''rules'', Ix i, Key ''cap''] \<subseteq> set cap_fields"
proof (cases "\<exists>vs rs. map_of es ''rules'' = Some (TV_Array vs) \<and> i < length vs \<and> vs ! i = TV_Table rs")
  case True
  then obtain vs rs where v: "map_of es ''rules'' = Some (TV_Array vs)" "i < length vs" "vs ! i = TV_Table rs"
    by blast
  with policy_tables(5) [OF assms v(1,2)] obtain r where "rule_from_toml L (TV_Table rs) = Some r" by auto
  with rule_keys [OF this] v show ?thesis
    by (auto simp: keys_at_def split: option.splits toml_value.splits)
next
  case False
  then have "toml_at (TV_Table es) [Key ''rules'', Ix i] \<noteq> Some (TV_Table fs)"
    "toml_at (TV_Table es) [Key ''rules'', Ix i, Key ''cap''] = None" for fs
    by (cases "map_of es ''rules''"; auto simp: toml_at_step simp del: toml_at.simps(2-)
          split: toml_value.splits if_splits)+
  then show ?thesis
    by (simp add: keys_at_def del: toml_at.simps split: option.split toml_value.split)
qed

text \<open>
  C39: a policy file with a key that the schema does not know does not load, be the key in the
  document, in its defaults, in a rule or in the cap of a rule, where a mistyped limit would silently
  be none (only \<open>[meta]\<close> and the names of the tools in \<open>[tools]\<close> are free). A file that loads gives its
  version, which is the number 1, its role and its default; each rule given as a table has an \<open>id\<close>, a
  condition and a decision; and a default decision given as a word is \<open>ask\<close> or \<open>deny\<close>, in lower case.
\<close>

theorem loaded_policy_file_strict:
  assumes "policy_from_toml_str (read_policy L) text = Inr p" and "\<And>s. tl_variant L (TV_Str s) = Some s"
  shows "\<exists>es. tl_parse L text = Inr es
     \<and> keys_at es [] \<subseteq> {''version'', ''role'', ''defaults'', ''meta'', ''tools'', ''rules''}
     \<and> {''version'', ''role'', ''defaults''} \<subseteq> keys_at es []
     \<and> toml_at (TV_Table es) [Key ''version''] = Some (TV_Int 1)
     \<and> keys_at es [Key ''defaults''] \<subseteq> {''decision''}
     \<and> (\<forall>s. toml_at (TV_Table es) [Key ''defaults'', Key ''decision''] = Some (TV_Str s) \<longrightarrow> s \<in> {''ask'', ''deny''})
     \<and> (\<forall>i. keys_at es [Key ''rules'', Ix i] \<subseteq>
            {''id'', ''when'', ''decision'', ''explain'', ''critical'', ''sandbox'', ''cap'', ''tags''}
          \<and> (keys_at es [Key ''rules'', Ix i] \<noteq> {}
               \<longrightarrow> {''id'', ''when'', ''decision''} \<subseteq> keys_at es [Key ''rules'', Ix i])
          \<and> keys_at es [Key ''rules'', Ix i, Key ''cap''] \<subseteq> {''amount_max'', ''currency'', ''count_max''})"
proof -
  from policy_from_toml_str_wf [OF assms(1)] obtain es where
    es: "tl_parse L text = Inr es" "policy_from_toml L (TV_Table es) = Some p" and p: "policy_wf p"
    by (auto simp: read_policy_def split: sum.splits option.splits)
  note t = policy_tables [OF es(2)]
  have "keys_at es [] = fst ` set es" by (simp add: keys_at_def)
  moreover have "toml_at (TV_Table es) [Key ''version''] = Some (TV_Int 1)"
    using t(3) p by (simp add: policy_wf_def)
  moreover have "keys_at es [Key ''defaults''] \<subseteq> {''decision''}"
    using t(4) defaults_keys [of L _ "pol_default p"]
    by (cases "map_of es ''defaults''") (auto simp: keys_at_def split: toml_value.splits)
  moreover have "s \<in> {''ask'', ''deny''}"
    if "toml_at (TV_Table es) [Key ''defaults'', Key ''decision''] = Some (TV_Str s)" for s
    using default_word [OF es(2) assms(2) that] p by (cases "pol_default p") (simp_all add: policy_wf_def)
  moreover note rule_tables [OF es(2)]
  ultimately show ?thesis
    using es(1) t(1,2) unfolding policy_fields_def rule_fields_def cap_fields_def by simp
qed

subsection \<open>Examples\<close>

text \<open>A file that caps payments, and the library that parses it.\<close>

definition capped_rule :: rule where
  "capped_rule =
     \<lparr>rule_id = ''pay'', rule_when = ''true'', rule_decision = DK_Ask, rule_explain = Some ''A payment.'',
      rule_critical = True, rule_sandbox = False,
      rule_cap = Some \<lparr>cap_amount_max = Some (F64_Fin 200), cap_currency = Some ''EUR'', cap_count_max = None\<rparr>,
      rule_tags = [''money'']\<rparr>"

definition capped_policy :: policy where
  "capped_policy =
     \<lparr>pol_version = 1, pol_role = ''shop'', pol_default = DK_Deny, pol_meta = Some ''me'',
      pol_tools = [(''cat'', K_FileRead)], pol_rules = [capped_rule]\<rparr>"

definition capped_file :: toml_entries where
  "capped_file = policy_toml (Some (TV_Str ''me'')) capped_policy"

fun string_or_empty :: "toml_value \<Rightarrow> string" where
  "string_or_empty (TV_Str s) = s"
| "string_or_empty _ = []"

definition file_lib :: "toml_entries \<Rightarrow> toml_lib" where
  "file_lib es =
     \<lparr>tl_parse = (\<lambda>_. Inr es), tl_variant = string_from_toml, tl_text = string_or_empty,
      tl_mismatch = (\<lambda>_. ''mismatch'')\<rparr>"

lemma capped_meta: "pol_meta capped_policy = map_option (tl_text (file_lib es)) (Some (TV_Str ''me''))"
  by (simp add: capped_policy_def file_lib_def)

theorem policy_file_roundtrip_witness: "read_policy (file_lib capped_file) ''version = 1'' = Inr capped_policy"
  by (rule policy_file_roundtrip [OF _ _ _ capped_meta]) (simp_all add: file_lib_def capped_file_def capped_policy_def)

lemma capped_file_loads: "policy_from_toml_str (read_policy (file_lib capped_file)) text = Inr capped_policy"
proof -
  have "policy_from_toml (file_lib capped_file) (TV_Table capped_file) = Some capped_policy"
    unfolding capped_file_def
    by (rule policy_from_toml_written [OF _ _ capped_meta]) (simp_all add: file_lib_def capped_policy_def)
  then show ?thesis
    by (simp add: policy_from_toml_str_def read_policy_def file_lib_def validate_structure_def)
      (simp add: capped_policy_def)
qed

theorem loaded_policy_file_strict_witness:
  "keys_at capped_file [Key ''rules'', Ix 0, Key ''cap''] = {''amount_max'', ''currency''}
     \<and> keys_at capped_file [Key ''rules'', Ix 0, Key ''cap''] \<subseteq> {''amount_max'', ''currency'', ''count_max''}"
proof
  show "keys_at capped_file [Key ''rules'', Ix 0, Key ''cap''] = {''amount_max'', ''currency''}"
    by (simp add: keys_at_def capped_file_def policy_toml_def capped_policy_def capped_rule_def rule_toml_def
        cap_toml_def entry_of_def entry_if_def)
  have "\<And>s. tl_variant (file_lib capped_file) (TV_Str s) = Some s" "tl_parse (file_lib capped_file) [] = Inr capped_file"
    by (simp_all add: file_lib_def)
  with loaded_policy_file_strict [OF capped_file_loads this(1), of "[]"]
  show "keys_at capped_file [Key ''rules'', Ix 0, Key ''cap''] \<subseteq> {''amount_max'', ''currency'', ''count_max''}"
    by simp
qed

end
