(* ===== verification/Policy_Tests.thy ===== *)
theory Policy_Tests
  imports Default_Policies Policy_Toml
begin

text \<open>
  The unit tests of \<open>guardian-policy/src/lib.rs\<close>: each test function is a Boolean, false where an
  assertion of the test fails or an \<open>unwrap\<close> panics. The TOML parser, the CEL compiler and the CEL
  interpreter are parameters (\<open>policy_libs\<close>), known by what they do on the texts of the tests
  (\<open>reads_policy_tests\<close>); the tests of the schema itself are run through the deserializer of
  \<open>Policy_Toml\<close> on the tree of their text. \<open>policy_tests_pass\<close> shows that the model passes the crate's tests.
\<close>

subsection \<open>The libraries the tests run with\<close>

record 'prog policy_libs =
  pl_toml :: "string \<Rightarrow> (string, policy) result"
  pl_cel :: "string \<Rightarrow> (string, 'prog) result"
  pl_exec :: "'prog cel_exec"

definition load :: "'prog policy_libs \<Rightarrow> string \<Rightarrow> (policy_error, 'prog compiled_policy) result" where
  "load L s = compiled_from_toml_str (pl_toml L) (pl_cel L) s"

text \<open>A test that begins with \<open>CompiledPolicy::from_toml_str(text).unwrap()\<close>.\<close>

definition with_policy :: "'prog policy_libs \<Rightarrow> string \<Rightarrow> ('prog compiled_policy \<Rightarrow> bool) \<Rightarrow> bool" where
  "with_policy L s t = (case load L s of Inr p \<Rightarrow> t p | Inl _ \<Rightarrow> False)"

definition is_ask :: "decision \<Rightarrow> bool" where
  "is_ask d = (case d of Ask _ \<Rightarrow> True | _ \<Rightarrow> False)"

definition is_deny :: "decision \<Rightarrow> bool" where
  "is_deny d = (case d of Deny _ \<Rightarrow> True | _ \<Rightarrow> False)"

subsection \<open>The policy texts\<close>

definition unlines :: "string list \<Rightarrow> string" where
  "unlines ls = concat (map (\<lambda>l. l @ [CHR 0x0A]) ls)"

definition ticked :: "string \<Rightarrow> string" where
  "ticked s = [CHR 0x27] @ s @ [CHR 0x27]"

definition rule_lines :: "string \<Rightarrow> string \<Rightarrow> decision_kind \<Rightarrow> string list" where
  "rule_lines i w d =
     [''[[rules]]'', ''id = '' @ str_quoted i, ''when = '' @ ticked w,
      ''decision = '' @ str_quoted (decision_word d)]"

definition head_lines :: "string \<Rightarrow> string list" where
  "head_lines role =
     [''version = 1'', ''role = '' @ str_quoted role, ''[defaults]'', ''decision = '' @ str_quoted ''ask'']"

definition explain_line :: "string \<Rightarrow> string" where
  "explain_line s = ''explain = '' @ str_quoted s"

text \<open>A policy of the tests: its role and its rules, each with its condition and further lines.\<close>

definition policy_text :: "string \<Rightarrow> ((cond \<times> rule) \<times> string list) list \<Rightarrow> string" where
  "policy_text role rls = unlines ([] # head_lines role
     @ concat (map (\<lambda>((c, r), ls). rule_lines (rule_id r) (cond_text c) (rule_decision r) @ ls) rls))"

definition on :: "string \<Rightarrow> cond \<Rightarrow> decision_kind \<Rightarrow> cond \<times> rule" where
  "on i c d = (c, rule_on i c d)"

definition capped :: "cap \<Rightarrow> cond \<times> rule \<Rightarrow> cond \<times> rule" where
  "capped cp cr = (fst cr, (snd cr)\<lparr>rule_cap := Some cp\<rparr>)"

subsection \<open>\<open>POLICY\<close> and the helpers\<close>

definition POLICY_rules :: "(cond \<times> rule) list" where
  "POLICY_rules =
     [on ''read-files'' (C_Is [''kind''] ''FileRead'') DK_Allow,
      as_sandboxed (shipped_rule ''exec'' (C_Is [''kind''] ''Exec'') DK_Ask (Some ''Runs a shell command.'')),
      http_get_trusted,
      as_critical (shipped_rule ''payment'' (C_Is [''capability''] ''Payment'') DK_Ask (Some ''Sends money.'')),
      capped \<lparr>cap_amount_max = Some (F64_Fin 10), cap_currency = None, cap_count_max = None\<rparr>
        (on ''micro-allowance'' (C_Is [''tool''] ''wallet.spend'') DK_Allow),
      as_critical (shipped_rule ''exfil''
        (C_And (C_And (C_Is [''kind''] ''HttpRequest'') (C_Is [''args'', ''method''] ''POST'')) (C_Not C_Trusted))
        DK_Deny (Some ''Posting to an untrusted host.''))]"

definition POLICY_lines :: "string list list" where
  "POLICY_lines =
     [[], [''sandbox = true'', explain_line ''Runs a shell command.''], [],
      [''critical = true'', explain_line ''Sends money.''], [''cap = { amount_max = 10.0 }''],
      [''critical = true'', explain_line ''Posting to an untrusted host.'']]"

definition POLICY :: string where
  "POLICY = unlines ([[], ''version = 1'', ''role = '' @ str_quoted ''test'', [], ''[defaults]'',
       ''decision = '' @ str_quoted ''ask'']
     @ concat (map (\<lambda>((c, r), ls). [] # rule_lines (rule_id r) (cond_text c) (rule_decision r) @ ls)
         (zip POLICY_rules POLICY_lines)))"

definition env :: eval_env where
  "env = \<lparr>env_user_home = ''/home/u'', env_trusted_hosts = [''api.example.com'']\<rparr>"

definition action_with_capability ::
    "action_kind \<Rightarrow> string \<Rightarrow> json \<Rightarrow> string option \<Rightarrow> capability option \<Rightarrow> action" where
  "action_with_capability kind tool args host capability =
     \<lparr>act_id = ''01TEST'', act_kind = kind, act_tool = tool, act_args = args, act_capability = capability,
      act_context =
        \<lparr>ctx_timestamp_ms = 1700000000000, ctx_source = ''test'', ctx_session = None, ctx_host = host,
         ctx_principal = None, ctx_path = None, ctx_extra = []\<rparr>\<rparr>"

definition test_action :: "action_kind \<Rightarrow> string \<Rightarrow> json \<Rightarrow> string option \<Rightarrow> action" where
  "test_action kind tool args host = action_with_capability kind tool args host None"

definition compiled :: "'prog policy_libs \<Rightarrow> ('prog compiled_policy \<Rightarrow> bool) \<Rightarrow> bool" where
  "compiled L t = with_policy L POLICY t"

definition args1 :: "string \<Rightarrow> json \<Rightarrow> json" where
  "args1 k v = JObj [(k, v)]"

subsection \<open>Tests on \<open>POLICY\<close>\<close>

definition green_action_is_allowed_silently :: "'prog policy_libs \<Rightarrow> bool" where
  "green_action_is_allowed_silently L = compiled L (\<lambda>p.
     let out = evaluate (pl_exec L) p (test_action K_FileRead ''fs.read'' (JObj []) None) env
     in out_decision out = Allow \<and> out_matched_rule out = Some ''read-files''
        \<and> \<not> out_sandbox out \<and> \<not> out_critical out)"

definition yellow_action_asks_and_sets_sandbox :: "'prog policy_libs \<Rightarrow> bool" where
  "yellow_action_asks_and_sets_sandbox L = compiled L (\<lambda>p.
     let out = evaluate (pl_exec L) p
           (test_action K_Exec ''shell.run'' (args1 ''cmd'' (JStr ''ls'')) None) env
     in out_decision out = Ask ''Runs a shell command.'' \<and> out_sandbox out
        \<and> out_matched_rule out = Some ''exec'')"

definition http_get_to_trusted_host_is_allowed :: "'prog policy_libs \<Rightarrow> bool" where
  "http_get_to_trusted_host_is_allowed L = compiled L (\<lambda>p.
     out_decision (evaluate (pl_exec L) p
       (test_action K_HttpRequest ''http.fetch'' (args1 ''method'' (JStr ''GET'')) (Some ''api.example.com''))
       env) = Allow)"

definition red_exfiltration_is_denied :: "'prog policy_libs \<Rightarrow> bool" where
  "red_exfiltration_is_denied L = compiled L (\<lambda>p.
     let out = evaluate (pl_exec L) p
           (test_action K_HttpRequest ''http.fetch'' (args1 ''method'' (JStr ''POST''))
              (Some ''evil.example.net'')) env
     in out_decision out = Deny ''Posting to an untrusted host.'' \<and> out_critical out)"

definition payment_is_ask_and_critical :: "'prog policy_libs \<Rightarrow> bool" where
  "payment_is_ask_and_critical L = compiled L (\<lambda>p.
     let out = evaluate (pl_exec L) p
           (action_with_capability K_Payment ''bank.transfer'' (args1 ''amount'' (JFloat (F64_Fin 50))) None
              (Some Cap_Payment)) env
     in is_ask (out_decision out) \<and> out_critical out)"

definition cap_violation_escalates_allow_to_ask :: "'prog policy_libs \<Rightarrow> bool" where
  "cap_violation_escalates_allow_to_ask L = compiled L (\<lambda>p.
     let spend = (\<lambda>x. test_action K_Payment ''wallet.spend'' (args1 ''amount'' (JFloat (F64_Fin x))) None)
     in out_decision (evaluate (pl_exec L) p (spend 5) env) = Allow
        \<and> is_ask (out_decision (evaluate (pl_exec L) p (spend 50) env)))"

definition unmatched_action_falls_to_restrictive_default :: "'prog policy_libs \<Rightarrow> bool" where
  "unmatched_action_falls_to_restrictive_default L = compiled L (\<lambda>p.
     let out = evaluate (pl_exec L) p (test_action K_Other ''mystery.tool'' (JObj []) None) env
     in is_ask (out_decision out) \<and> out_matched_rule out = None)"

subsection \<open>Tests on their own policies\<close>

definition strictest_rules :: "(cond \<times> rule) list" where
  "strictest_rules =
     [on ''allow-exec'' (C_Is [''kind''] ''Exec'') DK_Allow, on ''deny-exec'' (C_Is [''kind''] ''Exec'') DK_Deny]"

definition plain_text :: "string \<Rightarrow> (cond \<times> rule) list \<Rightarrow> string" where
  "plain_text role crs = policy_text role (map (\<lambda>cr. (cr, [])) crs)"

definition most_restrictive_wins_across_matching_rules :: "'prog policy_libs \<Rightarrow> bool" where
  "most_restrictive_wins_across_matching_rules L = with_policy L (plain_text ''t'' strictest_rules) (\<lambda>p.
     let out = evaluate (pl_exec L) p (test_action K_Exec ''shell.run'' (JObj []) None) env
     in is_deny (out_decision out) \<and> out_matched_rule out = Some ''deny-exec'')"

definition permissive_text :: string where
  "permissive_text = unlines [''version = 1'', ''role = '' @ str_quoted ''t'', ''[defaults]'',
     ''decision = '' @ str_quoted ''allow'']"

definition permissive_default_is_rejected :: "'prog policy_libs \<Rightarrow> bool" where
  "permissive_default_is_rejected L = (load L permissive_text = Inl PE_PermissiveDefault)"

definition duplicate_rules :: "(cond \<times> rule) list" where
  "duplicate_rules = [on ''dup'' (C_Lit True) DK_Allow, on ''dup'' (C_Lit False) DK_Deny]"

definition duplicate_rule_id_is_rejected :: "'prog policy_libs \<Rightarrow> bool" where
  "duplicate_rule_id_is_rejected L =
     (case load L (plain_text ''t'' duplicate_rules) of Inl (PE_DuplicateRuleId _) \<Rightarrow> True | _ \<Rightarrow> False)"

definition INVALID_WHEN :: string where
  "INVALID_WHEN = ''this is ))) not valid''"

definition invalid_when_text :: string where
  "invalid_when_text = unlines ([] # head_lines ''t'' @ rule_lines ''bad'' INVALID_WHEN DK_Allow)"

definition invalid_when_expression_is_rejected :: "'prog policy_libs \<Rightarrow> bool" where
  "invalid_when_expression_is_rejected L =
     (case load L invalid_when_text of Inl (PE_InvalidWhen _ _) \<Rightarrow> True | _ \<Rightarrow> False)"

definition unsupported_text :: string where
  "unsupported_text = unlines [''version = 2'', ''role = '' @ str_quoted ''t'', ''[defaults]'',
     ''decision = '' @ str_quoted ''ask'']"

definition unsupported_version_is_rejected :: "'prog policy_libs \<Rightarrow> bool" where
  "unsupported_version_is_rejected L = (load L unsupported_text = Inl (PE_UnsupportedVersion 2))"

definition shipped_default_policy_compiles :: "'prog policy_libs \<Rightarrow> string \<Rightarrow> bool" where
  "shipped_default_policy_compiles L assistant_toml = with_policy L assistant_toml (\<lambda>p.
     pol_role (cp_policy p) = ''personal-assistant'')"

definition tools_text :: string where
  "tools_text = unlines ([] # head_lines ''t'' @ [''[tools]'', ''read_file = '' @ str_quoted ''FileRead'',
     ''danger = '' @ str_quoted ''Exec''])"

definition tools_classification_map_parses :: "'prog policy_libs \<Rightarrow> bool" where
  "tools_classification_map_parses L = with_policy L tools_text (\<lambda>p.
     let tools = map_of (pol_tools (cp_policy p))
     in tools ''read_file'' = Some K_FileRead \<and> tools ''danger'' = Some K_Exec \<and> tools ''missing'' = None)"

definition shipped_coding_agent_policy_behaves :: "'prog policy_libs \<Rightarrow> string \<Rightarrow> bool" where
  "shipped_coding_agent_policy_behaves L coding_toml = with_policy L coding_toml (\<lambda>p.
     let bash = (\<lambda>cmd. test_action K_Exec ''Bash'' (args1 ''cmd'' (JStr cmd)) None);
         out = evaluate (pl_exec L) p (bash ''rm -rf /'') env
     in pol_role (cp_policy p) = ''coding-agent''
        \<and> out_decision (evaluate (pl_exec L) p (test_action K_FileRead ''Read'' (JObj []) None) env) = Allow
        \<and> is_ask (out_decision (evaluate (pl_exec L) p (bash ''git status'') env))
        \<and> is_deny (out_decision out) \<and> out_critical out)"


subsection \<open>Tests of caps\<close>

definition count_cap :: cap where
  "count_cap = \<lparr>cap_amount_max = None, cap_currency = None, cap_count_max = Some 10\<rparr>"

definition bulk_rules :: "((cond \<times> rule) \<times> string list) list" where
  "bulk_rules = [(capped count_cap (on ''bulk'' (C_Is [''kind''] ''Delete'') DK_Allow),
     [''cap = { count_max = 10 }''])]"

definition count_cap_escalates_and_fails_safe :: "'prog policy_libs \<Rightarrow> bool" where
  "count_cap_escalates_and_fails_safe L = with_policy L (policy_text ''t'' bulk_rules) (\<lambda>p.
     let outcome = (\<lambda>args. out_decision (evaluate (pl_exec L) p (test_action K_Delete ''fs.delete'' args None) env))
     in outcome (args1 ''count'' (JInt 3)) = Allow \<and> is_ask (outcome (args1 ''count'' (JInt 99)))
        \<and> is_ask (outcome (JObj [])))"

definition euro_cap :: cap where
  "euro_cap = \<lparr>cap_amount_max = Some (F64_Fin 200), cap_currency = Some ''EUR'', cap_count_max = None\<rparr>"

definition pay_rules :: "((cond \<times> rule) \<times> string list) list" where
  "pay_rules = [(capped euro_cap (on ''pay'' (C_Is [''kind''] ''Other'') DK_Allow),
     [''cap = { amount_max = 200.0, currency = '' @ str_quoted ''EUR'' @ '' }''])]"

definition currency_cap_requires_a_matching_currency :: "'prog policy_libs \<Rightarrow> bool" where
  "currency_cap_requires_a_matching_currency L = with_policy L (policy_text ''t'' pay_rules) (\<lambda>p.
     let outcome = (\<lambda>kvs. out_decision (evaluate (pl_exec L) p (test_action K_Other ''pay'' (JObj kvs) None) env))
     in outcome [(''amount'', JFloat (F64_Fin 150)), (''currency'', JStr ''EUR'')] = Allow
        \<and> is_ask (outcome [(''amount'', JFloat (F64_Fin 1)), (''currency'', JStr ''BTC'')])
        \<and> is_ask (outcome [(''amount'', JFloat (F64_Fin 10))]))"

subsection \<open>Tests of the engine's own guarantees\<close>

definition get_rules :: "(cond \<times> rule) list" where
  "get_rules =
     [on ''allow-get'' (C_And (C_Is [''kind''] ''HttpRequest'') (C_Is [''args'', ''method''] ''GET'')) DK_Allow]"

definition evaluate_is_independent_across_calls :: "'prog policy_libs \<Rightarrow> bool" where
  "evaluate_is_independent_across_calls L = with_policy L (plain_text ''t'' get_rules) (\<lambda>p.
     let get = test_action K_HttpRequest ''http.get'' (args1 ''method'' (JStr ''GET'')) None;
         post = test_action K_HttpRequest ''http.post'' (args1 ''method'' (JStr ''POST'')) None;
         outcome = (\<lambda>a. out_decision (evaluate (pl_exec L) p a env))
     in outcome get = Allow \<and> is_ask (outcome post) \<and> outcome get = Allow \<and> is_ask (outcome post))"

definition typo_text :: string where
  "typo_text = unlines ([] # head_lines ''t'' @ rule_lines ''typo'' ''true'' DK_Allow
     @ [''cap = { amount_mx = 200.0 }''])"

definition unknown_field_is_rejected :: "'prog policy_libs \<Rightarrow> bool" where
  "unknown_field_is_rejected L = (\<not> is_ok (load L typo_text))"

definition reckless_rules :: "(cond \<times> rule) list" where
  "reckless_rules = [on ''allow-payments'' (C_Is [''capability''] ''Payment'') DK_Allow]"

definition critical_capability_allow_rule_is_floored_to_ask :: "'prog policy_libs \<Rightarrow> bool" where
  "critical_capability_allow_rule_is_floored_to_ask L =
     with_policy L (plain_text ''reckless'' reckless_rules) (\<lambda>p.
       let out = evaluate (pl_exec L) p
             (action_with_capability K_Payment ''bank.send'' (args1 ''amount'' (JInt 1000)) None
                (Some Cap_Payment)) env
       in is_ask (out_decision out) \<and> out_critical out
          \<and> out_matched_rule out = Some ''critical-category-floor'')"

definition sneaky_rules :: "(cond \<times> rule) list" where
  "sneaky_rules = [on ''allow-all-credential-reads'' (C_Is [''capability''] ''Credential'') DK_Allow]"

definition unmarked_allow_cannot_bypass_the_floor :: "'prog policy_libs \<Rightarrow> bool" where
  "unmarked_allow_cannot_bypass_the_floor L = with_policy L (plain_text ''sneaky-pack'' sneaky_rules) (\<lambda>p.
     let out = evaluate (pl_exec L) p
           (action_with_capability K_Other ''secrets.read'' (JObj []) (Some ''evil.example'')
              (Some Cap_Credential)) env
     in is_ask (out_decision out) \<and> out_critical out)"

definition allow_all_rules :: "(cond \<times> rule) list" where
  "allow_all_rules = [on ''allow-everything'' (C_Lit True) DK_Allow]"

definition no_critical_capability_is_ever_allowed :: "'prog policy_libs \<Rightarrow> bool" where
  "no_critical_capability_is_ever_allowed L = with_policy L (plain_text ''allow-all'' allow_all_rules) (\<lambda>p.
     list_all (\<lambda>cap.
         let out = evaluate (pl_exec L) p (action_with_capability K_Other ''x'' (JObj []) None (Some cap)) env
         in out_decision out \<noteq> Allow \<and> out_critical out)
       [Cap_Payment, Cap_Credential, Cap_Exfiltration, Cap_IrreversibleDelete]
     \<and> out_decision (evaluate (pl_exec L) p
         (action_with_capability K_Other ''chat.send'' (JObj []) None (Some Cap_Messaging)) env) = Allow)"

subsection \<open>What the libraries do on the texts of the tests\<close>

definition tools_policy :: policy where
  "tools_policy = (policy_of ''t'' [])\<lparr>pol_tools := [(''read_file'', K_FileRead), (''danger'', K_Exec)]\<rparr>"

text \<open>The texts whose policies load, with the policy and its conditions.\<close>

definition test_policies :: "(string \<times> policy \<times> (cond \<times> rule) list) list" where
  "test_policies =
     [(POLICY, policy_of ''test'' POLICY_rules, POLICY_rules)]
     @ map (\<lambda>(role, crs). (plain_text role crs, policy_of role crs, crs))
         [(''t'', strictest_rules), (''t'', get_rules), (''reckless'', reckless_rules),
          (''sneaky-pack'', sneaky_rules), (''allow-all'', allow_all_rules)]
     @ map (\<lambda>rls. (policy_text ''t'' rls, policy_of ''t'' (map fst rls), map fst rls)) [bulk_rules, pay_rules]"

definition bad_rule :: rule where
  "bad_rule = (rule_on ''bad'' (C_Lit True) DK_Allow)\<lparr>rule_when := INVALID_WHEN\<rparr>"

text \<open>The texts that do not load: rejected by the parser, by the validation, by the compiler.\<close>

definition rejected_policies :: "(string \<times> (string, policy) result) list" where
  "rejected_policies =
     [(permissive_text, Inr ((policy_of ''t'' [])\<lparr>pol_default := DK_Allow\<rparr>)),
      (plain_text ''t'' duplicate_rules, Inr (policy_of ''t'' duplicate_rules)),
      (invalid_when_text, Inr ((policy_of ''t'' [])\<lparr>pol_rules := [bad_rule]\<rparr>)),
      (unsupported_text, Inr ((policy_of ''t'' [])\<lparr>pol_version := 2\<rparr>))]"

text \<open>The documents of the two tests of the schema: a mistyped cap, and a table of tools.\<close>

definition head_entries :: toml_entries where
  "head_entries = [(''version'', TV_Int 1), (''role'', TV_Str ''t''),
     (''defaults'', TV_Table [(''decision'', TV_Str ''ask'')])]"

definition typo_entries :: toml_entries where
  "typo_entries = head_entries @ [(''rules'', TV_Array [TV_Table
     [(''id'', TV_Str ''typo''), (''when'', TV_Str ''true''), (''decision'', TV_Str ''allow''),
      (''cap'', TV_Table [(''amount_mx'', TV_Float (F64_Fin 200))])]])]"

definition tools_entries :: toml_entries where
  "tools_entries = head_entries
     @ [(''tools'', TV_Table [(''read_file'', TV_Str ''FileRead''), (''danger'', TV_Str ''Exec'')])]"

definition reads_policy_tests ::
    "(string \<Rightarrow> string \<Rightarrow> bool) \<Rightarrow> 'prog policy_libs \<Rightarrow> string \<Rightarrow> string \<Rightarrow> bool" where
  "reads_policy_tests re L assistant_toml coding_toml \<longleftrightarrow>
     (\<forall>(s, p, crs) \<in> set test_policies. pl_toml L s = Inr p \<and> cel_reads re (pl_cel L) (pl_exec L) (map fst crs))
     \<and> (\<forall>(s, r) \<in> set rejected_policies. pl_toml L s = r)
     \<and> (\<exists>T. (\<forall>s. tl_variant T (TV_Str s) = Some s)
          \<and> (\<forall>(s, es) \<in> {(typo_text, typo_entries), (tools_text, tools_entries)}.
                tl_parse T s = Inr es \<and> pl_toml L s = read_policy T s))
     \<and> \<not> is_ok (pl_cel L INVALID_WHEN)
     \<and> pl_toml L assistant_toml = Inr personal_assistant_policy
     \<and> cel_reads re (pl_cel L) (pl_exec L) (map fst personal_assistant_rules)
     \<and> pl_toml L coding_toml = Inr coding_agent_policy
     \<and> cel_reads re (pl_cel L) (pl_exec L) (map fst coding_agent_rules)
     \<and> re DESTRUCTIVE ''rm -rf /'' \<and> \<not> re DESTRUCTIVE ''git status''"


subsection \<open>The tests pass\<close>

lemma typo_rejected: "policy_from_toml T (TV_Table typo_entries) = None"
proof (rule ccontr)
  assume "policy_from_toml T (TV_Table typo_entries) \<noteq> None"
  then obtain p where p: "policy_from_toml T (TV_Table typo_entries) = Some p" by blast
  have "map_of typo_entries ''rules'' = Some (TV_Array [TV_Table
     [(''id'', TV_Str ''typo''), (''when'', TV_Str ''true''), (''decision'', TV_Str ''allow''),
      (''cap'', TV_Table [(''amount_mx'', TV_Float (F64_Fin 200))])]])"
    by (simp add: typo_entries_def head_entries_def)
  from policy_tables(5) [OF p this, of 0] show False
    by (auto simp: cap_fields_def dest!: rule_keys)
qed

lemma schema_tests_pass:
  assumes "reads_policy_tests re L pa ca"
  shows "tools_classification_map_parses L" "unknown_field_is_rejected L"
proof -
  from assms obtain T where v: "\<And>s. tl_variant T (TV_Str s) = Some s"
    and p: "tl_parse T typo_text = Inr typo_entries" "tl_parse T tools_text = Inr tools_entries"
    and t: "pl_toml L typo_text = read_policy T typo_text" "pl_toml L tools_text = read_policy T tools_text"
    unfolding reads_policy_tests_def by auto
  note d = load_def compiled_from_toml_str_def policy_from_toml_str_def
  show "unknown_field_is_rejected L"
    by (simp add: unknown_field_is_rejected_def d t(1) read_policy_def p(1) typo_rejected)
  have "tools_entries = policy_toml None tools_policy" by code_simp
  then have "read_policy T tools_text = Inr tools_policy"
    using policy_from_toml_written [of T tools_policy None, OF v]
    by (simp add: read_policy_def p(2) tools_policy_def policy_of_def)
  then show "tools_classification_map_parses L"
    by (simp add: tools_classification_map_parses_def with_policy_def d t(2) validate_structure_def
        compile_def tools_policy_def policy_of_def)
qed

lemma test_policies_ok:
  "list_all (\<lambda>(s, p, crs). policy_wf p \<and> pol_rules p = map snd crs \<and> texts_agree crs) test_policies"
  by code_simp

lemma documented_load:
  assumes "pl_toml L s = Inr p" and "policy_wf p \<and> pol_rules p = map snd crs \<and> texts_agree crs"
    and "cel_reads re (pl_cel L) (pl_exec L) (map fst crs)"
  shows "\<exists>cp. load L s = Inr cp
     \<and> (\<forall>a env. evaluate (pl_exec L) cp a env = meant_outcome re p crs a env)"
  using documented_policy [of "pl_toml L" s p crs, OF assms(1) _ _ _ assms(3)] assms(2) by (auto simp: load_def)

lemma test_policy_loads:
  assumes "reads_policy_tests re L pa ca" and "(s, p, crs) \<in> set test_policies"
  shows "\<exists>cp. load L s = Inr cp \<and> cp_policy cp = p
     \<and> (\<forall>a env. evaluate (pl_exec L) cp a env = meant_outcome re p crs a env)"
proof -
  have "policy_wf p" "pol_rules p = map snd crs" "texts_agree crs"
    using test_policies_ok assms(2) by (auto simp: list_all_iff)
  moreover have "pl_toml L s = Inr p" "cel_reads re (pl_cel L) (pl_exec L) (map fst crs)"
    using assms by (auto simp: reads_policy_tests_def)
  ultimately show ?thesis
    using documented_policy [of "pl_toml L" s p crs] by (simp add: load_def)
qed

lemma POLICY_tests_pass:
  assumes "reads_policy_tests re L pa ca"
  shows "green_action_is_allowed_silently L" "yellow_action_asks_and_sets_sandbox L"
    "http_get_to_trusted_host_is_allowed L" "red_exfiltration_is_denied L"
    "payment_is_ask_and_critical L" "cap_violation_escalates_allow_to_ask L"
    "unmatched_action_falls_to_restrictive_default L"
proof -
  have "(POLICY, policy_of ''test'' POLICY_rules, POLICY_rules) \<in> set test_policies"
    by (simp add: test_policies_def)
  from test_policy_loads [OF assms this] obtain cp where cp: "load L POLICY = Inr cp"
    and ev: "\<And>a env. evaluate (pl_exec L) cp a env = meant_outcome re (policy_of ''test'' POLICY_rules) POLICY_rules a env"
    by blast
  note d = compiled_def with_policy_def cp sum.case ev
  show "green_action_is_allowed_silently L"
    unfolding green_action_is_allowed_silently_def d by code_simp
  show "yellow_action_asks_and_sets_sandbox L"
    unfolding yellow_action_asks_and_sets_sandbox_def d by code_simp
  show "http_get_to_trusted_host_is_allowed L"
    unfolding http_get_to_trusted_host_is_allowed_def d by code_simp
  show "red_exfiltration_is_denied L"
    unfolding red_exfiltration_is_denied_def d by code_simp
  show "payment_is_ask_and_critical L"
    unfolding payment_is_ask_and_critical_def d by code_simp
  show "cap_violation_escalates_allow_to_ask L"
    unfolding cap_violation_escalates_allow_to_ask_def d by code_simp
  show "unmatched_action_falls_to_restrictive_default L"
    unfolding unmatched_action_falls_to_restrictive_default_def d by code_simp
qed


text \<open>A test on one policy passes if it does for the documented meaning of that policy.\<close>

lemma with_policy_passes:
  assumes "reads_policy_tests re L pa ca" and "(s, p, crs) \<in> set test_policies"
    and "\<And>cp. cp_policy cp = p \<Longrightarrow> (\<And>a env. evaluate (pl_exec L) cp a env = meant_outcome re p crs a env)
           \<Longrightarrow> t cp"
  shows "with_policy L s t"
  using test_policy_loads [OF assms(1,2)] assms(3) by (auto simp: with_policy_def)

lemma is_ask_iff: "is_ask d \<longleftrightarrow> kind_of_decision d = DK_Ask"
  by (cases d) (simp_all add: is_ask_def)

lemma is_deny_iff: "is_deny d \<longleftrightarrow> kind_of_decision d = DK_Deny"
  by (cases d) (simp_all add: is_deny_def)

lemma one_rule_decision:
  assumes "cond_met re (build_context a env) c" and "\<not> action_is_critical a"
  shows "out_decision (meant_outcome re p [(c, r)] a env) = rule_verdict a r"
  using assms by (simp add: meant_outcome_def met_rules_def evaluate_spec_def critical_floor_noncritical)

lemma bulk_decision:
  "kind_of_decision (out_decision (meant_outcome re p (map fst bulk_rules)
      (test_action K_Delete ''fs.delete'' (JObj kvs) None) env)) =
     (if cap_violated count_cap (test_action K_Delete ''fs.delete'' (JObj kvs) None) then DK_Ask else DK_Allow)"
proof -
  let ?a = "test_action K_Delete ''fs.delete'' (JObj kvs) None"
  have a: "act_kind ?a = K_Delete" "\<not> action_is_critical ?a"
    by (simp_all add: test_action_def action_with_capability_def action_is_critical_def)
  then have "cond_met re (build_context ?a env) (C_Is [''kind''] ''Delete'')"
    by (simp add: cond_met_simps)
  from one_rule_decision [OF this a(2)] show ?thesis
    by (simp add: bulk_rules_def capped_def on_def rule_on_def rule_verdict_kind cap_holds_def max_def
        less_eq_decision_kind_def)
qed

lemma own_policy_tests_pass:
  assumes "reads_policy_tests re L pa ca"
  shows "most_restrictive_wins_across_matching_rules L"
    "count_cap_escalates_and_fails_safe L"
    "currency_cap_requires_a_matching_currency L"
    "evaluate_is_independent_across_calls L"
    "critical_capability_allow_rule_is_floored_to_ask L"
    "unmarked_allow_cannot_bypass_the_floor L"
    "no_critical_capability_is_ever_allowed L"
proof -
  note passes = with_policy_passes [OF assms]
  show "most_restrictive_wins_across_matching_rules L"
    unfolding most_restrictive_wins_across_matching_rules_def
    by (rule passes [where p = "policy_of ''t'' strictest_rules" and crs = "strictest_rules"], simp add: test_policies_def)
      (simp only:, code_simp)
  have violated: "cap_violated count_cap (test_action K_Delete ''fs.delete'' (JObj [(''count'', JInt 99)]) None)"
    "cap_violated count_cap (test_action K_Delete ''fs.delete'' (JObj []) None)"
    "\<not> cap_violated count_cap (test_action K_Delete ''fs.delete'' (JObj [(''count'', JInt 3)]) None)"
    by (simp_all add: cap_violated_iff count_cap_def test_action_def action_with_capability_def arg_number_def
        f64_of_int_exact)
  show "count_cap_escalates_and_fails_safe L"
    unfolding count_cap_escalates_and_fails_safe_def
    by (rule passes [where p = "policy_of ''t'' (map fst bulk_rules)" and crs = "map fst bulk_rules"], simp add: test_policies_def)
      (simp only: Let_def args1_def is_ask_iff kind_of_decision_Allow_iff [symmetric] bulk_decision violated, simp)
  show "currency_cap_requires_a_matching_currency L"
    unfolding currency_cap_requires_a_matching_currency_def
    by (rule passes [where p = "policy_of ''t'' (map fst pay_rules)" and crs = "map fst pay_rules"], simp add: test_policies_def)
      (simp only:, code_simp)
  show "evaluate_is_independent_across_calls L"
    unfolding evaluate_is_independent_across_calls_def
    by (rule passes [where p = "policy_of ''t'' get_rules" and crs = "get_rules"], simp add: test_policies_def)
      (simp only:, code_simp)
  show "critical_capability_allow_rule_is_floored_to_ask L"
    unfolding critical_capability_allow_rule_is_floored_to_ask_def
    by (rule passes [where p = "policy_of ''reckless'' reckless_rules" and crs = "reckless_rules"], simp add: test_policies_def)
      (simp only:, code_simp)
  show "unmarked_allow_cannot_bypass_the_floor L"
    unfolding unmarked_allow_cannot_bypass_the_floor_def
    by (rule passes [where p = "policy_of ''sneaky-pack'' sneaky_rules" and crs = "sneaky_rules"], simp add: test_policies_def)
      (simp only:, code_simp)
  show "no_critical_capability_is_ever_allowed L"
    unfolding no_critical_capability_is_ever_allowed_def
    by (rule passes [where p = "policy_of ''allow-all'' allow_all_rules" and crs = "allow_all_rules"], simp add: test_policies_def)
      (simp only:, code_simp)
qed

lemma rejected_tests_pass:
  assumes "reads_policy_tests re L pa ca"
  shows "permissive_default_is_rejected L" "duplicate_rule_id_is_rejected L"
    "invalid_when_expression_is_rejected L" "unsupported_version_is_rejected L"
proof -
  have t: "pl_toml L permissive_text = Inr ((policy_of ''t'' [])\<lparr>pol_default := DK_Allow\<rparr>)"
    "pl_toml L (plain_text ''t'' duplicate_rules) = Inr (policy_of ''t'' duplicate_rules)"
    "pl_toml L invalid_when_text = Inr ((policy_of ''t'' [])\<lparr>pol_rules := [bad_rule]\<rparr>)"
    "pl_toml L unsupported_text = Inr ((policy_of ''t'' [])\<lparr>pol_version := 2\<rparr>)"
    using assms by (simp_all add: reads_policy_tests_def rejected_policies_def)
  note d = load_def compiled_from_toml_str_def policy_from_toml_str_def validate_structure_def
  show "permissive_default_is_rejected L"
    by (simp add: permissive_default_is_rejected_def d t policy_of_def)
  show "unsupported_version_is_rejected L"
    by (simp add: unsupported_version_is_rejected_def d t policy_of_def)
  show "duplicate_rule_id_is_rejected L"
    by (simp add: duplicate_rule_id_is_rejected_def d policy_of_def t(2) [unfolded policy_of_def])
      (simp add: duplicate_rules_def on_def rule_on_def)
  obtain m where "pl_cel L INVALID_WHEN = Inl m"
    using assms by (cases "pl_cel L INVALID_WHEN") (auto simp: reads_policy_tests_def)
  then show "invalid_when_expression_is_rejected L"
    by (simp add: invalid_when_expression_is_rejected_def d t policy_of_def compile_def bad_rule_def rule_on_def)
qed

lemma shipped_tests_pass:
  assumes "reads_policy_tests re L pa ca"
  shows "shipped_default_policy_compiles L pa" "shipped_coding_agent_policy_behaves L ca"
proof -
  have pa: "pl_toml L pa = Inr personal_assistant_policy"
    "cel_reads re (pl_cel L) (pl_exec L) (map fst personal_assistant_rules)"
    and ca: "pl_toml L ca = Inr coding_agent_policy" "cel_reads re (pl_cel L) (pl_exec L) (map fst coding_agent_rules)"
    and rx: "re DESTRUCTIVE ''rm -rf /''" "\<not> re DESTRUCTIVE ''git status''"
    using assms by (auto simp: reads_policy_tests_def)
  from documented_policy [of "pl_toml L", OF pa(1) shipped_policies_wf(2) _ shipped_texts(2) pa(2)]
  show "shipped_default_policy_compiles L pa"
    by (auto simp: shipped_default_policy_compiles_def with_policy_def load_def personal_assistant_policy_def
        policy_of_def)
  from documented_policy [of "pl_toml L", OF ca(1) shipped_policies_wf(1) _ shipped_texts(1) ca(2)] obtain cp
    where cp: "load L ca = Inr cp" "cp_policy cp = coding_agent_policy"
      and ev: "\<And>a env. evaluate (pl_exec L) cp a env = meant_outcome re coding_agent_policy coding_agent_rules a env"
    by (auto simp: load_def)
  have k: "kind_of_decision (out_decision (evaluate (pl_exec L) cp a env)) =
      (if destructive_command re a \<or> leaks_outside env a then DK_Deny
       else if (act_kind a = K_FileRead \<or> trusted_get env a) \<and> \<not> action_is_critical a then DK_Allow
       else DK_Ask)" for a env
    using coding_agent_kind [of "pl_toml L", OF ca] cp(1) by (simp add: load_def)
  have e: "destructive_command re (test_action K_Exec t (args1 ''cmd'' (JStr c)) None) \<longleftrightarrow> re DESTRUCTIVE c"
    "\<not> destructive_command re (test_action K_FileRead t v None)" "\<not> leaks_outside env (test_action k' t v None)"
    "act_kind (test_action k' t v None) = k'" "\<not> action_is_critical (test_action k' t v None)"
    "\<not> trusted_get env (test_action k' t v None)" for t c v k'
    by (simp_all add: destructive_command_def test_action_def action_with_capability_def args1_def
        leaks_outside_def action_is_critical_def trusted_get_def trusted_host_def)
  have "out_critical (evaluate (pl_exec L) cp (test_action K_Exec ''Bash'' (args1 ''cmd'' (JStr ''rm -rf /'')) None) env)"
    unfolding ev meant_outcome_def critical_floor_flag evaluate_spec_flags met_rules_def coding_agent_rules_def
      shipped_defs using rx(1)
    by (simp add: cond_met_simps test_action_def action_with_capability_def args1_def)
  then show "shipped_coding_agent_policy_behaves L ca"
    using rx cp k by (simp add: shipped_coding_agent_policy_behaves_def with_policy_def is_ask_iff is_deny_iff Let_def
        kind_of_decision_Allow_iff [symmetric] e coding_agent_policy_def policy_of_def del: kind_of_decision_Allow_iff)
qed


definition policy_suite :: "'prog policy_libs \<Rightarrow> string \<Rightarrow> string \<Rightarrow> bool list" where
  "policy_suite L assistant_toml coding_toml =
     [green_action_is_allowed_silently L, yellow_action_asks_and_sets_sandbox L,
      http_get_to_trusted_host_is_allowed L, red_exfiltration_is_denied L, payment_is_ask_and_critical L,
      cap_violation_escalates_allow_to_ask L, unmatched_action_falls_to_restrictive_default L,
      most_restrictive_wins_across_matching_rules L, permissive_default_is_rejected L,
      duplicate_rule_id_is_rejected L, invalid_when_expression_is_rejected L,
      unsupported_version_is_rejected L, shipped_default_policy_compiles L assistant_toml,
      tools_classification_map_parses L, shipped_coding_agent_policy_behaves L coding_toml,
      count_cap_escalates_and_fails_safe L, currency_cap_requires_a_matching_currency L,
      evaluate_is_independent_across_calls L, unknown_field_is_rejected L,
      critical_capability_allow_rule_is_floored_to_ask L, unmarked_allow_cannot_bypass_the_floor L,
      no_critical_capability_is_ever_allowed L]"

text \<open>
  The unit tests of the policy crate. With a TOML parser and an interpreter of CEL that read the
  texts of the tests as documented, every test of the crate passes on the model of its engine.
\<close>

theorem policy_tests_pass:
  assumes "reads_policy_tests re L assistant_toml coding_toml"
  shows "list_all id (policy_suite L assistant_toml coding_toml)"
  using POLICY_tests_pass [OF assms] own_policy_tests_pass [OF assms] rejected_tests_pass [OF assms]
    shipped_tests_pass [OF assms] schema_tests_pass [OF assms]
  by (simp add: policy_suite_def)

subsection \<open>An instance\<close>

definition ex_texts :: "(string \<times> (string, policy) result) list" where
  "ex_texts = map (\<lambda>(s, p, crs). (s, Inr p)) test_policies @ rejected_policies
     @ [(tools_text, Inr tools_policy), (''assistant'', Inr personal_assistant_policy), (''coding'', Inr coding_agent_policy)]"

definition ex_conds :: "cond list" where
  "ex_conds = remdups (concat (map (\<lambda>(s, p, crs). map fst crs) test_policies)
     @ map fst personal_assistant_rules @ map fst coding_agent_rules)"

definition ex_libs :: "string policy_libs" where
  "ex_libs =
     \<lparr>pl_toml = (\<lambda>s. case map_of ex_texts s of Some r \<Rightarrow> r | None \<Rightarrow> Inl []),
      pl_cel = (\<lambda>s. if s = INVALID_WHEN then Inl [] else Inr s), pl_exec = reading_exec ex_re ex_conds\<rparr>"

definition ex_toml :: toml_lib where
  "ex_toml =
     \<lparr>tl_parse = (\<lambda>s. Inr (if length s = 135 then typo_entries else tools_entries)),
      tl_variant = (\<lambda>v. case v of TV_Str s \<Rightarrow> Some s | _ \<Rightarrow> None),
      tl_text = (\<lambda>_. []), tl_mismatch = (\<lambda>_. [])\<rparr>"

lemma ex_toml_mismatch: "tl_mismatch ex_toml es = []"
  by (simp add: ex_toml_def)

text \<open>No two of the texts have the same length.\<close>

lemma ex_lengths: "map (\<lambda>x. length (fst x)) ex_texts =
    [879, 206, 167, 150, 168, 127, 151, 171, 53, 160, 123, 51, 99, 9, 6]" "length typo_text = 135" "length tools_text = 99"
  by code_simp+

lemma ex_libs_toml:
  assumes "(s, r) \<in> set ex_texts"
  shows "pl_toml ex_libs s = r"
proof -
  have "map length (map fst ex_texts) = map (\<lambda>x. length (fst x)) ex_texts" by simp
  also have "distinct \<dots>" unfolding ex_lengths by simp
  finally have "distinct (map fst ex_texts)" by (rule distinct_map [THEN iffD1, THEN conjunct1])
  from map_of_is_SomeI [OF this assms] show ?thesis by (simp add: ex_libs_def)
qed

lemma conds_included:
  "(s, p, crs) \<in> set ts \<Longrightarrow> set (map fst crs) \<subseteq> set (concat (map (\<lambda>(s, p, crs). map fst crs) ts))"
  by (induction ts) auto

lemma ex_libs_cel: "set cs \<subseteq> set ex_conds \<Longrightarrow> cel_reads ex_re (pl_cel ex_libs) (pl_exec ex_libs) cs"
proof -
  assume cs: "set cs \<subseteq> set ex_conds"
  have "distinct (map cond_text ex_conds)" and i: "INVALID_WHEN \<notin> set (map cond_text ex_conds)"
    by code_simp+
  from reading_exec_reads [OF this(1), of ex_re] i
  have "cel_reads ex_re (pl_cel ex_libs) (pl_exec ex_libs) ex_conds"
    unfolding cel_reads_def ex_libs_def policy_libs.simps set_map by (metis image_eqI)
  from cel_reads_mono [OF this cs] show ?thesis .
qed

theorem policy_tests_pass_witness:
  "list_all id (policy_suite ex_libs ''assistant'' ''coding'')"
proof (rule policy_tests_pass [where re = ex_re])
  have "length typo_text \<notin> set (map (\<lambda>x. length (fst x)) ex_texts)"
    unfolding ex_lengths by simp
  then have "typo_text \<notin> set (map fst ex_texts)" by force
  then have "map_of ex_texts typo_text = None"
    by (simp add: map_of_eq_None_iff)
  then have "pl_toml ex_libs typo_text = Inl []"
    by (simp add: ex_libs_def)
  moreover have "tl_parse ex_toml typo_text = Inr typo_entries" "tl_parse ex_toml tools_text = Inr tools_entries"
    using ex_lengths(2,3) by (simp_all add: ex_toml_def)
  moreover have "pl_toml ex_libs tools_text = Inr tools_policy"
    by (rule ex_libs_toml) (simp add: ex_texts_def)
  moreover have "tools_entries = policy_toml None tools_policy" by code_simp
  moreover have v: "tl_variant ex_toml (TV_Str s) = Some s" for s by (simp add: ex_toml_def)
  moreover have "policy_from_toml ex_toml (TV_Table (policy_toml None tools_policy)) = Some tools_policy"
    by (rule policy_from_toml_written [OF v]) (simp_all add: tools_policy_def policy_of_def)
  ultimately have typo: "\<exists>T. (\<forall>s. tl_variant T (TV_Str s) = Some s)
      \<and> (\<forall>(s, es) \<in> {(typo_text, typo_entries), (tools_text, tools_entries)}.
            tl_parse T s = Inr es \<and> pl_toml ex_libs s = read_policy T s)"
    by (intro exI [of _ ex_toml]) (auto simp: read_policy_def typo_rejected ex_toml_mismatch)
  have ok: "pl_toml ex_libs s = Inr p \<and> cel_reads ex_re (pl_cel ex_libs) (pl_exec ex_libs) (map fst crs)"
    if t: "(s, p, crs) \<in> set test_policies" for s p crs
  proof
    from t have "(s, Inr p :: (string, policy) result) \<in> (\<lambda>(s, p, crs). (s, Inr p)) ` set test_policies"
      by force
    then have "(s, Inr p) \<in> set ex_texts" by (simp add: ex_texts_def)
    then show "pl_toml ex_libs s = Inr p" by (rule ex_libs_toml)
    have "set (map fst crs) \<subseteq> set ex_conds"
      using conds_included [OF t] unfolding ex_conds_def set_remdups set_append by (rule le_supI1)
    then show "cel_reads ex_re (pl_cel ex_libs) (pl_exec ex_libs) (map fst crs)" by (rule ex_libs_cel)
  qed
  have bad: "pl_toml ex_libs s = r" if "(s, r) \<in> set rejected_policies" for s r
    using that by (intro ex_libs_toml) (simp add: ex_texts_def)
  have shipped: "pl_toml ex_libs ''assistant'' = Inr personal_assistant_policy"
    "pl_toml ex_libs ''coding'' = Inr coding_agent_policy"
    by (rule ex_libs_toml, simp add: ex_texts_def)+
  have "set (map fst personal_assistant_rules) \<subseteq> set ex_conds" "set (map fst coding_agent_rules) \<subseteq> set ex_conds"
    by (auto simp: ex_conds_def)
  note shipped = shipped this [THEN ex_libs_cel]
  have r: "\<not> is_ok (pl_cel ex_libs INVALID_WHEN)" "ex_re DESTRUCTIVE ''rm -rf /''"
    "\<not> ex_re DESTRUCTIVE ''git status''"
    by (simp_all add: ex_libs_def ex_re_def)
  have "\<forall>x \<in> set test_policies. case x of (s, p, crs) \<Rightarrow> pl_toml ex_libs s = Inr p
      \<and> cel_reads ex_re (pl_cel ex_libs) (pl_exec ex_libs) (map fst crs)"
    using ok by (intro ballI) (simp only: split_paired_all prod.case)
  moreover have "\<forall>x \<in> set rejected_policies. case x of (s, r) \<Rightarrow> pl_toml ex_libs s = r"
    using bad by (intro ballI) (simp only: split_paired_all prod.case)
  ultimately show "reads_policy_tests ex_re ex_libs ''assistant'' ''coding''"
    unfolding reads_policy_tests_def by (intro conjI typo shipped r)
qed

end
