(* ===== verification/Proxy_Tests.thy ===== *)
theory Proxy_Tests
  imports Policy_Tests
begin

text \<open>
  The unit tests of \<open>guardian-proxy/src/lib.rs\<close> and \<open>server.rs\<close>, as Booleans over the model (true
  where every assertion of the test holds). The parsers, the interpreter, the HTTP library, the
  cryptography and the serializer are parameters; \<open>proxy_tests_pass\<close> shows that the model passes
  the tests whatever they are, as long as they do on the values of the tests what is documented.
\<close>

subsection \<open>The mediation core\<close>

definition bank_rules :: "((cond \<times> rule) \<times> string list) list" where
  "bank_rules =
     [(on ''allow-get'' (C_And (C_Is [''kind''] ''HttpRequest'') (C_Is [''args'', ''method''] ''GET'')) DK_Allow, []),
      (shipped_rule ''deny-post-to-bank''
         (C_And (C_And (C_Is [''kind''] ''HttpRequest'') (C_Is [''args'', ''method''] ''POST''))
            (C_Is [''context'', ''host''] ''bank.local''))
         DK_Deny (Some ''Money movement on the bank is blocked.''),
       [explain_line ''Money movement on the bank is blocked.''])]"

definition BANK_POLICY :: string where
  "BANK_POLICY = policy_text ''web-bank'' bank_rules"

definition bank_env :: eval_env where
  "bank_env = \<lparr>env_user_home = ''/h'', env_trusted_hosts = []\<rparr>"

definition bank_broker :: broker where
  "bank_broker = broker_new [(''bank.local'', ''tok'')]"

definition req :: "string \<Rightarrow> string \<Rightarrow> string \<Rightarrow> http_request" where
  "req method host path = \<lparr>hr_method = method, hr_host = host, hr_path = path\<rparr>"

fun is_block :: "proxy_outcome \<Rightarrow> bool" where
  "is_block (PO_Block _) = True"
| "is_block (PO_Forward _) = False"

definition mediated :: "'prog policy_libs \<Rightarrow> http_request \<Rightarrow> (proxy_outcome \<Rightarrow> bool) \<Rightarrow> bool" where
  "mediated L rq t = with_policy L BANK_POLICY (\<lambda>p. t (mediate (pl_exec L) rq p bank_env bank_broker))"

definition get_is_forwarded_with_brokered_authorization :: "'prog policy_libs \<Rightarrow> bool" where
  "get_is_forwarded_with_brokered_authorization L =
     mediated L (req ''GET'' ''bank.local'' ''/balance'') (\<lambda>out. out = PO_Forward (Some ''Bearer tok''))"

definition post_transfer_to_bank_is_blocked :: "'prog policy_libs \<Rightarrow> bool" where
  "post_transfer_to_bank_is_blocked L = mediated L (req ''POST'' ''bank.local'' ''/transfer'') is_block"

definition forward_to_unbrokered_host_has_no_authorization :: "'prog policy_libs \<Rightarrow> bool" where
  "forward_to_unbrokered_host_has_no_authorization L =
     mediated L (req ''GET'' ''other.host'' ''/x'') (\<lambda>out. out = PO_Forward None)"

definition host_is_normalized_for_policy_and_broker :: "'prog policy_libs \<Rightarrow> bool" where
  "host_is_normalized_for_policy_and_broker L \<longleftrightarrow>
     mediated L (req ''POST'' ''BANK.local:443'' ''/transfer'') is_block
     \<and> mediated L (req ''GET'' ''Bank.local:80'' ''/balance'') (\<lambda>out. out = PO_Forward (Some ''Bearer tok''))"

definition with_secret :: "action \<Rightarrow> action" where
  "with_secret a = a\<lparr>act_context := (act_context a)\<lparr>ctx_extra :=
     obj_insert ''body_contains_known_secret'' (JBool True) (ctx_extra (act_context a))\<rparr>\<rparr>"

definition exfiltration_tagged_for_secret_to_untrusted_host :: bool where
  "exfiltration_tagged_for_secret_to_untrusted_host =
     (act_capability (tag_exfiltration (with_secret (to_action (req ''POST'' ''evil.example'' ''/collect''))) [])
      = Some Cap_Exfiltration)"

definition secret_to_trusted_host_is_not_tagged :: bool where
  "secret_to_trusted_host_is_not_tagged =
     (act_capability (tag_exfiltration (with_secret (to_action (req ''POST'' ''api.example.com'' ''/'')))
        [''api.example.com'']) = None)"

definition no_secret_is_not_tagged :: bool where
  "no_secret_is_not_tagged =
     (act_capability (tag_exfiltration (to_action (req ''POST'' ''evil.example'' ''/'')) []) = None)"

definition tagged_exfiltration_is_floored_even_under_an_allowing_policy :: "'prog policy_libs \<Rightarrow> bool" where
  "tagged_exfiltration_is_floored_even_under_an_allowing_policy L = with_policy L BANK_POLICY (\<lambda>p.
     let a = tag_exfiltration (with_secret (to_action (req ''GET'' ''evil.example'' ''/leak''))) [];
         out = evaluate (pl_exec L) p a bank_env
     in is_ask (out_decision out) \<and> out_critical out)"

definition unmatched_request_fails_closed_to_block :: "'prog policy_libs \<Rightarrow> bool" where
  "unmatched_request_fails_closed_to_block L = mediated L (req ''PUT'' ''other.host'' ''/x'') is_block"

subsection \<open>The handler\<close>

definition TOKEN :: string where
  "TOKEN = ''s3cret-token-abcdef''"

definition web_rules :: "((cond \<times> rule) \<times> string list) list" where
  "web_rules = bank_rules @
     [(on ''allow-connect-bank''
         (C_And (C_Is [''args'', ''method''] ''CONNECT'') (C_Is [''context'', ''host''] ''bank.local'')) DK_Allow, []),
      (shipped_rule ''deny-exfiltration'' (C_Set [''context'', ''extra'', ''body_contains_known_secret'']) DK_Deny
         (Some ''Outbound request carries one of your stored credentials.''),
       [explain_line ''Outbound request carries one of your stored credentials.'']),
      (shipped_rule ''deny-websocket'' (C_Is [''context'', ''extra'', ''upgrade''] ''websocket'') DK_Deny
         (Some ''WebSocket upgrades are not allowed by this policy.''),
       [explain_line ''WebSocket upgrades are not allowed by this policy.''])]"

definition WEB_POLICY :: string where
  "WEB_POLICY = policy_text ''web-bank'' web_rules"

definition web_broker :: broker where
  "web_broker = broker_new [(''bank.local'', TOKEN)]"

text \<open>What the tests run with beside the policy libraries.\<close>

record ('sk, 'vk, 'prog) proxy_libs =
  xl_policy :: "'prog policy_libs"
  xl_crypto :: "('sk, 'vk) crypto"
  xl_ser_entry :: "audit_entry \<Rightarrow> (string, string) result"
  xl_http :: http_lib
  xl_show_f64 :: "f64 \<Rightarrow> string"
  xl_now_ms :: int

definition proxy_deps_of :: "('sk, 'vk, 'prog) proxy_libs \<Rightarrow> ('sk, 'vk, 'prog) proxy_deps" where
  "proxy_deps_of X = \<lparr>pd_crypto = xl_crypto X, pd_ser_entry = xl_ser_entry X, pd_cel = pl_exec (xl_policy X),
     pd_http = xl_http X\<rparr>"

definition with_handler ::
    "('sk, 'vk, 'prog) proxy_libs \<Rightarrow> string \<Rightarrow> broker \<Rightarrow> (('sk, 'prog) proxy_handler \<Rightarrow> bool) \<Rightarrow> bool" where
  "with_handler X s b t =
     with_policy (xl_policy X) s (\<lambda>p. t (proxy_handler_new p bank_env b (open_log empty_db)))"

definition proxy_handler_tested ::
    "('sk, 'vk, 'prog) proxy_libs \<Rightarrow> (('sk, 'prog) proxy_handler \<Rightarrow> bool) \<Rightarrow> bool" where
  "proxy_handler_tested X t = with_handler X WEB_POLICY web_broker t"

text \<open>A request by the parts the HTTP library parses its URI into.\<close>

definition request :: "string \<Rightarrow> string \<Rightarrow> string option \<Rightarrow> wire_request" where
  "request method host path =
     \<lparr>wr_method = method, wr_uri_host = Some host, wr_path_query = path, wr_headers = [], wr_body = Body (Inr [])\<rparr>"

text \<open>The synchronous path of the tests: no human attached.\<close>

definition mediate_request ::
    "('sk, 'vk, 'prog) proxy_libs \<Rightarrow> ('sk, 'prog) proxy_handler \<Rightarrow> wire_request \<Rightarrow> request_signals
       \<Rightarrow> request_or_response \<times> ('sk, 'prog) proxy_handler" where
  "mediate_request X h rq sig =
     (let dp = proxy_deps_of X; (a, out) = prepare dp (xl_now_ms X) h rq sig
      in (case proxy_record dp True a out h of
            (recorded, ev, h') \<Rightarrow>
              if \<not> recorded
              then (RR_Response (block_response
                      ''Guardian audit log unavailable; request blocked (fail-closed)''), h')
              else (respond (xl_http X) (xl_show_f64 X) (ph_broker h) rq a out False, h')))"

fun is_forbidden :: "request_or_response \<Rightarrow> bool" where
  "is_forbidden (RR_Response r) = (wp_status r = 403)"
| "is_forbidden (RR_Request _) = False"

definition authorization_of :: "http_lib \<Rightarrow> request_or_response \<Rightarrow> string option option" where
  "authorization_of hl r =
     (case r of RR_Request rq \<Rightarrow> Some (header_str hl ''authorization'' rq) | RR_Response _ \<Rightarrow> None)"

fun has_authorization :: "request_or_response \<Rightarrow> bool option" where
  "has_authorization (RR_Request rq) = Some (map_of (wr_headers rq) ''authorization'' \<noteq> None)"
| "has_authorization (RR_Response _) = None"

definition allowed_request_is_forwarded_with_brokered_authorization_and_audited ::
    "('sk, 'vk, 'prog) proxy_libs \<Rightarrow> bool" where
  "allowed_request_is_forwarded_with_brokered_authorization_and_audited X = proxy_handler_tested X (\<lambda>h.
     case mediate_request X h (request ''GET'' ''bank.local'' (Some ''/balance'')) uninspected of
       (out, h') \<Rightarrow> authorization_of (xl_http X) out = Some (Some (''Bearer '' @ TOKEN))
                   \<and> audit_len (ph_audit h') = 1)"

definition blocked_request_becomes_a_403_and_is_audited :: "('sk, 'vk, 'prog) proxy_libs \<Rightarrow> bool" where
  "blocked_request_becomes_a_403_and_is_audited X = proxy_handler_tested X (\<lambda>h.
     case mediate_request X h (request ''POST'' ''bank.local'' (Some ''/transfer'')) uninspected of
       (RR_Response r, h') \<Rightarrow> wp_status r = 403 \<and> map_of (wp_headers r) ''x-guardian-blocked'' \<noteq> None
                             \<and> audit_len (ph_audit h') = 1
     | (RR_Request _, h') \<Rightarrow> False)"

definition connect_to_allowed_host_passes_through_without_a_credential ::
    "('sk, 'vk, 'prog) proxy_libs \<Rightarrow> bool" where
  "connect_to_allowed_host_passes_through_without_a_credential X = proxy_handler_tested X (\<lambda>h.
     case mediate_request X h (request ''CONNECT'' ''bank.local'' None) uninspected of
       (out, h') \<Rightarrow> has_authorization out = Some False \<and> audit_len (ph_audit h') = 1)"

definition connect_to_unlisted_host_is_blocked :: "('sk, 'vk, 'prog) proxy_libs \<Rightarrow> bool" where
  "connect_to_unlisted_host_is_blocked X = proxy_handler_tested X (\<lambda>h.
     is_forbidden (fst (mediate_request X h (request ''CONNECT'' ''evil.host'' None) uninspected)))"

definition allowed_request_to_unbrokered_host_has_no_authorization ::
    "('sk, 'vk, 'prog) proxy_libs \<Rightarrow> bool" where
  "allowed_request_to_unbrokered_host_has_no_authorization X = proxy_handler_tested X (\<lambda>h.
     has_authorization (fst (mediate_request X h (request ''GET'' ''example.com'' (Some ''/page'')) uninspected))
       = Some False)"

definition agent_supplied_authorization_is_overwritten_by_broker_on_forward ::
    "('sk, 'vk, 'prog) proxy_libs \<Rightarrow> bool" where
  "agent_supplied_authorization_is_overwritten_by_broker_on_forward X = proxy_handler_tested X (\<lambda>h.
     let rq0 = request ''GET'' ''bank.local'' (Some ''/balance'');
         rq = rq0\<lparr>wr_headers := header_insert ''authorization'' ''Bearer attacker'' (wr_headers rq0)\<rparr>
     in authorization_of (xl_http X) (fst (mediate_request X h rq uninspected)) = Some (Some (''Bearer '' @ TOKEN)))"

definition secret_signals :: "nat \<Rightarrow> request_signals" where
  "secret_signals n = \<lparr>rs_inspected = True, rs_len = n, rs_secret = True, rs_websocket = False\<rparr>"

definition shipped_policy_blocks_exfiltration_through_the_proxy ::
    "('sk, 'vk, 'prog) proxy_libs \<Rightarrow> string \<Rightarrow> bool" where
  "shipped_policy_blocks_exfiltration_through_the_proxy X assistant_toml =
     with_handler X assistant_toml (broker_new []) (\<lambda>h.
       is_forbidden (fst (mediate_request X h (request ''POST'' ''evil.example'' (Some ''/collect''))
         (secret_signals 20))))"

definition outbound_body_carrying_a_known_secret_is_blocked_as_exfiltration ::
    "('sk, 'vk, 'prog) proxy_libs \<Rightarrow> bool" where
  "outbound_body_carrying_a_known_secret_is_blocked_as_exfiltration X = proxy_handler_tested X (\<lambda>h.
     is_forbidden (fst (mediate_request X h (request ''GET'' ''example.com'' (Some ''/collect''))
       (secret_signals 32))))"

definition websocket_upgrade_is_blocked_when_policy_denies_it :: "('sk, 'vk, 'prog) proxy_libs \<Rightarrow> bool" where
  "websocket_upgrade_is_blocked_when_policy_denies_it X = proxy_handler_tested X (\<lambda>h.
     is_forbidden (fst (mediate_request X h (request ''GET'' ''example.com'' (Some ''/ws''))
       (uninspected\<lparr>rs_websocket := True\<rparr>))))"

text \<open>The body of the test, by the text that announces its length.\<close>

definition leaking_request :: wire_request where
  "leaking_request =
     (request ''POST'' ''example.com'' (Some ''/collect''))\<lparr>
        wr_headers := [(''content-length'', ''35'')],
        wr_body := Body (Inr (''note=hello&leak='' @ TOKEN))\<rparr>"

definition inspect_detects_a_known_secret_in_the_request_body :: "('sk, 'vk, 'prog) proxy_libs \<Rightarrow> bool" where
  "inspect_detects_a_known_secret_in_the_request_body X = proxy_handler_tested X (\<lambda>h.
     let sig = snd (inspect (xl_http X) (ph_broker h) leaking_request) in rs_inspected sig \<and> rs_secret sig)"

definition inspect_skips_bodies_without_a_content_length :: "('sk, 'vk, 'prog) proxy_libs \<Rightarrow> bool" where
  "inspect_skips_bodies_without_a_content_length X = proxy_handler_tested X (\<lambda>h.
     let sig = snd (inspect (xl_http X) (ph_broker h) (request ''POST'' ''example.com'' (Some ''/x'')))
     in \<not> rs_inspected sig \<and> \<not> rs_secret sig)"

text \<open>An approver that always answers the same way, and the path of a request that is not recorded.\<close>

definition always :: "int \<Rightarrow> bool \<Rightarrow> proxy_io" where
  "always now answer = \<lparr>pio_now_ms = now, pio_audit_ok = True, pio_approve = (\<lambda>_. answer)\<rparr>"

definition resolved_put ::
    "('sk, 'vk, 'prog) proxy_libs \<Rightarrow> bool \<Rightarrow> ('sk, 'prog) proxy_handler \<Rightarrow> request_or_response" where
  "resolved_put X answer h =
     (let rq = request ''PUT'' ''example.com'' (Some ''/x'');
          (a, out) = prepare (proxy_deps_of X) (xl_now_ms X) h rq uninspected
      in fst (resolve_and_respond (xl_http X) (xl_show_f64 X) (always (xl_now_ms X) answer) h rq a out))"

definition ask_is_allowed_when_the_human_approves :: "('sk, 'vk, 'prog) proxy_libs \<Rightarrow> bool" where
  "ask_is_allowed_when_the_human_approves X = proxy_handler_tested X (\<lambda>h.
     case resolved_put X True (with_approver h) of RR_Request _ \<Rightarrow> True | RR_Response _ \<Rightarrow> False)"

definition ask_is_blocked_when_the_human_denies :: "('sk, 'vk, 'prog) proxy_libs \<Rightarrow> bool" where
  "ask_is_blocked_when_the_human_denies X = proxy_handler_tested X (\<lambda>h.
     is_forbidden (resolved_put X False (with_approver h)))"

definition an_expired_capability_blocks_an_otherwise_allowed_request ::
    "('sk, 'vk, 'prog) proxy_libs \<Rightarrow> bool" where
  "an_expired_capability_blocks_an_otherwise_allowed_request X =
     with_handler X WEB_POLICY
       (set_caveats web_broker ''bank.local'' (caveats_permissive\<lparr>cv_not_after_ms := Some 1\<rparr>)) (\<lambda>h.
       is_forbidden (fst (mediate_request X h (request ''GET'' ''bank.local'' (Some ''/balance'')) uninspected)))"

definition ask_fails_closed_without_an_approver :: "('sk, 'vk, 'prog) proxy_libs \<Rightarrow> bool" where
  "ask_fails_closed_without_an_approver X = proxy_handler_tested X (\<lambda>h.
     is_forbidden (resolved_put X True h))"

subsection \<open>What the libraries do on the values of the tests\<close>

definition bank_policy :: policy where
  "bank_policy = policy_of ''web-bank'' (map fst bank_rules)"

definition web_policy :: policy where
  "web_policy = policy_of ''web-bank'' (map fst web_rules)"

definition visible_ascii :: "char \<Rightarrow> bool" where
  "visible_ascii c = (of_char c \<in> {32 .. (126 :: int)})"

definition reads_proxy_tests ::
    "(string \<Rightarrow> string \<Rightarrow> bool) \<Rightarrow> ('sk, 'vk, 'prog) proxy_libs \<Rightarrow> string \<Rightarrow> bool" where
  "reads_proxy_tests re X assistant_toml \<longleftrightarrow>
     (let L = xl_policy X
      in pl_toml L BANK_POLICY = Inr bank_policy \<and> pl_toml L WEB_POLICY = Inr web_policy
       \<and> cel_reads re (pl_cel L) (pl_exec L) (map (fst \<circ> fst) web_rules)
       \<and> pl_toml L assistant_toml = Inr personal_assistant_policy
       \<and> cel_reads re (pl_cel L) (pl_exec L) (map fst personal_assistant_rules))
     \<and> (\<forall>e. is_ok (xl_ser_entry X e)) \<and> 1 < xl_now_ms X
     \<and> (\<forall>v. list_all visible_ascii v \<longrightarrow> hl_to_str (xl_http X) v = Some v \<and> hl_value_ok (xl_http X) v)"

subsection \<open>The tests of the mediation core pass\<close>

lemma proxy_test_policies_ok:
  "policy_wf bank_policy \<and> pol_rules bank_policy = map snd (map fst bank_rules) \<and> texts_agree (map fst bank_rules)"
  "policy_wf web_policy \<and> pol_rules web_policy = map snd (map fst web_rules) \<and> texts_agree (map fst web_rules)"
  by code_simp+

lemma proxy_policies_load:
  assumes "reads_proxy_tests re X pa"
  shows "\<exists>cp. load (xl_policy X) BANK_POLICY = Inr cp
     \<and> (\<forall>a env. evaluate (pl_exec (xl_policy X)) cp a env = meant_outcome re bank_policy (map fst bank_rules) a env)"
    (is ?bank)
    and "\<exists>cp. load (xl_policy X) WEB_POLICY = Inr cp
     \<and> (\<forall>a env. evaluate (pl_exec (xl_policy X)) cp a env = meant_outcome re web_policy (map fst web_rules) a env)"
    (is ?web)
    and "\<exists>cp. load (xl_policy X) pa = Inr cp
     \<and> (\<forall>a env. evaluate (pl_exec (xl_policy X)) cp a env
          = meant_outcome re personal_assistant_policy personal_assistant_rules a env)" (is ?shipped)
proof -
  note r = assms [unfolded reads_proxy_tests_def Let_def]
  have web: "cel_reads re (pl_cel (xl_policy X)) (pl_exec (xl_policy X)) (map fst (map fst web_rules))"
    using r by simp
  have "set (map fst (map fst bank_rules)) \<subseteq> set (map fst (map fst web_rules))"
    unfolding web_rules_def map_append set_append by blast
  from cel_reads_mono [OF web this]
  have bank: "cel_reads re (pl_cel (xl_policy X)) (pl_exec (xl_policy X)) (map fst (map fst bank_rules))" .
  show ?bank using r by (intro documented_load proxy_test_policies_ok bank) simp
  show ?web using r by (intro documented_load proxy_test_policies_ok web) simp
  show ?shipped
    using r shipped_policies_wf(2) shipped_texts(2)
    by (intro documented_load) (simp_all add: personal_assistant_policy_def policy_of_def)
qed

lemma mediation_tests_pass:
  assumes "reads_proxy_tests re X pa"
  shows "get_is_forwarded_with_brokered_authorization (xl_policy X)"
    "post_transfer_to_bank_is_blocked (xl_policy X)"
    "forward_to_unbrokered_host_has_no_authorization (xl_policy X)"
    "host_is_normalized_for_policy_and_broker (xl_policy X)"
    "tagged_exfiltration_is_floored_even_under_an_allowing_policy (xl_policy X)"
    "unmatched_request_fails_closed_to_block (xl_policy X)"
proof -
  obtain cp where cp: "load (xl_policy X) BANK_POLICY = Inr cp"
    and ev: "\<And>a env. evaluate (pl_exec (xl_policy X)) cp a env
               = meant_outcome re bank_policy (map fst bank_rules) a env"
    using proxy_policies_load(1) [OF assms] by blast
  note d = mediated_def with_policy_def cp sum.case mediate_def Let_def ev
  show "get_is_forwarded_with_brokered_authorization (xl_policy X)"
    unfolding get_is_forwarded_with_brokered_authorization_def d by code_simp
  show "post_transfer_to_bank_is_blocked (xl_policy X)"
    unfolding post_transfer_to_bank_is_blocked_def d by code_simp
  show "forward_to_unbrokered_host_has_no_authorization (xl_policy X)"
    unfolding forward_to_unbrokered_host_has_no_authorization_def d by code_simp
  show "host_is_normalized_for_policy_and_broker (xl_policy X)"
    unfolding host_is_normalized_for_policy_and_broker_def d by code_simp
  show "tagged_exfiltration_is_floored_even_under_an_allowing_policy (xl_policy X)"
    unfolding tagged_exfiltration_is_floored_even_under_an_allowing_policy_def d by code_simp
  show "unmatched_request_fails_closed_to_block (xl_policy X)"
    unfolding unmatched_request_fails_closed_to_block_def d by code_simp
qed

lemma tagging_tests_pass:
  "exfiltration_tagged_for_secret_to_untrusted_host"
  "secret_to_trusted_host_is_not_tagged" "no_secret_is_not_tagged"
  by code_simp+

subsection \<open>The tests of the handler pass\<close>

lemma proxy_deps_of_sel [simp]:
  "pd_crypto (proxy_deps_of X) = xl_crypto X" "pd_ser_entry (proxy_deps_of X) = xl_ser_entry X"
  "pd_cel (proxy_deps_of X) = pl_exec (xl_policy X)" "pd_http (proxy_deps_of X) = xl_http X"
  by (simp_all add: proxy_deps_of_def)

lemma mediate_request_fresh:
  assumes "ph_audit h = open_log empty_db" and "\<forall>e. is_ok (xl_ser_entry X e)"
  shows "fst (mediate_request X h rq sig) =
      (case prepare (proxy_deps_of X) (xl_now_ms X) h rq sig of
         (a, out) \<Rightarrow> respond (xl_http X) (xl_show_f64 X) (ph_broker h) rq a out False)"
    and "audit_len (ph_audit (snd (mediate_request X h rq sig))) = 1"
proof -
  obtain a out where p: "prepare (proxy_deps_of X) (xl_now_ms X) h rq sig = (a, out)"
    by (cases "prepare (proxy_deps_of X) (xl_now_ms X) h rq sig")
  let ?e = "for_decision a (out_decision out) (out_matched_rule out) None None (out_critical out)"
  obtain c where c: "xl_ser_entry X ?e = Inr c"
    using assms(2) by (metis is_ok_iff)
  have r: "is_ok (fst (audit_append (xl_crypto X) (xl_ser_entry X) True (ph_audit h) ?e))"
    "audit_len (snd (audit_append (xl_crypto X) (xl_ser_entry X) True (ph_audit h) ?e)) = 1"
    by (simp_all add: assms(1) open_log_def audit_append_def c from_conn_def empty_db_def audit_len_def Let_def)
  then show "fst (mediate_request X h rq sig) =
      (case prepare (proxy_deps_of X) (xl_now_ms X) h rq sig of
         (a, out) \<Rightarrow> respond (xl_http X) (xl_show_f64 X) (ph_broker h) rq a out False)"
    "audit_len (ph_audit (snd (mediate_request X h rq sig))) = 1"
    by (simp_all add: mediate_request_def p proxy_record_def Let_def split_beta)
qed

lemma respond_blocked:
  assumes "kind_of_decision (out_decision out) \<noteq> DK_Allow"
  shows "\<exists>r. respond hl sf b rq a out fresh = RR_Response r \<and> wp_status r = 403
     \<and> map_of (wp_headers r) ''x-guardian-blocked'' \<noteq> None"
  using assms by (cases "out_decision out") (simp_all add: respond_def classify_def block_response_def)

lemma respond_allowed:
  assumes "kind_of_decision (out_decision out) = DK_Allow" and "ctx_host (act_context a) = Some host"
    and "br_caveats b = []"
  shows "respond hl sf b rq a out fresh = RR_Request (case broker_token_for b host of
       None \<Rightarrow> rq
     | Some t \<Rightarrow> if wr_method rq \<noteq> ''CONNECT'' \<and> hl_value_ok hl (''Bearer '' @ t)
        then rq\<lparr>wr_headers := header_insert ''authorization'' (''Bearer '' @ t) (wr_headers rq)\<rparr> else rq)"
  using assms by (simp add: respond_def classify_def broker_authorize_def split: option.split)

text \<open>What the handler of the tests decides on a request to a known host.\<close>

definition web_verdict :: "(string \<Rightarrow> string \<Rightarrow> bool) \<Rightarrow> wire_request \<Rightarrow> request_signals \<Rightarrow> int \<Rightarrow> decision_kind" where
  "web_verdict re rq sig now =
     (let a0 = to_action (summarize \<lparr>hl_to_str = Some, hl_value_ok = (\<lambda>_. True)\<rparr> rq);
          a = tag_exfiltration (a0\<lparr>act_context := (act_context a0)\<lparr>ctx_timestamp_ms := now,
                ctx_extra := fold (\<lambda>(k, v). obj_insert k v) (signal_fields sig) (ctx_extra (act_context a0))\<rparr>\<rparr>) []
      in kind_of_decision (out_decision (meant_outcome re web_policy (map fst web_rules) a bank_env)))"

lemma web_verdicts:
  "web_verdict re (request ''GET'' ''bank.local'' (Some ''/balance'')) uninspected now = DK_Allow"
  "web_verdict re (request ''POST'' ''bank.local'' (Some ''/transfer'')) uninspected now = DK_Deny"
  "web_verdict re (request ''CONNECT'' ''bank.local'' None) uninspected now = DK_Allow"
  "web_verdict re (request ''CONNECT'' ''evil.host'' None) uninspected now = DK_Ask"
  "web_verdict re (request ''GET'' ''example.com'' (Some ''/page'')) uninspected now = DK_Allow"
  "web_verdict re (request ''GET'' ''example.com'' (Some ''/collect'')) (secret_signals 32) now = DK_Deny"
  "web_verdict re (request ''GET'' ''example.com'' (Some ''/ws'')) (uninspected\<lparr>rs_websocket := True\<rparr>) now = DK_Deny"
  "web_verdict re (request ''PUT'' ''example.com'' (Some ''/x'')) uninspected now = DK_Ask"
  by code_simp+

definition web_handler :: "'prog compiled_policy \<Rightarrow> broker \<Rightarrow> ('sk, 'prog) proxy_handler" where
  "web_handler cp b = proxy_handler_new cp bank_env b (open_log empty_db)"

lemma web_handler_sel [simp]:
  "ph_policy (web_handler cp b) = cp" "ph_env (web_handler cp b) = bank_env"
  "ph_broker (web_handler cp b) = b" "ph_audit (web_handler cp b) = open_log empty_db"
  "\<not> ph_approver (web_handler cp b)"
  by (simp_all add: web_handler_def proxy_handler_new_def)

lemma web_prepare:
  assumes "\<And>a env. evaluate (pl_exec (xl_policy X)) cp a env = meant_outcome re web_policy (map fst web_rules) a env"
    and "wr_uri_host rq = Some u" and "ph_policy h = cp" and "ph_env h = bank_env"
  shows "prepare (proxy_deps_of X) now h rq sig = (a, out) \<Longrightarrow>
     kind_of_decision (out_decision out) = web_verdict re rq sig now \<and> ctx_host (act_context a) = Some (normalize_host u)
     \<and> ctx_timestamp_ms (act_context a) = now"
  using assms(2)
  by (auto simp: prepare_def Let_def assms(1,3,4) web_verdict_def bank_env_def summarize_def to_action_def
      tag_exfiltration_def)

lemma web_answer:
  assumes "reads_proxy_tests re X pa"
    and "\<And>a env. evaluate (pl_exec (xl_policy X)) cp a env = meant_outcome re web_policy (map fst web_rules) a env"
    and "wr_uri_host rq = Some u"
  shows "web_verdict re rq sig (xl_now_ms X) = DK_Allow \<Longrightarrow> br_caveats b = [] \<Longrightarrow>
      fst (mediate_request X (web_handler cp b) rq sig) = RR_Request (case broker_token_for b (normalize_host u) of
         None \<Rightarrow> rq
       | Some t \<Rightarrow> if wr_method rq \<noteq> ''CONNECT'' \<and> hl_value_ok (xl_http X) (''Bearer '' @ t)
          then rq\<lparr>wr_headers := header_insert ''authorization'' (''Bearer '' @ t) (wr_headers rq)\<rparr> else rq)"
    and "web_verdict re rq sig (xl_now_ms X) \<noteq> DK_Allow \<Longrightarrow>
      \<exists>r. fst (mediate_request X (web_handler cp b) rq sig) = RR_Response r \<and> wp_status r = 403
        \<and> map_of (wp_headers r) ''x-guardian-blocked'' \<noteq> None"
    and "audit_len (ph_audit (snd (mediate_request X (web_handler cp b) rq sig))) = 1"
proof -
  have ser: "\<forall>e. is_ok (xl_ser_entry X e)" using assms(1) by (simp add: reads_proxy_tests_def)
  obtain a out where p: "prepare (proxy_deps_of X) (xl_now_ms X) (web_handler cp b) rq sig = (a, out)"
    by (cases "prepare (proxy_deps_of X) (xl_now_ms X) (web_handler cp b) rq sig")
  from web_prepare [OF assms(2,3) _ _ p]
  have k: "kind_of_decision (out_decision out) = web_verdict re rq sig (xl_now_ms X)"
    and u: "ctx_host (act_context a) = Some (normalize_host u)" by simp_all
  have m: "fst (mediate_request X (web_handler cp b) rq sig) =
      respond (xl_http X) (xl_show_f64 X) b rq a out False"
    using mediate_request_fresh(1) [OF _ ser, of "web_handler cp b" rq sig] p by simp
  show "audit_len (ph_audit (snd (mediate_request X (web_handler cp b) rq sig))) = 1"
    by (rule mediate_request_fresh(2) [OF _ ser]) simp
  show "web_verdict re rq sig (xl_now_ms X) \<noteq> DK_Allow \<Longrightarrow>
      \<exists>r. fst (mediate_request X (web_handler cp b) rq sig) = RR_Response r \<and> wp_status r = 403
        \<and> map_of (wp_headers r) ''x-guardian-blocked'' \<noteq> None"
    unfolding m by (rule respond_blocked) (simp add: k)
  show "web_verdict re rq sig (xl_now_ms X) = DK_Allow \<Longrightarrow> br_caveats b = [] \<Longrightarrow>
      fst (mediate_request X (web_handler cp b) rq sig) = RR_Request (case broker_token_for b (normalize_host u) of
         None \<Rightarrow> rq
       | Some t \<Rightarrow> if wr_method rq \<noteq> ''CONNECT'' \<and> hl_value_ok (xl_http X) (''Bearer '' @ t)
          then rq\<lparr>wr_headers := header_insert ''authorization'' (''Bearer '' @ t) (wr_headers rq)\<rparr> else rq)"
    unfolding m by (rule respond_allowed) (simp_all add: k u)
qed

lemma web_hosts:
  "normalize_host ''bank.local'' = ''bank.local''" "normalize_host ''evil.host'' = ''evil.host''"
  "normalize_host ''example.com'' = ''example.com''" "br_caveats web_broker = []"
  "broker_token_for web_broker ''bank.local'' = Some TOKEN" "broker_token_for web_broker ''example.com'' = None"
  "list_all visible_ascii (''Bearer '' @ TOKEN)" "list_all visible_ascii ''35''"
  by code_simp+

lemma request_sel [simp]:
  "wr_method (request m u p) = m" "wr_uri_host (request m u p) = Some u" "wr_headers (request m u p) = []"
  by (simp_all add: request_def)

text \<open>A test of the handler passes if it does for the documented meaning of the policy.\<close>

lemma tested_handler:
  assumes "reads_proxy_tests re X pa"
    and "\<And>cp. (\<And>a env. evaluate (pl_exec (xl_policy X)) cp a env
                  = meant_outcome re web_policy (map fst web_rules) a env) \<Longrightarrow> t (web_handler cp b)"
  shows "with_handler X WEB_POLICY b t"
proof -
  obtain cp where cp: "load (xl_policy X) WEB_POLICY = Inr cp"
    and ev: "\<And>a env. evaluate (pl_exec (xl_policy X)) cp a env = meant_outcome re web_policy (map fst web_rules) a env"
    using proxy_policies_load(2) [OF assms(1)] by blast
  from assms(2) [OF ev] show ?thesis by (simp add: with_handler_def with_policy_def cp web_handler_def)
qed

lemma forwarding_tests_pass:
  assumes "reads_proxy_tests re X pa"
  shows "allowed_request_is_forwarded_with_brokered_authorization_and_audited X"
    "connect_to_allowed_host_passes_through_without_a_credential X"
    "allowed_request_to_unbrokered_host_has_no_authorization X"
    "agent_supplied_authorization_is_overwritten_by_broker_on_forward X"
proof -
  have ok: "hl_to_str (xl_http X) (''Bearer '' @ TOKEN) = Some (''Bearer '' @ TOKEN)"
    "hl_value_ok (xl_http X) (''Bearer '' @ TOKEN)"
    using assms web_hosts(7) unfolding reads_proxy_tests_def by blast+
  note ok = this this [simplified]
  note a = web_answer [OF assms] and h = web_hosts
  note ps = tested_handler [OF assms, of _ web_broker]
  have attacker: "web_verdict re (rq\<lparr>wr_headers := hs\<rparr>) sig now = web_verdict re rq sig now"
    if "wr_uri_host rq = Some u" for rq hs sig now u
    using that by (simp add: web_verdict_def summarize_def)
  show "allowed_request_is_forwarded_with_brokered_authorization_and_audited X"
    unfolding allowed_request_is_forwarded_with_brokered_authorization_and_audited_def proxy_handler_tested_def
    by (rule ps) (simp add: split_beta a(1,3) web_verdicts h ok authorization_of_def header_str_def map_of_header_insert)
  show "connect_to_allowed_host_passes_through_without_a_credential X"
    unfolding connect_to_allowed_host_passes_through_without_a_credential_def proxy_handler_tested_def
    by (rule ps) (simp add: split_beta a(1,3) web_verdicts h)
  show "allowed_request_to_unbrokered_host_has_no_authorization X"
    unfolding allowed_request_to_unbrokered_host_has_no_authorization_def proxy_handler_tested_def
    by (rule ps) (simp add: a(1) web_verdicts h)
  show "agent_supplied_authorization_is_overwritten_by_broker_on_forward X"
    unfolding agent_supplied_authorization_is_overwritten_by_broker_on_forward_def proxy_handler_tested_def Let_def
    by (rule ps) (simp add: a(1) attacker [of _ "''bank.local''"] web_verdicts h ok authorization_of_def header_str_def
        map_of_header_insert)
qed

lemma blocked_answer:
  "\<exists>r. out = RR_Response r \<and> wp_status r = 403 \<and> P r \<Longrightarrow> is_forbidden out"
  by auto

lemma blocking_tests_pass:
  assumes "reads_proxy_tests re X pa"
  shows "blocked_request_becomes_a_403_and_is_audited X"
    "connect_to_unlisted_host_is_blocked X"
    "outbound_body_carrying_a_known_secret_is_blocked_as_exfiltration X"
    "websocket_upgrade_is_blocked_when_policy_denies_it X"
proof -
  note a = web_answer(2) [OF assms, THEN blocked_answer]
  note ps = tested_handler [OF assms, of _ web_broker]
  have "(case x of (RR_Response r, h') \<Rightarrow> wp_status r = 403 \<and> map_of (wp_headers r) ''x-guardian-blocked'' \<noteq> None
             \<and> audit_len (ph_audit h') = 1 | (RR_Request _, h') \<Rightarrow> False)"
    if "\<exists>r. fst x = RR_Response r \<and> wp_status r = 403 \<and> map_of (wp_headers r) ''x-guardian-blocked'' \<noteq> None"
      and "audit_len (ph_audit (snd x)) = 1" for x :: "request_or_response \<times> ('a, 'c) proxy_handler"
    using that by (cases x) auto
  then show "blocked_request_becomes_a_403_and_is_audited X"
    unfolding blocked_request_becomes_a_403_and_is_audited_def proxy_handler_tested_def
    by (rule ps) (rule web_answer(2,3) [OF assms] | simp add: web_verdicts)+
  show "connect_to_unlisted_host_is_blocked X"
    unfolding connect_to_unlisted_host_is_blocked_def proxy_handler_tested_def
    by (rule ps) (rule a, simp_all add: web_verdicts)
  show "outbound_body_carrying_a_known_secret_is_blocked_as_exfiltration X"
    unfolding outbound_body_carrying_a_known_secret_is_blocked_as_exfiltration_def proxy_handler_tested_def
    by (rule ps) (rule a, simp_all add: web_verdicts)
  show "websocket_upgrade_is_blocked_when_policy_denies_it X"
    unfolding websocket_upgrade_is_blocked_when_policy_denies_it_def proxy_handler_tested_def
    by (rule ps) (rule a, simp_all add: web_verdicts)
qed

lemma inspection_tests_pass:
  assumes "reads_proxy_tests re X pa"
  shows "inspect_detects_a_known_secret_in_the_request_body X"
    "inspect_skips_bodies_without_a_content_length X"
proof -
  note ps = tested_handler [OF assms, of _ web_broker]
  have len: "hl_to_str (xl_http X) ''35'' = Some ''35''"
    using assms web_hosts(8) unfolding reads_proxy_tests_def by blast
  have "parse_usize ''35'' = Some 35" "(35 :: nat) \<le> BODY_INSPECT_CAP"
    by (simp_all add: parse_usize_def is_ascii_digit_def digit_val_def BODY_INSPECT_CAP_def)
  moreover have "utf8_valid (''note=hello&leak='' @ TOKEN)"
    and "body_leaks_secret web_broker (''note=hello&leak='' @ TOKEN)"
    by code_simp+
  ultimately show "inspect_detects_a_known_secret_in_the_request_body X"
    unfolding inspect_detects_a_known_secret_in_the_request_body_def proxy_handler_tested_def
    by (intro ps) (simp add: inspect_def Let_def leaking_request_def header_str_def len split: option.split)
  show "inspect_skips_bodies_without_a_content_length X"
    unfolding inspect_skips_bodies_without_a_content_length_def proxy_handler_tested_def
    by (rule ps) (simp add: inspect_def Let_def header_str_def uninspected_def)
qed

lemma approver_tests_pass:
  assumes "reads_proxy_tests re X pa"
  shows "ask_is_allowed_when_the_human_approves X" "ask_is_blocked_when_the_human_denies X"
    "ask_fails_closed_without_an_approver X"
proof -
  note ps = tested_handler [OF assms, of _ web_broker]
  let ?rq = "request ''PUT'' ''example.com'' (Some ''/x'')"
  have put: "case resolved_put X answer h of
      RR_Request _ \<Rightarrow> ph_approver h \<and> answer | RR_Response r \<Rightarrow> \<not> (ph_approver h \<and> answer) \<and> wp_status r = 403"
    if ev: "\<And>a env. evaluate (pl_exec (xl_policy X)) cp a env = meant_outcome re web_policy (map fst web_rules) a env"
      and h: "ph_policy h = cp" "ph_env h = bank_env" "ph_broker h = web_broker" for cp h answer
  proof -
    obtain a out where p: "prepare (proxy_deps_of X) (xl_now_ms X) h ?rq uninspected = (a, out)"
      by (cases "prepare (proxy_deps_of X) (xl_now_ms X) h ?rq uninspected")
    from web_prepare [OF ev request_sel(2) h(1,2) p]
    have "kind_of_decision (out_decision out) = DK_Ask" and u: "ctx_host (act_context a) = Some ''example.com''"
      by (simp_all add: web_verdicts web_hosts)
    then obtain reason where d: "out_decision out = Ask reason"
      by (cases "out_decision out") simp_all
    show ?thesis
      by (simp add: resolved_put_def p resolve_and_respond_def resolve_ask_def d always_def h(3) respond_def
          classify_def u web_hosts broker_authorize_def block_response_def)
  qed
  show "ask_is_allowed_when_the_human_approves X"
    unfolding ask_is_allowed_when_the_human_approves_def proxy_handler_tested_def
  proof (rule ps)
    fix cp
    assume "\<And>a env. evaluate (pl_exec (xl_policy X)) cp a env = meant_outcome re web_policy (map fst web_rules) a env"
    from put [OF this, of "with_approver (web_handler cp web_broker)" True]
    show "case resolved_put X True (with_approver (web_handler cp web_broker)) of
        RR_Request _ \<Rightarrow> True | RR_Response _ \<Rightarrow> False"
      by (simp add: with_approver_def split: request_or_response.splits)
  qed
  show "ask_is_blocked_when_the_human_denies X"
    unfolding ask_is_blocked_when_the_human_denies_def proxy_handler_tested_def
  proof (rule ps)
    fix cp
    assume "\<And>a env. evaluate (pl_exec (xl_policy X)) cp a env = meant_outcome re web_policy (map fst web_rules) a env"
    from put [OF this, of "with_approver (web_handler cp web_broker)" False]
    show "is_forbidden (resolved_put X False (with_approver (web_handler cp web_broker)))"
      by (simp add: with_approver_def split: request_or_response.splits)
  qed
  show "ask_fails_closed_without_an_approver X"
    unfolding ask_fails_closed_without_an_approver_def proxy_handler_tested_def
  proof (rule ps)
    fix cp
    assume "\<And>a env. evaluate (pl_exec (xl_policy X)) cp a env = meant_outcome re web_policy (map fst web_rules) a env"
    from put [OF this, of "web_handler cp web_broker" True]
    show "is_forbidden (resolved_put X True (web_handler cp web_broker))"
      by (simp split: request_or_response.splits)
  qed
qed

lemma expiry_test_passes:
  assumes "reads_proxy_tests re X pa"
  shows "an_expired_capability_blocks_an_otherwise_allowed_request X"
proof -
  let ?b = "set_caveats web_broker ''bank.local'' (caveats_permissive\<lparr>cv_not_after_ms := Some 1\<rparr>)"
  let ?rq = "request ''GET'' ''bank.local'' (Some ''/balance'')"
  have ser: "\<forall>e. is_ok (xl_ser_entry X e)" and now: "1 < xl_now_ms X"
    using assms by (simp_all add: reads_proxy_tests_def)
  have expired: "is_forbidden (respond hl sf ?b rq a out fresh)"
    if "ctx_host (act_context a) = Some ''bank.local''" "1 \<le> ctx_timestamp_ms (act_context a)" for hl sf rq a out fresh
    using that
    by (cases "out_decision out") (simp_all add: respond_def classify_def block_response_def broker_authorize_def
        set_caveats_def caveats_check_def update_conv)
  show ?thesis
    unfolding an_expired_capability_blocks_an_otherwise_allowed_request_def
  proof (rule tested_handler [OF assms])
    fix cp
    assume ev: "\<And>a env. evaluate (pl_exec (xl_policy X)) cp a env = meant_outcome re web_policy (map fst web_rules) a env"
    obtain a out where p: "prepare (proxy_deps_of X) (xl_now_ms X) (web_handler cp ?b) ?rq uninspected = (a, out)"
      by (cases "prepare (proxy_deps_of X) (xl_now_ms X) (web_handler cp ?b) ?rq uninspected")
    have "fst (mediate_request X (web_handler cp ?b) ?rq uninspected) =
        respond (xl_http X) (xl_show_f64 X) ?b ?rq a out False"
      using mediate_request_fresh(1) [OF _ ser, of "web_handler cp ?b" ?rq uninspected] p by simp
    then show "is_forbidden (fst (mediate_request X (web_handler cp ?b) ?rq uninspected))"
      using web_prepare [OF ev request_sel(2) web_handler_sel(1,2) p] now by (simp add: expired web_hosts)
  qed
qed

lemma shipped_proxy_test_passes:
  assumes "reads_proxy_tests re X pa"
  shows "shipped_policy_blocks_exfiltration_through_the_proxy X pa"
proof -
  let ?rq = "request ''POST'' ''evil.example'' (Some ''/collect'')"
  have ser: "\<forall>e. is_ok (xl_ser_entry X e)"
    and pa: "pl_toml (xl_policy X) pa = Inr personal_assistant_policy"
      "cel_reads re (pl_cel (xl_policy X)) (pl_exec (xl_policy X)) (map fst personal_assistant_rules)"
    using assms by (simp_all add: reads_proxy_tests_def Let_def)
  obtain cp where cp: "load (xl_policy X) pa = Inr cp"
    using proxy_policies_load(3) [OF assms] by blast
  let ?h = "proxy_handler_new cp bank_env (broker_new []) (open_log empty_db)"
  obtain a out where p: "prepare (proxy_deps_of X) (xl_now_ms X) ?h ?rq (secret_signals 20) = (a, out)"
    by (cases "prepare (proxy_deps_of X) (xl_now_ms X) ?h ?rq (secret_signals 20)")
  have host: "normalize_host ''evil.example'' = ''evil.example''" by code_simp
  from p have out: "out = evaluate (pl_exec (xl_policy X)) cp a bank_env"
    and a: "leaks_outside bank_env a"
    by (auto simp: prepare_def Let_def proxy_handler_new_def leaks_outside_def untrusted_host_def bank_env_def
        tag_exfiltration_def to_action_def summarize_def host signal_fields_def secret_signals_def)
  have "kind_of_decision (out_decision out) \<noteq> DK_Allow"
    using personal_assistant_kind [of "pl_toml (xl_policy X)", OF pa, of cp] cp a
    by (simp add: load_def out)
  from respond_blocked [OF this] have "is_forbidden (respond (xl_http X) (xl_show_f64 X) (broker_new []) ?rq a out False)"
    by (rule blocked_answer [OF exE]) auto
  moreover have "fst (mediate_request X ?h ?rq (secret_signals 20)) =
      respond (xl_http X) (xl_show_f64 X) (broker_new []) ?rq a out False"
    using mediate_request_fresh(1) [OF _ ser, of ?h ?rq "secret_signals 20"] p by (simp add: proxy_handler_new_def)
  ultimately show ?thesis
    by (simp add: shipped_policy_blocks_exfiltration_through_the_proxy_def with_handler_def with_policy_def cp)
qed

subsection \<open>The suite\<close>

definition proxy_suite :: "('sk, 'vk, 'prog) proxy_libs \<Rightarrow> string \<Rightarrow> bool list" where
  "proxy_suite X assistant_toml =
     [get_is_forwarded_with_brokered_authorization (xl_policy X), post_transfer_to_bank_is_blocked (xl_policy X),
      forward_to_unbrokered_host_has_no_authorization (xl_policy X),
      host_is_normalized_for_policy_and_broker (xl_policy X), exfiltration_tagged_for_secret_to_untrusted_host,
      secret_to_trusted_host_is_not_tagged, no_secret_is_not_tagged,
      tagged_exfiltration_is_floored_even_under_an_allowing_policy (xl_policy X),
      unmatched_request_fails_closed_to_block (xl_policy X),
      allowed_request_is_forwarded_with_brokered_authorization_and_audited X,
      blocked_request_becomes_a_403_and_is_audited X,
      connect_to_allowed_host_passes_through_without_a_credential X, connect_to_unlisted_host_is_blocked X,
      allowed_request_to_unbrokered_host_has_no_authorization X,
      agent_supplied_authorization_is_overwritten_by_broker_on_forward X,
      shipped_policy_blocks_exfiltration_through_the_proxy X assistant_toml,
      outbound_body_carrying_a_known_secret_is_blocked_as_exfiltration X,
      websocket_upgrade_is_blocked_when_policy_denies_it X,
      inspect_detects_a_known_secret_in_the_request_body X, inspect_skips_bodies_without_a_content_length X,
      ask_is_allowed_when_the_human_approves X, ask_is_blocked_when_the_human_denies X,
      an_expired_capability_blocks_an_otherwise_allowed_request X, ask_fails_closed_without_an_approver X]"

text \<open>
  the unit tests of the proxy. With libraries that do on the texts and values of the tests what
  is documented, every test of the mediation core and of the handler passes on the model.
\<close>

theorem proxy_tests_pass:
  assumes "reads_proxy_tests re X assistant_toml"
  shows "list_all id (proxy_suite X assistant_toml)"
  using mediation_tests_pass [OF assms] tagging_tests_pass forwarding_tests_pass [OF assms]
    blocking_tests_pass [OF assms] inspection_tests_pass [OF assms] approver_tests_pass [OF assms]
    expiry_test_passes [OF assms] shipped_proxy_test_passes [OF assms]
  by (simp add: proxy_suite_def)

definition ex_proxy_conds :: "cond list" where
  "ex_proxy_conds = remdups (map (fst \<circ> fst) web_rules @ map fst personal_assistant_rules)"

definition ex_proxy_libs :: "(bool, bool, string) proxy_libs" where
  "ex_proxy_libs =
     \<lparr>xl_policy =
        \<lparr>pl_toml = (\<lambda>s. if s = BANK_POLICY then Inr bank_policy else if s = WEB_POLICY then Inr web_policy
                        else Inr personal_assistant_policy),
         pl_cel = Inr, pl_exec = reading_exec (\<lambda>_ _. False) ex_proxy_conds\<rparr>,
      xl_crypto = ex_crypto, xl_ser_entry = ex_ser,
      xl_http = \<lparr>hl_to_str = Some, hl_value_ok = (\<lambda>_. True)\<rparr>, xl_show_f64 = (\<lambda>_. []), xl_now_ms = 2\<rparr>"

theorem proxy_tests_pass_witness: "list_all id (proxy_suite ex_proxy_libs ''assistant'')"
proof (rule proxy_tests_pass)
  have len: "length BANK_POLICY \<noteq> length WEB_POLICY" "length BANK_POLICY \<noteq> length ''assistant''"
    "length WEB_POLICY \<noteq> length ''assistant''"
    by code_simp+
  have "distinct (map cond_text ex_proxy_conds)" by code_simp
  from reading_exec_reads [OF this]
  have r: "cel_reads (\<lambda>_ _. False) Inr (reading_exec (\<lambda>_ _. False) ex_proxy_conds) ex_proxy_conds" .
  have "cel_reads (\<lambda>_ _. False) Inr (reading_exec (\<lambda>_ _. False) ex_proxy_conds) (map (fst \<circ> fst) web_rules)"
    "cel_reads (\<lambda>_ _. False) Inr (reading_exec (\<lambda>_ _. False) ex_proxy_conds) (map fst personal_assistant_rules)"
    by (rule cel_reads_mono [OF r], simp add: ex_proxy_conds_def)+
  moreover have "WEB_POLICY \<noteq> BANK_POLICY" "''assistant'' \<noteq> BANK_POLICY" "''assistant'' \<noteq> WEB_POLICY"
    using len by (metis, metis, metis)
  ultimately show "reads_proxy_tests (\<lambda>_ _. False) ex_proxy_libs ''assistant''"
    by (simp add: reads_proxy_tests_def ex_proxy_libs_def Let_def ex_ser_def)
qed

end
