(* ===== verification/Gateway_Tests.thy ===== *)
theory Gateway_Tests
  imports Policy_Tests Upstream
begin

text \<open>
  The unit tests of \<open>guardian-mcp-gateway/src/lib.rs\<close> (the gateway's own, and those of its upstream
  module), as Booleans over the model (true where every assertion of the test holds). The ports are
  the test doubles of the source. The parsers, the interpreter, the cryptography, the serializer and
  the random generator are parameters; \<open>gateway_tests_pass\<close> shows that the model passes the tests
  whatever they are, as long as they do on the values of the tests what is documented. The test that
  feeds random bytes to \<open>build_action\<close> asserts nothing but that it returns, which a total function of
  the model does by definition.
\<close>

subsection \<open>The set-up\<close>

record ('sk, 'vk, 'prog) gateway_libs =
  gl_policy :: "'prog policy_libs"
  gl_crypto :: "('sk, 'vk) crypto"
  gl_ser_entry :: "audit_entry \<Rightarrow> (string, string) result"
  gl_json_text :: "json \<Rightarrow> string"
  gl_now_ms :: int
  gl_cwd :: string
  gl_rng :: "nat \<Rightarrow> nat \<Rightarrow> draw"

definition gateway_deps_of :: "('sk, 'vk, 'prog) gateway_libs \<Rightarrow> ('sk, 'vk, 'prog) deps" where
  "gateway_deps_of X = \<lparr>dp_crypto = gl_crypto X, dp_ser_entry = gl_ser_entry X, dp_cel = pl_exec (gl_policy X),
     dp_json_text = gl_json_text X\<rparr>"

definition default_env :: eval_env where
  "default_env = \<lparr>env_user_home = [], env_trusted_hosts = []\<rparr>"

definition gateway_rules :: "((cond \<times> rule) \<times> string list) list" where
  "gateway_rules =
     [(on ''read'' (C_Is [''kind''] ''FileRead'') DK_Allow, []),
      (shipped_rule ''deny-exec'' (C_Is [''kind''] ''Exec'') DK_Deny (Some ''Running shell commands is blocked here.''),
       [explain_line ''Running shell commands is blocked here.'']),
      (shipped_rule ''ask-email'' (C_Is [''kind''] ''Email'') DK_Ask (Some ''Sends an email on your behalf.''),
       [explain_line ''Sends an email on your behalf.''])]"

definition GATEWAY_POLICY :: string where
  "GATEWAY_POLICY = policy_text ''t'' gateway_rules"

definition allowing_rules :: "string \<Rightarrow> (cond \<times> rule) list" where
  "allowing_rules i = [on i (C_Lit True) DK_Allow]"

text \<open>The policies the tests write on one line, without spaces around the equals signs.\<close>

definition allowing_text :: "string \<Rightarrow> string" where
  "allowing_text i = unlines
     [''version=1'', ''role='' @ str_quoted ''t'', ''[defaults]'', ''decision='' @ str_quoted ''ask'', ''[[rules]]'',
      ''id='' @ str_quoted i, ''when='' @ ticked ''true'', ''decision='' @ str_quoted ''allow'']"

text \<open>
  The test doubles: an upstream, a human who always answers the same, a detector. \<open>n\<close> is the number
  of the call, for the generator a session created by it will draw from.
\<close>

record doubles =
  db_human :: approval_response
  db_upstream :: "tool_call \<Rightarrow> (string, json) result"
  db_detector :: "string \<Rightarrow> string list"

definition recording :: "approval_response \<Rightarrow> doubles" where
  "recording human = \<lparr>db_human = human, db_upstream = (\<lambda>_. Inr (args1 ''ok'' (JBool True))), db_detector = (\<lambda>_. [])\<rparr>"

definition port_answers :: "('sk, 'vk, 'prog) gateway_libs \<Rightarrow> doubles \<Rightarrow> nat \<Rightarrow> bool \<Rightarrow> gw_io" where
  "port_answers X ds n kill_file =
     \<lparr>io_now_ms = gl_now_ms X, io_kill_file = kill_file, io_cwd = gl_cwd X, io_audit_ok = True,
      io_explain = stub_explain, io_approve = (\<lambda>_ _. db_human ds), io_forward = db_upstream ds,
      io_detect = db_detector ds, io_rng = gl_rng X n\<rparr>"

definition test_gateway :: "'prog compiled_policy \<Rightarrow> ('sk, 'prog) gateway" where
  "test_gateway cp = gateway_new ''test'' cp (open_log empty_db) default_env"

definition gateway_with ::
    "('sk, 'vk, 'prog) gateway_libs \<Rightarrow> string \<Rightarrow> (('sk, 'prog) gateway \<Rightarrow> bool) \<Rightarrow> bool" where
  "gateway_with X s t = with_policy (gl_policy X) s (\<lambda>cp. t (test_gateway cp))"

definition call_of :: "string \<Rightarrow> action_kind \<Rightarrow> tool_call" where
  "call_of tool kind =
     \<lparr>tc_tool = tool, tc_args = JObj [], tc_kind = Some kind, tc_capability = None, tc_session = None\<rparr>"

fun is_allowed :: "gateway_outcome \<Rightarrow> bool" where
  "is_allowed (GO_Allowed _) = True"
| "is_allowed _ = False"

fun is_blocked :: "gateway_outcome \<Rightarrow> bool" where
  "is_blocked (GO_Blocked _) = True"
| "is_blocked _ = False"

text \<open>What the recording upstream saw, and whether the Checker was asked.\<close>

definition forwarded_tools :: "port_event list \<Rightarrow> string list" where
  "forwarded_tools evs = List.map_filter (\<lambda>e. case e of EV_Forward c \<Rightarrow> Some (tc_tool c) | _ \<Rightarrow> None) evs"

definition checker_called :: "port_event list \<Rightarrow> bool" where
  "checker_called evs = list_ex (\<lambda>e. case e of EV_Explain _ \<Rightarrow> True | _ \<Rightarrow> False) evs"

definition handled ::
    "('sk, 'vk, 'prog) gateway_libs \<Rightarrow> doubles \<Rightarrow> nat \<Rightarrow> tool_call \<Rightarrow> ('sk, 'prog) gateway
       \<Rightarrow> gateway_outcome \<times> port_event list \<times> ('sk, 'prog) gateway" where
  "handled X ds n c g = handle (gateway_deps_of X) (port_answers X ds n False) c g"

subsection \<open>Decisions and the human\<close>

definition allow_forwards_to_upstream :: "('sk, 'vk, 'prog) gateway_libs \<Rightarrow> bool" where
  "allow_forwards_to_upstream X = gateway_with X GATEWAY_POLICY (\<lambda>g.
     case handled X (recording Denied) 0 (call_of ''fs.read'' K_FileRead) g of
       (out, evs, g') \<Rightarrow> is_allowed out \<and> forwarded_tools evs = [''fs.read''])"

definition deny_blocks_and_does_not_forward :: "('sk, 'vk, 'prog) gateway_libs \<Rightarrow> bool" where
  "deny_blocks_and_does_not_forward X = gateway_with X GATEWAY_POLICY (\<lambda>g.
     case handled X (recording Approved) 0 (call_of ''shell.run'' K_Exec) g of
       (GO_Blocked reason, evs, g') \<Rightarrow> contains_sub reason ''blocked'' \<and> forwarded_tools evs = []
     | _ \<Rightarrow> False)"

definition ask_then_approve_forwards :: "('sk, 'vk, 'prog) gateway_libs \<Rightarrow> bool" where
  "ask_then_approve_forwards X = gateway_with X GATEWAY_POLICY (\<lambda>g.
     case handled X (recording Approved) 0 (call_of ''mail.send'' K_Email) g of
       (out, evs, g') \<Rightarrow> is_allowed out \<and> forwarded_tools evs = [''mail.send''])"

definition ask_then_deny_blocks :: "('sk, 'vk, 'prog) gateway_libs \<Rightarrow> bool" where
  "ask_then_deny_blocks X = gateway_with X GATEWAY_POLICY (\<lambda>g.
     case handled X (recording Denied) 0 (call_of ''mail.send'' K_Email) g of
       (out, evs, g') \<Rightarrow> is_blocked out \<and> forwarded_tools evs = [])"

text \<open>A Checker that panics when it is called must not be reached.\<close>

definition checker_is_not_called_on_the_fast_path :: "('sk, 'vk, 'prog) gateway_libs \<Rightarrow> bool" where
  "checker_is_not_called_on_the_fast_path X = gateway_with X GATEWAY_POLICY (\<lambda>g.
     case handled X (recording Approved) 0 (call_of ''fs.read'' K_FileRead) g of
       (out1, evs1, g1) \<Rightarrow>
         (case handled X (recording Approved) 1 (call_of ''shell.run'' K_Exec) g1 of
            (out2, evs2, g2) \<Rightarrow> is_allowed out1 \<and> is_blocked out2 \<and> \<not> checker_called (evs1 @ evs2)))"

definition decisions_are_recorded_and_log_verifies :: "('sk, 'vk, 'prog) gateway_libs \<Rightarrow> bool" where
  "decisions_are_recorded_and_log_verifies X = gateway_with X GATEWAY_POLICY (\<lambda>g.
     let step = (\<lambda>n c g. snd (snd (handled X (recording Approved) n c g)));
         g3 = step 2 (call_of ''mail.send'' K_Email)
                (step 1 (call_of ''shell.run'' K_Exec) (step 0 (call_of ''fs.read'' K_FileRead) g))
     in gateway_audit_len g3 = 3 \<and> is_ok (gateway_audit_verify (gl_crypto X) g3))"

definition unknown_tool_infers_other :: bool where
  "unknown_tool_infers_other \<longleftrightarrow>
     infer_kind ''mystery.thing'' = K_Other \<and> infer_kind ''bank.transfer'' = K_Payment
     \<and> infer_kind ''shell.exec'' = K_Exec"

subsection \<open>Hard overrides\<close>

definition path_call :: "string \<Rightarrow> action_kind \<Rightarrow> string \<Rightarrow> tool_call" where
  "path_call tool kind path = (call_of tool kind)\<lparr>tc_args := args1 ''path'' (JStr path)\<rparr>"

definition grd_protection :: self_protection where
  "grd_protection = \<lparr>sf_protected = [''/grd''], sf_kill_switch = False\<rparr>"

definition self_protection_blocks_writes_to_its_own_files :: "('sk, 'vk, 'prog) gateway_libs \<Rightarrow> bool" where
  "self_protection_blocks_writes_to_its_own_files X = gateway_with X GATEWAY_POLICY (\<lambda>g.
     case handled X (recording Approved) 0 (path_call ''write_file'' K_FileWrite ''/grd/policy.toml'')
            (with_self_protection grd_protection g) of
       (out, evs, g') \<Rightarrow> is_blocked out \<and> forwarded_tools evs = [])"

definition kill_switch_denies_everything_then_releases :: "('sk, 'vk, 'prog) gateway_libs \<Rightarrow> bool" where
  "kill_switch_denies_everything_then_releases X = gateway_with X GATEWAY_POLICY (\<lambda>g.
     let ask = (\<lambda>n engaged g. handle (gateway_deps_of X) (port_answers X (recording Approved) n engaged)
                  (call_of ''fs.read'' K_FileRead) g)
     in case ask 0 True (with_self_protection \<lparr>sf_protected = [], sf_kill_switch = True\<rparr> g) of
          (out1, _, g1) \<Rightarrow> is_blocked out1 \<and> is_allowed (fst (ask 1 False g1)))"

definition self_protection_normalizes_paths_and_scopes_to_writes :: "('sk, 'vk, 'prog) gateway_libs \<Rightarrow> bool" where
  "self_protection_normalizes_paths_and_scopes_to_writes X = gateway_with X GATEWAY_POLICY (\<lambda>g0.
     let step = (\<lambda>n tool kind path g. handled X (recording Approved) n (path_call tool kind path) g)
     in case step 0 ''write_file'' K_FileWrite ''/x/../grd/policy.toml'' (with_self_protection grd_protection g0) of
       (out1, _, g1) \<Rightarrow>
         (case step 1 ''write_file'' K_FileWrite ''/grd/sub/../config.toml'' g1 of (out2, _, g2) \<Rightarrow>
         (case step 2 ''write_file'' K_FileWrite ''/grd-evil/x'' g2 of (out3, _, g3) \<Rightarrow>
         (case step 3 ''read_file'' K_FileRead ''/grd/policy.toml'' g3 of (out4, _, _) \<Rightarrow>
            is_blocked out1 \<and> is_blocked out2 \<and> \<not> is_blocked out3 \<and> is_allowed out4))))"

subsection \<open>The data vault\<close>

definition IBAN :: string where
  "IBAN = ''IT60X0542811101000000123456''"

definition pii_upstream :: doubles where
  "pii_upstream = (recording Approved)\<lparr>db_upstream := (\<lambda>c. Inr
     (if tc_tool c = ''read'' then args1 ''iban'' (JStr IBAN) else args1 ''ok'' (JBool True)))\<rparr>"

definition protected_gateway ::
    "('sk, 'vk, 'prog) gateway_libs \<Rightarrow> (('sk, 'prog) gateway \<Rightarrow> bool) \<Rightarrow> bool" where
  "protected_gateway X t = gateway_with X (allowing_text ''all'') (\<lambda>g. t (with_data_protection [IBAN] g))"

definition rd :: "string \<Rightarrow> json \<Rightarrow> string \<Rightarrow> tool_call" where
  "rd tool args session =
     \<lparr>tc_tool = tool, tc_args = args, tc_kind = Some K_FileRead, tc_capability = None, tc_session = Some session\<rparr>"

text \<open>The arguments the upstream was last called with.\<close>

definition last_args :: "port_event list \<Rightarrow> json option" where
  "last_args evs = (case rev (List.map_filter (\<lambda>e. case e of EV_Forward c \<Rightarrow> Some (tc_args c) | _ \<Rightarrow> None) evs) of
     a # _ \<Rightarrow> Some a | [] \<Rightarrow> None)"

text \<open>The token the agent sees for the IBAN, sent back in a second call in the session \<open>s\<close>.\<close>

definition token_sent_back ::
    "('sk, 'vk, 'prog) gateway_libs \<Rightarrow> string \<Rightarrow> string \<Rightarrow> ('sk, 'prog) gateway
       \<Rightarrow> (json \<times> string \<times> string option) option" where
  "token_sent_back X first second g =
     (case handled X pii_upstream 0 (rd ''read'' (JObj []) first) g of
        (GO_Allowed v, _, g1) \<Rightarrow>
          (case jget_str ''iban'' v of
             None \<Rightarrow> None
           | Some tok \<Rightarrow>
               (case handled X pii_upstream 1 (rd ''send'' (args1 ''to'' (JStr tok)) second) g1 of
                  (_, evs, _) \<Rightarrow> Some (v, tok, Option.bind (last_args evs) (jget_str ''to''))))
      | _ \<Rightarrow> None)"

definition result_is_tokenized_to_the_agent_and_detokenized_at_egress ::
    "('sk, 'vk, 'prog) gateway_libs \<Rightarrow> bool" where
  "result_is_tokenized_to_the_agent_and_detokenized_at_egress X = protected_gateway X (\<lambda>g.
     case token_sent_back X ''s1'' ''s1'' g of
       Some (v, tok, egress) \<Rightarrow>
         prefix ''[[GDN-'' tok \<and> \<not> contains_sub (gl_json_text X v) IBAN \<and> egress = Some IBAN
     | None \<Rightarrow> False)"

definition a_token_does_not_resolve_in_another_session :: "('sk, 'vk, 'prog) gateway_libs \<Rightarrow> bool" where
  "a_token_does_not_resolve_in_another_session X = protected_gateway X (\<lambda>g.
     case token_sent_back X ''alice'' ''bob'' g of
       Some (v, tok, egress) \<Rightarrow> egress = Some tok
     | None \<Rightarrow> False)"

definition note_upstream :: doubles where
  "note_upstream = \<lparr>db_human = Approved,
     db_upstream = (\<lambda>_. Inr (args1 ''note'' (JStr ''Top Secret stuff here''))), db_detector = (\<lambda>_. [''Top Secret''])\<rparr>"

definition sidecar_detected_value_is_tokenized_even_without_known_values ::
    "('sk, 'vk, 'prog) gateway_libs \<Rightarrow> bool" where
  "sidecar_detected_value_is_tokenized_even_without_known_values X = gateway_with X (allowing_text ''all'') (\<lambda>g.
     case handled X note_upstream 0 (rd ''read'' (JObj []) ''s1'') (with_pii_detector g) of
       (GO_Allowed v, _, _) \<Rightarrow> \<not> contains_sub (gl_json_text X v) ''Top Secret''
          \<and> (case jget_str ''note'' v of Some note \<Rightarrow> contains_sub note ''[[GDN-'' | None \<Rightarrow> False)
     | _ \<Rightarrow> False)"

definition masked_list_hides_the_value_and_remove_last_works :: "('sk, 'vk, 'prog) gateway_libs \<Rightarrow> bool" where
  "masked_list_hides_the_value_and_remove_last_works X = gateway_with X (allowing_text ''a'') (\<lambda>g0.
     let g = add_protected ''Giulia Bianchi'' (with_data_protection [''Mario Rossi''] g0); masked = protected_masked g
     in length masked = 2 \<and> list_all (\<lambda>m. CHR ''*'' \<in> set m) masked
        \<and> \<not> list_ex (\<lambda>m. contains_sub m ''Rossi'' \<or> contains_sub m ''Bianchi'') masked
        \<and> (case remove_last_protected g of (removed, g') \<Rightarrow> removed \<and> fst (vault_stats g') = 1))"

definition acme_upstream :: doubles where
  "acme_upstream = (recording Approved)\<lparr>db_upstream :=
     (\<lambda>_. Inr (args1 ''msg'' (JStr ''wire from Acme Corp to you'')))\<rparr>"

definition runtime_add_protected_reaches_an_already_open_session :: "('sk, 'vk, 'prog) gateway_libs \<Rightarrow> bool" where
  "runtime_add_protected_reaches_an_already_open_session X = gateway_with X (allowing_text ''all'') (\<lambda>g0.
     let g1 = snd (snd (handled X acme_upstream 0 (rd ''read'' (JObj []) ''s1'') (with_data_protection [''seed-value''] g0)))
     in (case handled X acme_upstream 1 (rd ''read'' (JObj []) ''s1'') (add_protected ''Acme Corp'' g1) of
           (GO_Allowed v, _, g2) \<Rightarrow> \<not> contains_sub (gl_json_text X v) ''Acme Corp'' \<and> fst (vault_stats g2) = 2
         | _ \<Rightarrow> False))"

subsection \<open>What the libraries do on the values of the tests\<close>

text \<open>
  The compact text of an object with one text field, in which nothing is escaped, and the random
  generator of the operating system.
\<close>

definition plain_field_text :: "string \<Rightarrow> string \<Rightarrow> string" where
  "plain_field_text k s = ''{'' @ str_quoted k @ '':'' @ str_quoted s @ ''}''"

definition escapeless :: "char \<Rightarrow> bool" where
  "escapeless c = (of_char c \<in> {32 .. (126 :: int)} \<and> c \<noteq> CHR 0x22 \<and> c \<noteq> CHR 0x5C)"

definition gateway_policy :: policy where
  "gateway_policy = policy_of ''t'' (map fst gateway_rules)"

definition reads_gateway_tests ::
    "(string \<Rightarrow> string \<Rightarrow> bool) \<Rightarrow> ('sk, 'vk, 'prog) gateway_libs \<Rightarrow> bool" where
  "reads_gateway_tests re X \<longleftrightarrow>
     (let L = gl_policy X
      in pl_toml L GATEWAY_POLICY = Inr gateway_policy
       \<and> cel_reads re (pl_cel L) (pl_exec L) (map (fst \<circ> fst) gateway_rules)
       \<and> (\<forall>i \<in> {''a'', ''all''}. pl_toml L (allowing_text i) = Inr (policy_of ''t'' (allowing_rules i)))
       \<and> cel_reads re (pl_cel L) (pl_exec L) [C_Lit True])
     \<and> (\<forall>e. is_ok (gl_ser_entry X e))
     \<and> (\<forall>k s. list_all escapeless k \<and> list_all escapeless s
           \<longrightarrow> gl_json_text X (JObj [(k, JStr s)]) = plain_field_text k s)
     \<and> (\<forall>n m. \<exists>b. gl_rng X n m = Inr b)"

subsection \<open>The upstream module\<close>

definition parse_tools_reads_names_and_skips_malformed :: bool where
  "parse_tools_reads_names_and_skips_malformed =
     (map ts_name (parse_tools (jobj [(''tools'', JArr
        [jobj [(''name'', JStr ''read_file''), (''description'', JStr ''Read''),
               (''inputSchema'', jobj [(''type'', JStr ''object'')])],
         jobj [(''description'', JStr ''no name -> skipped'')], jobj [(''name'', JStr ''run_shell'')]])]))
      = [''read_file'', ''run_shell''])"

definition namespacing_roundtrips :: bool where
  "namespacing_roundtrips \<longleftrightarrow>
     namespaced_name ''files'' ''read'' = ''files__read'' \<and> namespaced_name [] ''read'' = ''read''"

definition route_resolves_namespace_and_falls_back :: bool where
  "route_resolves_namespace_and_falls_back \<longleftrightarrow>
     (let known = (\<lambda>l. l = ''a'' \<or> l = ''b''); with_unlabeled = (\<lambda>l. l = [] \<or> l = ''a'')
      in route_name ''a__read_file'' known = Some (''a'', ''read_file'') \<and> route_name ''z__x'' known = None
         \<and> route_name ''read_file'' with_unlabeled = Some ([], ''read_file'')
         \<and> route_name ''foo__bar'' with_unlabeled = Some ([], ''foo__bar'')
         \<and> route_name ''a__x'' with_unlabeled = Some (''a'', ''x''))"

lemma upstream_tests_pass:
  "parse_tools_reads_names_and_skips_malformed" "namespacing_roundtrips" "route_resolves_namespace_and_falls_back"
  "unknown_tool_infers_other"
  by code_simp+


subsection \<open>One call of the tests\<close>

lemma gateway_deps_of_sel [simp]:
  "dp_crypto (gateway_deps_of X) = gl_crypto X" "dp_ser_entry (gateway_deps_of X) = gl_ser_entry X"
  "dp_cel (gateway_deps_of X) = pl_exec (gl_policy X)" "dp_json_text (gateway_deps_of X) = gl_json_text X"
  by (simp_all add: gateway_deps_of_def)

lemma port_answers_sel [simp]:
  "io_kill_file (port_answers X ds n k) = k" "io_audit_ok (port_answers X ds n k)"
  "io_approve (port_answers X ds n k) = (\<lambda>_ _. db_human ds)" "io_forward (port_answers X ds n k) = db_upstream ds"
  "io_detect (port_answers X ds n k) = db_detector ds" "io_rng (port_answers X ds n k) = gl_rng X n"
  "io_now_ms (port_answers X ds n k) = gl_now_ms X"
  by (simp_all add: port_answers_def)

text \<open>A gateway of the tests: its policy is read as documented, its log holds \<open>n\<close> entries and verifies.\<close>

definition gateway_ready ::
    "(string \<Rightarrow> string \<Rightarrow> bool) \<Rightarrow> ('sk, 'vk, 'prog) gateway_libs \<Rightarrow> policy \<Rightarrow> (cond \<times> rule) list \<Rightarrow> nat
       \<Rightarrow> ('sk, 'prog) gateway \<Rightarrow> bool" where
  "gateway_ready re X p crs n g \<longleftrightarrow>
     (\<forall>a env. evaluate (pl_exec (gl_policy X)) (gw_policy g) a env = meant_outcome re p crs a env)
     \<and> gw_env g = default_env \<and> al_key (gw_audit g) = None
     \<and> (\<exists>cs. chain_intact (gl_crypto X) (al_db (gw_audit g)) cs \<and> length cs = n)"

text \<open>What the policy of such a gateway decides on a call, whatever the clock and the counter say.\<close>

definition call_kind :: "(string \<Rightarrow> string \<Rightarrow> bool) \<Rightarrow> policy \<Rightarrow> (cond \<times> rule) list \<Rightarrow> tool_call
    \<Rightarrow> decision_kind \<Rightarrow> bool" where
  "call_kind re p crs c k \<longleftrightarrow>
     (\<forall>src i now. kind_of_decision (out_decision (meant_outcome re p crs (build_action c src i now) default_env)) = k)"

lemma with_vault_config [simp]:
  "gw_policy (snd (with_vault rng s f g)) = gw_policy g" "gw_env (snd (with_vault rng s f g)) = gw_env g"
  "gw_self (snd (with_vault rng s f g)) = gw_self g"
  by (simp_all add: with_vault_def split_beta)

lemma learn_fold_config [simp]:
  "gw_policy (fold (\<lambda>x g. snd (with_vault rng s (F x) g)) xs g) = gw_policy g"
  "gw_env (fold (\<lambda>x g. snd (with_vault rng s (F x) g)) xs g) = gw_env g"
  "gw_self (fold (\<lambda>x g. snd (with_vault rng s (F x) g)) xs g) = gw_self g"
  by (induction xs arbitrary: g) simp_all

lemma handle_config:
  "gw_policy (snd (snd (handle dp io call g))) = gw_policy g"
  "gw_env (snd (snd (handle dp io call g))) = gw_env g"
  "gw_self (snd (snd (handle dp io call g))) = gw_self g"
  by (simp_all add: handle_eq forward_call_def Let_def recorded_state_def split_beta split: sum.split)

lemma ready_appends:
  assumes "gateway_ready re X p crs n g" and "\<forall>e. is_ok (gl_ser_entry X e)" and "n < audit_room"
  shows "is_ok (fst (call_appended (gateway_deps_of X) (port_answers X ds m k) c g))"
    and "gateway_ready re X p crs (Suc n) (snd (snd (handle (gateway_deps_of X) (port_answers X ds m k) c g)))"
proof -
  let ?e = "call_entry (gateway_deps_of X) (port_answers X ds m k) c g"
  obtain cs where cs: "chain_intact (gl_crypto X) (al_db (gw_audit g)) cs" "length cs = n"
    using assms(1) by (auto simp: gateway_ready_def)
  obtain t where t: "gl_ser_entry X ?e = Inr t"
    using assms(2) by (metis is_ok_iff)
  show "is_ok (fst (call_appended (gateway_deps_of X) (port_answers X ds m k) c g))"
    using cs assms(3) by (simp add: call_appended_def audit_append_intact t Let_def)
  have "chain_intact (gl_crypto X) (al_db (snd (call_appended (gateway_deps_of X) (port_answers X ds m k) c g))) (cs @ [t])"
    using audit_append_step [OF cs(1), of "gl_ser_entry X" True ?e] cs(2) assms(3)
    by (simp add: call_appended_def written_def t)
  then show "gateway_ready re X p crs (Suc n) (snd (snd (handle (gateway_deps_of X) (port_answers X ds m k) c g)))"
    using assms(1) cs(2) unfolding gateway_ready_def handle_config handle_audit
    by (auto simp: call_appended_def intro!: exI [of _ "cs @ [t]"])
qed

lemma ready_verdict:
  assumes "gateway_ready re X p crs n g" and "call_kind re p crs c k"
  shows "kind_of_decision (out_decision (call_verdict (gateway_deps_of X) io c g)) = k"
  using assms by (simp add: gateway_ready_def call_kind_def normalize_call_def)

lemma ready_log:
  assumes "gateway_ready re X p crs n g"
  shows "gateway_audit_len g = n" and "is_ok (gateway_audit_verify (gl_crypto X) g)"
proof -
  obtain cs where cs: "chain_intact (gl_crypto X) (al_db (gw_audit g)) cs" "length cs = n"
    and k: "al_key (gw_audit g) = None"
    using assms by (auto simp: gateway_ready_def)
  show "gateway_audit_len g = n"
    using chain_intact_length [OF cs(1)] cs(2) by (simp add: gateway_audit_len_def audit_len_def)
  show "is_ok (gateway_audit_verify (gl_crypto X) g)"
    by (simp add: gateway_audit_verify_def audit_verify_def verify_chain_intact [OF cs(1)] k)
qed

text \<open>The answer to a call that no override stops, by the kind of the verdict.\<close>

lemma ready_handled:
  assumes "gateway_ready re X p crs n g" and "\<forall>e. is_ok (gl_ser_entry X e)" and "n < audit_room"
    and "call_kind re p crs c k" and "call_override (port_answers X ds m kf) c g = None"
  shows "k = DK_Allow \<or> k = DK_Ask \<and> db_human ds = Approved \<Longrightarrow>
      fst (handle (gateway_deps_of X) (port_answers X ds m kf) c g) =
        fst (forward_call (gateway_deps_of X) (port_answers X ds m kf) c
               (recorded_state (gateway_deps_of X) (port_answers X ds m kf) c g))"
    and "k = DK_Deny \<or> k = DK_Ask \<and> db_human ds \<noteq> Approved \<Longrightarrow>
      is_blocked (fst (handle (gateway_deps_of X) (port_answers X ds m kf) c g))"
proof -
  note v = ready_verdict [OF assms(1,4), of "port_answers X ds m kf"]
  show "k = DK_Allow \<or> k = DK_Ask \<and> db_human ds = Approved \<Longrightarrow>
      fst (handle (gateway_deps_of X) (port_answers X ds m kf) c g) =
        fst (forward_call (gateway_deps_of X) (port_answers X ds m kf) c
               (recorded_state (gateway_deps_of X) (port_answers X ds m kf) c g))"
    using ready_appends(1) [OF assms(1-3)] v assms(5)
    by (auto simp: handle_eq Let_def split_beta call_cleared_def split: decision.splits)
  show "k = DK_Deny \<or> k = DK_Ask \<and> db_human ds \<noteq> Approved \<Longrightarrow>
      is_blocked (fst (handle (gateway_deps_of X) (port_answers X ds m kf) c g))"
    using v assms(5) by (auto simp: handle_eq Let_def split_beta call_cleared_def split: decision.splits)
qed

text \<open>What the upstream and the Checker saw of such a call.\<close>

lemma forwarded_tools_simps [simp]:
  "forwarded_tools [] = []" "forwarded_tools (xs @ ys) = forwarded_tools xs @ forwarded_tools ys"
  "forwarded_tools (EV_Forward c # xs) = tc_tool c # forwarded_tools xs"
  "forwarded_tools (EV_Record e b # xs) = forwarded_tools xs"
  by (simp_all add: forwarded_tools_def map_filter_def)

lemma no_forward_tools: "filter is_forward evs = [] \<Longrightarrow> forwarded_tools evs = []"
proof (induction evs)
  case (Cons e evs)
  then show ?case by (cases e) (auto simp: forwarded_tools_def map_filter_def)
qed simp

lemma no_consult_checker: "filter is_consult evs = [] \<Longrightarrow> \<not> checker_called evs"
proof (induction evs)
  case (Cons e evs)
  then show ?case by (cases e) (auto simp: checker_called_def)
qed (simp add: checker_called_def)

lemma checker_called_append: "checker_called (xs @ ys) \<longleftrightarrow> checker_called xs \<or> checker_called ys"
  by (simp add: checker_called_def)

lemma handled_events:
  "forwarded_tools (fst (snd (handle dp io c g))) =
     (if call_cleared dp io c g \<and> is_ok (fst (call_appended dp io c g)) then [tc_tool c] else [])"
  "call_consults dp io c g = [] \<Longrightarrow> \<not> checker_called (fst (snd (handle dp io c g)))"
proof -
  obtain post where e: "fst (snd (handle dp io c g)) = call_consults dp io c g
       @ [EV_Record (call_entry dp io c g) (is_ok (fst (call_appended dp io c g)))]
       @ (if call_cleared dp io c g \<and> is_ok (fst (call_appended dp io c g))
          then EV_Forward (restored_call io c g) # post else [])"
    and post: "filter is_forward post = []" "filter is_consult post = []"
    using handle_events [of dp io c g] by blast
  have "tc_tool (restored_call io c g) = tc_tool c" by (simp add: restored_call_def)
  with post(1) show "forwarded_tools (fst (snd (handle dp io c g))) =
      (if call_cleared dp io c g \<and> is_ok (fst (call_appended dp io c g)) then [tc_tool c] else [])"
    unfolding e by (simp add: no_forward_tools)
  assume "call_consults dp io c g = []"
  with post(2) show "\<not> checker_called (fst (snd (handle dp io c g)))"
    unfolding e by (intro no_consult_checker) auto
qed

subsection \<open>The tests of decisions pass\<close>

lemma gateway_kinds:
  "call_kind re gateway_policy (map fst gateway_rules) (call_of t K_FileRead) DK_Allow"
  "call_kind re gateway_policy (map fst gateway_rules) (call_of t K_Exec) DK_Deny"
  "call_kind re gateway_policy (map fst gateway_rules) (call_of t K_Email) DK_Ask"
  "call_kind re gateway_policy (map fst gateway_rules) (path_call t K_FileWrite path) DK_Ask"
  "call_kind re gateway_policy (map fst gateway_rules) (path_call t K_FileRead path) DK_Allow"
  unfolding call_kind_def by (intro allI, code_simp)+

lemma gateway_policies_load:
  assumes "reads_gateway_tests re X"
  shows "\<exists>cp. load (gl_policy X) GATEWAY_POLICY = Inr cp
     \<and> gateway_ready re X gateway_policy (map fst gateway_rules) 0 (test_gateway cp)" (is ?gateway)
    and "i \<in> {''a'', ''all''} \<Longrightarrow> \<exists>cp. load (gl_policy X) (allowing_text i) = Inr cp
     \<and> gateway_ready re X (policy_of ''t'' (allowing_rules i)) (allowing_rules i) 0 (test_gateway cp)"
proof -
  note r = assms [unfolded reads_gateway_tests_def Let_def]
  have new: "gateway_ready re X p crs 0 (test_gateway cp)"
    if "\<forall>a env. evaluate (pl_exec (gl_policy X)) cp a env = meant_outcome re p crs a env" for p crs cp
    using that from_conn_empty [of "gl_crypto X" None]
    by (simp add: gateway_ready_def test_gateway_def gateway_new_def open_log_def from_conn_def)
  have load: "\<exists>cp. load (gl_policy X) s = Inr cp \<and> gateway_ready re X p crs 0 (test_gateway cp)"
    if "pl_toml (gl_policy X) s = Inr p" "policy_wf p \<and> pol_rules p = map snd crs \<and> texts_agree crs"
      "cel_reads re (pl_cel (gl_policy X)) (pl_exec (gl_policy X)) (map fst crs)" for s p crs
    using documented_load [OF that] new by blast
  have "policy_wf gateway_policy \<and> pol_rules gateway_policy = map snd (map fst gateway_rules)
      \<and> texts_agree (map fst gateway_rules)"
    by code_simp
  with r show ?gateway by (intro load) simp_all
  have "policy_wf (policy_of ''t'' (allowing_rules i)) \<and> texts_agree (allowing_rules i)" if "i \<in> {''a'', ''all''}" for i
    using that by (elim insertE emptyE; hypsubst; code_simp)
  moreover assume "i \<in> {''a'', ''all''}"
  ultimately show "\<exists>cp. load (gl_policy X) (allowing_text i) = Inr cp
     \<and> gateway_ready re X (policy_of ''t'' (allowing_rules i)) (allowing_rules i) 0 (test_gateway cp)"
    using r by (intro load) (auto simp: policy_of_def allowing_rules_def on_def)
qed

lemma handle_tokenization: "tokenization_on (snd (snd (handle dp io call g))) = tokenization_on g"
  by (simp add: tokenization_on_def handle_eq Let_def split_beta)

lemma untokenized_forward:
  "\<not> tokenization_on g \<Longrightarrow> is_allowed (fst (forward_call dp (port_answers X (recording human) m kf) c g))"
  by (simp add: forward_call_def recording_def)

lemma plain_handled:
  assumes "gateway_ready re X p crs n g" and "\<forall>e. is_ok (gl_ser_entry X e)" and "n < audit_room"
    and "call_kind re p crs c k" and "call_override (port_answers X (recording human) m False) c g = None"
    and "\<not> tokenization_on g"
  shows "k = DK_Allow \<or> k = DK_Ask \<and> human = Approved \<Longrightarrow>
      is_allowed (fst (handled X (recording human) m c g))
      \<and> forwarded_tools (fst (snd (handled X (recording human) m c g))) = [tc_tool c]"
    and "k = DK_Deny \<or> k = DK_Ask \<and> human \<noteq> Approved \<Longrightarrow>
      is_blocked (fst (handled X (recording human) m c g))
      \<and> forwarded_tools (fst (snd (handled X (recording human) m c g))) = []"
    and "k \<noteq> DK_Ask \<Longrightarrow> \<not> checker_called (fst (snd (handled X (recording human) m c g)))"
proof -
  let ?io = "port_answers X (recording human) m False"
  note o = assms(5) and off = assms(6)
  have h: "db_human (recording human) = human" by (simp add: recording_def)
  note v = ready_verdict [OF assms(1,4), of ?io] and r = ready_handled [OF assms(1-4) o, unfolded h]
    and ok = ready_appends(1) [OF assms(1-3), of "recording human" m False c]
  have cleared: "call_cleared (gateway_deps_of X) ?io c g \<longleftrightarrow> k = DK_Allow \<or> k = DK_Ask \<and> human = Approved"
    using v o h
    by (cases "out_decision (call_verdict (gateway_deps_of X) ?io c g)") (auto simp: call_cleared_def)
  show "k = DK_Allow \<or> k = DK_Ask \<and> human = Approved \<Longrightarrow>
      is_allowed (fst (handled X (recording human) m c g))
      \<and> forwarded_tools (fst (snd (handled X (recording human) m c g))) = [tc_tool c]"
    using r(1) ok cleared untokenized_forward [of "recorded_state (gateway_deps_of X) ?io c g" "gateway_deps_of X" X human m False c]
      off unfolding handled_def handled_events by simp
  show "k = DK_Deny \<or> k = DK_Ask \<and> human \<noteq> Approved \<Longrightarrow>
      is_blocked (fst (handled X (recording human) m c g))
      \<and> forwarded_tools (fst (snd (handled X (recording human) m c g))) = []"
    using r(2) cleared unfolding handled_def handled_events by auto
  assume "k \<noteq> DK_Ask"
  with v have "call_consults (gateway_deps_of X) ?io c g = []"
    by (cases "out_decision (call_verdict (gateway_deps_of X) ?io c g)") (auto simp: call_consults_def)
  from handled_events(2) [OF this] show "\<not> checker_called (fst (snd (handled X (recording human) m c g)))"
    by (simp add: handled_def)
qed

lemma overridden_handled:
  assumes "call_override io c g = Some r"
  shows "is_blocked (fst (handle dp io c g)) \<and> forwarded_tools (fst (snd (handle dp io c g))) = []"
  using assms by (intro conjI) (simp add: handle_eq Let_def call_cleared_def, simp add: handled_events call_cleared_def)

lemma tool_of_call [simp]: "tc_tool (call_of t k) = t" "tc_tool (path_call t k path) = t"
  by (simp_all add: call_of_def path_call_def)

lemma tested_gateway:
  assumes "reads_gateway_tests re X"
    and "\<And>g. gateway_ready re X gateway_policy (map fst gateway_rules) 0 g \<Longrightarrow> \<not> tokenization_on g \<Longrightarrow>
           gw_self g = \<lparr>sf_protected = [], sf_kill_switch = False\<rparr> \<Longrightarrow> t g"
  shows "gateway_with X GATEWAY_POLICY t"
proof -
  obtain cp where "load (gl_policy X) GATEWAY_POLICY = Inr cp"
    and "gateway_ready re X gateway_policy (map fst gateway_rules) 0 (test_gateway cp)"
    using gateway_policies_load(1) [OF assms(1)] by blast
  with assms(2) [of "test_gateway cp"] show ?thesis
    by (simp add: gateway_with_def with_policy_def test_gateway_def gateway_new_def tokenization_on_def)
qed

lemma test_room: "0 < audit_room" "Suc 0 < audit_room" "Suc (Suc 0) < audit_room" "Suc (Suc (Suc 0)) < audit_room"
  by (simp_all add: audit_room_def)

lemma decision_tests_pass:
  assumes "reads_gateway_tests re X"
  shows "allow_forwards_to_upstream X" "ask_then_approve_forwards X" "ask_then_deny_blocks X"
    "deny_blocks_and_does_not_forward X" "checker_is_not_called_on_the_fast_path X"
    "decisions_are_recorded_and_log_verifies X"
proof -
  have ser: "\<forall>e. is_ok (gl_ser_entry X e)" using assms by (simp add: reads_gateway_tests_def)
  note ts = tested_gateway [OF assms] and no = ex_gateway_no_override
  note h = plain_handled [OF _ ser _ gateway_kinds(1) no] plain_handled [OF _ ser _ gateway_kinds(2) no]
    plain_handled [OF _ ser _ gateway_kinds(3) no]
  note rs = test_room
  have self: "gw_self (snd (snd (handled X ds n c g))) = gw_self g"
    "tokenization_on (snd (snd (handled X ds n c g))) = tokenization_on g" for ds n c and g :: "('a, 'c) gateway"
    by (simp_all add: handled_def handle_config handle_tokenization)
  have next_ready: "gateway_ready re X p crs (Suc n) (snd (snd (handled X ds m c g)))"
    if "gateway_ready re X p crs n g" "n < audit_room" for p crs n ds m c and g :: "('a, 'c) gateway"
    using ready_appends(2) [OF that(1) ser that(2)] by (simp add: handled_def)
  show "allow_forwards_to_upstream X"
    unfolding allow_forwards_to_upstream_def by (rule ts) (simp add: split_beta h(1) rs)
  show "ask_then_approve_forwards X"
    unfolding ask_then_approve_forwards_def by (rule ts) (simp add: split_beta h(7) rs)
  show "ask_then_deny_blocks X"
    unfolding ask_then_deny_blocks_def by (rule ts) (simp add: split_beta h(8) rs)
  show "checker_is_not_called_on_the_fast_path X"
    unfolding checker_is_not_called_on_the_fast_path_def
  proof (rule ts)
    fix g :: "('a, 'c) gateway"
    assume g: "gateway_ready re X gateway_policy (map fst gateway_rules) 0 g" "\<not> tokenization_on g"
      "gw_self g = \<lparr>sf_protected = [], sf_kill_switch = False\<rparr>"
    let ?g = "snd (snd (handled X (recording Approved) 0 (call_of ''fs.read'' K_FileRead) g))"
    have g1: "gateway_ready re X gateway_policy (map fst gateway_rules) (Suc 0) ?g"
      "gw_self ?g = \<lparr>sf_protected = [], sf_kill_switch = False\<rparr>" "\<not> tokenization_on ?g"
      using next_ready [OF g(1) rs(1)] g(2,3) by (simp_all add: self)
    show "case handled X (recording Approved) 0 (call_of ''fs.read'' K_FileRead) g of
       (out1, evs1, g1) \<Rightarrow>
         (case handled X (recording Approved) 1 (call_of ''shell.run'' K_Exec) g1 of
            (out2, evs2, g2) \<Rightarrow> is_allowed out1 \<and> is_blocked out2 \<and> \<not> checker_called (evs1 @ evs2))"
      using h(1,3) [OF g(1) rs(1) g(3,2), of Approved 0] h(5,6) [OF g1(1) rs(2) g1(2,3), of Approved 1]
      by (simp add: split_beta checker_called_append)
  qed
  show "decisions_are_recorded_and_log_verifies X"
    unfolding decisions_are_recorded_and_log_verifies_def
  proof (rule ts)
    fix g :: "('a, 'c) gateway"
    assume "gateway_ready re X gateway_policy (map fst gateway_rules) 0 g"
    from next_ready [OF next_ready [OF next_ready [OF this]], OF rs(1-3)]
    have "gateway_ready re X gateway_policy (map fst gateway_rules) 3
        (snd (snd (handled X (recording Approved) 2 (call_of ''mail.send'' K_Email)
          (snd (snd (handled X (recording Approved) 1 (call_of ''shell.run'' K_Exec)
            (snd (snd (handled X (recording Approved) 0 (call_of ''fs.read'' K_FileRead) g))))))))) "
      by (simp add: numeral_3_eq_3)
    then show "let step = (\<lambda>n c g. snd (snd (handled X (recording Approved) n c g)));
         g3 = step 2 (call_of ''mail.send'' K_Email)
                (step 1 (call_of ''shell.run'' K_Exec) (step 0 (call_of ''fs.read'' K_FileRead) g))
     in gateway_audit_len g3 = 3 \<and> is_ok (gateway_audit_verify (gl_crypto X) g3)"
      by (simp add: Let_def ready_log)
  qed
  show "deny_blocks_and_does_not_forward X"
    unfolding deny_blocks_and_does_not_forward_def
  proof (rule ts)
    fix g :: "('a, 'c) gateway"
    assume g: "gateway_ready re X gateway_policy (map fst gateway_rules) 0 g" "\<not> tokenization_on g"
      "gw_self g = \<lparr>sf_protected = [], sf_kill_switch = False\<rparr>"
    have d: "out_decision (meant_outcome re gateway_policy (map fst gateway_rules)
        (build_action (call_of t K_Exec) src i now) default_env) = Deny ''Running shell commands is blocked here.''"
      for t src i now
      by code_simp
    let ?c = "call_of ''shell.run'' K_Exec" and ?io = "port_answers X (recording Approved) 0 False"
    have "out_decision (call_verdict (gateway_deps_of X) ?io ?c g) = Deny ''Running shell commands is blocked here.''"
      using g(1) d by (simp add: gateway_ready_def normalize_call_def)
    then have "fst (handled X (recording Approved) 0 ?c g) = GO_Blocked ''Running shell commands is blocked here.''"
      using no [OF g(3), of ?io ?c] by (simp add: handled_def handle_eq Let_def call_cleared_def)
    moreover have "contains_sub ''Running shell commands is blocked here.'' ''blocked''" by code_simp
    ultimately show "case handled X (recording Approved) 0 ?c g of
       (GO_Blocked reason, evs, g') \<Rightarrow> contains_sub reason ''blocked'' \<and> forwarded_tools evs = [] | _ \<Rightarrow> False"
      using h(5) [OF g(1) rs(1) g(3,2), of Approved 0] by (simp add: split_beta)
  qed
qed

subsection \<open>The tests of the hard overrides pass\<close>

lemma grd_overrides:
  "override_deny grd_protection False cwd (build_action (path_call t K_FileWrite ''/grd/policy.toml'') src i now) \<noteq> None"
  "override_deny grd_protection False cwd (build_action (path_call t K_FileWrite ''/x/../grd/policy.toml'') src i now) \<noteq> None"
  "override_deny grd_protection False cwd (build_action (path_call t K_FileWrite ''/grd/sub/../config.toml'') src i now) \<noteq> None"
  "override_deny grd_protection False cwd (build_action (path_call t K_FileWrite ''/grd-evil/x'') src i now) = None"
  "override_deny grd_protection False cwd (build_action (path_call t K_FileRead ''/grd/policy.toml'') src i now) = None"
  by code_simp+

lemma override_tests_pass:
  assumes "reads_gateway_tests re X"
  shows "self_protection_blocks_writes_to_its_own_files X"
    "kill_switch_denies_everything_then_releases X"
    "self_protection_normalizes_paths_and_scopes_to_writes X"
proof -
  have ser: "\<forall>e. is_ok (gl_ser_entry X e)" using assms by (simp add: reads_gateway_tests_def)
  note ts = tested_gateway [OF assms]
  let ?D = "gateway_deps_of X" and ?io = "port_answers X (recording Approved)"
  let ?ready = "gateway_ready re X gateway_policy (map fst gateway_rules)"
  have written: "is_blocked (fst (handled X (recording Approved) n (path_call t K_FileWrite p) g))
      \<and> forwarded_tools (fst (snd (handled X (recording Approved) n (path_call t K_FileWrite p) g))) = []"
    if "gw_self g = grd_protection"
      "\<forall>cwd src i now. override_deny grd_protection False cwd (build_action (path_call t K_FileWrite p) src i now) \<noteq> None"
    for n t p and g :: "('a, 'c) gateway"
  proof -
    have "call_override (?io n False) (path_call t K_FileWrite p) g \<noteq> None"
      using that by (simp add: normalize_call_def)
    then show ?thesis using overridden_handled [where io = "?io n False" and g = g and dp = ?D] by (auto simp: handled_def)
  qed
  have protecting: "?ready n (with_self_protection sf g) = ?ready n g"
    "tokenization_on (with_self_protection sf g) = tokenization_on g" "gw_self (with_self_protection sf g) = sf"
    for n sf and g :: "('a, 'c) gateway"
    by (simp_all add: gateway_ready_def with_self_protection_def tokenization_on_def)
  show "self_protection_blocks_writes_to_its_own_files X"
    unfolding self_protection_blocks_writes_to_its_own_files_def
    by (rule ts) (simp add: split_beta written protecting grd_overrides)
  show "kill_switch_denies_everything_then_releases X"
    unfolding kill_switch_denies_everything_then_releases_def
  proof (rule ts)
    fix g0 :: "('a, 'c) gateway"
    let ?c = "call_of ''fs.read'' K_FileRead"
    let ?g = "with_self_protection \<lparr>sf_protected = [], sf_kill_switch = True\<rparr> g0"
    let ?g1 = "snd (snd (handle ?D (?io 0 True) ?c ?g))"
    assume g: "?ready 0 g0" "\<not> tokenization_on g0"
    have "call_override (?io 0 True) ?c ?g = Some kill_reason" by (simp add: protecting override_deny_def)
    from overridden_handled [where dp = ?D, OF this] have b: "is_blocked (fst (handle ?D (?io 0 True) ?c ?g))" by simp
    have "?ready 0 ?g" using g(1) by (simp add: protecting)
    from ready_appends(2) [OF this ser test_room(1)] have "?ready (Suc 0) ?g1" .
    moreover have "call_override (?io 1 False) ?c ?g1 = None"
      by (simp add: handle_config protecting override_deny_def normalize_call_def build_action_def call_of_def)
    moreover have "\<not> tokenization_on ?g1" using g(2) by (simp add: handle_tokenization protecting)
    ultimately have "is_allowed (fst (handle ?D (?io 1 False) ?c ?g1))"
      using plain_handled(1) [OF _ ser test_room(2) gateway_kinds(1), of re ?g1 Approved 1 "''fs.read''"] by (simp add: handled_def)
    with b show "let ask = (\<lambda>n engaged g. handle ?D (?io n engaged) ?c g)
     in case ask 0 True ?g of (out1, _, g1) \<Rightarrow> is_blocked out1 \<and> is_allowed (fst (ask 1 False g1))"
      by (simp add: split_beta)
  qed
  show "self_protection_normalizes_paths_and_scopes_to_writes X"
    unfolding self_protection_normalizes_paths_and_scopes_to_writes_def
  proof (rule ts)
    fix g :: "('a, 'c) gateway"
    assume g: "?ready 0 g" "\<not> tokenization_on g"
    let ?h = "\<lambda>n t k p g. handled X (recording Approved) n (path_call t k p) g"
    let ?g0 = "with_self_protection grd_protection g"
    let ?g1 = "snd (snd (?h 0 ''write_file'' K_FileWrite ''/x/../grd/policy.toml'' ?g0))"
    let ?g2 = "snd (snd (?h 1 ''write_file'' K_FileWrite ''/grd/sub/../config.toml'' ?g1))"
    let ?g3 = "snd (snd (?h 2 ''write_file'' K_FileWrite ''/grd-evil/x'' ?g2))"
    have step: "?ready (Suc n) (snd (snd (?h m t k p g)))" if "?ready n g" "n < audit_room" for n m t k p and g :: "('a, 'c) gateway"
      using ready_appends(2) [OF that(1) ser that(2)] by (simp add: handled_def)
    have "?ready 0 ?g0" using g(1) by (simp add: protecting)
    from step [OF step [OF this test_room(1)] test_room(2)] have r2: "?ready (Suc (Suc 0)) ?g2" .
    from step [OF r2 test_room(3)] have r3: "?ready (Suc (Suc (Suc 0))) ?g3" .
    have self: "gw_self (snd (snd (?h n t k p g))) = gw_self g"
      "tokenization_on (snd (snd (?h n t k p g))) = tokenization_on g" for n t k p and g :: "('a, 'c) gateway"
      by (simp_all add: handled_def handle_config handle_tokenization)
    have free: "call_override (?io 2 False) (path_call t K_FileWrite ''/grd-evil/x'') ?g2 = None"
      "call_override (?io 3 False) (path_call t K_FileRead ''/grd/policy.toml'') ?g3 = None" for t
      by (simp_all add: self protecting normalize_call_def grd_overrides)
    have off: "\<not> tokenization_on ?g2" "\<not> tokenization_on ?g3"
      using g(2) by (simp_all add: self protecting)
    have "is_allowed (fst (?h 2 ''write_file'' K_FileWrite ''/grd-evil/x'' ?g2))"
      using plain_handled(1) [OF r2 ser test_room(3) gateway_kinds(4) free(1) off(1)] by simp
    then have "\<not> is_blocked (fst (?h 2 ''write_file'' K_FileWrite ''/grd-evil/x'' ?g2))"
      by (cases "fst (?h 2 ''write_file'' K_FileWrite ''/grd-evil/x'' ?g2)") simp_all
    moreover have "is_allowed (fst (?h 3 ''read_file'' K_FileRead ''/grd/policy.toml'' ?g3))"
      using plain_handled(1) [OF r3 ser test_room(4) gateway_kinds(5) free(2) off(2)] by simp
    moreover have "is_blocked (fst (?h 0 ''write_file'' K_FileWrite ''/x/../grd/policy.toml'' ?g0))"
      "is_blocked (fst (?h 1 ''write_file'' K_FileWrite ''/grd/sub/../config.toml'' ?g1))"
      by (simp_all add: written self protecting grd_overrides)
    ultimately show "let step = ?h in case step 0 ''write_file'' K_FileWrite ''/x/../grd/policy.toml'' ?g0 of
       (out1, _, g1) \<Rightarrow>
         (case step 1 ''write_file'' K_FileWrite ''/grd/sub/../config.toml'' g1 of (out2, _, g2) \<Rightarrow>
         (case step 2 ''write_file'' K_FileWrite ''/grd-evil/x'' g2 of (out3, _, g3) \<Rightarrow>
         (case step 3 ''read_file'' K_FileRead ''/grd/policy.toml'' g3 of (out4, _, _) \<Rightarrow>
            is_blocked out1 \<and> is_blocked out2 \<and> \<not> is_blocked out3 \<and> is_allowed out4)))"
      unfolding Let_def split_beta by blast
  qed
qed

subsection \<open>The tests of the data vault pass\<close>

text \<open>A call under a policy that allows it goes on to the forwarding.\<close>

lemma ready_allowed:
  assumes "gateway_ready re X p crs n g" and "\<forall>e. is_ok (gl_ser_entry X e)" and "n < audit_room"
    and "call_kind re p crs c DK_Allow" and "gw_self g = \<lparr>sf_protected = [], sf_kill_switch = False\<rparr>"
  shows "\<exists>e. handled X ds m c g =
     (let (out, evs, g') = forward_call (gateway_deps_of X) (port_answers X ds m False) c
            (recorded_state (gateway_deps_of X) (port_answers X ds m False) c g)
      in (out, EV_Record e True # evs, g'))"
proof -
  let ?io = "port_answers X ds m False"
  have o: "call_override ?io c g = None"
    using assms(5) by (rule ex_gateway_no_override)
  have v: "out_decision (call_verdict (gateway_deps_of X) ?io c g) = Allow"
    using ready_verdict [OF assms(1,4), of ?io] by simp
  show ?thesis
    using ready_appends(1) [OF assms(1-3), of ds m False c] o v
    by (auto simp: handled_def handle_eq Let_def split_beta call_cleared_def call_consults_def)
qed

lemma session_vault_with_vault:
  "session_vault rng' s' (snd (with_vault rng s f g)) =
     (if s' = s then snd (f (session_vault rng s g)) else session_vault rng' s' g)"
  by (cases "s' = s") (simp_all add: session_vault_def with_vault_same split: option.split)

lemma with_vault_result: "fst (with_vault rng s f g) = fst (f (session_vault rng s g))"
  by (simp add: with_vault_def split_beta)

lemma session_vault_learn_fold:
  "session_vault rng' s' (fold (\<lambda>y g. snd (with_vault rng s (\<lambda>v. ((), learn v y)) g)) ys g) =
     (if ys = [] then session_vault rng' s' g
      else if s' = s then fold (\<lambda>y v. learn v y) ys (session_vault rng s g) else session_vault rng' s' g)"
proof (induction ys arbitrary: g)
  case (Cons y ys)
  then show ?case by (auto simp: session_vault_with_vault)
qed simp

text \<open>Forwarding with the data vault on, for an upstream that answers.\<close>

lemma forward_tokenized:
  assumes "tokenization_on g" and "io_forward io (restored_call io c g) = Inr x"
    and "v = (if gw_detector g then fold (\<lambda>y v. learn v y) (io_detect io (dp_json_text dp x)) else id)
           (session_vault (io_rng io) (session_of c) g)"
  shows "fst (forward_call dp io c g) = GO_Allowed (fst (tokenize_json v x))"
    and "session_vault rng s (snd (snd (forward_call dp io c g))) =
      (if s = session_of c then snd (tokenize_json v x) else session_vault rng s g)"
    and "last_args (EV_Record e b # fst (snd (forward_call dp io c g))) =
      Some (detokenize_json (session_vault (io_rng io) (session_of c) g) (tc_args c))"
  using assms
  by (auto simp: forward_call_def restored_call_def Let_def split_beta with_vault_result session_vault_with_vault
      session_vault_learn_fold last_args_def map_filter_def)

lemma contains_sub_char: "contains_sub s (c # p) \<Longrightarrow> c \<in> set s"
  by (auto simp: contains_sub_iff)

lemma plain_text_lacks:
  assumes "\<forall>k s. list_all escapeless k \<and> list_all escapeless s \<longrightarrow> gl_json_text X (JObj [(k, JStr s)]) = plain_field_text k s"
    and "list_all escapeless (k @ s)" and "c \<notin> set (k @ s)" and "c \<notin> set (str_quoted [] @ ''{:}'')"
  shows "\<not> contains_sub (gl_json_text X (args1 k (JStr s))) (c # p)"
proof -
  have "gl_json_text X (args1 k (JStr s)) = plain_field_text k s"
    using assms(1,2) by (simp add: args1_def)
  then show ?thesis
    using assms(3,4) by (auto dest!: contains_sub_char simp: plain_field_text_def str_quoted_def)
qed

lemma token_chars:
  "c \<in> set (token_text (random_id (Inr b))) \<Longrightarrow> c \<in> set ''[GDN-]0123456789abcdef''"
  by (auto simp: token_text_def PREFIX_def SUFFIX_def random_id_def is_hex_char_def dest!: hex_enc_hex)

lemma vault_texts:
  "trim IBAN = IBAN" "trim ''Top Secret'' = ''Top Secret''" "trim ''seed-value'' = ''seed-value''"
  "trim ''Acme Corp'' = ''Acme Corp''" "slice IBAN 0 27 = IBAN" "drop 27 IBAN = []"
  "slice ''wire from Acme Corp to you'' 0 10 = ''wire from ''" "slice ''wire from Acme Corp to you'' 10 19 = ''Acme Corp''"
  "slice ''Top Secret stuff here'' 0 10 = ''Top Secret''"
  by code_simp+

lemma iban_span: "candidate_spans [IBAN] IBAN = [(0, 27)]"
  by code_simp

lemma note_span: "candidate_spans [''Top Secret''] ''Top Secret stuff here'' = [(0, 10)]"
  by code_simp

lemma seed_span: "candidate_spans [''seed-value''] ''wire from Acme Corp to you'' = []"
  by code_simp

lemma acme_span: "candidate_spans [''seed-value'', ''Acme Corp''] ''wire from Acme Corp to you'' = [(10, 19)]"
  by code_simp

lemma allowing_kind: "call_kind re (policy_of ''t'' (allowing_rules i)) (allowing_rules i) (rd t args s) DK_Allow"
  unfolding call_kind_def allowing_rules_def
  by (simp add: meant_outcome_def met_rules_def on_def rule_on_def cond_met_simps evaluate_spec_def critical_floor_noncritical
      action_is_critical_def build_action_def rd_def rule_verdict_kind cap_holds_def max_def less_eq_decision_kind_def
      del: kind_of_decision_Allow_iff)

lemma learned:
  "trim x = x \<Longrightarrow> MIN_KNOWN_LEN \<le> length x \<Longrightarrow> x \<notin> set (va_known v) \<Longrightarrow> va_known (learn v x) = va_known v @ [x]"
  "va_by_id (learn v x) = va_by_id v" "va_by_value (learn v x) = va_by_value v" "va_rng (learn v x) = va_rng v"
  by (simp_all add: learn_def Let_def)

lemma vault_new_sel: "va_known (vault_new r) = []" "va_by_id (vault_new r) = []" "va_by_value (vault_new r) = []"
  "va_rng (vault_new r) = r"
  by (simp_all add: vault_new_def)

lemma slice_empty: "slice t a a = []"
  by (simp add: slice_def)

text \<open>One span of a text under a vault that has no token yet.\<close>

lemma one_span:
  assumes "candidate_spans (va_known v) t = [(a, b)]" and "va_by_value v = []"
  shows "fst (tokenize v t) = slice t 0 a @ token_text (random_id (va_rng v 0)) @ drop b t"
    and "va_by_id v = [] \<Longrightarrow> va_by_id (snd (tokenize v t)) = [(random_id (va_rng v 0), slice t a b)]"
  using assms by (simp_all add: tokenize_def token_for_def Let_def)

lemma allowing_gateway:
  assumes "reads_gateway_tests re X" and "i \<in> {''a'', ''all''}"
    and "\<And>g. gateway_ready re X (policy_of ''t'' (allowing_rules i)) (allowing_rules i) 0 g \<Longrightarrow>
           gw_self g = \<lparr>sf_protected = [], sf_kill_switch = False\<rparr> \<Longrightarrow> gw_vaults g = [] \<Longrightarrow> gw_protected g = [] \<Longrightarrow>
           \<not> gw_detector g \<Longrightarrow> t g"
  shows "gateway_with X (allowing_text i) t"
proof -
  obtain cp where "load (gl_policy X) (allowing_text i) = Inr cp"
    and "gateway_ready re X (policy_of ''t'' (allowing_rules i)) (allowing_rules i) 0 (test_gateway cp)"
    using gateway_policies_load(2) [OF assms(1,2)] by blast
  with assms(3) [of "test_gateway cp"] show ?thesis
    by (simp add: gateway_with_def with_policy_def test_gateway_def gateway_new_def)
qed

lemma data_ready:
  "gateway_ready re X p crs n (with_data_protection vs g) = gateway_ready re X p crs n g"
  "gateway_ready re X p crs n (with_pii_detector g) = gateway_ready re X p crs n g"
  "gateway_ready re X p crs n (add_protected x g) = gateway_ready re X p crs n g"
  by (simp_all add: gateway_ready_def with_data_protection_def with_pii_detector_def add_protected_def)

lemma masked_test_passes:
  assumes "reads_gateway_tests re X"
  shows "masked_list_hides_the_value_and_remove_last_works X"
  unfolding masked_list_hides_the_value_and_remove_last_works_def
proof (rule allowing_gateway [OF assms])
  fix g :: "('a, 'c) gateway"
  have m: "let masked = map mask [''Mario Rossi'', ''Giulia Bianchi'']
      in length masked = 2 \<and> list_all (\<lambda>m. CHR ''*'' \<in> set m) masked
        \<and> \<not> list_ex (\<lambda>m. contains_sub m ''Rossi'' \<or> contains_sub m ''Bianchi'') masked"
    by code_simp
  have "gw_protected (add_protected ''Giulia Bianchi'' (with_data_protection [''Mario Rossi''] g)) =
      [''Mario Rossi'', ''Giulia Bianchi'']"
    by (simp add: add_protected_def with_data_protection_def)
  with m show "let g = add_protected ''Giulia Bianchi'' (with_data_protection [''Mario Rossi''] g); masked = protected_masked g
     in length masked = 2 \<and> list_all (\<lambda>m. CHR ''*'' \<in> set m) masked
        \<and> \<not> list_ex (\<lambda>m. contains_sub m ''Rossi'' \<or> contains_sub m ''Bianchi'') masked
        \<and> (case remove_last_protected g of (removed, g') \<Rightarrow> removed \<and> fst (vault_stats g') = 1)"
    by (simp add: Let_def protected_masked_def remove_last_protected_def vault_stats_def)
qed simp

lemma session_call:
  assumes "reads_gateway_tests re X" and "gateway_ready re X (policy_of ''t'' (allowing_rules i)) (allowing_rules i) n g"
    and "n < audit_room" and "gw_self g = \<lparr>sf_protected = [], sf_kill_switch = False\<rparr>" and "tokenization_on g"
    and "\<forall>args. db_upstream ds (rd tool args s) = Inr x"
    and "v = (if gw_detector g then fold (\<lambda>y v. learn v y) (db_detector ds (gl_json_text X x)) else id)
           (session_vault (gl_rng X m) s g)"
  obtains evs g' where "handled X ds m (rd tool args s) g = (GO_Allowed (fst (tokenize_json v x)), evs, g')"
    and "gateway_ready re X (policy_of ''t'' (allowing_rules i)) (allowing_rules i) (Suc n) g'"
    and "gw_self g' = \<lparr>sf_protected = [], sf_kill_switch = False\<rparr>" and "tokenization_on g'"
    and "gw_protected g' = gw_protected g" and "gw_detector g' = gw_detector g"
    and "\<And>rng s'. session_vault rng s' g' = (if s' = s then snd (tokenize_json v x) else session_vault rng s' g)"
    and "last_args evs = Some (detokenize_json (session_vault (gl_rng X m) s g) args)"
proof -
  have ser: "\<forall>e. is_ok (gl_ser_entry X e)" using assms(1) by (simp add: reads_gateway_tests_def)
  let ?c = "rd tool args s" and ?io = "port_answers X ds m False" and ?D = "gateway_deps_of X"
  let ?r = "recorded_state ?D ?io ?c g"
  obtain e where h: "handled X ds m ?c g = (let (out, evs, g') = forward_call ?D ?io ?c ?r in (out, EV_Record e True # evs, g'))"
    using ready_allowed [OF assms(2) ser assms(3) allowing_kind assms(4)] by blast
  have on: "tokenization_on ?r" using assms(5) by simp
  have s: "session_of ?c = s" by (simp add: session_of_def rd_def)
  have "restored_call ?io ?c ?r = rd tool (tc_args (restored_call ?io ?c ?r)) s"
    by (simp add: restored_call_def rd_def)
  then have up: "io_forward ?io (restored_call ?io ?c ?r) = Inr x"
    using assms(6) by (metis port_answers_sel(4))
  have v: "v = (if gw_detector ?r then fold (\<lambda>y v. learn v y) (io_detect ?io (dp_json_text ?D x)) else id)
      (session_vault (io_rng ?io) (session_of ?c) ?r)"
    by (simp add: assms(7) s)
  note f = forward_tokenized [OF on up v]
  let ?g = "snd (snd (handled X ds m ?c g))"
  show thesis
  proof (rule that)
    show "handled X ds m ?c g = (GO_Allowed (fst (tokenize_json v x)), fst (snd (handled X ds m ?c g)), ?g)"
      using f(1) by (simp add: h split_beta)
    show "gateway_ready re X (policy_of ''t'' (allowing_rules i)) (allowing_rules i) (Suc n) ?g"
      using ready_appends(2) [OF assms(2) ser assms(3)] by (simp add: handled_def)
    show "gw_self ?g = \<lparr>sf_protected = [], sf_kill_switch = False\<rparr>" "tokenization_on ?g"
      using assms(4,5) by (simp_all add: handled_def handle_config handle_tokenization)
    show "gw_protected ?g = gw_protected g" "gw_detector ?g = gw_detector g"
      by (simp_all add: h split_beta)
    show "session_vault rng s' ?g = (if s' = s then snd (tokenize_json v x) else session_vault rng s' g)" for rng s'
      using f(2) [of rng s'] by (simp add: h split_beta s)
    show "last_args (fst (snd (handled X ds m ?c g))) = Some (detokenize_json (session_vault (gl_rng X m) s g) args)"
      using f(3) [of e True] by (simp add: h split_beta s) (simp add: rd_def)
  qed
qed

lemma tokenize_args1: "tokenize_json v (args1 k (JStr t)) = (args1 k (JStr (fst (tokenize v t))), snd (tokenize v t))"
  by (simp add: args1_def split_beta)

lemma field_of_args1:
  "jget_str k (args1 k (JStr t)) = Some t"
  "detokenize_json v (args1 k (JStr t)) = args1 k (JStr (detokenize v t))"
  by (simp_all add: args1_def jget_str_def)

lemma learned_iban: "learn (vault_new rng) IBAN = (vault_new rng)\<lparr>va_known := [IBAN]\<rparr>"
  by (simp add: learn_def vault_texts vault_new_def MIN_KNOWN_LEN_def) (simp add: IBAN_def)

lemma token_restored:
  assumes "CHR '']'' \<notin> set i"
  shows "detok m (token_text i) = (case map_of m i of Some x \<Rightarrow> x | None \<Rightarrow> token_text i)"
proof -
  have "\<not> contains_sub [] PREFIX" by code_simp
  from detok_token [OF this assms, of m "[]"] detok_plain [OF this] show ?thesis by simp
qed

lemma token_sent_back_eq:
  assumes "reads_gateway_tests re X"
    and "gateway_ready re X (policy_of ''t'' (allowing_rules i)) (allowing_rules i) 0 g"
    and "gw_self g = \<lparr>sf_protected = [], sf_kill_switch = False\<rparr>" and "gw_vaults g = []" and "\<not> gw_detector g"
  shows "\<exists>b. token_sent_back X first second (with_data_protection [IBAN] g) =
     (let tok = token_text (random_id (Inr b))
      in Some (args1 ''iban'' (JStr tok), tok, Some (if second = first then IBAN else tok)))"
proof -
  obtain b where b: "gl_rng X 0 0 = Inr b" using assms(1) unfolding reads_gateway_tests_def by blast
  let ?g = "with_data_protection [IBAN] g" and ?v = "learn (vault_new (gl_rng X 0)) IBAN"
  let ?tok = "token_text (random_id (Inr b))"
  have g: "gateway_ready re X (policy_of ''t'' (allowing_rules i)) (allowing_rules i) 0 ?g"
    "gw_self ?g = \<lparr>sf_protected = [], sf_kill_switch = False\<rparr>" "tokenization_on ?g" "\<not> gw_detector ?g"
    "\<And>rng s. session_vault rng s ?g = learn (vault_new rng) IBAN"
    using assms(2-5) by (simp_all add: data_ready)
      (simp_all add: with_data_protection_def tokenization_on_def session_vault_def)
  have span: "candidate_spans (va_known ?v) IBAN = [(0, 27)]" by (simp add: learned_iban iban_span)
  have tok: "fst (tokenize ?v IBAN) = ?tok" "va_by_id (snd (tokenize ?v IBAN)) = [(random_id (Inr b), IBAN)]"
    using one_span [OF span] by (simp_all add: learned(2-4) vault_new_sel vault_texts slice_empty b)
  have read: "\<forall>args. db_upstream pii_upstream (rd ''read'' args first) = Inr (args1 ''iban'' (JStr IBAN))"
    and send: "\<forall>args. db_upstream pii_upstream (rd ''send'' args second) = Inr (args1 ''ok'' (JBool True))"
    by (simp_all add: pii_upstream_def rd_def)
  obtain evs g1 where h1: "handled X pii_upstream 0 (rd ''read'' (JObj []) first) ?g = (GO_Allowed (args1 ''iban'' (JStr ?tok)), evs, g1)"
    and g1: "gateway_ready re X (policy_of ''t'' (allowing_rules i)) (allowing_rules i) (Suc 0) g1"
      "gw_self g1 = \<lparr>sf_protected = [], sf_kill_switch = False\<rparr>" "tokenization_on g1" "\<not> gw_detector g1"
    and s1: "\<And>rng s. session_vault rng s g1 = (if s = first then snd (tokenize ?v IBAN) else learn (vault_new rng) IBAN)"
    by (rule session_call [OF assms(1) g(1) test_room(1) g(2,3) read, of ?v 0 "JObj []"])
      (auto simp: g(4,5) tokenize_args1 tok)
  let ?w = "session_vault (gl_rng X 1) second g1"
  obtain evs2 g2 y where h2: "handled X pii_upstream 1 (rd ''send'' (args1 ''to'' (JStr ?tok)) second) g1 = (y, evs2, g2)"
    and l2: "last_args evs2 = Some (detokenize_json ?w (args1 ''to'' (JStr ?tok)))"
    by (rule session_call [OF assms(1) g1(1) test_room(2) g1(2,3) send, of ?w 1 "args1 ''to'' (JStr ?tok)"])
      (auto simp: g1(4))
  have "detokenize ?w ?tok = (if second = first then IBAN else ?tok)"
    using tok(2) by (simp add: detokenize_def s1 token_restored random_id_hex learned(2) vault_new_sel)
  then show ?thesis
    by (intro exI [of _ b])
      (simp add: token_sent_back_def h1 h2 [unfolded One_nat_def] l2 [unfolded One_nat_def] Let_def field_of_args1)
qed

lemma text_field_lacks:
  assumes "reads_gateway_tests re X" and "list_all escapeless (k @ s)" and "c \<notin> set (k @ s)"
    and "c \<notin> set (str_quoted [] @ ''{:}'')"
  shows "\<not> contains_sub (gl_json_text X (args1 k (JStr s))) (c # p)"
  using assms(1) plain_text_lacks [OF _ assms(2-4)] unfolding reads_gateway_tests_def by blast

lemma token_escapeless: "list_all escapeless (token_text (random_id (Inr b)))"
proof -
  have "list_all escapeless ''[GDN-]0123456789abcdef''" by code_simp
  then show ?thesis using token_chars by (auto simp: list_all_iff)
qed

lemma token_tests_pass:
  assumes "reads_gateway_tests re X"
  shows "result_is_tokenized_to_the_agent_and_detokenized_at_egress X"
    "a_token_does_not_resolve_in_another_session X"
proof -
  note sent = token_sent_back_eq [OF assms] and gs = allowing_gateway [OF assms, of "''all''"]
  show "result_is_tokenized_to_the_agent_and_detokenized_at_egress X"
    unfolding result_is_tokenized_to_the_agent_and_detokenized_at_egress_def protected_gateway_def
  proof (rule gs)
    fix g :: "('a, 'c) gateway"
    assume "gateway_ready re X (policy_of ''t'' (allowing_rules ''all'')) (allowing_rules ''all'') 0 g"
      "gw_self g = \<lparr>sf_protected = [], sf_kill_switch = False\<rparr>" "gw_vaults g = []" "\<not> gw_detector g"
    from sent [OF this, of "''s1''" "''s1''"] obtain b
      where t: "token_sent_back X ''s1'' ''s1'' (with_data_protection [IBAN] g) =
        Some (args1 ''iban'' (JStr (token_text (random_id (Inr b)))), token_text (random_id (Inr b)), Some IBAN)"
      by (auto simp: Let_def)
    have "list_all escapeless ''iban''" "CHR ''I'' \<notin> set ''iban''" "CHR ''I'' \<notin> set ''[GDN-]0123456789abcdef''"
      "CHR ''I'' \<notin> set (str_quoted [] @ ''{:}'')" by code_simp+
    then have "\<not> contains_sub (gl_json_text X (args1 ''iban'' (JStr (token_text (random_id (Inr b))))))
        (CHR ''I'' # tl IBAN)"
      using token_escapeless token_chars by (intro text_field_lacks [OF assms]) (auto simp: list_all_iff)
    moreover have "CHR ''I'' # tl IBAN = IBAN" by (simp add: IBAN_def)
    ultimately show "case token_sent_back X ''s1'' ''s1'' (with_data_protection [IBAN] g) of
       Some (v, tok, egress) \<Rightarrow>
         prefix ''[[GDN-'' tok \<and> \<not> contains_sub (gl_json_text X v) IBAN \<and> egress = Some IBAN
     | None \<Rightarrow> False"
      by (simp add: t) (simp add: token_text_def PREFIX_def)
  qed simp
  show "a_token_does_not_resolve_in_another_session X"
    unfolding a_token_does_not_resolve_in_another_session_def protected_gateway_def
  proof (rule gs)
    fix g :: "('a, 'c) gateway"
    assume "gateway_ready re X (policy_of ''t'' (allowing_rules ''all'')) (allowing_rules ''all'') 0 g"
      "gw_self g = \<lparr>sf_protected = [], sf_kill_switch = False\<rparr>" "gw_vaults g = []" "\<not> gw_detector g"
    from sent [OF this, of "''alice''" "''bob''"]
    show "case token_sent_back X ''alice'' ''bob'' (with_data_protection [IBAN] g) of
       Some (v, tok, egress) \<Rightarrow> egress = Some tok | None \<Rightarrow> False"
      by (auto simp: Let_def)
  qed simp
qed

lemma sidecar_test_passes:
  assumes "reads_gateway_tests re X"
  shows "sidecar_detected_value_is_tokenized_even_without_known_values X"
  unfolding sidecar_detected_value_is_tokenized_even_without_known_values_def
proof (rule allowing_gateway [OF assms])
  fix g :: "('a, 'c) gateway"
  let ?g = "with_pii_detector g" and ?v = "learn (vault_new (gl_rng X 0)) ''Top Secret''"
  let ?note = "''Top Secret stuff here''"
  assume g: "gateway_ready re X (policy_of ''t'' (allowing_rules ''all'')) (allowing_rules ''all'') 0 g"
    "gw_self g = \<lparr>sf_protected = [], sf_kill_switch = False\<rparr>" "gw_vaults g = []" "gw_protected g = []"
  have p: "gateway_ready re X (policy_of ''t'' (allowing_rules ''all'')) (allowing_rules ''all'') 0 ?g"
    "gw_self ?g = \<lparr>sf_protected = [], sf_kill_switch = False\<rparr>" "tokenization_on ?g"
    and v: "?v = (if gw_detector ?g then fold (\<lambda>y v. learn v y) (db_detector note_upstream (gl_json_text X (args1 ''note'' (JStr ?note)))) else id)
           (session_vault (gl_rng X 0) ''s1'' ?g)"
    using g by (simp_all add: data_ready) (simp_all add: with_pii_detector_def tokenization_on_def session_vault_def note_upstream_def)
  have up: "\<forall>args. db_upstream note_upstream (rd ''read'' args ''s1'') = Inr (args1 ''note'' (JStr ?note))"
    by (simp add: note_upstream_def)
  obtain b where b: "gl_rng X 0 0 = Inr b" using assms(1) unfolding reads_gateway_tests_def by blast
  let ?tok = "token_text (random_id (Inr b))"
  have known: "va_known ?v = [''Top Secret'']"
    by (simp add: learned(1) vault_texts MIN_KNOWN_LEN_def vault_new_sel)
  then have "fst (tokenize ?v ?note) = ?tok @ '' stuff here''"
    using one_span(1) [of ?v ?note 0 10] note_span by (simp add: learned(2-4) vault_new_sel b slice_empty)
  then obtain evs g' where h: "handled X note_upstream 0 (rd ''read'' (JObj []) ''s1'') ?g =
      (GO_Allowed (args1 ''note'' (JStr (?tok @ '' stuff here''))), evs, g')"
    using session_call [OF assms p(1) test_room(1) p(2,3) up v, of "JObj []" thesis] by (simp add: tokenize_args1)
  have "list_all escapeless ''note stuff here''" "CHR ''T'' \<notin> set ''note stuff here[GDN-]0123456789abcdef''"
    "CHR ''T'' \<notin> set (str_quoted [] @ ''{:}'')" by code_simp+
  then have "\<not> contains_sub (gl_json_text X (args1 ''note'' (JStr (?tok @ '' stuff here'')))) (CHR ''T'' # ''op Secret'')"
    using token_escapeless token_chars by (intro text_field_lacks [OF assms]) (auto simp: list_all_iff)
  moreover have "contains_sub (?tok @ '' stuff here'') ''[[GDN-''"
    by (auto simp: contains_sub_iff token_text_def PREFIX_def intro: exI [of _ "[]"])
  ultimately show "case handled X note_upstream 0 (rd ''read'' (JObj []) ''s1'') ?g of
       (GO_Allowed v, _, _) \<Rightarrow> \<not> contains_sub (gl_json_text X v) ''Top Secret''
          \<and> (case jget_str ''note'' v of Some note \<Rightarrow> contains_sub note ''[[GDN-'' | None \<Rightarrow> False)
     | _ \<Rightarrow> False"
    by (simp add: h field_of_args1)
qed simp

lemma session_vault_add:
  "x \<notin> set (gw_protected g) \<Longrightarrow> session_vault rng s (add_protected x g) = learn (session_vault rng s g) x"
  by (simp add: session_vault_def add_protected_def map_of_map split: option.split)

lemma runtime_test_passes:
  assumes "reads_gateway_tests re X"
  shows "runtime_add_protected_reaches_an_already_open_session X"
  unfolding runtime_add_protected_reaches_an_already_open_session_def
proof (rule allowing_gateway [OF assms])
  fix g :: "('a, 'c) gateway"
  let ?all = "policy_of ''t'' (allowing_rules ''all'')" and ?rs = "allowing_rules ''all''"
  let ?g = "with_data_protection [''seed-value''] g" and ?v = "learn (vault_new (gl_rng X 0)) ''seed-value''"
  let ?msg = "''wire from Acme Corp to you''" and ?c = "rd ''read'' (JObj []) ''s1''"
  assume g: "gateway_ready re X ?all ?rs 0 g" "gw_self g = \<lparr>sf_protected = [], sf_kill_switch = False\<rparr>"
    "gw_vaults g = []" "\<not> gw_detector g"
  have p: "gateway_ready re X ?all ?rs 0 ?g" "gw_self ?g = \<lparr>sf_protected = [], sf_kill_switch = False\<rparr>"
    "tokenization_on ?g" "gw_protected ?g = [''seed-value'']" "\<not> gw_detector ?g"
    "session_vault (gl_rng X 0) ''s1'' ?g = ?v"
    using g by (simp_all add: data_ready) (simp_all add: with_data_protection_def tokenization_on_def session_vault_def)
  have up: "\<forall>args. db_upstream acme_upstream (rd ''read'' args ''s1'') = Inr (args1 ''msg'' (JStr ?msg))"
    by (simp add: acme_upstream_def)
  have "va_known ?v = [''seed-value'']" by (simp add: learned(1) vault_texts MIN_KNOWN_LEN_def vault_new_sel)
  then have first: "tokenize ?v ?msg = (?msg, ?v)" and known: "va_known (learn ?v ''Acme Corp'') = [''seed-value'', ''Acme Corp'']"
    using seed_span by (simp_all add: tokenize_def learned(1) [of "''Acme Corp''"] vault_texts MIN_KNOWN_LEN_def)
  obtain evs g1 where h1: "handled X acme_upstream 0 ?c ?g = (GO_Allowed (args1 ''msg'' (JStr ?msg)), evs, g1)"
    and g1: "gateway_ready re X ?all ?rs (Suc 0) g1" "gw_self g1 = \<lparr>sf_protected = [], sf_kill_switch = False\<rparr>"
      "tokenization_on g1" "gw_protected g1 = [''seed-value'']" "\<not> gw_detector g1"
    and s1: "\<And>rng. session_vault rng ''s1'' g1 = ?v"
    by (rule session_call [OF assms p(1) test_room(1) p(2,3) up, of ?v 0 "JObj []"])
      (auto simp: p(4-6) tokenize_args1 first)
  let ?g1 = "add_protected ''Acme Corp'' g1" and ?w = "learn ?v ''Acme Corp''"
  have q: "gateway_ready re X ?all ?rs (Suc 0) ?g1" "gw_self ?g1 = \<lparr>sf_protected = [], sf_kill_switch = False\<rparr>"
    "tokenization_on ?g1" "gw_protected ?g1 = [''seed-value'', ''Acme Corp'']" "\<not> gw_detector ?g1"
    "session_vault (gl_rng X 1) ''s1'' ?g1 = ?w"
    using g1 by (simp_all add: data_ready session_vault_add s1) (simp_all add: add_protected_def tokenization_on_def)
  obtain b where b: "gl_rng X 0 0 = Inr b" using assms(1) unfolding reads_gateway_tests_def by blast
  let ?tok = "token_text (random_id (Inr b))"
  have second: "fst (tokenize ?w ?msg) = ''wire from '' @ ?tok @ '' to you''"
    using one_span(1) [of ?w ?msg 10 19] known acme_span by (simp add: learned(2-4) vault_new_sel b vault_texts)
  obtain evs2 g2 where h2: "handled X acme_upstream 1 ?c ?g1 =
      (GO_Allowed (args1 ''msg'' (JStr (''wire from '' @ ?tok @ '' to you''))), evs2, g2)"
    and g2: "gw_protected g2 = [''seed-value'', ''Acme Corp'']"
    by (rule session_call [OF assms q(1) test_room(2) q(2,3) up, of ?w 1 "JObj []"])
      (auto simp: q(4,5) q(6) [unfolded One_nat_def] tokenize_args1 second)
  have "list_all escapeless ''msgwire from  to you''" "CHR ''A'' \<notin> set ''msgwire from to you[GDN-]0123456789abcdef''"
    "CHR ''A'' \<notin> set (str_quoted [] @ ''{:}'')" by code_simp+
  then have "\<not> contains_sub (gl_json_text X (args1 ''msg'' (JStr (''wire from '' @ ?tok @ '' to you'')))) (CHR ''A'' # ''cme Corp'')"
    using token_escapeless token_chars by (intro text_field_lacks [OF assms]) (auto simp: list_all_iff)
  then show "let g1 = snd (snd (handled X acme_upstream 0 ?c ?g))
     in (case handled X acme_upstream 1 ?c (add_protected ''Acme Corp'' g1) of
           (GO_Allowed v, _, g2) \<Rightarrow> \<not> contains_sub (gl_json_text X v) ''Acme Corp'' \<and> fst (vault_stats g2) = 2
         | _ \<Rightarrow> False)"
    using h2 by (simp add: h1 Let_def vault_stats_def g2)
qed simp

subsection \<open>The suite\<close>

definition gateway_suite :: "('sk, 'vk, 'prog) gateway_libs \<Rightarrow> bool list" where
  "gateway_suite X =
     [parse_tools_reads_names_and_skips_malformed, namespacing_roundtrips, route_resolves_namespace_and_falls_back,
      allow_forwards_to_upstream X, result_is_tokenized_to_the_agent_and_detokenized_at_egress X,
      sidecar_detected_value_is_tokenized_even_without_known_values X,
      masked_list_hides_the_value_and_remove_last_works X,
      runtime_add_protected_reaches_an_already_open_session X, a_token_does_not_resolve_in_another_session X,
      deny_blocks_and_does_not_forward X, ask_then_approve_forwards X, ask_then_deny_blocks X,
      checker_is_not_called_on_the_fast_path X, decisions_are_recorded_and_log_verifies X,
      unknown_tool_infers_other, self_protection_blocks_writes_to_its_own_files X,
      kill_switch_denies_everything_then_releases X, self_protection_normalizes_paths_and_scopes_to_writes X]"

text \<open>
  the unit tests of the gateway. With libraries that do on the texts and values of the tests what
  is documented, every test of the gateway and of its upstream module passes on the model.
\<close>

theorem gateway_tests_pass:
  assumes "reads_gateway_tests re X"
  shows "list_all id (gateway_suite X)"
  using upstream_tests_pass decision_tests_pass [OF assms] override_tests_pass [OF assms] token_tests_pass [OF assms]
    sidecar_test_passes [OF assms] masked_test_passes [OF assms] runtime_test_passes [OF assms]
  by (simp add: gateway_suite_def)

definition ex_gateway_conds :: "cond list" where
  "ex_gateway_conds = C_Lit True # map (fst \<circ> fst) gateway_rules"

text \<open>A serializer that knows the objects with one text field.\<close>

definition ex_json_text :: "json \<Rightarrow> string" where
  "ex_json_text v = (case v of JObj [(k, JStr s)] \<Rightarrow> plain_field_text k s | _ \<Rightarrow> [])"

definition ex_gateway_libs :: "(bool, bool, string) gateway_libs" where
  "ex_gateway_libs =
     \<lparr>gl_policy =
        \<lparr>pl_toml = (\<lambda>s. if s = GATEWAY_POLICY then Inr gateway_policy
                        else if s = allowing_text ''a'' then Inr (policy_of ''t'' (allowing_rules ''a''))
                        else Inr (policy_of ''t'' (allowing_rules ''all''))),
         pl_cel = Inr, pl_exec = reading_exec (\<lambda>_ _. False) ex_gateway_conds\<rparr>,
      gl_crypto = ex_crypto, gl_ser_entry = ex_ser, gl_json_text = ex_json_text, gl_now_ms = 0, gl_cwd = ''/w'',
      gl_rng = (\<lambda>_. ex_rng)\<rparr>"

theorem gateway_tests_pass_witness: "list_all id (gateway_suite ex_gateway_libs)"
proof (rule gateway_tests_pass)
  have len: "length GATEWAY_POLICY \<noteq> length (allowing_text ''a'')" "length GATEWAY_POLICY \<noteq> length (allowing_text ''all'')"
    "length (allowing_text ''a'') \<noteq> length (allowing_text ''all'')"
    by code_simp+
  have "distinct (map cond_text ex_gateway_conds)" by code_simp
  from reading_exec_reads [OF this]
  have r: "cel_reads (\<lambda>_ _. False) Inr (reading_exec (\<lambda>_ _. False) ex_gateway_conds) ex_gateway_conds" .
  have "cel_reads (\<lambda>_ _. False) Inr (reading_exec (\<lambda>_ _. False) ex_gateway_conds) (map (fst \<circ> fst) gateway_rules)"
    "cel_reads (\<lambda>_ _. False) Inr (reading_exec (\<lambda>_ _. False) ex_gateway_conds) [C_Lit True]"
    by (rule cel_reads_mono [OF r], simp add: ex_gateway_conds_def subset_insertI)+
  moreover have "allowing_text ''a'' \<noteq> GATEWAY_POLICY" "allowing_text ''all'' \<noteq> GATEWAY_POLICY"
    "allowing_text ''all'' \<noteq> allowing_text ''a''"
    using len by (metis, metis, metis)
  ultimately show "reads_gateway_tests (\<lambda>_ _. False) ex_gateway_libs"
    by (simp add: reads_gateway_tests_def ex_gateway_libs_def Let_def ex_ser_def ex_json_text_def ex_rng_def)
qed

end
