(* ===== verification/Mcp_Tests.thy ===== *)
theory Mcp_Tests
  imports Gateway_Tests Mcp_Laws
begin

text \<open>
  The unit tests of the MCP server in \<open>guardian-mcp-gateway/src/lib.rs\<close>, as Booleans over the model.
  The tests look for texts in the line the server prints, so the hypothesis on the JSON printer says
  what it prints: the compact form, with the fields in the order of the object.
\<close>

subsection \<open>The compact form of a JSON value\<close>

definition json_quoted :: "string \<Rightarrow> string" where
  "json_quoted s = str_quoted (concat (map (\<lambda>c. if c = CHR 0x22 \<or> c = CHR 0x5C then [CHR 0x5C, c] else [c]) s))"

fun json_compact :: "json \<Rightarrow> string"
and json_compact_items :: "json list \<Rightarrow> string list"
and json_compact_fields :: "(string \<times> json) list \<Rightarrow> string list" where
  "json_compact JNull = ''null''"
| "json_compact (JBool b) = (if b then ''true'' else ''false'')"
| "json_compact (JInt i) = dec_int i"
| "json_compact (JFloat f) = []"
| "json_compact (JStr s) = json_quoted s"
| "json_compact (JArr xs) = ''['' @ join '','' (json_compact_items xs) @ '']''"
| "json_compact (JObj kvs) = ''{'' @ join '','' (json_compact_fields kvs) @ ''}''"
| "json_compact_items [] = []"
| "json_compact_items (x # xs) = json_compact x # json_compact_items xs"
| "json_compact_fields [] = []"
| "json_compact_fields ((k, x) # kvs) = (json_quoted k @ '':'' @ json_compact x) # json_compact_fields kvs"

text \<open>The values of which this is the whole truth: no number with a fraction, no control character.\<close>

fun printable :: "json \<Rightarrow> bool"
and printable_items :: "json list \<Rightarrow> bool"
and printable_fields :: "(string \<times> json) list \<Rightarrow> bool" where
  "printable JNull = True"
| "printable (JBool b) = True"
| "printable (JInt i) = True"
| "printable (JFloat f) = False"
| "printable (JStr s) = list_all (\<lambda>c. of_char c \<in> {32 .. (126 :: int)}) s"
| "printable (JArr xs) = printable_items xs"
| "printable (JObj kvs) = printable_fields kvs"
| "printable_items [] = True"
| "printable_items (x # xs) \<longleftrightarrow> printable x \<and> printable_items xs"
| "printable_fields [] = True"
| "printable_fields ((k, x) # kvs) \<longleftrightarrow>
     list_all (\<lambda>c. of_char c \<in> {32 .. (126 :: int)}) k \<and> printable x \<and> printable_fields kvs"

subsection \<open>The set-up\<close>

definition mcp_rules :: "(cond \<times> rule) list" where
  "mcp_rules = [on ''read'' (C_Is [''kind''] ''FileRead'') DK_Allow, on ''deny-exec'' (C_Is [''kind''] ''Exec'') DK_Deny]"

definition MCP_POLICY :: string where
  "MCP_POLICY = plain_text ''t'' mcp_rules"

definition mcp_policy :: policy where
  "mcp_policy = policy_of ''t'' mcp_rules"

definition echo :: doubles where
  "echo = \<lparr>db_human = Denied, db_upstream = (\<lambda>c. Inr (args1 ''ran'' (JStr (tc_tool c)))), db_detector = (\<lambda>_. [])\<rparr>"

definition test_server :: mcp_server where
  "test_server = with_classifier [(''read_file'', K_FileRead), (''run_shell'', K_Exec)]
     (mcp_new ''0.1.0''
        [\<lparr>ts_name = ''read_file'', ts_description = ''Read a file'', ts_input_schema = args1 ''type'' (JStr ''object'')\<rparr>])"

text \<open>A request as the tests write it, and as it is read.\<close>

definition rpc_fields :: "int option \<Rightarrow> string \<Rightarrow> json option \<Rightarrow> (string \<times> json) list" where
  "rpc_fields i meth params = [(''jsonrpc'', JStr ''2.0'')] @ (case i of Some n \<Rightarrow> [(''id'', JInt n)] | None \<Rightarrow> [])
     @ [(''method'', JStr meth)] @ (case params of Some p \<Rightarrow> [(''params'', p)] | None \<Rightarrow> [])"

definition rpc_line :: "int option \<Rightarrow> string \<Rightarrow> json option \<Rightarrow> string" where
  "rpc_line i meth params = json_compact (JObj (rpc_fields i meth params))"

definition call_params :: "string \<Rightarrow> (string \<times> json) list" where
  "call_params name = [(''name'', JStr name), (''arguments'', JObj [])]"

definition called :: "int \<Rightarrow> string \<Rightarrow> string" where
  "called i name = rpc_line (Some i) ''tools/call'' (Some (JObj (call_params name)))"

definition answer ::
    "(string \<Rightarrow> json option) \<Rightarrow> ('sk, 'vk, 'prog) gateway_libs \<Rightarrow> string \<Rightarrow> (string option \<Rightarrow> bool) \<Rightarrow> bool" where
  "answer parse X line t = gateway_with X MCP_POLICY (\<lambda>g.
     t (fst (handle_line parse (gl_json_text X) test_server
               (gateway_route (gateway_deps_of X) (\<lambda>n. port_answers X echo n False)) line ([], 0, g))))"

text \<open>\<open>unwrap\<close> the answer and look for texts in it.\<close>

definition contains_all :: "string list \<Rightarrow> string option \<Rightarrow> bool" where
  "contains_all ss resp = (case resp of Some r \<Rightarrow> list_all (contains_sub r) ss | None \<Rightarrow> False)"

subsection \<open>The tests\<close>

definition initialize_returns_server_info :: "(string \<Rightarrow> json option) \<Rightarrow> ('sk, 'vk, 'prog) gateway_libs \<Rightarrow> bool" where
  "initialize_returns_server_info parse X = answer parse X
     (rpc_line (Some 1) ''initialize'' (Some (args1 ''protocolVersion'' (JStr ''2024-11-05''))))
     (contains_all [''serverInfo'', ''guardian'', ''2024-11-05''])"

definition tools_list_includes_the_tool :: "(string \<Rightarrow> json option) \<Rightarrow> ('sk, 'vk, 'prog) gateway_libs \<Rightarrow> bool" where
  "tools_list_includes_the_tool parse X = answer parse X (rpc_line (Some 2) ''tools/list'' None)
     (contains_all [''read_file'', ''inputSchema''])"

definition allowed_call_returns_result :: "(string \<Rightarrow> json option) \<Rightarrow> ('sk, 'vk, 'prog) gateway_libs \<Rightarrow> bool" where
  "allowed_call_returns_result parse X = answer parse X (called 3 ''read_file'')
     (contains_all [str_quoted ''isError'' @ '':false'', ''ran''])"

definition denied_call_returns_jsonrpc_error :: "(string \<Rightarrow> json option) \<Rightarrow> ('sk, 'vk, 'prog) gateway_libs \<Rightarrow> bool" where
  "denied_call_returns_jsonrpc_error parse X = answer parse X (called 4 ''run_shell'')
     (contains_all [str_quoted ''error'', ''Blocked by Guardian''])"

definition unmapped_tool_is_not_auto_allowed :: "(string \<Rightarrow> json option) \<Rightarrow> ('sk, 'vk, 'prog) gateway_libs \<Rightarrow> bool" where
  "unmapped_tool_is_not_auto_allowed parse X = answer parse X (called 9 ''sneaky_read'')
     (contains_all [str_quoted ''error'', ''Blocked by Guardian''])"

definition notification_has_no_response :: "(string \<Rightarrow> json option) \<Rightarrow> ('sk, 'vk, 'prog) gateway_libs \<Rightarrow> bool" where
  "notification_has_no_response parse X = answer parse X (rpc_line None ''notifications/initialized'' None)
     (\<lambda>resp. resp = None)"

definition unknown_method_is_method_not_found :: "(string \<Rightarrow> json option) \<Rightarrow> ('sk, 'vk, 'prog) gateway_libs \<Rightarrow> bool" where
  "unknown_method_is_method_not_found parse X = answer parse X (rpc_line (Some 5) ''bogus'' None)
     (contains_all [''-32601''])"

subsection \<open>What the libraries do on the texts of the tests\<close>

definition test_requests :: "(string \<times> json) list" where
  "test_requests =
     map (\<lambda>(i, meth, params). (rpc_line i meth params, jobj (rpc_fields i meth params)))
       [(Some 1, ''initialize'', Some (args1 ''protocolVersion'' (JStr ''2024-11-05''))), (Some 2, ''tools/list'', None),
        (None, ''notifications/initialized'', None), (Some 5, ''bogus'', None)]
     @ map (\<lambda>(i, name). (called i name, jobj (rpc_fields (Some i) ''tools/call'' (Some (jobj (call_params name))))))
         [(3, ''read_file''), (4, ''run_shell''), (9, ''sneaky_read'')]"

definition reads_mcp_tests ::
    "(string \<Rightarrow> string \<Rightarrow> bool) \<Rightarrow> (string \<Rightarrow> json option) \<Rightarrow> ('sk, 'vk, 'prog) gateway_libs \<Rightarrow> bool" where
  "reads_mcp_tests re parse X \<longleftrightarrow>
     (let L = gl_policy X
      in pl_toml L MCP_POLICY = Inr mcp_policy \<and> cel_reads re (pl_cel L) (pl_exec L) (map fst mcp_rules))
     \<and> (\<forall>e. is_ok (gl_ser_entry X e)) \<and> (\<forall>v. printable v \<longrightarrow> gl_json_text X v = json_compact v)
     \<and> (\<forall>(l, v) \<in> set test_requests. parse l = Some v)"

subsection \<open>The tests pass\<close>

lemma test_server_kinds:
  "tc_kind (mcp_call test_server ''read_file'' params) = Some K_FileRead"
  "tc_kind (mcp_call test_server ''run_shell'' params) = Some K_Exec"
  "tc_kind (mcp_call test_server ''sneaky_read'' params) = Some K_Other"
  by (simp_all add: mcp_call_def test_server_def with_classifier_def mcp_new_def)

lemma mcp_met:
  assumes "act_kind a = k"
  shows "met_rules re mcp_rules (build_context a e) =
     (if k = K_FileRead then [rule_on ''read'' (C_Is [''kind''] ''FileRead'') DK_Allow]
      else if k = K_Exec then [rule_on ''deny-exec'' (C_Is [''kind''] ''Exec'') DK_Deny] else [])"
  by (simp only: met_rules_def mcp_rules_def on_def filter.simps prod.case cond_met_simps kind_texts assms)
    (simp del: cond_text.simps)

lemma mcp_verdict:
  assumes "act_kind a = k" and "\<not> action_is_critical a"
  shows "out_decision (meant_outcome re mcp_policy mcp_rules a e) =
       (if k = K_FileRead then Allow else if k = K_Exec then Deny ''This action is blocked by policy.''
        else Ask ''This action needs your review.'')"
  unfolding meant_outcome_def mcp_met [OF assms(1)]
  by (simp del: cond_text.simps add: critical_floor_noncritical [OF assms(2)] evaluate_spec_def
      initial_outcome_def rule_on_def rule_verdict_def apply_cap_def decision_from_kind_def mcp_policy_def policy_of_def)

lemma mcp_policy_loads:
  assumes "reads_mcp_tests re parse X"
  shows "\<exists>cp. load (gl_policy X) MCP_POLICY = Inr cp \<and> gateway_ready re X mcp_policy mcp_rules 0 (test_gateway cp)"
proof -
  have "policy_wf mcp_policy \<and> pol_rules mcp_policy = map snd mcp_rules \<and> texts_agree mcp_rules" by code_simp
  from documented_load [OF _ this, of "gl_policy X" MCP_POLICY re] obtain cp where "load (gl_policy X) MCP_POLICY = Inr cp"
    and "\<forall>a env. evaluate (pl_exec (gl_policy X)) cp a env = meant_outcome re mcp_policy mcp_rules a env"
    using assms unfolding reads_mcp_tests_def Let_def by blast
  then show ?thesis
    using from_conn_empty [of "gl_crypto X" None]
    by (auto simp: gateway_ready_def test_gateway_def gateway_new_def open_log_def from_conn_def)
qed

text \<open>A test passes if the answer is the one meant and has the texts the test looks for.\<close>

definition reply :: "int \<Rightarrow> rpc_result \<Rightarrow> json" where
  "reply i out = (case out of Inr r \<Rightarrow> success_msg (JInt i) r | Inl (code, t) \<Rightarrow> error_msg (JInt i) code t)"

abbreviation mcp_dispatched where
  "mcp_dispatched X meth params g \<equiv> fst (mcp_dispatch (gl_json_text X) test_server
     (gateway_route (gateway_deps_of X) (\<lambda>n. port_answers X echo n False)) meth params ([], 0, g))"

lemma answered:
  assumes "reads_mcp_tests re parse X" and "(l, v) \<in> set test_requests"
    and "jget ''id'' v = Some (JInt i) \<and> jget_str ''method'' v = Some meth
         \<and> (case jget ''params'' v of Some p \<Rightarrow> p | None \<Rightarrow> JNull) = params"
    and "\<And>g. gateway_ready re X mcp_policy mcp_rules 0 g \<Longrightarrow> \<not> tokenization_on g \<Longrightarrow>
           gw_self g = \<lparr>sf_protected = [], sf_kill_switch = False\<rparr> \<Longrightarrow> mcp_dispatched X meth params g = out"
    and "printable (reply i out) \<and> list_all (contains_sub (json_compact (reply i out))) ss"
  shows "answer parse X l (contains_all ss)"
proof -
  obtain cp where cp: "load (gl_policy X) MCP_POLICY = Inr cp"
    and g: "gateway_ready re X mcp_policy mcp_rules 0 (test_gateway cp)"
    using mcp_policy_loads [OF assms(1)] by blast
  have p: "parse l = Some v" and enc: "\<And>m. printable m \<Longrightarrow> gl_json_text X m = json_compact m"
    using assms(1,2) unfolding reads_mcp_tests_def by blast+
  have "\<not> tokenization_on (test_gateway cp)" "gw_self (test_gateway cp) = \<lparr>sf_protected = [], sf_kill_switch = False\<rparr>"
    by (simp_all add: test_gateway_def gateway_new_def tokenization_on_def)
  from assms(4) [OF g this] assms(3,5) enc show ?thesis
    by (auto simp: answer_def gateway_with_def with_policy_def cp handle_line_def p Let_def contains_all_def
        success_line_def error_line_def split_beta reply_def split: sum.splits)
qed

lemma mcp_called:
  assumes "reads_mcp_tests re parse X" and "gateway_ready re X mcp_policy mcp_rules 0 g" and "\<not> tokenization_on g"
    and "gw_self g = \<lparr>sf_protected = [], sf_kill_switch = False\<rparr>" and "tc_kind (mcp_call test_server name params) = Some k"
    and "k \<in> {K_FileRead, K_Exec, K_Other}" and "jget_str ''name'' params = Some name"
  shows "mcp_dispatched X ''tools/call'' params g =
     (if k = K_FileRead then Inr (text_content (gl_json_text X (args1 ''ran'' (JStr name))) False)
      else if k = K_Exec then Inl (-32000, ''Blocked by Guardian: This action is blocked by policy.'')
      else Inl (-32000, ''Blocked by Guardian: Denied by the user.''))"
proof -
  let ?c = "mcp_call test_server name params" and ?io = "port_answers X echo 0 False" and ?D = "gateway_deps_of X"
  have ser: "\<forall>e. is_ok (gl_ser_entry X e)" using assms(1) by (simp add: reads_mcp_tests_def)
  have o: "call_override ?io ?c g = None" using assms(4) by (rule ex_gateway_no_override)
  have c: "tc_capability ?c = None" "tc_tool ?c = name" by (simp_all add: mcp_call_def)
  have "\<not> action_is_critical (build_action ?c src i now)" "act_kind (build_action ?c src i now) = k" for src i now
    using assms(5,6) c(1) by (auto simp: action_is_critical_def build_action_def)
  then have v: "out_decision (call_verdict ?D ?io ?c g) =
      (if k = K_FileRead then Allow else if k = K_Exec then Deny ''This action is blocked by policy.''
        else Ask ''This action needs your review.'')"
    using assms(2) mcp_verdict by (simp add: gateway_ready_def normalize_call_def)
  have f: "fst (forward_call ?D ?io ?c (recorded_state ?D ?io ?c g)) = GO_Allowed (args1 ''ran'' (JStr name))"
    using assms(3) c(2) by (simp add: forward_call_def) (simp add: echo_def)
  have h: "db_human echo = Denied" by (simp add: echo_def)
  have "fst (handle ?D ?io ?c g) =
      (if k = K_FileRead then GO_Allowed (args1 ''ran'' (JStr name))
       else GO_Blocked (if k = K_Exec then ''This action is blocked by policy.'' else ''Denied by the user.''))"
    using o v f h ready_appends(1) [OF assms(2) ser test_room(1), of echo 0 False ?c]
    by (simp add: handle_eq Let_def call_cleared_def split_beta)
  then show ?thesis
    by (simp add: mcp_dispatch_def tools_call_def assms(7) gateway_route_def split_beta)
qed

text \<open>The text of an error, with the numbers left as texts.\<close>

definition error_text :: "string \<Rightarrow> string \<Rightarrow> string \<Rightarrow> string" where
  "error_text i code t =
     ''{'' @ str_quoted ''error'' @ '':{'' @ str_quoted ''code'' @ '':'' @ code @ '','' @ str_quoted ''message'' @ '':''
     @ json_quoted t @ ''},'' @ str_quoted ''id'' @ '':'' @ i @ '','' @ str_quoted ''jsonrpc'' @ '':'' @ str_quoted ''2.0'' @ ''}''"

lemma error_reply_text: "json_compact (reply i (Inl (code, t))) = error_text (dec_int i) (dec_int code) t"
  by (simp add: reply_def error_msg_def error_text_def jobj_def json_quoted_def str_quoted_def)

lemma code_texts:
  "dec_int (-32601) = ''-32601''" "dec_int (-32000) = ''-32000''" "dec_int 4 = ''4''" "dec_int 5 = ''5''" "dec_int 9 = ''9''"
  by (simp add: dec_int_def dec_nat.simps, code_simp)+

lemma error_answers:
  "list_all (contains_sub (error_text ''5'' ''-32601'' ''method not found: bogus'')) [''-32601'']"
  "list_all (contains_sub (error_text ''4'' ''-32000'' ''Blocked by Guardian: This action is blocked by policy.''))
     [str_quoted ''error'', ''Blocked by Guardian'']"
  "list_all (contains_sub (error_text ''9'' ''-32000'' ''Blocked by Guardian: Denied by the user.''))
     [str_quoted ''error'', ''Blocked by Guardian'']"
  by code_simp+

lemma mcp_tests_pass_plain:
  assumes "reads_mcp_tests re parse X"
  shows "initialize_returns_server_info parse X" "tools_list_includes_the_tool parse X"
    "unknown_method_is_method_not_found parse X" "notification_has_no_response parse X"
proof -
  note by_answer = answered [OF assms]
  show "initialize_returns_server_info parse X"
    unfolding initialize_returns_server_info_def
  proof (rule by_answer [where i = 1])
    let ?p = "args1 ''protocolVersion'' (JStr ''2024-11-05'')"
    show "(rpc_line (Some 1) ''initialize'' (Some ?p), jobj (rpc_fields (Some 1) ''initialize'' (Some ?p))) \<in> set test_requests"
      by (simp add: test_requests_def)
    show "mcp_dispatched X ''initialize'' ?p g = Inr (initialize_result test_server ?p)" for g :: "('a, 'c) gateway"
      by (simp add: mcp_dispatch_def)
  qed code_simp+
  show "tools_list_includes_the_tool parse X"
    unfolding tools_list_includes_the_tool_def
  proof (rule by_answer [where i = 2])
    show "(rpc_line (Some 2) ''tools/list'' None, jobj (rpc_fields (Some 2) ''tools/list'' None)) \<in> set test_requests"
      by (simp add: test_requests_def)
    show "mcp_dispatched X ''tools/list'' JNull g = Inr (jobj [(''tools'', JArr (map tool_spec_json (ms_tools test_server)))])"
      for g :: "('a, 'c) gateway"
      by (simp add: mcp_dispatch_def)
  qed code_simp+
  show "unknown_method_is_method_not_found parse X"
    unfolding unknown_method_is_method_not_found_def
  proof (rule by_answer [where i = 5])
    show "(rpc_line (Some 5) ''bogus'' None, jobj (rpc_fields (Some 5) ''bogus'' None)) \<in> set test_requests"
      by (simp add: test_requests_def)
    show "mcp_dispatched X ''bogus'' JNull g = Inl (-32601, ''method not found: bogus'')" for g :: "('a, 'c) gateway"
      by (simp add: mcp_dispatch_def)
    show "printable (reply 5 (Inl (-32601, ''method not found: bogus'')))
        \<and> list_all (contains_sub (json_compact (reply 5 (Inl (-32601, ''method not found: bogus''))))) [''-32601'']"
      unfolding error_reply_text code_texts by (intro conjI error_answers, code_simp)
  qed code_simp
  obtain cp where cp: "load (gl_policy X) MCP_POLICY = Inr cp" using mcp_policy_loads [OF assms] by blast
  have p: "parse (rpc_line None ''notifications/initialized'' None) = Some (jobj (rpc_fields None ''notifications/initialized'' None))"
    using assms by (auto simp: reads_mcp_tests_def test_requests_def)
  have "jget ''id'' (jobj (rpc_fields None ''notifications/initialized'' None)) = None" by code_simp
  then show "notification_has_no_response parse X"
    by (simp add: notification_has_no_response_def answer_def gateway_with_def with_policy_def cp handle_line_def p)
qed

lemma mcp_calls_pass:
  assumes "reads_mcp_tests re parse X"
  shows "allowed_call_returns_result parse X" "denied_call_returns_jsonrpc_error parse X"
    "unmapped_tool_is_not_auto_allowed parse X"
proof -
  note by_answer = answered [OF assms] and call = mcp_called [OF assms]
  have enc: "gl_json_text X m = json_compact m" if "printable m" for m
    using assms that by (simp add: reads_mcp_tests_def)
  have listed: "(called i name, jobj (rpc_fields (Some i) ''tools/call'' (Some (jobj (call_params name))))) \<in> set test_requests"
    if "(i, name) \<in> {(3, ''read_file''), (4, ''run_shell''), (9, ''sneaky_read'')}" for i name
    using that by (auto simp: test_requests_def)
  have named: "jget_str ''name'' (jobj (call_params name)) = Some name" for name
    by (simp add: jget_str_def jget_jobj call_params_def)
  show "allowed_call_returns_result parse X"
    unfolding allowed_call_returns_result_def
  proof (rule by_answer [OF listed, where i = 3])
    have "printable (args1 ''ran'' (JStr ''read_file''))" by code_simp
    from enc [OF this] show "mcp_dispatched X ''tools/call'' (jobj (call_params ''read_file'')) g =
        Inr (text_content (json_compact (args1 ''ran'' (JStr ''read_file''))) False)"
      if "gateway_ready re X mcp_policy mcp_rules 0 g" "\<not> tokenization_on g"
        "gw_self g = \<lparr>sf_protected = [], sf_kill_switch = False\<rparr>" for g
      using call [OF that test_server_kinds(1) _ named] by simp
  qed (simp, code_simp+)
  show "denied_call_returns_jsonrpc_error parse X"
    unfolding denied_call_returns_jsonrpc_error_def
  proof (rule by_answer [OF listed, where i = 4])
    show "mcp_dispatched X ''tools/call'' (jobj (call_params ''run_shell'')) g =
        Inl (-32000, ''Blocked by Guardian: This action is blocked by policy.'')"
      if "gateway_ready re X mcp_policy mcp_rules 0 g" "\<not> tokenization_on g"
        "gw_self g = \<lparr>sf_protected = [], sf_kill_switch = False\<rparr>" for g
      using call [OF that test_server_kinds(2) _ named] by simp
    show "printable (reply 4 (Inl (-32000, ''Blocked by Guardian: This action is blocked by policy.'')))
        \<and> list_all (contains_sub (json_compact (reply 4 (Inl (-32000, ''Blocked by Guardian: This action is blocked by policy.'')))))
            [str_quoted ''error'', ''Blocked by Guardian'']"
      unfolding error_reply_text code_texts by (intro conjI error_answers, code_simp)
  qed (simp, code_simp)
  show "unmapped_tool_is_not_auto_allowed parse X"
    unfolding unmapped_tool_is_not_auto_allowed_def
  proof (rule by_answer [OF listed, where i = 9])
    show "mcp_dispatched X ''tools/call'' (jobj (call_params ''sneaky_read'')) g =
        Inl (-32000, ''Blocked by Guardian: Denied by the user.'')"
      if "gateway_ready re X mcp_policy mcp_rules 0 g" "\<not> tokenization_on g"
        "gw_self g = \<lparr>sf_protected = [], sf_kill_switch = False\<rparr>" for g
      using call [OF that test_server_kinds(3) _ named] by simp
    show "printable (reply 9 (Inl (-32000, ''Blocked by Guardian: Denied by the user.'')))
        \<and> list_all (contains_sub (json_compact (reply 9 (Inl (-32000, ''Blocked by Guardian: Denied by the user.'')))))
            [str_quoted ''error'', ''Blocked by Guardian'']"
      unfolding error_reply_text code_texts by (intro conjI error_answers, code_simp)
  qed (simp, code_simp)
qed

subsection \<open>The suite\<close>

definition mcp_suite :: "(string \<Rightarrow> json option) \<Rightarrow> ('sk, 'vk, 'prog) gateway_libs \<Rightarrow> bool list" where
  "mcp_suite parse X =
     [initialize_returns_server_info parse X, tools_list_includes_the_tool parse X, allowed_call_returns_result parse X,
      denied_call_returns_jsonrpc_error parse X, unmapped_tool_is_not_auto_allowed parse X,
      notification_has_no_response parse X, unknown_method_is_method_not_found parse X]"

text \<open>
  the unit tests of the MCP server. With a parser that reads the requests of the tests and a
  printer of compact JSON, every test of the server passes on the model.
\<close>

theorem mcp_tests_pass:
  assumes "reads_mcp_tests re parse X"
  shows "list_all id (mcp_suite parse X)"
  using mcp_tests_pass_plain [OF assms] mcp_calls_pass [OF assms] by (simp add: mcp_suite_def)

definition ex_mcp_libs :: "(bool, bool, string) gateway_libs" where
  "ex_mcp_libs =
     \<lparr>gl_policy = \<lparr>pl_toml = (\<lambda>_. Inr mcp_policy), pl_cel = Inr, pl_exec = reading_exec (\<lambda>_ _. False) (map fst mcp_rules)\<rparr>,
      gl_crypto = ex_crypto, gl_ser_entry = ex_ser, gl_json_text = json_compact, gl_now_ms = 0, gl_cwd = ''/w'',
      gl_rng = (\<lambda>_. ex_rng)\<rparr>"

text \<open>No two of the requests have the same length and the same number.\<close>

lemma requests_differ: "distinct (map (\<lambda>(l, v). (length l, l ! 22)) test_requests)"
  by code_simp

theorem mcp_tests_pass_witness: "list_all id (mcp_suite (map_of test_requests) ex_mcp_libs)"
proof (rule mcp_tests_pass)
  have "map (\<lambda>(l, v). (length l, l ! 22)) test_requests = map ((\<lambda>l. (length l, l ! 22)) \<circ> fst) test_requests"
    by (intro map_cong) auto
  with requests_differ have "distinct (map fst test_requests)"
    by (simp only: map_map [symmetric]) (rule distinct_map [THEN iffD1, THEN conjunct1])
  then have "\<forall>(l, v) \<in> set test_requests. map_of test_requests l = Some v"
    by (auto intro: map_of_is_SomeI)
  moreover have "distinct (map cond_text (map fst mcp_rules))" by code_simp
  from reading_exec_reads [OF this]
  have "cel_reads (\<lambda>_ _. False) Inr (reading_exec (\<lambda>_ _. False) (map fst mcp_rules)) (map fst mcp_rules)" .
  ultimately show "reads_mcp_tests (\<lambda>_ _. False) (map_of test_requests) ex_mcp_libs"
    unfolding reads_mcp_tests_def by (simp add: ex_mcp_libs_def ex_ser_def Let_def del: set_map)
qed

end
