(* ===== verification/Spec2Isabelle.thy ===== *)
theory Spec2Isabelle
  imports Engine_Laws Audit_Laws Report Vault_Laws Broker Credential Pack Gateway_Laws
    Approval_Laws Proxy_Laws Mcp_Laws Sandbox Cli_Laws Daemon_Start Cockpit Eval_Laws
    Cli_Run_Laws Notify Desktop Default_Policies Proxy_Tests Mcp_Tests
begin

text \<open>
  A verification development of Project Guardian, a local firewall for AI agents. Whatever an agent
  is about to do (a tool call over MCP, an HTTP request, a shell command, a native tool of a
  harness) is normalized into an action, decided by a deterministic policy, put to a human where the
  policy asks, recorded in a hash-chained log, and only then carried out.

  \<^bold>\<open>How the parts interact.\<close> An adapter (\<open>Mcp\<close>, \<open>Proxy\<close>, \<open>Cli\<close>, the control socket of \<open>Daemon\<close>) builds
  a \<open>tool_call\<close> or a request; \<open>Gateway.handle\<close> or \<open>Proxy.handle_request\<close> makes the action of \<open>Core\<close>,
  evaluates it with \<open>Engine\<close>, asks the checker (\<open>Checker\<close>) and an approver (\<open>Approval_Queue\<close> in the
  daemon), appends to \<open>Audit_Log\<close> and forwards, with tokens restored by \<open>Vault\<close> and credentials
  attached by \<open>Broker\<close>. \<open>Tui\<close> and \<open>Desktop\<close> answer the queue through the client of \<open>Daemon\<close>;
  \<open>Cli_Run\<close> puts the servers together from files, keychain and environment.

  \<^bold>\<open>Common ground.\<close> \<open>Prelude\<close>: results (\<open>Inl\<close> an error), hash maps as association lists, runs of a
  step relation (\<open>runs\<close>) and the locale \<open>hist_system\<close> of an invariant over states and histories.
  \<open>Rust_Str\<close>, \<open>Float64\<close>, \<open>Json\<close>: strings as UTF-8 bytes, the comparisons of \<open>f64\<close>, \<open>serde_json::Value\<close>.
  \<open>Crypto\<close>: blake3, ed25519 and hex as one record parameter. \<open>Disk\<close>: files with permission bits under
  system calls that may fail, every state in between.

  \<^bold>\<open>Which theory models which code\<close> (paths under \<open>src/crates\<close>).
  \<^item> \<open>Core\<close>: \<open>guardian-core/src/lib.rs\<close>. Actions, decisions and their combination (locale
    \<open>strictest_wins\<close>, interpreted on the code's restrictiveness).
  \<^item> \<open>Schema\<close>, \<open>Policy_Toml\<close>, \<open>Engine\<close>, \<open>Engine_Laws\<close>: \<open>guardian-policy/src/schema.rs\<close>, \<open>engine.rs\<close>. The
    schema with its deserializer over TOML values, the validation and compilation of a policy;
    \<open>evaluate\<close> with caps and the critical floor. What a file says is what the policy is, and a key the
    schema does not know keeps it from loading; a critical category is never allowed silently; the
    loop is the first strictest match; when a policy loads.
  \<^item> \<open>Pack\<close>: \<open>guardian-policy/src/pack.rs\<close>. Signing, verifying, loading a pack, critical widening.
  \<^item> \<open>Audit_Log\<close>, \<open>Audit_Laws\<close>, \<open>Report\<close>: \<open>guardian-audit/src/lib.rs\<close>, \<open>report.rs\<close>. The chain in the
    database, appends, both verifications, the tail; what verification accepts, append-only (locales
    \<open>append_only\<close>, \<open>append_log\<close> and, for what both mediators promise of it, \<open>recording_mediator\<close>,
    interpreted on the gateway and on the proxy), tamper evidence up to a hash collision, the signed head.
  \<^item> \<open>Vault\<close>, \<open>Vault_Laws\<close>, \<open>Broker\<close>, \<open>Credential\<close>: \<open>guardian-broker/src\<close> (\<open>vault.rs\<close>, \<open>lib.rs\<close>,
    \<open>capability.rs\<close>, \<open>keychain.rs\<close>, \<open>credential.rs\<close>). Tokenization and its round trip, secrets, caveats,
    issuer-signed credentials.
  \<^item> \<open>Checker\<close>: \<open>guardian-checker/src/lib.rs\<close>. The offline heuristics and the fallback from the model.
  \<^item> \<open>Gateway\<close>, \<open>Gateway_Laws\<close>, \<open>Mcp\<close>, \<open>Upstream\<close>, \<open>Mcp_Laws\<close>: \<open>guardian-mcp-gateway/src/lib.rs\<close>,
    \<open>presidio.rs\<close>. Normalization, self-protection, \<open>handle\<close> with the vaults of the sessions; the
    JSON-RPC server and the client of upstream servers. Nothing reaches an upstream uncleared or
    unrecorded; a session of messages equals its calls in order.
  \<^item> \<open>Approval_Queue\<close>, \<open>Approval_Laws\<close>, \<open>Daemon\<close>, \<open>Daemon_Laws\<close>, \<open>Daemon_Config\<close>, \<open>Daemon_Start\<close>,
    \<open>Notify\<close>: \<open>guardian-daemon/src\<close>. The queue as a concurrent object (\<open>queue_step\<close>), the control
    socket's messages, the server as interleaved tasks (\<open>daemon_step\<close>), the client and the router,
    the configuration and the fail-closed start, the notifiers' commands. The daemon refines the
    queue; a response approves only the request it names; a request nobody answers is denied.
  \<^item> \<open>Proxy\<close>, \<open>Proxy_Laws\<close>, \<open>Local_Ca\<close>: \<open>guardian-proxy/src\<close> (\<open>lib.rs\<close>, \<open>server.rs\<close>, \<open>ca.rs\<close>). One
    request from inspection to answer; the files of the local authority and who can read its key.
  \<^item> \<open>Sandbox\<close>: \<open>guardian-sandbox/src/lib.rs\<close>. The argument vectors and the profile.
  \<^item> \<open>Cli\<close>, \<open>Cli_Laws\<close>, \<open>Cli_Run\<close>, \<open>Cli_Run_Laws\<close>, \<open>Tui\<close>, \<open>Tui_Laws\<close>, \<open>Cockpit\<close>, \<open>Eval\<close>, \<open>Eval_Laws\<close>:
    \<open>guardian-cli/src\<close> (\<open>main.rs\<close>, \<open>tui.rs\<close>, \<open>eval.rs\<close>). The commands, what they print and how they end;
    the terminal cockpit with what it draws and sends; the red-team suite with its policy. \<open>Cockpit\<close>
    composes the cockpit, the client and the daemon, \<open>Cli_Run_Laws\<close> the commands with the gateway and
    the proxy they start.
  \<^item> \<open>Desktop\<close>: \<open>ui/src-tauri/src/lib.rs\<close>. The two commands of the window.
  \<^item> \<open>Conditions\<close>, \<open>Default_Policies\<close>: \<open>policies/default\<close>. The conditions a policy file is written in,
    as a syntax with a text (\<open>cond_text\<close>) and a documented meaning (\<open>cond_value\<close>); the two packs the
    repository ships, what each decides for every action, and what follows for the hook, the gateway
    and the proxy that run under it.
  \<^item> \<open>Policy_Tests\<close>, \<open>Proxy_Tests\<close>, \<open>Gateway_Tests\<close>, \<open>Mcp_Tests\<close>: the unit tests of
    \<open>guardian-policy/src/lib.rs\<close>, \<open>guardian-proxy/src\<close> (\<open>lib.rs\<close>, \<open>server.rs\<close>) and
    \<open>guardian-mcp-gateway/src/lib.rs\<close> as Booleans over the model, with the texts they feed in byte for
    byte. The model passes each (\<open>policy_tests_pass\<close>, \<open>proxy_tests_pass\<close>, \<open>gateway_tests_pass\<close>,
    \<open>mcp_tests_pass\<close>) whatever the libraries are that read those texts as documented, which checks the
    definitions against what the authors expect of the code.

  \<^bold>\<open>State and steps.\<close> A struct is a record, an enum a datatype, an operation a function from the old
  state to its result and the new state. What others answer (clock, approver, upstream, detector,
  random draws, system calls) comes in as a record of answers (\<open>gw_io\<close>, \<open>proxy_io\<close>, \<open>fs_io\<close>, \<open>cockpit\<close>) and
  what is done to them comes out as a list of events in order. A call in the daemon is split at its
  wait for the human's answer, and the queue's polls, timeouts and responses interleave freely with
  it and with each other. What comes before that wait and what comes after it is one step each, which
  is coarser than the code: the checker's explanation and the upstream's reply are awaited too, and
  the vaults of the sessions, which the forwarding uses, are shared. In particular \<open>with_vault\<close> takes
  two locks one after the other, and \<open>protected_value_missed\<close> (\<open>Gateway_Laws\<close>) shows what a value
  added in between comes to.

  \<^bold>\<open>Widths and fuel.\<close> The counters of the gateway and the queue wrap at \<open>2 ^ 64\<close>, as the code's atomics
  do; sequence numbers and timestamps of the log are signed 64-bit where the database stores them.
  Recursions are structural or have a measure; a request of the queue needs at most three polls
  after its deadline to end (\<open>request_fails_closed\<close>), and no other fuel is used.

  \<^bold>\<open>Parameters.\<close> CEL (compiling and executing a condition), TOML from its text to a tree of values
  (\<open>Policy_Toml\<close> goes on from there for a policy), the JSON text form, what bubblewrap does, the
  cryptography, SQLite's answers, the keychain, the HTTP library's header rules, rcgen, and the
  operating system. Laws about them are hypotheses of the theorems that need them, and a witness shows
  each can hold.

  \<^bold>\<open>Not modelled.\<close> Terminating TLS and minting certificates (hudsucker and rcgen); binding sockets,
  their permissions and the accept loops (the runtime's); parsing the command line (clap); logging;
  colours and layout of widgets beyond what decides where a click lands (ratatui); the window
  (Tauri and a script); the Windows variants of the private write and of the named pipe; the test
  modules of the other crates, and two tests that state nothing of the model (random bytes through
  \<open>build_action\<close>, a total function here, and the \<open>Debug\<close> text of an outcome); the fuzz target, which
  calls only modelled functions, and the Python and TypeScript of the evaluations.

  \<^bold>\<open>What modelling showed.\<close> Lemmas that state a behaviour the code or its documents do not intend:
  \<open>nan_amount_passes_cap\<close> (\<open>Engine_Laws\<close>), \<open>fresh_signed_log_rejected\<close> (\<open>Audit_Laws\<close>),
  \<open>known_value_left_in_clear\<close> (\<open>Vault_Laws\<close>), \<open>protected_value_missed\<close> (\<open>Gateway_Laws\<close>),
  \<open>separator_in_label_misroutes\<close> (\<open>Mcp_Laws\<close>),
  \<open>backslash_path_opens_literal\<close> (\<open>Sandbox\<close>), \<open>unlabeled_server_gets_foreign_credential\<close>,
  \<open>host_after_later_separator\<close>, \<open>provenance_not_recorded\<close>, \<open>kill_switch_ignored\<close> (\<open>Cli_Laws\<close>),
  \<open>kill_switch_misses_waiting_call\<close> (\<open>Daemon_Laws\<close>), \<open>undrawn_selection_approved\<close>,
  \<open>archive_key_approves\<close>, \<open>panic_claims_denied\<close> (\<open>Tui_Laws\<close>), \<open>loose_key_file_exposed\<close> (\<open>Local_Ca\<close>),
  \<open>typographic_quote_runs\<close> (\<open>Notify\<close>) and \<open>home_prefix_escaped\<close> (\<open>Default_Policies\<close>).
\<close>

end
